(* ===== verification/Prelude.thy ===== *)
theory Prelude
  imports Complex_Main "HOL-Library.Char_ord" "HOL-Library.List_Lexorder"
    "HOL-Library.Product_Lexorder"
begin

text \<open>
  Shared vocabulary of the development: Python strings as \<^typ>\<open>string\<close> with the string
  methods the program calls, dictionaries as association lists that keep insertion
  order, exceptions as values of a sum type, the record selection that a sorted and
  limited query performs, and the lemma collections every component proof draws on.

  Strings are ASCII. On ASCII text Python's \<open>str.casefold\<close> and \<open>str.lower\<close> and SQLite's
  \<open>lower()\<close> are one and the same function, \<open>str_lower\<close> below.
\<close>

named_theorems pydict \<open>laws of insertion-ordered dictionaries\<close>
named_theorems pystr \<open>laws of the modelled string methods\<close>
named_theorems store_inv \<open>operations that keep a store's invariant\<close>
named_theorems store_frame \<open>what an operation leaves unchanged\<close>

section \<open>Exceptions as values\<close>

text \<open>
  The exceptions that cross component boundaries. \<open>MatrixRestError\<close> is the one the
  servlet wrappers turn into a response of its own; every other one is an internal
  server error unless the code catches it by its class.
\<close>

datatype exn =
    MatrixRestError (http_status: int) (err_code: string) (err_msg: string)
  | KeyError | IndexError | TypeError | ValueError | RuntimeError | AssertionError
  | AttributeError | IntegrityError
  | InvalidSessionIdException | IncorrectClientSecretException | SessionExpiredException
  | SessionNotValidatedException | IncorrectSessionTokenException
  | DestinationRejectedException
  | EmailAddressException | EmailSendException | CantSendEmailException
  | NoSignaturesException | NoMatchingSignatureException | SignatureVerifyException
  | NoAuthenticationError | InvalidServerName
  | DNSLookupError | ConnectError | ResponseFailed | JSONDecodeError | DomainError
  | BodyExceededMaxSize | GenericException

type_synonym 'a res = "exn + 'a"

abbreviation isr :: "'a res \<Rightarrow> bool" where
  "isr r \<equiv> \<not> isl r"

text \<open>
  A computation that reads and changes a state of type \<open>'s\<close> and may raise. The state
  reached at the point of the exception is kept: committed changes are not undone.
\<close>

type_synonym ('s, 'a) act = "'s \<Rightarrow> 'a res \<times> 's"

definition ret :: "'a \<Rightarrow> ('s, 'a) act" where
  "ret x s = (Inr x, s)"

definition raise :: "exn \<Rightarrow> ('s, 'a) act" where
  "raise e s = (Inl e, s)"

definition bindM :: "('s, 'a) act \<Rightarrow> ('a \<Rightarrow> ('s, 'b) act) \<Rightarrow> ('s, 'b) act" where
  "bindM m f s = (case m s of (Inl e, s') \<Rightarrow> (Inl e, s') | (Inr x, s') \<Rightarrow> f x s')"

definition liftR :: "'a res \<Rightarrow> ('s, 'a) act" where
  "liftR r s = (r, s)"

definition getsM :: "('s \<Rightarrow> 'a) \<Rightarrow> ('s, 'a) act" where
  "getsM f s = (Inr (f s), s)"

definition modifyM :: "('s \<Rightarrow> 's) \<Rightarrow> ('s, unit) act" where
  "modifyM f s = (Inr (), f s)"

definition bindR :: "'a res \<Rightarrow> ('a \<Rightarrow> 'b res) \<Rightarrow> 'b res" where
  "bindR r f = (case r of Inl e \<Rightarrow> Inl e | Inr x \<Rightarrow> f x)"

named_theorems act_simps \<open>unfolding of computations\<close>

lemmas [act_simps] = ret_def raise_def bindM_def liftR_def getsM_def modifyM_def bindR_def

lemma bindR_Inr [simp]: "bindR (Inr x) f = f x" and bindR_Inl [simp]: "bindR (Inl e) f = Inl e"
  by (simp_all add: bindR_def)

lemma bindR_eq_Inr: "bindR r f = Inr y \<longleftrightarrow> (\<exists>x. r = Inr x \<and> f x = Inr y)"
  by (cases r) auto

section \<open>Insertion-ordered dictionaries\<close>

type_synonym ('k, 'v) dict = "('k \<times> 'v) list"

abbreviation dict_get :: "('k, 'v) dict \<Rightarrow> 'k \<Rightarrow> 'v option" where
  "dict_get d \<equiv> map_of d"

fun dict_set :: "('k, 'v) dict \<Rightarrow> 'k \<Rightarrow> 'v \<Rightarrow> ('k, 'v) dict" where
  "dict_set [] k v = [(k, v)]"
| "dict_set ((a, b) # d) k v = (if a = k then (a, v) # d else (a, b) # dict_set d k v)"

definition dict_del :: "('k, 'v) dict \<Rightarrow> 'k \<Rightarrow> ('k, 'v) dict" where
  "dict_del d k = filter (\<lambda>p. fst p \<noteq> k) d"

definition dict_has :: "('k, 'v) dict \<Rightarrow> 'k \<Rightarrow> bool" where
  "dict_has d k = (k \<in> set (map fst d))"

fun dict_update :: "('k, 'v) dict \<Rightarrow> ('k, 'v) dict \<Rightarrow> ('k, 'v) dict" where
  "dict_update d [] = d"
| "dict_update d ((k, v) # e) = dict_update (dict_set d k v) e"

abbreviation dict_wf :: "('k, 'v) dict \<Rightarrow> bool" where
  "dict_wf d \<equiv> distinct (map fst d)"

lemma dict_get_set [simp, pydict]: "dict_get (dict_set d k v) = (dict_get d)(k \<mapsto> v)"
  by (induction d k v rule: dict_set.induct) (auto simp: fun_eq_iff)

lemma keys_dict_set [simp, pydict]: "fst ` set (dict_set d k v) = insert k (fst ` set d)"
  by (induction d k v rule: dict_set.induct) auto

lemma dict_wf_set [simp, intro, pydict]: "dict_wf d \<Longrightarrow> dict_wf (dict_set d k v)"
  by (induction d k v rule: dict_set.induct) auto

lemma dict_get_del [pydict]: "dict_get (dict_del d k) = (dict_get d)(k := None)"
  unfolding dict_del_def by (induction d) (auto simp: fun_eq_iff)

lemma dict_wf_del [intro, pydict]: "dict_wf d \<Longrightarrow> dict_wf (dict_del d k)"
  unfolding dict_del_def by (rule distinct_map_filter)

lemma dict_has_iff [pydict]: "dict_has d k \<longleftrightarrow> dict_get d k \<noteq> None"
  by (auto simp: dict_has_def map_of_eq_None_iff)

lemma dict_get_update_other [pydict]:
  "k \<notin> fst ` set e \<Longrightarrow> dict_get (dict_update d e) k = dict_get d k"
  by (induction d e rule: dict_update.induct) auto

lemma dict_wf_update [intro, pydict]: "dict_wf d \<Longrightarrow> dict_wf (dict_update d e)"
  by (induction d e rule: dict_update.induct) auto

lemma dict_get_update [pydict]:
  "dict_wf e \<Longrightarrow> dict_get (dict_update d e) = dict_get d ++ dict_get e"
proof (induction d e rule: dict_update.induct)
  case (1 d)
  then show ?case by simp
next
  case (2 d k v e)
  then have IH: "dict_get (dict_update (dict_set d k v) e) = dict_get (dict_set d k v) ++ dict_get e"
    and k: "dict_get e k = None"
    by (simp_all add: map_of_eq_None_iff del: dict_get_set)
  show ?case
  proof
    fix a
    show "dict_get (dict_update d ((k, v) # e)) a = (dict_get d ++ dict_get ((k, v) # e)) a"
      using IH k by (auto simp: map_add_def split: option.splits)
  qed
qed

lemma dict_set_fresh [pydict]: "k \<notin> fst ` set d \<Longrightarrow> dict_set d k v = d @ [(k, v)]"
  by (induction d k v rule: dict_set.induct) auto

lemma dict_set_mem: "p \<in> set (dict_set d k v) \<Longrightarrow> p = (k, v) \<or> p \<in> set d"
  by (induction d k v rule: dict_set.induct) (auto split: if_splits)

lemma dict_build_distinct [pydict]:
  assumes "distinct (map f xs)" and "fst ` set d \<inter> f ` set xs = {}"
  shows "fold (\<lambda>x d. dict_set d (f x) (g x)) xs d = d @ map (\<lambda>x. (f x, g x)) xs"
  using assms by (induction xs arbitrary: d) (auto simp: dict_set_fresh)

lemma dict_get_fold [pydict]:
  "dict_get (fold (\<lambda>x d. dict_set d (f x) (g x)) xs d) k =
     (if \<exists>x \<in> set xs. f x = k then Some (g (last (filter (\<lambda>x. f x = k) xs))) else dict_get d k)"
  by (induction xs arbitrary: d) (auto simp: filter_empty_conv)

section \<open>String methods\<close>

definition ascii_lower :: "char \<Rightarrow> char" where
  "ascii_lower c = (if 65 \<le> (of_char c :: nat) \<and> (of_char c :: nat) \<le> 90
     then char_of ((of_char c :: nat) + 32) else c)"

definition str_lower :: "string \<Rightarrow> string" where
  "str_lower s = map ascii_lower s"

lemma ascii_lower_idem [simp]: "ascii_lower (ascii_lower c) = ascii_lower c"
  by (auto simp: ascii_lower_def)

lemma str_lower_idem [simp, pystr]: "str_lower (str_lower s) = str_lower s"
  by (simp add: str_lower_def)

lemma length_str_lower [simp, pystr]: "length (str_lower s) = length s"
  by (simp add: str_lower_def)

definition startswith :: "string \<Rightarrow> string \<Rightarrow> bool" where
  "startswith s p = (take (length p) s = p)"

definition endswith :: "string \<Rightarrow> string \<Rightarrow> bool" where
  "endswith s p = (length p \<le> length s \<and> drop (length s - length p) s = p)"

lemma startswith_iff [pystr]: "startswith s p \<longleftrightarrow> (\<exists>t. s = p @ t)"
  unfolding startswith_def by (metis append_eq_conv_conj append_take_drop_id)

lemma endswith_iff [pystr]: "endswith s p \<longleftrightarrow> (\<exists>t. s = t @ p)"
  unfolding endswith_def by (auto, metis append_take_drop_id)

text \<open>\<open>s.split(c)\<close>, \<open>s.split(c, 1)\<close> and \<open>s.rsplit(c, 1)\<close> for a one-character separator.\<close>

fun split_on :: "char \<Rightarrow> string \<Rightarrow> string list" where
  "split_on c [] = [[]]"
| "split_on c (x # s) =
     (if x = c then [] # split_on c s
      else (case split_on c s of [] \<Rightarrow> [[x]] | w # ws \<Rightarrow> (x # w) # ws))"

fun split_once :: "char \<Rightarrow> string \<Rightarrow> string \<times> string option" where
  "split_once c [] = ([], None)"
| "split_once c (x # s) =
     (if x = c then ([], Some s) else (case split_once c s of (a, b) \<Rightarrow> (x # a, b)))"

definition rsplit_once :: "char \<Rightarrow> string \<Rightarrow> string \<times> string option" where
  "rsplit_once c s = (case split_once c (rev s) of
      (a, None) \<Rightarrow> (s, None)
    | (a, Some b) \<Rightarrow> (rev b, Some (rev a)))"

lemma split_once_eq:
  "split_once c s =
     (takeWhile (\<lambda>x. x \<noteq> c) s,
      case dropWhile (\<lambda>x. x \<noteq> c) s of [] \<Rightarrow> None | y # t \<Rightarrow> Some t)"
  by (induction s) auto

lemma split_once_SomeD:
  assumes "split_once c s = (a, Some b)"
  shows "c \<notin> set a" and "s = a @ c # b"
proof -
  from assms have a: "a = takeWhile (\<lambda>x. x \<noteq> c) s"
    and "\<exists>y. dropWhile (\<lambda>x. x \<noteq> c) s = y # b"
    by (auto simp: split_once_eq split: list.splits)
  then obtain y where y: "dropWhile (\<lambda>x. x \<noteq> c) s = y # b" by blast
  then have "y = c" using hd_dropWhile [of "\<lambda>x. x \<noteq> c" s] by simp
  with a y show "s = a @ c # b" by (metis takeWhile_dropWhile_id)
  from a show "c \<notin> set a" by (auto dest: set_takeWhileD)
qed

lemma split_once_append [simp, pystr]: "c \<notin> set a \<Longrightarrow> split_once c (a @ c # b) = (a, Some b)"
  by (induction a) auto

lemma split_once_Some [pystr]:
  "split_once c s = (a, Some b) \<longleftrightarrow> c \<notin> set a \<and> s = a @ c # b"
proof
  assume "split_once c s = (a, Some b)"
  from split_once_SomeD [OF this] show "c \<notin> set a \<and> s = a @ c # b" by (rule conjI)
next
  assume "c \<notin> set a \<and> s = a @ c # b"
  then show "split_once c s = (a, Some b)" by simp
qed

lemma split_once_absent [simp, pystr]: "c \<notin> set s \<Longrightarrow> split_once c s = (s, None)"
  by (induction s) auto

lemma split_once_None [pystr]:
  "split_once c s = (a, None) \<longleftrightarrow> c \<notin> set s \<and> a = s"
proof (cases "c \<in> set s")
  case True
  then obtain u w where "s = u @ c # w" and "c \<notin> set u" by (meson split_list_first)
  then show ?thesis by simp
next
  case False
  then show ?thesis by auto
qed

lemma rsplit_once_Some [pystr]:
  "rsplit_once c s = (a, Some b) \<longleftrightarrow> c \<notin> set b \<and> s = a @ c # b"
proof -
  have "rsplit_once c s = (a, Some b) \<longleftrightarrow> split_once c (rev s) = (rev b, Some (rev a))"
    by (cases "split_once c (rev s)"; cases "snd (split_once c (rev s))")
      (auto simp: rsplit_once_def rev_swap)
  also have "\<dots> \<longleftrightarrow> c \<notin> set b \<and> rev s = rev (a @ c # b)"
    by (simp add: split_once_Some)
  finally show ?thesis by (simp only: rev_is_rev_conv)
qed

lemma rsplit_once_None [pystr]: "c \<notin> set s \<Longrightarrow> rsplit_once c s = (s, None)"
  by (simp add: rsplit_once_def)

lemma split_on_nonempty [simp]: "split_on c s \<noteq> []"
  by (induction s) (auto split: list.splits)

fun str_join :: "string \<Rightarrow> string list \<Rightarrow> string" where
  "str_join sep [] = []"
| "str_join sep [w] = w"
| "str_join sep (w # ws) = w @ sep @ str_join sep ws"

lemma str_join_split_on [pystr]: "str_join [c] (split_on c s) = s"
proof (induction s)
  case Nil
  then show ?case by simp
next
  case (Cons x s)
  then show ?case
    by (cases "split_on c s" rule: list.exhaust; cases "tl (split_on c s)")
       (auto split: list.splits)
qed

definition is_space :: "char \<Rightarrow> bool" where
  "is_space c = (c \<in> set [CHR '' '', CHR 0x09, CHR 0x0A, CHR 0x0B, CHR 0x0C, CHR 0x0D,
     CHR 0x1C, CHR 0x1D, CHR 0x1E, CHR 0x1F])"

definition str_strip :: "string \<Rightarrow> string" where
  "str_strip s = rev (dropWhile is_space (rev (dropWhile is_space s)))"

text \<open>\<open>s.split()\<close>: the maximal runs of characters that are not white space.\<close>

function str_words :: "string \<Rightarrow> string list" where
  "str_words s = (let t = dropWhile is_space s in
     if t = [] then []
     else takeWhile (\<lambda>c. \<not> is_space c) t # str_words (dropWhile (\<lambda>c. \<not> is_space c) t))"
  by pat_completeness auto
termination
proof (relation "measure length", simp)
  fix s t :: string
  assume t: "t = dropWhile is_space s" and ne: "t \<noteq> []"
  from ne obtain x r where xr: "t = x # r" by (meson list.exhaust)
  then have "\<not> is_space x" using t by (metis hd_dropWhile list.distinct(1) list.sel(1))
  then have "length (dropWhile (\<lambda>c. \<not> is_space c) t) \<le> length r"
    using xr by (simp add: length_dropWhile_le)
  also have "length r < length t" using xr by simp
  also have "length t \<le> length s" using t by (simp add: length_dropWhile_le)
  finally show "(dropWhile (\<lambda>c. \<not> is_space c) t, s) \<in> measure length" by simp
qed

declare str_words.simps [simp del]

section \<open>Decimal numerals\<close>

definition is_digit :: "char \<Rightarrow> bool" where
  "is_digit c = (48 \<le> (of_char c :: nat) \<and> (of_char c :: nat) \<le> 57)"

definition digit_val :: "char \<Rightarrow> nat" where
  "digit_val c = of_char c - 48"

definition digit_char :: "nat \<Rightarrow> char" where
  "digit_char n = char_of (48 + n)"

fun show_nat :: "nat \<Rightarrow> string" where
  "show_nat n = (if n < 10 then [digit_char n] else show_nat (n div 10) @ [digit_char (n mod 10)])"

declare show_nat.simps [simp del]

definition show_int :: "int \<Rightarrow> string" where
  "show_int i = (if i < 0 then CHR ''-'' # show_nat (nat (- i)) else show_nat (nat i))"

text \<open>
  \<open>int(s)\<close> on a string: surrounding white space, an optional sign, then digits with
  single underscores between them; anything else is a \<open>ValueError\<close>, here \<^const>\<open>None\<close>.
\<close>

fun digits_val :: "nat \<Rightarrow> string \<Rightarrow> nat option" where
  "digits_val acc [] = None"
| "digits_val acc [c] = (if is_digit c then Some (10 * acc + digit_val c) else None)"
| "digits_val acc (c # d # s) =
     (if is_digit c
      then digits_val (10 * acc + digit_val c) (if d = CHR ''_'' then s else d # s)
      else None)"

definition py_int :: "string \<Rightarrow> int option" where
  "py_int s = (case str_strip s of
      [] \<Rightarrow> None
    | c # t \<Rightarrow>
        (if c = CHR ''-'' then map_option (\<lambda>n. - int n) (digits_val 0 t)
         else if c = CHR ''+'' then map_option int (digits_val 0 t)
         else map_option int (digits_val 0 (c # t))))"

lemma is_digit_digit_char [simp]: "n < 10 \<Longrightarrow> is_digit (digit_char n)"
  by (simp add: is_digit_def digit_char_def)

lemma digit_val_digit_char [simp]: "n < 10 \<Longrightarrow> digit_val (digit_char n) = n"
  by (simp add: digit_val_def digit_char_def)

lemma show_nat_nonempty [simp]: "show_nat n \<noteq> []"
  by (subst show_nat.simps) simp

lemma show_nat_digits: "c \<in> set (show_nat n) \<Longrightarrow> is_digit c"
proof (induction n rule: show_nat.induct)
  case (1 n)
  show ?case
  proof (cases "n < 10")
    case True
    with "1.prems" show ?thesis by (simp add: show_nat.simps [of n])
  next
    case False
    with "1.prems" have "c \<in> set (show_nat (n div 10)) \<or> c = digit_char (n mod 10)"
      by (auto simp: show_nat.simps [of n])
    with "1.IH" [OF False] show ?thesis by auto
  qed
qed

lemma not_digit_chars [simp]:
  "\<not> is_digit CHR ''-''" "\<not> is_digit CHR ''+''" "\<not> is_digit CHR '':''" "\<not> is_digit CHR '']''"
  "\<not> is_digit CHR ''_''"
  by (simp_all add: is_digit_def)

lemma digits_val_foldl:
  "s \<noteq> [] \<Longrightarrow> list_all is_digit s \<Longrightarrow>
   digits_val acc s = Some (foldl (\<lambda>a c. 10 * a + digit_val c) acc s)"
  by (induction acc s rule: digits_val.induct) auto

lemma foldl_show_nat: "foldl (\<lambda>a c. 10 * a + digit_val c) 0 (show_nat n) = n"
proof (induction n rule: show_nat.induct)
  case (1 n)
  show ?case
  proof (cases "n < 10")
    case True
    then show ?thesis by (simp add: show_nat.simps [of n])
  next
    case False
    with "1.IH" show ?thesis by (simp add: show_nat.simps [of n])
  qed
qed

lemma digits_val_show_nat [simp]: "digits_val 0 (show_nat n) = Some n"
  using digits_val_foldl [of "show_nat n" 0] show_nat_digits
  by (auto simp: foldl_show_nat list_all_iff)

lemma digit_not_space: "is_digit c \<Longrightarrow> \<not> is_space c"
  by (auto simp: is_digit_def is_space_def)

lemma str_strip_id:
  "s \<noteq> [] \<Longrightarrow> \<not> is_space (hd s) \<Longrightarrow> \<not> is_space (last s) \<Longrightarrow> str_strip s = s"
proof -
  assume ne: "s \<noteq> []" and h: "\<not> is_space (hd s)" and l: "\<not> is_space (last s)"
  from ne h have 1: "dropWhile is_space s = s" by (cases s) auto
  from ne l have 2: "dropWhile is_space (rev s) = rev s"
    by (cases s rule: rev_cases) auto
  from 1 2 show ?thesis by (simp add: str_strip_def)
qed

lemma show_nat_last_hd: "is_digit (hd (show_nat n))" "is_digit (last (show_nat n))"
  using show_nat_digits [of _ n] by (auto intro: show_nat_digits)

lemma str_strip_show_int: "str_strip (show_int i) = show_int i"
  by (rule str_strip_id)
     (simp_all add: show_int_def last_ConsR digit_not_space show_nat_last_hd,
      simp add: is_space_def)

lemma py_int_show_int [simp, pystr]: "py_int (show_int i) = Some i"
proof (cases "i < 0")
  case True
  then show ?thesis
    using str_strip_show_int [of i] by (simp add: py_int_def show_int_def)
next
  case False
  then obtain c t where ct: "show_int i = c # t" and d: "is_digit c"
    using show_nat_last_hd(1) [of "nat i"]
    by (cases "show_nat (nat i)") (auto simp: show_int_def)
  then have "c \<noteq> CHR ''-''" and "c \<noteq> CHR ''+''" by auto
  moreover have "digits_val 0 (c # t) = Some (nat i)"
    using False ct by (metis digits_val_show_nat show_int_def)
  ultimately show ?thesis
    using False ct str_strip_show_int [of i] by (simp add: py_int_def)
qed

section \<open>Random numbers\<close>

text \<open>\<open>random.randint(lo, hi)\<close>: the number is drawn from the interval by an arbitrary natural number, which the
  definitions take as an argument.\<close>

definition randint :: "int \<Rightarrow> int \<Rightarrow> nat \<Rightarrow> int" where
  "randint lo hi rnd = lo + int rnd mod (hi - lo + 1)"

lemma randint_range: "lo \<le> hi \<Longrightarrow> lo \<le> randint lo hi rnd \<and> randint lo hi rnd \<le> hi"
  using pos_mod_bound [of "hi - lo + 1" "int rnd"] by (simp add: randint_def)

section \<open>Rows of a query\<close>

lemma fold_max_Max: "fold max xs x = Max (insert x (set xs))" for x :: "'a::linorder"
  by (simp add: Max.set_eq_fold [symmetric])

text \<open>
  \<open>ORDER BY key LIMIT 1\<close>: the first row of a stable sort. Where several rows tie on the
  key, the one stored first is taken; the theorems about queries hold for the key of
  the selected row and do not depend on that choice.
\<close>

definition first_by :: "('a \<Rightarrow> 'b::linorder) \<Rightarrow> 'a list \<Rightarrow> 'a option" where
  "first_by key rows = (case sort_key key rows of [] \<Rightarrow> None | r # _ \<Rightarrow> Some r)"

lemma first_by_None [simp]: "first_by key rows = None \<longleftrightarrow> rows = []"
  unfolding first_by_def by (metis (no_types, lifting) list.case_eq_if list.size(3) length_0_conv length_sort option.distinct(1))

lemma first_by_SomeD:
  assumes "first_by key rows = Some r"
  shows "r \<in> set rows" and "\<And>q. q \<in> set rows \<Longrightarrow> key r \<le> key q"
proof -
  from assms obtain rs where s: "sort_key key rows = r # rs"
    by (auto simp: first_by_def split: list.splits)
  then show "r \<in> set rows" by (metis list.set_intros(1) set_sort)
  fix q
  assume "q \<in> set rows"
  then have "q \<in> set (r # rs)" using s by (metis set_sort)
  moreover have "sorted (map key (r # rs))" using s by (metis sorted_sort_key)
  ultimately show "key r \<le> key q" by auto
qed

lemma first_by_ex: "rows \<noteq> [] \<Longrightarrow> \<exists>r. first_by key rows = Some r"
  using first_by_None by (metis not_None_eq)

text \<open>When one row beats all others strictly the selection is determined.\<close>

lemma first_by_unique:
  assumes "r \<in> set rows" and "\<And>q. q \<in> set rows \<Longrightarrow> q \<noteq> r \<Longrightarrow> key r < key q"
  shows "first_by key rows = Some r"
proof -
  from assms(1) obtain r' where r': "first_by key rows = Some r'"
    using first_by_ex [of rows key] by fastforce
  have "r' = r"
  proof (rule ccontr)
    assume "r' \<noteq> r"
    with assms(2) first_by_SomeD(1) [OF r'] have "key r < key r'" by blast
    moreover have "key r' \<le> key r" using first_by_SomeD(2) [OF r' assms(1)] .
    ultimately show False by simp
  qed
  with r' show ?thesis by simp
qed

end
