(* ===== verification/StringUtils.thy ===== *)
theory StringUtils
  imports Prelude
begin

text \<open>
  \<open>sydent/util/stringutils.py\<close> and \<open>sydent/util/tokenutils.py\<close>: the validity checks on
  client secrets, host names and Matrix server names, the splitting of a server name
  into host and port, the normalisation of addresses, and token generation.

  The checks of IP literals, \<open>twisted.internet.abstract.isIPAddress\<close> and \<open>isIPv6Address\<close>,
  are arguments of the definitions that call them.
\<close>

section \<open>Regular expressions\<close>

text \<open>
  Both patterns of the module have the shape \<open>^...$\<close>. In Python \<open>$\<close> also matches just
  before a line feed that ends the subject, so \<open>p.match(s)\<close> accepts every string of the
  language and every such string followed by one line feed.
\<close>

definition re_anchored :: "(string \<Rightarrow> bool) \<Rightarrow> string \<Rightarrow> bool" where
  "re_anchored lang s =
     (lang s \<or> (s \<noteq> [] \<and> last s = CHR 0x0A \<and> lang (butlast s)))"

definition is_alnum :: "char \<Rightarrow> bool" where
  "is_alnum c = (let n = (of_char c :: nat) in
     (48 \<le> n \<and> n \<le> 57) \<or> (65 \<le> n \<and> n \<le> 90) \<or> (97 \<le> n \<and> n \<le> 122))"

definition client_secret_char :: "char \<Rightarrow> bool" where
  "client_secret_char c = (is_alnum c \<or> c \<in> set ''.=_-'')"

definition client_secret_lang :: "string \<Rightarrow> bool" where
  "client_secret_lang s = (s \<noteq> [] \<and> list_all client_secret_char s)"

definition is_valid_client_secret :: "string \<Rightarrow> bool" where
  "is_valid_client_secret client_secret =
     (0 < length client_secret \<and> length client_secret \<le> 255 \<and>
      re_anchored client_secret_lang client_secret)"

text \<open>
  A label of a host name: one letter or digit, or two of them around at most 61
  letters, digits and hyphens; a host name is a dot-separated list of labels.
\<close>

definition hostname_label :: "string \<Rightarrow> bool" where
  "hostname_label l =
     (l \<noteq> [] \<and> length l \<le> 63 \<and> is_alnum (hd l) \<and> is_alnum (last l) \<and>
      list_all (\<lambda>c. is_alnum c \<or> c = CHR ''-'') l)"

definition hostname_lang :: "string \<Rightarrow> bool" where
  "hostname_lang s = list_all hostname_label (split_on CHR ''.'' s)"

definition is_valid_hostname :: "string \<Rightarrow> bool" where
  "is_valid_hostname s = re_anchored hostname_lang s"

section \<open>Server names and addresses\<close>

definition parse_server_name :: "string \<Rightarrow> (string \<times> string option) res" where
  "parse_server_name server_name =
     (if server_name = [] then Inl ValueError
      else if last server_name = CHR '']'' then Inr (server_name, None)
      else case rsplit_once CHR '':'' server_name of
          (host, None) \<Rightarrow> Inr (host, None)
        | (host, Some port) \<Rightarrow>
            (if port = [] then Inr (host, Some port)
             else case py_int port of
                 None \<Rightarrow> Inl ValueError
               | Some port_num \<Rightarrow>
                   (if port \<noteq> show_int port_num \<or> \<not> (1 \<le> port_num \<and> port_num < 65536)
                    then Inl ValueError else Inr (host, Some port))))"

text \<open>
  \<open>host[0]\<close> is evaluated whatever the outcome of the IPv4 check, so an empty host part
  raises an \<open>IndexError\<close> that nothing in the function catches.
\<close>

definition is_valid_matrix_server_name ::
    "(string \<Rightarrow> bool) \<Rightarrow> (string \<Rightarrow> bool) \<Rightarrow> string \<Rightarrow> bool res" where
  "is_valid_matrix_server_name isIPAddress isIPv6Address s =
     (case parse_server_name s of
        Inl _ \<Rightarrow> Inr False
      | Inr (host, port) \<Rightarrow>
          (if host = [] then Inl IndexError
           else Inr (isIPAddress host
             \<or> (hd host = CHR ''['' \<and> last host = CHR '']'' \<and> isIPv6Address (butlast (tl host)))
             \<or> is_valid_hostname host)))"

definition MAX_EMAIL_ADDRESS_LENGTH :: nat where
  "MAX_EMAIL_ADDRESS_LENGTH = 500"

definition normalise_address :: "string \<Rightarrow> string \<Rightarrow> string" where
  "normalise_address address medium =
     (if medium = ''email'' then str_lower address else address)"

section \<open>Tokens\<close>

text \<open>
  The draws of \<open>random.SystemRandom\<close> are a stream \<open>r\<close> of natural numbers: \<open>choice(s)\<close> at the
  \<open>i\<close>-th draw takes the element of \<open>s\<close> at position \<open>r i\<close>, reduced to the length of \<open>s\<close>.
\<close>

definition choice :: "(nat \<Rightarrow> nat) \<Rightarrow> nat \<Rightarrow> string \<Rightarrow> char" where
  "choice r i s = s ! (r i mod length s)"

definition string_digits :: string where "string_digits = ''0123456789''"
definition ascii_lowercase :: string where "ascii_lowercase = ''abcdefghijklmnopqrstuvwxyz''"
definition ascii_uppercase :: string where "ascii_uppercase = ''ABCDEFGHIJKLMNOPQRSTUVWXYZ''"

definition generateNumericTokenOfLength :: "(nat \<Rightarrow> nat) \<Rightarrow> nat \<Rightarrow> string" where
  "generateNumericTokenOfLength r n = map (\<lambda>i. choice r i string_digits) [0..<n]"

definition generateAlphanumericTokenOfLength :: "(nat \<Rightarrow> nat) \<Rightarrow> nat \<Rightarrow> string" where
  "generateAlphanumericTokenOfLength r n =
     map (\<lambda>i. choice r i (string_digits @ ascii_lowercase @ ascii_uppercase)) [0..<n]"

definition generateTokenForMedium :: "(nat \<Rightarrow> nat) \<Rightarrow> string \<Rightarrow> string" where
  "generateTokenForMedium r medium =
     (if medium = ''email'' then generateAlphanumericTokenOfLength r 32
      else generateNumericTokenOfLength r 6)"

section \<open>Lemmas\<close>

lemma re_anchored_iff:
  "re_anchored lang s \<longleftrightarrow> lang s \<or> (\<exists>t. s = t @ [CHR 0x0A] \<and> lang t)"
  unfolding re_anchored_def
  by (metis append_butlast_last_id butlast_snoc last_snoc snoc_eq_iff_butlast)

lemma normalise_address_idem [simp]:
  "normalise_address (normalise_address a m) m = normalise_address a m"
  by (simp add: normalise_address_def)

lemma str_lower_normalise [simp]: "str_lower (normalise_address a m) = str_lower a"
  by (simp add: normalise_address_def)

lemma split_on_no_sep: "c \<notin> set s \<Longrightarrow> split_on c s = [s]"
  by (induction s) auto

lemma split_on_append: "c \<notin> set a \<Longrightarrow> split_on c (a @ c # b) = a # split_on c b"
  by (induction a) auto

lemma split_on_first:
  assumes "split_on c s = w # v # vs"
  shows "c \<notin> set w \<and> (\<exists>b. s = w @ c # b \<and> split_on c b = v # vs)"
proof (cases "c \<in> set s")
  case True
  then obtain u b where s: "s = u @ c # b" and u: "c \<notin> set u" by (meson split_list_first)
  with assms show ?thesis by (simp add: split_on_append)
next
  case False
  with assms show ?thesis by (simp add: split_on_no_sep)
qed

lemma split_on_single:
  assumes "split_on c s = [w]"
  shows "c \<notin> set w \<and> s = w"
proof (cases "c \<in> set s")
  case True
  then obtain u b where "s = u @ c # b" and "c \<notin> set u" by (meson split_list_first)
  with assms show ?thesis by (simp add: split_on_append)
next
  case False
  with assms show ?thesis by (simp add: split_on_no_sep)
qed

text \<open>The language of the pattern, as the pattern spells it.\<close>

inductive label_re :: "string \<Rightarrow> bool" where
  one: "is_alnum c \<Longrightarrow> label_re [c]"
| more: "is_alnum c \<Longrightarrow> is_alnum d \<Longrightarrow> length m \<le> 61 \<Longrightarrow>
    list_all (\<lambda>x. is_alnum x \<or> x = CHR ''-'') m \<Longrightarrow> label_re (c # m @ [d])"

inductive hostname_re :: "string \<Rightarrow> bool" where
  single: "label_re l \<Longrightarrow> hostname_re l"
| dotted: "label_re l \<Longrightarrow> hostname_re h \<Longrightarrow> hostname_re (l @ CHR ''.'' # h)"

inductive_cases label_reE [elim]: "label_re l"

lemma label_re_iff: "label_re l \<longleftrightarrow> hostname_label l"
proof
  assume "label_re l"
  then show "hostname_label l" by (auto simp: hostname_label_def)
next
  assume h: "hostname_label l"
  then obtain c t where l: "l = c # t" by (cases l) (auto simp: hostname_label_def)
  show "label_re l"
  proof (cases t rule: rev_cases)
    case Nil
    with h l show ?thesis by (auto simp: hostname_label_def intro: label_re.one)
  next
    case (snoc m d)
    with h l show ?thesis by (auto simp: hostname_label_def intro: label_re.more)
  qed
qed

lemma label_no_dot: "hostname_label l \<Longrightarrow> CHR ''.'' \<notin> set l"
  by (auto simp: hostname_label_def list_all_iff is_alnum_def)

lemma hostname_re_lang: "hostname_re s \<Longrightarrow> hostname_lang s"
proof (induction rule: hostname_re.induct)
  case (single l)
  then show ?case
    by (simp add: hostname_lang_def label_re_iff split_on_no_sep label_no_dot)
next
  case (dotted l h)
  then show ?case
    by (simp add: hostname_lang_def label_re_iff split_on_append label_no_dot)
qed

lemma hostname_lang_re: "hostname_lang s \<Longrightarrow> hostname_re s"
proof (induction "split_on CHR ''.'' s" arbitrary: s)
  case Nil
  then show ?case by (metis split_on_nonempty)
next
  case (Cons w ws)
  then have w: "label_re w" by (simp add: hostname_lang_def label_re_iff flip: Cons.hyps(2))
  show ?case
  proof (cases ws)
    case Nil
    with Cons.hyps(2) w show ?thesis by (metis split_on_single hostname_re.single)
  next
    case ws: (Cons v vs)
    with Cons.hyps(2) obtain b where b: "s = w @ CHR ''.'' # b" "split_on CHR ''.'' b = v # vs"
      by (metis split_on_first)
    have "list_all hostname_label (w # ws)"
      using Cons.prems Cons.hyps(2) by (simp add: hostname_lang_def)
    with ws b have "hostname_lang b" by (simp add: hostname_lang_def)
    with ws b Cons.hyps(1) [of b] w show ?thesis by (auto intro: hostname_re.dotted)
  qed
qed

lemma choice_mem: "s \<noteq> [] \<Longrightarrow> choice r i s \<in> set s"
  by (simp add: choice_def)

lemma choice_covers:
  "\<exists>r. \<forall>i < length t. set t \<subseteq> set s \<longrightarrow> choice r i s = t ! i"
proof -
  have "\<forall>i. \<exists>k. i < length t \<and> set t \<subseteq> set s \<longrightarrow> k < length s \<and> s ! k = t ! i"
    by (metis in_set_conv_nth nth_mem subsetD)
  then obtain r where "\<forall>i. i < length t \<and> set t \<subseteq> set s \<longrightarrow> r i < length s \<and> s ! r i = t ! i"
    by metis
  then show ?thesis by (intro exI [of _ r]) (auto simp: choice_def)
qed

section \<open>Properties\<close>

text \<open>the host-name check accepts exactly the language of the regular expression it is
  written as (labels of one to 63 letters, digits and inner hyphens joined by dots), and,
  because \<open>$\<close> matches before a final line feed, the same names followed by one line feed.\<close>

theorem is_valid_hostname_regex:
  "is_valid_hostname s \<longleftrightarrow> hostname_re s \<or> (\<exists>t. s = t @ [CHR 0x0A] \<and> hostname_re t)"
  unfolding is_valid_hostname_def re_anchored_iff
  using hostname_lang_re hostname_re_lang by metis

text \<open>a client secret is accepted exactly when it has between 1 and 255 characters and
  consists of letters, digits, dots, equals signs, underscores and hyphens, at least one
  of them, with at most one line feed after them.\<close>

theorem is_valid_client_secret_iff:
  "is_valid_client_secret s \<longleftrightarrow>
     length s \<le> 255 \<and>
     (\<exists>t. t \<noteq> [] \<and> (\<forall>i < length t. client_secret_char (t ! i)) \<and> (s = t \<or> s = t @ [CHR 0x0A]))"
  by (auto simp: is_valid_client_secret_def re_anchored_iff client_secret_lang_def
      list_all_length)

text \<open>what \<open>parse_server_name\<close> accepts with a port is the host, a colon and the canonical
  decimal numeral of a port between 1 and 65535, and nothing else.\<close>

theorem parse_server_name_port_sound:
  assumes "parse_server_name s = Inr (host, Some port)" and "port \<noteq> []"
  shows "s = host @ CHR '':'' # port \<and>
    (\<exists>n. port = show_int n \<and> 1 \<le> n \<and> n < 65536)"
  using assms
  by (auto simp: parse_server_name_def rsplit_once_Some split: if_splits prod.splits
      option.splits)

text \<open>Printing a host and a port and parsing the result gives both back.\<close>

lemma show_int_no_colon:
  assumes "0 \<le> n"
  shows "CHR '':'' \<notin> set (show_int n)" and "last (show_int n) \<noteq> CHR '']''"
  using assms show_nat_digits [of "CHR '':''" "nat n"] show_nat_last_hd(2) [of "nat n"]
  by (auto simp: show_int_def)

theorem parse_server_name_roundtrip:
  assumes "1 \<le> n" and "n < 65536"
  shows "parse_server_name (host @ CHR '':'' # show_int n) = Inr (host, Some (show_int n))"
proof -
  from assms have n: "0 \<le> n" by simp
  note c = show_int_no_colon [OF n]
  have ne: "show_int n \<noteq> []" using n by (simp add: show_int_def)
  have "rsplit_once CHR '':'' (host @ CHR '':'' # show_int n) = (host, Some (show_int n))"
    using c by (simp add: rsplit_once_Some)
  with assms ne c show ?thesis by (simp add: parse_server_name_def last_append last_ConsR)
qed

end
