(* ===== verification/Json.thy ===== *)
theory Json
  imports StringUtils
begin

text \<open>
  JSON values, the associations that travel as JSON (\<open>sydent/threepid/__init__.py\<close>) and
  their signing (\<open>sydent/threepid/signer.py\<close>).

  Signing is \<open>signedjson.sign.sign_json\<close>, which the repository only calls: it is an
  argument \<open>sign\<close> of the definitions (the function already applied to the server's name
  and key). What the code relies on, that signing changes no member but
  \<open>signatures\<close>, is the predicate \<open>sign_keeps\<close>.
\<close>

datatype json =
    JNull
  | JBool bool
  | JInt int
  | JFloat string
  | JStr string
  | JArr "json list"
  | JObj "(string \<times> json) list"

type_synonym jdict = "(string, json) dict"

text \<open>The text column \<open>sgAssoc\<close> holds \<open>json.dumps\<close> of an object; it is represented by that object.\<close>

definition sign_keeps :: "(jdict \<Rightarrow> jdict) \<Rightarrow> bool" where
  "sign_keeps sign = (\<forall>d k. k \<noteq> ''signatures'' \<longrightarrow> dict_get (sign d) k = dict_get d k)"

record threepid_association =
  ta_medium :: string
  ta_address :: string
  ta_lookup_hash :: "string option"
  ta_mxid :: "string option"
  ta_ts :: "int option"
  ta_not_before :: "int option"
  ta_not_after :: "int option"

text \<open>
  The field \<open>extra_fields: Dict[str, Any] = {}\<close> of the class has a mutable default that all
  instances share: \<open>attr.s\<close> passes the one dictionary of the class body to every instance
  that is created without its own. No caller passes one, so the field is a single cell
  of the process, \<open>shared_extra\<close> in the state of the server, and not part of the record.
\<close>

definition jopt_str :: "string option \<Rightarrow> json" where
  "jopt_str v = (case v of None \<Rightarrow> JNull | Some s \<Rightarrow> JStr s)"

definition jopt_int :: "int option \<Rightarrow> json" where
  "jopt_int v = (case v of None \<Rightarrow> JNull | Some i \<Rightarrow> JInt i)"

definition assoc_dict :: "threepid_association \<Rightarrow> jdict" where
  "assoc_dict a =
     [(''medium'', JStr (ta_medium a)), (''address'', JStr (ta_address a)),
      (''mxid'', jopt_str (ta_mxid a)), (''ts'', jopt_int (ta_ts a)),
      (''not_before'', jopt_int (ta_not_before a)), (''not_after'', jopt_int (ta_not_after a))]"

definition signedThreePidAssociation ::
    "(jdict \<Rightarrow> jdict) \<Rightarrow> jdict \<Rightarrow> threepid_association \<Rightarrow> jdict" where
  "signedThreePidAssociation sign shared_extra assoc =
     sign (dict_update (assoc_dict assoc) shared_extra)"

text \<open>
  Reading an association back. A missing member is a \<open>KeyError\<close>. The members are used as
  text and integers afterwards; a value of another JSON type is a \<open>TypeError\<close>.
\<close>

definition jstr_field :: "jdict \<Rightarrow> string \<Rightarrow> string res" where
  "jstr_field d k = (case dict_get d k of
     None \<Rightarrow> Inl KeyError | Some (JStr s) \<Rightarrow> Inr s | Some _ \<Rightarrow> Inl TypeError)"

definition jostr_field :: "jdict \<Rightarrow> string \<Rightarrow> string option res" where
  "jostr_field d k = (case dict_get d k of
     None \<Rightarrow> Inl KeyError | Some JNull \<Rightarrow> Inr None | Some (JStr s) \<Rightarrow> Inr (Some s)
   | Some _ \<Rightarrow> Inl TypeError)"

definition joint_field :: "jdict \<Rightarrow> string \<Rightarrow> int option res" where
  "joint_field d k = (case dict_get d k of
     None \<Rightarrow> Inl KeyError | Some JNull \<Rightarrow> Inr None | Some (JInt i) \<Rightarrow> Inr (Some i)
   | Some _ \<Rightarrow> Inl TypeError)"

definition threePidAssocFromDict :: "jdict \<Rightarrow> threepid_association res" where
  "threePidAssocFromDict d =
     (case jstr_field d ''medium'' of Inl e \<Rightarrow> Inl e | Inr m \<Rightarrow>
      case jstr_field d ''address'' of Inl e \<Rightarrow> Inl e | Inr a \<Rightarrow>
      case jostr_field d ''mxid'' of Inl e \<Rightarrow> Inl e | Inr x \<Rightarrow>
      case joint_field d ''ts'' of Inl e \<Rightarrow> Inl e | Inr t \<Rightarrow>
      case joint_field d ''not_before'' of Inl e \<Rightarrow> Inl e | Inr nb \<Rightarrow>
      case joint_field d ''not_after'' of Inl e \<Rightarrow> Inl e | Inr na \<Rightarrow>
      Inr \<lparr>ta_medium = m, ta_address = a, ta_lookup_hash = None, ta_mxid = x, ta_ts = t,
           ta_not_before = nb, ta_not_after = na\<rparr>)"

definition core_keys :: "string list" where
  "core_keys = [''medium'', ''address'', ''mxid'', ''ts'', ''not_before'', ''not_after'']"

lemma sign_keepsD:
  "sign_keeps sign \<Longrightarrow> k \<noteq> ''signatures'' \<Longrightarrow> dict_get (sign d) k = dict_get d k"
  by (simp add: sign_keeps_def)

lemma signed_field:
  assumes "sign_keeps sign" and "set core_keys \<inter> fst ` set ex = {}" and "k \<in> set core_keys"
  shows "dict_get (signedThreePidAssociation sign ex a) k = dict_get (assoc_dict a) k"
proof -
  from assms(3) have "k \<noteq> ''signatures''" by (auto simp: core_keys_def)
  moreover from assms(2,3) have "k \<notin> fst ` set ex" by blast
  ultimately show ?thesis
    using assms(1) by (simp add: signedThreePidAssociation_def sign_keepsD dict_get_update_other)
qed

text \<open>
  Signing an association and reading it back gives the association without its lookup
  hash, whatever else the shared dictionary adds.
\<close>

lemma assoc_roundtrip:
  assumes "sign_keeps sign" and "set core_keys \<inter> fst ` set ex = {}"
  shows "threePidAssocFromDict (signedThreePidAssociation sign ex a) =
    Inr (a\<lparr>ta_lookup_hash := None\<rparr>)"
proof -
  let ?d = "signedThreePidAssociation sign ex a"
  have f: "dict_get ?d k = dict_get (assoc_dict a) k" if "k \<in> set core_keys" for k
    using signed_field [OF assms that] .
  have "dict_get ?d ''medium'' = Some (JStr (ta_medium a))"
    and "dict_get ?d ''address'' = Some (JStr (ta_address a))"
    and "dict_get ?d ''mxid'' = Some (jopt_str (ta_mxid a))"
    and "dict_get ?d ''ts'' = Some (jopt_int (ta_ts a))"
    and "dict_get ?d ''not_before'' = Some (jopt_int (ta_not_before a))"
    and "dict_get ?d ''not_after'' = Some (jopt_int (ta_not_after a))"
    by (simp_all add: f core_keys_def assoc_dict_def)
  then show ?thesis
    by (auto simp: threePidAssocFromDict_def jstr_field_def jostr_field_def joint_field_def
        jopt_str_def jopt_int_def split: option.splits)
qed

end
