(* ===== verification/Assoc_Store.thy ===== *)
theory Assoc_Store
  imports Json
begin

text \<open>
  \<open>sydent/db/threepid_associations.py\<close>: the table of associations this server created
  (\<open>LocalAssociationStore\<close>) and the table of all associations it knows
  (\<open>GlobalAssociationStore\<close>). A table is the list of its rows in the order of insertion
  together with the counter of its \<open>AUTOINCREMENT\<close> key.
\<close>

section \<open>The local table\<close>

record local_row =
  l_id :: int
  l_assoc :: threepid_association

record local_table =
  l_rows :: "local_row list"
  l_seq :: int

definition empty_local :: local_table where
  "empty_local = \<lparr>l_rows = [], l_seq = 0\<rparr>"

definition row_3pid :: "local_row \<Rightarrow> string \<times> string" where
  "row_3pid r = (ta_medium (l_assoc r), ta_address (l_assoc r))"

text \<open>
  \<open>INSERT OR REPLACE\<close> under the unique index on medium and address: the row of the same
  third-party identifier is deleted and the new one gets an identifier never used before.
\<close>

definition addOrUpdateAssociation ::
    "threepid_association \<Rightarrow> local_table \<Rightarrow> local_table" where
  "addOrUpdateAssociation assoc t =
     t\<lparr>l_rows := filter (\<lambda>r. row_3pid r \<noteq> (ta_medium assoc, ta_address assoc)) (l_rows t)
          @ [\<lparr>l_id = l_seq t + 1, l_assoc = assoc\<rparr>],
       l_seq := l_seq t + 1\<rparr>"

definition getAssociationsAfterId ::
    "int option \<Rightarrow> nat option \<Rightarrow> local_table \<Rightarrow> (int, threepid_association) dict \<times> int option"
  where
  "getAssociationsAfterId afterId limit t =
     (let after = (case afterId of None \<Rightarrow> -1 | Some i \<Rightarrow> i);
          ordered = sort_key l_id (filter (\<lambda>r. after < l_id r) (l_rows t));
          res = (case limit of None \<Rightarrow> ordered | Some n \<Rightarrow> take n ordered)
      in fold (\<lambda>row (assocs, maxId). (dict_set assocs (l_id row) (l_assoc row), Some (l_id row)))
           res ([], None))"

definition getSignedAssociationsAfterId ::
    "(jdict \<Rightarrow> jdict) \<Rightarrow> jdict \<Rightarrow> int option \<Rightarrow> nat option \<Rightarrow> local_table \<Rightarrow>
     (int, jdict) dict \<times> int option" where
  "getSignedAssociationsAfterId sign shared_extra afterId limit t =
     (case getAssociationsAfterId afterId limit t of
        (localAssocs, maxId) \<Rightarrow>
          (fold (\<lambda>(localId, a) assocs.
               dict_set assocs localId (signedThreePidAssociation sign shared_extra a))
             localAssocs [], maxId))"

definition tombstone :: "string \<Rightarrow> string \<Rightarrow> int \<Rightarrow> threepid_association" where
  "tombstone medium address ts =
     \<lparr>ta_medium = medium, ta_address = address, ta_lookup_hash = None, ta_mxid = None,
      ta_ts = Some ts, ta_not_before = None, ta_not_after = None\<rparr>"

definition removeAssociation_local ::
    "string \<Rightarrow> string \<Rightarrow> string \<Rightarrow> int \<Rightarrow> local_table \<Rightarrow> local_table" where
  "removeAssociation_local medium address mxid now t =
     (let n = length (filter (\<lambda>r. row_3pid r = (medium, address) \<and> ta_mxid (l_assoc r) = Some mxid)
                (l_rows t))
      in if n > 0 then addOrUpdateAssociation (tombstone medium address now) t else t)"

section \<open>The global table\<close>

record global_row =
  g_id :: int
  g_medium :: string
  g_address :: string
  g_lookup_hash :: "string option"
  g_mxid :: string
  g_ts :: int
  g_notBefore :: int
  g_notAfter :: int
  g_originServer :: string
  g_originId :: int
  g_sgAssoc :: jdict

record global_table =
  g_rows :: "global_row list"
  g_seq :: int

definition empty_global :: global_table where
  "empty_global = \<lparr>g_rows = [], g_seq = 0\<rparr>"

text \<open>
  Two of the operations take part in a transaction that may be rolled back, so they act
  on a connection: the contents the connection sees and the contents on disk.
\<close>

record global_conn =
  gc_work :: global_table
  gc_disk :: global_table

definition db_commit :: "global_conn \<Rightarrow> global_conn" where
  "db_commit c = c\<lparr>gc_disk := gc_work c\<rparr>"

definition db_rollback :: "global_conn \<Rightarrow> global_conn" where
  "db_rollback c = c\<lparr>gc_work := gc_disk c\<rparr>"

text \<open>
  \<open>INSERT OR IGNORE\<close>: nothing happens if a column declared \<open>NOT NULL\<close> would be null or the
  unique index on origin server and origin identifier would be violated.
\<close>

definition insert_or_ignore ::
    "threepid_association \<Rightarrow> jdict \<Rightarrow> string \<Rightarrow> int \<Rightarrow> global_table \<Rightarrow> global_table" where
  "insert_or_ignore assoc raw originServer originId t =
     (case (ta_mxid assoc, ta_ts assoc, ta_not_before assoc, ta_not_after assoc) of
        (Some mxid, Some ts, Some nb, Some na) \<Rightarrow>
          (if \<exists>r \<in> set (g_rows t). g_originServer r = originServer \<and> g_originId r = originId
           then t
           else t\<lparr>g_rows := g_rows t @
                    [\<lparr>g_id = g_seq t + 1, g_medium = ta_medium assoc, g_address = ta_address assoc,
                      g_lookup_hash = ta_lookup_hash assoc, g_mxid = mxid, g_ts = ts,
                      g_notBefore = nb, g_notAfter = na, g_originServer = originServer,
                      g_originId = originId, g_sgAssoc = raw\<rparr>],
                  g_seq := g_seq t + 1\<rparr>)
      | _ \<Rightarrow> t)"

definition addAssociation ::
    "threepid_association \<Rightarrow> jdict \<Rightarrow> string \<Rightarrow> int \<Rightarrow> bool \<Rightarrow> global_conn \<Rightarrow> global_conn" where
  "addAssociation assoc rawSgAssoc originServer originId commit c =
     (let c' = c\<lparr>gc_work := insert_or_ignore assoc rawSgAssoc originServer originId (gc_work c)\<rparr>
      in if commit then db_commit c' else c')"

definition delete_3pid :: "string \<Rightarrow> string \<Rightarrow> global_table \<Rightarrow> global_table" where
  "delete_3pid medium address t =
     t\<lparr>g_rows := filter (\<lambda>r. \<not> (g_medium r = medium \<and> g_address r = address)) (g_rows t)\<rparr>"

definition removeAssociation :: "string \<Rightarrow> string \<Rightarrow> global_conn \<Rightarrow> global_conn" where
  "removeAssociation medium normalised_address c =
     db_commit (c\<lparr>gc_work := delete_3pid medium normalised_address (gc_work c)\<rparr>)"

definition lastIdFromServer :: "string \<Rightarrow> global_table \<Rightarrow> int option" where
  "lastIdFromServer server t =
     (case map g_originId (filter (\<lambda>r. g_originServer r = server) (g_rows t)) of
        [] \<Rightarrow> None
      | i # is \<Rightarrow> Some (fold max is i))"

section \<open>Queries on the global table\<close>

definition valid_at :: "int \<Rightarrow> global_row \<Rightarrow> bool" where
  "valid_at now r = (g_notBefore r < now \<and> now < g_notAfter r)"

definition rows_for :: "string \<Rightarrow> string \<Rightarrow> int \<Rightarrow> global_table \<Rightarrow> global_row list" where
  "rows_for medium address now t =
     filter (\<lambda>r. g_medium r = medium \<and> str_lower (g_address r) = str_lower address \<and> valid_at now r)
       (g_rows t)"

definition signedAssociationStringForThreepid ::
    "string \<Rightarrow> string \<Rightarrow> int \<Rightarrow> global_table \<Rightarrow> jdict option" where
  "signedAssociationStringForThreepid medium address now t =
     map_option g_sgAssoc (first_by (\<lambda>r. - g_ts r) (rows_for medium address now t))"

definition getMxid :: "string \<Rightarrow> string \<Rightarrow> int \<Rightarrow> global_table \<Rightarrow> string option" where
  "getMxid medium normalised_address now t =
     map_option g_mxid (first_by (\<lambda>r. - g_ts r) (rows_for medium normalised_address now t))"

text \<open>The loop that fills a temporary table, 500 rows per statement.\<close>

function insert_batches :: "nat \<Rightarrow> 'a list \<Rightarrow> 'a list \<Rightarrow> 'a list" where
  "insert_batches inserted_cap xs tmp =
     (if inserted_cap < length xs
      then insert_batches (inserted_cap + 500) xs (tmp @ take 500 (drop inserted_cap xs))
      else tmp)"
  by pat_completeness auto
termination
  by (relation "measure (\<lambda>(cap, xs, tmp). length xs - cap)") auto

declare insert_batches.simps [simp del]

definition g_3pid :: "global_row \<Rightarrow> string \<times> string" where
  "g_3pid row = (g_medium row, g_address row)"

fun newest_loop ::
    "(string \<times> string) option \<Rightarrow> global_row list \<Rightarrow> (string \<times> string \<times> string) list" where
  "newest_loop current [] = []"
| "newest_loop current (row # rows) =
     (if Some (g_3pid row) = current then newest_loop current rows
      else (g_medium row, g_address row, g_mxid row) # newest_loop (Some (g_3pid row)) rows)"

definition getMxids ::
    "(string \<times> string) list \<Rightarrow> int \<Rightarrow> global_table \<Rightarrow> (string \<times> string \<times> string) list" where
  "getMxids threepid_tuples now t =
     (let tmp = insert_batches 0 threepid_tuples [];
          joined = concat (map (\<lambda>r. map (\<lambda>_. r)
             (filter (\<lambda>(m, a). g_medium r = m \<and> str_lower (g_address r) = str_lower a) tmp))
             (g_rows t));
          res = sort_key (\<lambda>r. (g_medium r, g_address r, - g_ts r)) (filter (valid_at now) joined)
      in newest_loop None res)"

definition retrieveMxidsForHashes ::
    "string list \<Rightarrow> int \<Rightarrow> global_table \<Rightarrow> (string, string) dict" where
  "retrieveMxidsForHashes addresses now t =
     (let tmp = insert_batches 0 addresses [];
          joined = concat (map (\<lambda>r. map (\<lambda>h. (h, r))
             (filter (\<lambda>h. g_lookup_hash r = Some h) tmp)) (filter (valid_at now) (g_rows t)));
          res = sort_key (\<lambda>(h, r). (h, g_mxid r, g_ts r)) joined
      in fold (\<lambda>(h, r) results. dict_set results h (g_mxid r)) res [])"

section \<open>Invariants\<close>

definition local_inv :: "local_table \<Rightarrow> bool" where
  "local_inv t = (sorted_wrt (<) (map l_id (l_rows t)) \<and>
     (\<forall>r \<in> set (l_rows t). 0 < l_id r \<and> l_id r \<le> l_seq t) \<and>
     0 \<le> l_seq t \<and> distinct (map row_3pid (l_rows t)))"

definition global_inv :: "global_table \<Rightarrow> bool" where
  "global_inv t = (sorted_wrt (<) (map g_id (g_rows t)) \<and>
     (\<forall>r \<in> set (g_rows t). g_id r \<le> g_seq t) \<and>
     distinct (map (\<lambda>r. (g_originServer r, g_originId r)) (g_rows t)))"

text \<open>Every stored address is in normal form: what the two insertion paths guarantee.\<close>

definition global_normal :: "global_table \<Rightarrow> bool" where
  "global_normal t =
     (\<forall>r \<in> set (g_rows t). normalise_address (g_address r) (g_medium r) = g_address r)"

lemma local_inv_empty [store_inv]: "local_inv empty_local"
  by (simp add: local_inv_def empty_local_def)

lemma local_inv_addOrUpdate [store_inv]:
  assumes "local_inv t"
  shows "local_inv (addOrUpdateAssociation a t)"
proof -
  let ?P = "\<lambda>r. row_3pid r \<noteq> (ta_medium a, ta_address a)"
  from assms have "sorted_wrt (<) (map l_id (filter ?P (l_rows t)))"
    by (simp add: local_inv_def sorted_wrt_map sorted_wrt_filter)
  moreover from assms have "distinct (map row_3pid (filter ?P (l_rows t)))"
    by (simp add: local_inv_def distinct_map_filter)
  ultimately show ?thesis
    using assms unfolding local_inv_def addOrUpdateAssociation_def
    by (force simp: sorted_wrt_append row_3pid_def)
qed

lemma local_inv_remove [store_inv]:
  "local_inv t \<Longrightarrow> local_inv (removeAssociation_local m a x now t)"
  by (simp add: removeAssociation_local_def local_inv_addOrUpdate)

lemma global_inv_empty [store_inv]: "global_inv empty_global"
  by (simp add: global_inv_def empty_global_def)

lemma global_inv_insert [store_inv]:
  "global_inv t \<Longrightarrow> global_inv (insert_or_ignore a raw s i t)"
  by (auto simp: global_inv_def insert_or_ignore_def sorted_wrt_append split: option.splits)

lemma global_inv_delete [store_inv]: "global_inv t \<Longrightarrow> global_inv (delete_3pid m a t)"
  by (auto simp: global_inv_def delete_3pid_def sorted_wrt_map sorted_wrt_filter
      distinct_map_filter)

lemma global_normal_insert [store_inv]:
  "global_normal t \<Longrightarrow> normalise_address (ta_address a) (ta_medium a) = ta_address a \<Longrightarrow>
   global_normal (insert_or_ignore a raw s i t)"
  by (auto simp: global_normal_def insert_or_ignore_def split: option.splits)

lemma global_normal_delete [store_inv]: "global_normal t \<Longrightarrow> global_normal (delete_3pid m a t)"
  by (auto simp: global_normal_def delete_3pid_def)

end
