(* ===== verification/Assoc_Queries.thy ===== *)
theory Assoc_Queries
  imports Assoc_Store
begin

text \<open>
  What the operations of the two association stores return: the replication feed of the
  local table, and the lookups on the global table.
\<close>

section \<open>The feed of the local table\<close>

definition after_rows :: "int \<Rightarrow> local_table \<Rightarrow> local_row list" where
  "after_rows i t = filter (\<lambda>r. i < l_id r) (l_rows t)"

lemma after_rows_sorted:
  "local_inv t \<Longrightarrow> sorted_wrt (<) (map l_id (after_rows i t))"
  by (simp add: local_inv_def after_rows_def sorted_wrt_map sorted_wrt_filter)

lemma sort_key_strict_id: "sorted_wrt (<) (map f xs) \<Longrightarrow> sort_key f xs = xs"
  for f :: "'a \<Rightarrow> int"
  by (simp add: sort_key_id_if_sorted strict_sorted_imp_sorted)

lemma fold_pairs:
  "fold (\<lambda>x (d, m). (dict_set d (f x) (g x), Some (f x))) xs (d, m) =
     (fold (\<lambda>x d. dict_set d (f x) (g x)) xs d, if xs = [] then m else Some (f (last xs)))"
  by (induction xs arbitrary: d m) auto

lemma strict_distinct: "sorted_wrt (<) (map f xs) \<Longrightarrow> distinct (map f xs)"
  for f :: "'a \<Rightarrow> int"
  by (simp add: strict_sorted_iff)

definition feed :: "int option \<Rightarrow> nat option \<Rightarrow> local_table \<Rightarrow> local_row list" where
  "feed afterId limit t =
     (let rows = after_rows (case afterId of None \<Rightarrow> -1 | Some i \<Rightarrow> i) t
      in case limit of None \<Rightarrow> rows | Some n \<Rightarrow> take n rows)"

lemma feed_sorted: "local_inv t \<Longrightarrow> sorted_wrt (<) (map l_id (feed afterId limit t))"
  using after_rows_sorted [of t] 
  by (auto simp: feed_def Let_def take_map [symmetric] intro: sorted_wrt_take split: option.splits)

lemma getAssociationsAfterId_feed:
  assumes "local_inv t"
  shows "getAssociationsAfterId afterId limit t =
    (map (\<lambda>r. (l_id r, l_assoc r)) (feed afterId limit t),
     if feed afterId limit t = [] then None else Some (l_id (last (feed afterId limit t))))"
proof -
  let ?after = "case afterId of None \<Rightarrow> -1 | Some i \<Rightarrow> i"
  have rows: "(case limit of None \<Rightarrow> sort_key l_id (after_rows ?after t)
      | Some n \<Rightarrow> take n (sort_key l_id (after_rows ?after t))) = feed afterId limit t"
    using after_rows_sorted [OF assms]
    by (simp add: feed_def sort_key_strict_id split: option.splits)
  have "distinct (map l_id (feed afterId limit t))"
    using feed_sorted [OF assms] by (rule strict_distinct)
  then have d: "fold (\<lambda>r d. dict_set d (l_id r) (l_assoc r)) (feed afterId limit t) [] =
      map (\<lambda>r. (l_id r, l_assoc r)) (feed afterId limit t)"
    by (simp add: dict_build_distinct)
  show ?thesis
    unfolding getAssociationsAfterId_def Let_def after_rows_def [symmetric] rows fold_pairs d
    by simp
qed

lemma getSignedAssociationsAfterId_feed:
  assumes "local_inv t"
  shows "getSignedAssociationsAfterId sign ex afterId limit t =
    (map (\<lambda>r. (l_id r, signedThreePidAssociation sign ex (l_assoc r))) (feed afterId limit t),
     if feed afterId limit t = [] then None else Some (l_id (last (feed afterId limit t))))"
proof -
  let ?xs = "map (\<lambda>r. (l_id r, l_assoc r)) (feed afterId limit t)"
  have "distinct (map fst ?xs)"
    using strict_distinct [OF feed_sorted [OF assms]] by (simp add: comp_def)
  then have "fold (\<lambda>p d. dict_set d (fst p) (signedThreePidAssociation sign ex (snd p))) ?xs [] =
     map (\<lambda>p. (fst p, signedThreePidAssociation sign ex (snd p))) ?xs"
    by (simp add: dict_build_distinct)
  then show ?thesis
    by (simp add: getSignedAssociationsAfterId_def getAssociationsAfterId_feed [OF assms]
        case_prod_unfold comp_def)
qed

section \<open>The temporary tables\<close>

lemma insert_batches_eq: "insert_batches cap xs tmp = tmp @ drop cap xs"
proof (induction cap xs tmp rule: insert_batches.induct)
  case (1 cap xs tmp)
  show ?case
  proof (cases "cap < length xs")
    case True
    with 1 have "insert_batches cap xs tmp = tmp @ take 500 (drop cap xs) @ drop (cap + 500) xs"
      by (simp add: insert_batches.simps [of cap xs tmp])
    also have "take 500 (drop cap xs) @ drop (cap + 500) xs = drop cap xs"
      by (metis append_take_drop_id drop_drop add.commute)
    finally show ?thesis .
  next
    case False
    then show ?thesis by (simp add: insert_batches.simps [of cap xs tmp])
  qed
qed

section \<open>Lookups on the global table\<close>

lemma getMxid_SomeD:
  assumes "getMxid m a now t = Some x"
  shows "\<exists>r \<in> set (rows_for m a now t). g_mxid r = x \<and>
    (\<forall>q \<in> set (rows_for m a now t). g_ts q \<le> g_ts r)"
  using assms first_by_SomeD [of "\<lambda>r. - g_ts r" "rows_for m a now t"]
  by (fastforce simp: getMxid_def)

lemma getMxid_None: "getMxid m a now t = None \<longleftrightarrow> rows_for m a now t = []"
  by (simp add: getMxid_def)

lemma newest_loop_iff:
  assumes "sorted (map g_3pid rows)"
    and "\<forall>r \<in> set rows. \<forall>p. current = Some p \<longrightarrow> p \<le> g_3pid r"
  shows "(m, a, x) \<in> set (newest_loop current rows) \<longleftrightarrow>
    current \<noteq> Some (m, a) \<and>
    (\<exists>r. find (\<lambda>r. g_3pid r = (m, a)) rows = Some r \<and> g_mxid r = x)"
  using assms
proof (induction current rows rule: newest_loop.induct)
  case (1 current)
  then show ?case by simp
next
  case (2 current row rows)
  from "2.prems"(1) have srt: "sorted (map g_3pid rows)"
    and ge: "\<forall>r \<in> set rows. g_3pid row \<le> g_3pid r" by simp_all
  show ?case
  proof (cases "Some (g_3pid row) = current")
    case True
    with "2.IH"(1) srt "2.prems"(2) show ?thesis by auto
  next
    case False
    have IH: "(m, a, x) \<in> set (newest_loop (Some (g_3pid row)) rows) \<longleftrightarrow>
        g_3pid row \<noteq> (m, a) \<and> (\<exists>r. find (\<lambda>r. g_3pid r = (m, a)) rows = Some r \<and> g_mxid r = x)"
      using "2.IH"(2) [OF False srt] ge by simp
    have "g_3pid row = (m, a)" if c: "current = Some (m, a)" and r: "r \<in> set rows" "g_3pid r = (m, a)" for r
    proof (rule antisym)
      show "(m, a) \<le> g_3pid row" using "2.prems"(2) c by simp
      show "g_3pid row \<le> (m, a)" using ge r by auto
    qed
    with False have "current \<noteq> Some (m, a)" if "find (\<lambda>r. g_3pid r = (m, a)) rows = Some r" for r
      using that by (metis (mono_tags, lifting) find_Some_iff nth_mem)
    with False IH show ?thesis by (auto simp: g_3pid_def)
  qed
qed

lemma newest_loop_distinct:
  assumes "sorted (map g_3pid rows)"
    and "\<forall>r \<in> set rows. \<forall>p. current = Some p \<longrightarrow> p \<le> g_3pid r"
  shows "distinct (map (\<lambda>(m, a, x). (m, a)) (newest_loop current rows))"
  using assms
proof (induction current rows rule: newest_loop.induct)
  case (1 current)
  then show ?case by simp
next
  case (2 current row rows)
  have srt: "sorted (map g_3pid rows)"
    and ge: "\<forall>r \<in> set rows. \<forall>p. Some (g_3pid row) = Some p \<longrightarrow> p \<le> g_3pid r"
    using "2.prems"(1) by auto
  show ?case
  proof (cases "Some (g_3pid row) = current")
    case True
    with 2 srt show ?thesis by simp
  next
    case False
    have "(m, a) \<noteq> g_3pid row" if "(m, a, x) \<in> set (newest_loop (Some (g_3pid row)) rows)" for m a x
      using that newest_loop_iff [OF srt ge] by auto
    moreover have "distinct (map (\<lambda>(m, a, x). (m, a)) (newest_loop (Some (g_3pid row)) rows))"
      by (rule "2.IH"(2) [OF False srt ge])
    ultimately show ?thesis using False by (auto simp: g_3pid_def)
  qed
qed

lemma sorted_3pid:
  "sorted (map (\<lambda>r. (g_medium r, g_address r, - g_ts r)) rows) \<Longrightarrow> sorted (map g_3pid rows)"
  by (induction rows) (auto simp: g_3pid_def)

text \<open>The rows a bulk lookup considers.\<close>

definition bulk_rows :: "(string \<times> string) list \<Rightarrow> int \<Rightarrow> global_table \<Rightarrow> global_row set" where
  "bulk_rows tuples now t = {r \<in> set (g_rows t). valid_at now r \<and>
     (\<exists>(m, a) \<in> set tuples. g_medium r = m \<and> str_lower (g_address r) = str_lower a)}"

lemma getMxids_rows:
  obtains rows where "getMxids tuples now t = newest_loop None rows"
    and "set rows = bulk_rows tuples now t"
    and "sorted (map (\<lambda>r. (g_medium r, g_address r, - g_ts r)) rows)"
proof -
  define joined where "joined = concat (map (\<lambda>r. map (\<lambda>_. r)
    (filter (\<lambda>(m, a). g_medium r = m \<and> str_lower (g_address r) = str_lower a) tuples)) (g_rows t))"
  let ?rows = "sort_key (\<lambda>r. (g_medium r, g_address r, - g_ts r)) (filter (valid_at now) joined)"
  have "getMxids tuples now t = newest_loop None ?rows"
    by (simp add: getMxids_def insert_batches_eq joined_def)
  moreover have "set ?rows = bulk_rows tuples now t"
    by (auto simp: joined_def bulk_rows_def)
  ultimately show ?thesis by (rule that) simp
qed

lemma find_sorted_newest:
  assumes "sorted (map (\<lambda>r. (g_medium r, g_address r, - g_ts r)) rows)"
    and "find (\<lambda>r. g_3pid r = p) rows = Some r" and "q \<in> set rows" and "g_3pid q = p"
  shows "g_ts q \<le> g_ts r"
  using assms by (induction rows) (auto simp: g_3pid_def split: if_splits)

section \<open>Properties\<close>

text \<open>the feed of the local table. Asked for what comes after an identifier, the store returns
  exactly the associations with a larger identifier, in ascending order, cut to the limit,
  keyed by identifier, and with them the largest identifier returned (none if there is
  nothing to return).\<close>

theorem getAssociationsAfterId_spec:
  assumes "local_inv t"
  shows "getAssociationsAfterId (Some i) (Some n) t =
    (let rows = take n (filter (\<lambda>r. i < l_id r) (l_rows t)) in
     (map (\<lambda>r. (l_id r, l_assoc r)) rows,
      if rows = [] then None else Some (Max (set (map l_id rows)))))
   \<and> sorted_wrt (<) (map fst (fst (getAssociationsAfterId (Some i) (Some n) t)))"
proof -
  define rows where "rows = take n (filter (\<lambda>r. i < l_id r) (l_rows t))"
  have f: "feed (Some i) (Some n) t = rows" by (simp add: feed_def after_rows_def rows_def)
  have srt: "sorted_wrt (<) (map l_id rows)" using feed_sorted [OF assms, of "Some i" "Some n"] f by simp
  have "Max (set (map l_id rows)) = l_id (last rows)" if "rows \<noteq> []"
  proof (rule Max_eqI)
    show "y \<le> l_id (last rows)" if "y \<in> set (map l_id rows)" for y
      using srt \<open>rows \<noteq> []\<close> that
      by (cases rows rule: rev_cases) (auto simp: sorted_wrt_append less_imp_le)
  qed (use that in auto)
  then show ?thesis
    using srt getAssociationsAfterId_feed [OF assms, of "Some i" "Some n"]
    by (simp add: f comp_def Let_def flip: rows_def)
qed

text \<open>a lookup returns the Matrix identifier of a row that is valid now, whose medium is the one
  asked for and whose address equals it up to case, and no such row has a later
  timestamp; it returns nothing exactly when there is no such row.\<close>

theorem getMxid_newest:
  "(case getMxid medium address now t of
      None \<Rightarrow> \<not> (\<exists>r. r \<in> set (g_rows t) \<and> g_medium r = medium \<and>
                str_lower (g_address r) = str_lower address \<and> valid_at now r)
    | Some x \<Rightarrow> (\<exists>r. r \<in> set (rows_for medium address now t) \<and> g_mxid r = x \<and>
                g_ts r = Max (g_ts ` set (rows_for medium address now t))))"
proof (cases "getMxid medium address now t")
  case None
  then show ?thesis
    using getMxid_None [of medium address now t] by (auto simp: rows_for_def filter_empty_conv)
next
  case (Some x)
  then obtain r where r: "r \<in> set (rows_for medium address now t)" "g_mxid r = x"
    "\<forall>q \<in> set (rows_for medium address now t). g_ts q \<le> g_ts r"
    using getMxid_SomeD by blast
  then have "g_ts r = Max (g_ts ` set (rows_for medium address now t))"
    by (intro Max_eqI [symmetric]) auto
  with r Some show ?thesis by auto
qed

text \<open>a bulk lookup returns one entry per stored medium and address among the valid rows that
  match a requested pair up to case; the entry carries the Matrix identifier of a row of
  that medium and address with the latest timestamp, and every such row is answered.\<close>

theorem getMxids_spec:
  "distinct (map (\<lambda>(m, a, x). (m, a)) (getMxids tuples now t)) \<and>
   set (map (\<lambda>(m, a, x). (m, a)) (getMxids tuples now t)) = g_3pid ` bulk_rows tuples now t \<and>
   set (getMxids tuples now t) \<subseteq>
     {(m, a, g_mxid r) | m a r. r \<in> bulk_rows tuples now t \<and> g_3pid r = (m, a) \<and>
        g_ts r = Max (g_ts ` {q \<in> bulk_rows tuples now t. g_3pid q = (m, a)})}"
proof -
  obtain rows where rows: "getMxids tuples now t = newest_loop None rows"
      "set rows = bulk_rows tuples now t"
    and srt: "sorted (map (\<lambda>r. (g_medium r, g_address r, - g_ts r)) rows)"
    by (rule getMxids_rows)
  note s3 = sorted_3pid [OF srt]
  have iff: "(m, a, x) \<in> set (newest_loop None rows) \<longleftrightarrow>
     (\<exists>r. find (\<lambda>r. g_3pid r = (m, a)) rows = Some r \<and> g_mxid r = x)" for m a x
    using newest_loop_iff [OF s3, of None m a x] by simp
  have fin: "finite (bulk_rows tuples now t)" using rows(2) by (metis List.finite_set)
  have mem: "r \<in> set rows \<and> g_3pid r = p" if "find (\<lambda>r. g_3pid r = p) rows = Some r" for p r
    using that by (metis (mono_tags, lifting) find_Some_iff nth_mem)
  have ex: "\<exists>r'. find (\<lambda>r. g_3pid r = g_3pid q) rows = Some r'" if "q \<in> set rows" for q
    using that find_None_iff [of "\<lambda>r. g_3pid r = g_3pid q" rows]
    by (cases "find (\<lambda>r. g_3pid r = g_3pid q) rows") auto
  have dist: "distinct (map (\<lambda>(m, a, x). (m, a)) (newest_loop None rows))"
    using newest_loop_distinct [OF s3, of None] by simp
  have keys: "set (map (\<lambda>(m, a, x). (m, a)) (newest_loop None rows)) = g_3pid ` set rows"
  proof (rule set_eqI, clarify)
    fix m a
    have "(m, a) \<in> set (map (\<lambda>(m, a, x). (m, a)) (newest_loop None rows)) \<longleftrightarrow>
        (\<exists>x. (m, a, x) \<in> set (newest_loop None rows))" by force
    also have "\<dots> \<longleftrightarrow> (\<exists>r. find (\<lambda>r. g_3pid r = (m, a)) rows = Some r)" by (simp add: iff)
    also have "\<dots> \<longleftrightarrow> (m, a) \<in> g_3pid ` set rows"
    proof
      assume "\<exists>r. find (\<lambda>r. g_3pid r = (m, a)) rows = Some r"
      then obtain r where "find (\<lambda>r. g_3pid r = (m, a)) rows = Some r" by blast
      from mem [OF this] show "(m, a) \<in> g_3pid ` set rows" by force
    next
      assume "(m, a) \<in> g_3pid ` set rows"
      then obtain q where "q \<in> set rows" and "g_3pid q = (m, a)" by force
      from ex [OF this(1)] this(2) show "\<exists>r. find (\<lambda>r. g_3pid r = (m, a)) rows = Some r" by simp
    qed
    finally show "(m, a) \<in> set (map (\<lambda>(m, a, x). (m, a)) (newest_loop None rows)) \<longleftrightarrow>
      (m, a) \<in> g_3pid ` set rows" .
  qed
  have ts: "g_ts r = Max (g_ts ` {q \<in> bulk_rows tuples now t. g_3pid q = p})"
    if "find (\<lambda>r. g_3pid r = p) rows = Some r" for p r
    using find_sorted_newest [OF srt that] mem [OF that] rows(2) fin
    by (intro Max_eqI [symmetric]) auto
  have "set (newest_loop None rows) \<subseteq>
     {(m, a, g_mxid r) | m a r. r \<in> bulk_rows tuples now t \<and> g_3pid r = (m, a) \<and>
        g_ts r = Max (g_ts ` {q \<in> bulk_rows tuples now t. g_3pid q = (m, a)})}"
  proof
    fix p
    assume "p \<in> set (newest_loop None rows)"
    moreover obtain m a x where p: "p = (m, a, x)" by (cases p)
    ultimately obtain r where r: "find (\<lambda>r. g_3pid r = (m, a)) rows = Some r" "g_mxid r = x"
      using iff by blast
    have "p = (m, a, g_mxid r) \<and> r \<in> bulk_rows tuples now t \<and> g_3pid r = (m, a) \<and>
        g_ts r = Max (g_ts ` {q \<in> bulk_rows tuples now t. g_3pid q = (m, a)})"
      using p r(2) mem [OF r(1)] ts [OF r(1)] rows(2) by simp
    then show "p \<in> {(m, a, g_mxid r) | m a r. r \<in> bulk_rows tuples now t \<and> g_3pid r = (m, a) \<and>
        g_ts r = Max (g_ts ` {q \<in> bulk_rows tuples now t. g_3pid q = (m, a)})}"
      by (intro CollectI exI)
  qed
  with dist keys show ?thesis unfolding rows(1) by (simp only: rows(2))
qed

text \<open>a lookup by hash answers a requested hash exactly if some valid row carries it, answers
  nothing else, and the answer is the lexicographically greatest Matrix identifier among
  the valid rows with that hash.\<close>

theorem retrieveMxidsForHashes_spec:
  "dict_get (retrieveMxidsForHashes hashes now t) h =
     (let cands = {g_mxid r | r. r \<in> set (g_rows t) \<and> valid_at now r \<and> g_lookup_hash r = Some h}
      in if h \<in> set hashes \<and> cands \<noteq> {} then Some (Max cands) else None)"
proof -
  define joined where "joined = concat (map (\<lambda>r. map (\<lambda>h. (h, r))
     (filter (\<lambda>h. g_lookup_hash r = Some h) hashes)) (filter (valid_at now) (g_rows t)))"
  define res where "res = sort_key (\<lambda>(h, r). (h, g_mxid r, g_ts r)) joined"
  have R: "retrieveMxidsForHashes hashes now t =
      fold (\<lambda>x d. dict_set d (fst x) (g_mxid (snd x))) res []"
    by (simp add: retrieveMxidsForHashes_def insert_batches_eq res_def joined_def case_prod_beta')
  have set_res: "(h', r) \<in> set res \<longleftrightarrow> h' \<in> set hashes \<and> r \<in> set (g_rows t) \<and> valid_at now r \<and>
      g_lookup_hash r = Some h'" for h' r
    by (auto simp: res_def joined_def)
  let ?ys = "filter (\<lambda>x. fst x = h) res"
  let ?C = "{g_mxid r | r. r \<in> set (g_rows t) \<and> valid_at now r \<and> g_lookup_hash r = Some h}"
  show ?thesis
  proof (cases "?ys = []")
    case True
    then have "\<not> (h \<in> set hashes \<and> ?C \<noteq> {})"
      using set_res [of h] by (fastforce simp: filter_empty_conv)
    moreover from True have "\<not> (\<exists>x \<in> set res. fst x = h)" by (simp add: filter_empty_conv)
    ultimately show ?thesis by (auto simp: R dict_get_fold Let_def)
  next
    case False
    have srt: "sorted (map (\<lambda>(h, r). (h, g_mxid r, g_ts r)) res)" by (simp add: res_def)
    have "Max ?C = g_mxid (snd (last ?ys))"
    proof (rule Max_eqI)
      show "finite ?C" by simp
      obtain h' r where l: "last ?ys = (h', r)" by fastforce
      with False have "(h', r) \<in> set ?ys" by (metis last_in_set)
      then have "h' = h" and "(h, r) \<in> set res" by auto
      with l show "g_mxid (snd (last ?ys)) \<in> ?C" using set_res by fastforce
      fix y
      assume "y \<in> ?C"
      then obtain r' where r': "y = g_mxid r'" "r' \<in> set (g_rows t)" "valid_at now r'"
        "g_lookup_hash r' = Some h" by blast
      from \<open>(h, r) \<in> set res\<close> r' have "(h, r') \<in> set ?ys" using set_res by auto
      moreover have "sorted (map (\<lambda>(h, r). (h, g_mxid r, g_ts r)) ?ys)"
        using sorted_filter [OF srt] .
      ultimately have "(h, g_mxid r', g_ts r') \<le> (h, g_mxid r, g_ts r)"
        using l \<open>h' = h\<close> False
        by (cases ?ys rule: rev_cases) (auto simp: sorted_wrt_append)
      then show "y \<le> g_mxid (snd (last ?ys))" using l r'(1) by auto
    qed
    moreover from False obtain r where "(h, r) \<in> set res" by (auto simp: filter_empty_conv)
    then have "h \<in> set hashes" and "?C \<noteq> {}" using set_res by auto
    moreover from \<open>(h, r) \<in> set res\<close> have "\<exists>x \<in> set res. fst x = h" by force
    ultimately show ?thesis by (simp add: R dict_get_fold Let_def del: Collect_empty_eq)
  qed
qed

end
