(* ===== verification/Rate_Limiter.thy ===== *)
theory Rate_Limiter
  imports Prelude
begin

text \<open>
  \<open>sydent/util/ratelimiter.py\<close>: the leaky bucket that limits the requests per key. The
  locale \<open>leaky_bucket\<close> states what its clients rely on (admission below the burst count,
  one token per admitted request, one token leaked per tick, keys independent of each
  other) and derives the rate bounds; the model of the class is an instance of it.
\<close>

section \<open>The class\<close>

definition LimitExceededException :: "string option \<Rightarrow> exn" where
  "LimitExceededException error =
     MatrixRestError 429 ''M_UNKNOWN''
       (case error of None \<Rightarrow> ''Too many requests'' | Some e \<Rightarrow> e)"

record 'k ratelimiter =
  rl_burst :: int
  rl_buckets :: "('k, int) dict"

definition periodic_call :: "'k ratelimiter \<Rightarrow> 'k ratelimiter" where
  "periodic_call rl =
     rl\<lparr>rl_buckets := map (\<lambda>(key, tokens). (key, tokens - 1))
          (filter (\<lambda>(key, tokens). tokens > 1) (rl_buckets rl))\<rparr>"

text \<open>\<open>LoopingCall.start\<close> makes the first call at once.\<close>

definition Ratelimiter_init :: "int \<Rightarrow> 'k ratelimiter" where
  "Ratelimiter_init burst = periodic_call \<lparr>rl_burst = burst, rl_buckets = []\<rparr>"

definition current_tokens :: "'k \<Rightarrow> 'k ratelimiter \<Rightarrow> int" where
  "current_tokens key rl = (case dict_get (rl_buckets rl) key of None \<Rightarrow> 0 | Some n \<Rightarrow> n)"

definition ratelimit ::
    "'k \<Rightarrow> string option \<Rightarrow> 'k ratelimiter \<Rightarrow> unit res \<times> 'k ratelimiter" where
  "ratelimit key error rl =
     (let error' = (case error of None \<Rightarrow> ''Too many requests'' | Some e \<Rightarrow> e);
          n = current_tokens key rl
      in if n \<ge> rl_burst rl then (Inl (LimitExceededException (Some error')), rl)
         else (Inr (), rl\<lparr>rl_buckets := dict_set (rl_buckets rl) key (n + 1)\<rparr>))"

section \<open>What clients rely on\<close>

datatype 'k rl_event = Tick | Req 'k

locale leaky_bucket =
  fixes request :: "'k \<Rightarrow> 's \<Rightarrow> bool \<times> 's"
    and tick :: "'s \<Rightarrow> 's"
    and level :: "'k \<Rightarrow> 's \<Rightarrow> int"
    and cap :: "'s \<Rightarrow> int"
    and ok :: "'s \<Rightarrow> bool"
  assumes request_admit: "ok s \<Longrightarrow> fst (request k s) \<longleftrightarrow> level k s < cap s"
    and request_level: "ok s \<Longrightarrow> level j (snd (request k s)) =
          (if j = k \<and> level k s < cap s then level k s + 1 else level j s)"
    and tick_level: "ok s \<Longrightarrow> level k (tick s) = max 0 (level k s - 1)"
    and request_cap: "cap (snd (request k s)) = cap s"
    and tick_cap: "cap (tick s) = cap s"
    and request_ok: "ok s \<Longrightarrow> ok (snd (request k s))"
    and tick_ok: "ok s \<Longrightarrow> ok (tick s)"
    and level_range: "ok s \<Longrightarrow> 0 \<le> level k s \<and> level k s \<le> max 0 (cap s)"
begin

fun run :: "'k rl_event list \<Rightarrow> 's \<Rightarrow> ('k \<times> bool) list \<times> 's" where
  "run [] s = ([], s)"
| "run (Tick # es) s = run es (tick s)"
| "run (Req k # es) s = (case request k s of (b, s') \<Rightarrow>
     case run es s' of (out, s'') \<Rightarrow> ((k, b) # out, s''))"

definition admitted :: "'k \<Rightarrow> ('k \<times> bool) list \<Rightarrow> int" where
  "admitted k out = int (length (filter (\<lambda>p. p = (k, True)) out))"

definition ticks :: "'k rl_event list \<Rightarrow> int" where
  "ticks es = int (length (filter (\<lambda>e. e = Tick) es))"

lemma run_ok: "ok s \<Longrightarrow> ok (snd (run es s)) \<and> cap (snd (run es s)) = cap s"
proof (induction es s rule: run.induct)
  case (3 k es s)
  then show ?case
    using request_ok [of s k] request_cap [of k s] by (auto split: prod.splits)
qed (auto simp: tick_ok tick_cap)

text \<open>In any stretch of events the admitted requests of a key exceed neither the room left in
  its bucket plus one per tick.\<close>

lemma run_bound:
  "ok s \<Longrightarrow> admitted k (fst (run es s)) \<le> max 0 (cap s) - level k s + ticks es"
proof (induction es s rule: run.induct)
  case (1 s)
  then show ?case using level_range [of s k] by (simp add: admitted_def ticks_def)
next
  case (2 es s)
  then show ?case
    using level_range [of s k] tick_level [of s k] tick_cap [of s] tick_ok [of s]
    by (auto simp: ticks_def)
next
  case (3 k' es s)
  obtain b s' where r: "request k' s = (b, s')" by fastforce
  with 3 have "admitted k (fst (run es s')) \<le> max 0 (cap s') - level k s' + ticks es"
    using request_ok [of s k'] by auto
  then show ?case
    using r "3.prems" request_admit [of s k'] request_level [of s k k'] request_cap [of k' s]
    by (auto simp: admitted_def ticks_def split: prod.splits if_splits)
qed

lemma admitted_after_tick:
  assumes "ok s" and "0 < cap s"
  shows "fst (request k (tick s))"
  using assms level_range [of s k] tick_level [of s k] tick_ok request_admit tick_cap
  by simp

lemma run_isolated:
  assumes "ok s" and "ok s2" and "level k s = level k s2" and "cap s = cap s2"
  shows "filter (\<lambda>p. fst p = k) (fst (run es s)) =
    fst (run (filter (\<lambda>e. e = Tick \<or> e = Req k) es) s2)"
  using assms
proof (induction es s arbitrary: s2 rule: run.induct)
  case (2 es s)
  then show ?case using tick_ok tick_cap tick_level by simp
next
  case (3 k' es s)
  obtain b s' where r: "request k' s = (b, s')" by fastforce
  have s': "ok s'" "cap s' = cap s" "level k s' =
      (if k = k' \<and> level k' s < cap s then level k' s + 1 else level k s)"
    using r "3.prems" request_ok [of s k'] request_cap [of k' s] request_level [of s k k'] by auto
  show ?case
  proof (cases "k' = k")
    case True
    obtain b2 s2' where r2: "request k s2 = (b2, s2')" by fastforce
    have "b2 = b" using True r r2 "3.prems" request_admit [of s k] request_admit [of s2 k] by simp
    moreover have "ok s2'" "cap s2' = cap s2" "level k s2' = level k s'"
      using True r2 "3.prems" s' request_ok [of s2 k] request_cap [of k s2]
        request_level [of s2 k k] by auto
    ultimately show ?thesis
      using True r r2 s' "3.prems" "3.IH" [of b s' s2'] by (auto split: prod.splits)
  next
    case False
    then show ?thesis
      using r s' "3.prems" "3.IH" [of b s' s2] by (auto split: prod.splits)
  qed
qed simp

end

section \<open>The class implements the contract\<close>

definition rl_inv :: "'k ratelimiter \<Rightarrow> bool" where
  "rl_inv rl = (dict_wf (rl_buckets rl) \<and>
     (\<forall>(key, n) \<in> set (rl_buckets rl). 0 < n \<and> n \<le> rl_burst rl))"

definition try_request :: "'k \<Rightarrow> 'k ratelimiter \<Rightarrow> bool \<times> 'k ratelimiter" where
  "try_request key rl = (case ratelimit key None rl of
     (Inl e, rl') \<Rightarrow> (False, rl') | (Inr u, rl') \<Rightarrow> (True, rl'))"

lemma try_request_eq:
  "ratelimit key None rl = (r, rl') \<Longrightarrow> try_request key rl = (isr r, rl')"
  by (simp add: try_request_def split: sum.splits)

lemma periodic_get:
  "dict_wf d \<Longrightarrow> dict_get (map (\<lambda>(key, n). (key, n - 1)) (filter (\<lambda>(key, n). n > (1::int)) d)) k =
   (case dict_get d k of None \<Rightarrow> None | Some n \<Rightarrow> if n > 1 then Some (n - 1) else None)"
proof (induction d)
  case (Cons p d)
  obtain a n where p: "p = (a, n)" by fastforce
  have "dict_get (map (\<lambda>(key, n). (key, n - 1)) (filter (\<lambda>(key, n). n > (1::int)) d)) a = None"
    using Cons.prems p by (force simp: map_of_eq_None_iff)
  with Cons p show ?case by (cases "a = k") (auto simp: map_of_eq_None_iff)
qed simp

lemma current_tokens_range:
  "rl_inv rl \<Longrightarrow> 0 \<le> current_tokens k rl \<and> current_tokens k rl \<le> max 0 (rl_burst rl)"
  by (auto simp: rl_inv_def current_tokens_def dest!: map_of_SomeD split: option.splits)

lemma current_tokens_tick:
  "rl_inv rl \<Longrightarrow> current_tokens k (periodic_call rl) = max 0 (current_tokens k rl - 1)"
  by (auto simp: rl_inv_def current_tokens_def periodic_call_def periodic_get
      dest!: map_of_SomeD split: option.splits)

lemma rl_inv_request:
  assumes "rl_inv rl"
  shows "rl_inv (snd (ratelimit k e rl))"
  using assms current_tokens_range [OF assms, of k]
  by (fastforce simp: rl_inv_def ratelimit_def Let_def dest!: dict_set_mem)

lemma rl_inv_tick:
  assumes "rl_inv rl"
  shows "rl_inv (periodic_call rl)"
proof -
  have "distinct (map fst (map (\<lambda>(key, n). (key, n - 1)) (filter (\<lambda>(key, n). n > 1) (rl_buckets rl))))"
    using assms by (simp add: rl_inv_def comp_def case_prod_beta' distinct_map_filter)
  then show ?thesis using assms by (fastforce simp: rl_inv_def periodic_call_def)
qed

lemma rl_inv_init: "rl_inv (Ratelimiter_init b)"
  by (simp add: rl_inv_def Ratelimiter_init_def periodic_call_def)

interpretation rl: leaky_bucket try_request periodic_call current_tokens rl_burst rl_inv
proof
  fix s :: "'k ratelimiter" and k j
  show "rl_inv s \<Longrightarrow> fst (try_request k s) \<longleftrightarrow> current_tokens k s < rl_burst s"
    by (auto simp: try_request_def ratelimit_def Let_def)
  show "rl_inv s \<Longrightarrow> current_tokens j (snd (try_request k s)) =
      (if j = k \<and> current_tokens k s < rl_burst s then current_tokens k s + 1 else current_tokens j s)"
    by (auto simp: try_request_def ratelimit_def Let_def current_tokens_def)
  show "rl_inv s \<Longrightarrow> current_tokens k (periodic_call s) = max 0 (current_tokens k s - 1)"
    by (rule current_tokens_tick)
  show "rl_burst (snd (try_request k s)) = rl_burst s"
    by (auto simp: try_request_def ratelimit_def Let_def)
  show "rl_burst (periodic_call s) = rl_burst s" by (simp add: periodic_call_def)
  show "rl_inv s \<Longrightarrow> rl_inv (snd (try_request k s))"
    using rl_inv_request [of s k None] by (auto simp: try_request_def split: prod.splits sum.splits)
  show "rl_inv s \<Longrightarrow> rl_inv (periodic_call s)" by (rule rl_inv_tick)
  show "rl_inv s \<Longrightarrow> 0 \<le> current_tokens k s \<and> current_tokens k s \<le> max 0 (rl_burst s)"
    by (rule current_tokens_range)
qed

section \<open>Properties\<close>

text \<open>A sequence of ticks of the clock and of requests, each with the outcome of the call.\<close>

fun rl_run :: "'k rl_event list \<Rightarrow> 'k ratelimiter \<Rightarrow> ('k \<times> bool) list \<times> 'k ratelimiter" where
  "rl_run [] rl = ([], rl)"
| "rl_run (Tick # es) rl = rl_run es (periodic_call rl)"
| "rl_run (Req k # es) rl =
     (case ratelimit k None rl of (r, rl') \<Rightarrow>
      case rl_run es rl' of (out, rl'') \<Rightarrow> ((k, isr r) # out, rl''))"

lemma rl_run_eq: "rl_run es rl = rl.run es rl"
  by (induction es rl rule: rl_run.induct)
     (auto simp: try_request_eq split: prod.splits)

text \<open>C19: from a fresh rate limiter, after any prefix of events, in any further stretch of events the
  number of requests admitted for a key is at most the burst count plus the number of
  ticks in that stretch; the bound does not depend on the traffic of other keys: the outcomes
  of a key are those of the stretch with all other requests removed.\<close>

theorem ratelimit_rate_bound:
  fixes key :: 'k
  shows "int (length (filter (\<lambda>p. p = (key, True))
             (fst (rl_run es (snd (rl_run prefix (Ratelimiter_init burst)))))))
           \<le> max 0 burst + int (length (filter (\<lambda>e. e = Tick) es))
       \<and> filter (\<lambda>p. fst p = key) (fst (rl_run es (Ratelimiter_init burst)))
           = fst (rl_run (filter (\<lambda>e. e = Tick \<or> e = Req key) es) (Ratelimiter_init burst))"
proof -
  let ?i = "Ratelimiter_init burst :: 'k ratelimiter"
  let ?s = "snd (rl.run prefix ?i)"
  have i: "rl_inv ?i" "rl_burst ?i = burst"
    by (simp_all add: rl_inv_init) (simp add: Ratelimiter_init_def periodic_call_def)
  have s: "rl_inv ?s" "rl_burst ?s = burst" using rl.run_ok [OF i(1)] i(2) by auto
  show ?thesis
    unfolding rl_run_eq
    using rl.run_bound [OF s(1), of key es] current_tokens_range [OF s(1), of key] s(2)
      rl.run_isolated [OF i(1) i(1) refl refl, of key es]
    by (simp add: rl.admitted_def rl.ticks_def)
qed

text \<open>with a positive burst count nobody is locked out: whatever happened before, the request
  after a tick is admitted, and a refused request leaves the rate limiter as it was and
  raises the 429 error.\<close>

theorem ratelimit_recovers:
  assumes "0 < burst"
  shows "let rl = snd (rl_run es (Ratelimiter_init burst)) in
       isr (fst (ratelimit key None (periodic_call rl)))
     \<and> (\<forall>e. isl (fst (ratelimit key e rl)) \<longrightarrow>
            ratelimit key e rl = (Inl (LimitExceededException e), rl))"
  unfolding Let_def
proof
  let ?rl = "snd (rl_run es (Ratelimiter_init burst))"
  have i: "rl_inv (Ratelimiter_init burst :: 'a ratelimiter)"
    "rl_burst (Ratelimiter_init burst :: 'a ratelimiter) = burst"
    by (simp_all add: rl_inv_init) (simp add: Ratelimiter_init_def periodic_call_def)
  have rl: "rl_inv ?rl" "rl_burst ?rl = burst"
    using rl.run_ok [OF i(1), of es] i(2) by (auto simp: rl_run_eq)
  show "isr (fst (ratelimit key None (periodic_call ?rl)))"
    using rl.admitted_after_tick [OF rl(1), of key] rl(2) assms(1)
    by (cases "ratelimit key None (periodic_call ?rl)") (simp add: try_request_eq)
  show "\<forall>e. isl (fst (ratelimit key e ?rl)) \<longrightarrow>
      ratelimit key e ?rl = (Inl (LimitExceededException e), ?rl)"
    by (auto simp: ratelimit_def Let_def LimitExceededException_def)
qed

theorem ratelimit_recovers_witness:
  "isr (fst (ratelimit ''mxid'' None (periodic_call (snd (rl_run [Req ''mxid'', Req ''mxid'']
      (Ratelimiter_init 1))))))
   \<and> ratelimit ''mxid'' None (snd (rl_run [Req ''mxid'', Req ''mxid''] (Ratelimiter_init 1))) =
     (Inl (LimitExceededException None), snd (rl_run [Req ''mxid'', Req ''mxid''] (Ratelimiter_init 1)))"
proof
  let ?es = "[Req ''mxid'', Req ''mxid'']"
  show "isr (fst (ratelimit ''mxid'' None (periodic_call (snd (rl_run ?es (Ratelimiter_init 1))))))"
    using ratelimit_recovers [where burst = 1 and key = "''mxid''" and es = ?es] by (simp add: Let_def)
  have "isl (fst (ratelimit ''mxid'' None (snd (rl_run ?es (Ratelimiter_init 1)))))" by code_simp
  then show "ratelimit ''mxid'' None (snd (rl_run ?es (Ratelimiter_init 1))) =
      (Inl (LimitExceededException None), snd (rl_run ?es (Ratelimiter_init 1)))"
    using ratelimit_recovers [where burst = 1 and key = "''mxid''" and es = ?es] by (simp add: Let_def)
qed

end
