(* ===== verification/TTL_Cache.thy ===== *)
theory TTL_Cache
  imports Prelude "HOL-Library.Multiset"
begin

text \<open>
  \<open>sydent/util/ttlcache.py\<close>: a key/value cache in which each entry has its own time to
  live. The class keeps its entries twice, in a dictionary by key and in a
  \<open>SortedList\<close> by expiry time; the lemmas show that the two stay in step, so that the
  \<open>KeyError\<close> and \<open>ValueError\<close> of the internal deletions never occur, and that the
  class behaves as one map from keys to values with expiry times.

  \<open>SortedList\<close> belongs to the package \<open>sortedcontainers\<close>: its \<open>add\<close> and \<open>remove\<close> are arguments
  of the definitions, and \<open>sorted_list_ops\<close> is their documented behaviour. Times are
  rational numbers, the clock is an argument that is read once per operation.
\<close>

section \<open>Entries and their order\<close>

datatype ('k, 'v) cache_entry =
  CacheEntry (expiry_time: rat) (entry_key: 'k) (entry_value: 'v)

text \<open>The order \<open>attr.s\<close> generates: attribute by attribute, in the order of declaration.\<close>

definition entry_tuple :: "('k, 'v) cache_entry \<Rightarrow> rat \<times> 'k \<times> 'v" where
  "entry_tuple e = (expiry_time e, entry_key e, entry_value e)"

lemma entry_tuple_inject [simp]: "entry_tuple a = entry_tuple b \<longleftrightarrow> a = b"
  by (cases a; cases b) (simp add: entry_tuple_def)

instantiation cache_entry :: (linorder, linorder) linorder
begin

definition less_eq_cache_entry :: "('a, 'b) cache_entry \<Rightarrow> ('a, 'b) cache_entry \<Rightarrow> bool" where
  "a \<le> b \<longleftrightarrow> entry_tuple a \<le> entry_tuple b"

definition less_cache_entry :: "('a, 'b) cache_entry \<Rightarrow> ('a, 'b) cache_entry \<Rightarrow> bool" where
  "a < b \<longleftrightarrow> entry_tuple a < entry_tuple b"

instance
  by standard
    (auto simp: less_eq_cache_entry_def less_cache_entry_def less_le_not_le
      dest: order.antisym intro: order.trans)

end

lemma entry_le_expiry: "a \<le> b \<Longrightarrow> expiry_time a \<le> expiry_time b"
  by (auto simp: less_eq_cache_entry_def entry_tuple_def)

section \<open>The sorted list\<close>

definition sorted_list_ops ::
    "('e::linorder \<Rightarrow> 'e list \<Rightarrow> 'e list) \<Rightarrow> ('e \<Rightarrow> 'e list \<Rightarrow> 'e list option) \<Rightarrow> bool" where
  "sorted_list_ops add rem =
     ((\<forall>e l. sorted l \<longrightarrow> sorted (add e l) \<and> mset (add e l) = add_mset e (mset l)) \<and>
      (\<forall>e l. sorted l \<longrightarrow> (case rem e l of
          None \<Rightarrow> e \<notin> set l
        | Some l' \<Rightarrow> e \<in> set l \<and> sorted l' \<and> mset l' = mset l - {#e#})))"

definition list_remove :: "'e \<Rightarrow> 'e list \<Rightarrow> 'e list option" where
  "list_remove e l = (if e \<in> set l then Some (remove1 e l) else None)"

text \<open>The documented behaviour determines the two operations on sorted lists.\<close>

lemma sorted_list_ops_add:
  assumes "sorted_list_ops add rem" and "sorted l"
  shows "add e l = insort e l"
proof -
  from assms have "mset (add e l) = mset (e # l)" and "sorted (add e l)"
    by (simp_all add: sorted_list_ops_def)
  from properties_for_sort [OF this] show ?thesis using assms(2) by (simp add: sorted_sort_id)
qed

lemma sorted_list_ops_remove:
  assumes "sorted_list_ops add rem" and "sorted l"
  shows "rem e l = list_remove e l"
proof -
  have h: "case rem e l of None \<Rightarrow> e \<notin> set l
      | Some l' \<Rightarrow> e \<in> set l \<and> sorted l' \<and> mset l' = mset l - {#e#}"
    using assms unfolding sorted_list_ops_def by blast
  show ?thesis
  proof (cases "rem e l")
  case None
  with h show ?thesis by (simp add: list_remove_def)
next
  case (Some l')
  with h have "e \<in> set l" "sorted l'" "mset l' = mset (remove1 e l)" by simp_all
  then have "l' = remove1 e l"
    using properties_for_sort [of l' "remove1 e l"] assms(2) by (simp add: sorted_sort_id sorted_remove1)
  with Some \<open>e \<in> set l\<close> show ?thesis by (simp add: list_remove_def)
  qed
qed

lemma sorted_list_ops_reference: "sorted_list_ops insort list_remove"
  by (auto simp: sorted_list_ops_def list_remove_def sorted_insort sorted_remove1)

section \<open>The class\<close>

record ('k, 'v) ttl_cache =
  tc_data :: "('k, ('k, 'v) cache_entry) dict"
  tc_expiry_list :: "('k, 'v) cache_entry list"

definition empty_cache :: "('k, 'v) ttl_cache" where
  "empty_cache = \<lparr>tc_data = [], tc_expiry_list = []\<rparr>"

text \<open>The loop of \<open>expire\<close>; it stops with a \<open>KeyError\<close> if a listed entry is not in the dictionary.\<close>

fun expire_loop :: "rat \<Rightarrow> ('k, ('k, 'v) cache_entry) dict \<Rightarrow> ('k, 'v) cache_entry list \<Rightarrow>
    unit res \<times> ('k, 'v) ttl_cache" where
  "expire_loop now data [] = (Inr (), \<lparr>tc_data = data, tc_expiry_list = []\<rparr>)"
| "expire_loop now data (first_entry # rest) =
     (if expiry_time first_entry - now > 0
      then (Inr (), \<lparr>tc_data = data, tc_expiry_list = first_entry # rest\<rparr>)
      else if \<not> dict_has data (entry_key first_entry)
      then (Inl KeyError, \<lparr>tc_data = data, tc_expiry_list = first_entry # rest\<rparr>)
      else expire_loop now (dict_del data (entry_key first_entry)) rest)"

definition cache_expire :: "rat \<Rightarrow> ('k, 'v) ttl_cache \<Rightarrow> unit res \<times> ('k, 'v) ttl_cache" where
  "cache_expire now c = expire_loop now (tc_data c) (tc_expiry_list c)"

definition cache_set ::
    "(('k, 'v) cache_entry \<Rightarrow> ('k, 'v) cache_entry list \<Rightarrow> ('k, 'v) cache_entry list) \<Rightarrow>
     (('k, 'v) cache_entry \<Rightarrow> ('k, 'v) cache_entry list \<Rightarrow> ('k, 'v) cache_entry list option) \<Rightarrow>
     rat \<Rightarrow> 'k \<Rightarrow> 'v \<Rightarrow> rat \<Rightarrow> ('k, 'v) ttl_cache \<Rightarrow> unit res \<times> ('k, 'v) ttl_cache" where
  "cache_set add rem now key value ttl c =
     (let expiry = now + ttl in
      case cache_expire now c of
        (Inl err, c') \<Rightarrow> (Inl err, c')
      | (Inr _, c') \<Rightarrow>
         (let data' = dict_del (tc_data c') key;
              c'' = c'\<lparr>tc_data := data'\<rparr>;
              insert_entry = (\<lambda>l.
                (let entry = CacheEntry expiry key value
                 in (Inr (), \<lparr>tc_data = dict_set data' key entry, tc_expiry_list = add entry l\<rparr>)))
          in case dict_get (tc_data c') key of
               None \<Rightarrow> insert_entry (tc_expiry_list c')
             | Some e \<Rightarrow>
                 (case rem e (tc_expiry_list c') of
                    None \<Rightarrow> (Inl ValueError, c'')
                  | Some l \<Rightarrow> insert_entry l)))"

definition cache_get ::
    "rat \<Rightarrow> 'k \<Rightarrow> 'v option \<Rightarrow> ('k, 'v) ttl_cache \<Rightarrow> 'v res \<times> ('k, 'v) ttl_cache" where
  "cache_get now key dflt c =
     (case cache_expire now c of
        (Inl err, c') \<Rightarrow> (Inl err, c')
      | (Inr _, c') \<Rightarrow>
          (case dict_get (tc_data c') key of
             None \<Rightarrow> (case dflt of None \<Rightarrow> (Inl KeyError, c') | Some d \<Rightarrow> (Inr d, c'))
           | Some e \<Rightarrow> (Inr (entry_value e), c')))"

definition cache_get_with_expiry ::
    "rat \<Rightarrow> 'k \<Rightarrow> ('k, 'v) ttl_cache \<Rightarrow> ('v \<times> rat) res \<times> ('k, 'v) ttl_cache" where
  "cache_get_with_expiry now key c =
     (case cache_expire now c of
        (Inl err, c') \<Rightarrow> (Inl err, c')
      | (Inr _, c') \<Rightarrow>
          (case dict_get (tc_data c') key of
             None \<Rightarrow> (Inl KeyError, c')
           | Some e \<Rightarrow> (Inr (entry_value e, expiry_time e), c')))"

definition cache_pop ::
    "(('k, 'v) cache_entry \<Rightarrow> ('k, 'v) cache_entry list \<Rightarrow> ('k, 'v) cache_entry list option) \<Rightarrow>
     rat \<Rightarrow> 'k \<Rightarrow> 'v option \<Rightarrow> ('k, 'v) ttl_cache \<Rightarrow> 'v res \<times> ('k, 'v) ttl_cache" where
  "cache_pop rem now key dflt c =
     (case cache_expire now c of
        (Inl err, c') \<Rightarrow> (Inl err, c')
      | (Inr _, c') \<Rightarrow>
          (case dict_get (tc_data c') key of
             None \<Rightarrow> (case dflt of None \<Rightarrow> (Inl KeyError, c') | Some d \<Rightarrow> (Inr d, c'))
           | Some e \<Rightarrow>
               (let c'' = c'\<lparr>tc_data := dict_del (tc_data c') key\<rparr>
                in case rem e (tc_expiry_list c') of
                     None \<Rightarrow> (Inl ValueError, c'')
                   | Some l \<Rightarrow> (Inr (entry_value e), c''\<lparr>tc_expiry_list := l\<rparr>))))"

definition cache_getitem :: "rat \<Rightarrow> 'k \<Rightarrow> ('k, 'v) ttl_cache \<Rightarrow> 'v res \<times> ('k, 'v) ttl_cache" where
  "cache_getitem now key c = cache_get now key None c"

definition cache_delitem ::
    "(('k, 'v) cache_entry \<Rightarrow> ('k, 'v) cache_entry list \<Rightarrow> ('k, 'v) cache_entry list option) \<Rightarrow>
     rat \<Rightarrow> 'k \<Rightarrow> ('k, 'v) ttl_cache \<Rightarrow> unit res \<times> ('k, 'v) ttl_cache" where
  "cache_delitem rem now key c =
     (case cache_pop rem now key None c of (Inl err, c') \<Rightarrow> (Inl err, c') | (Inr _, c') \<Rightarrow> (Inr (), c'))"

text \<open>\<open>__contains__\<close> does not run the expiry: it may answer for an entry that is due.\<close>

definition cache_contains :: "'k \<Rightarrow> ('k, 'v) ttl_cache \<Rightarrow> bool" where
  "cache_contains key c = dict_has (tc_data c) key"

definition cache_len :: "rat \<Rightarrow> ('k, 'v) ttl_cache \<Rightarrow> nat res \<times> ('k, 'v) ttl_cache" where
  "cache_len now c =
     (case cache_expire now c of
        (Inl err, c') \<Rightarrow> (Inl err, c')
      | (Inr _, c') \<Rightarrow> (Inr (length (tc_data c')), c'))"

section \<open>The two indexes stay in step\<close>

definition cache_inv :: "('k::linorder, 'v::linorder) ttl_cache \<Rightarrow> bool" where
  "cache_inv c = (sorted (tc_expiry_list c) \<and> dict_wf (tc_data c) \<and>
     (\<forall>(k, e) \<in> set (tc_data c). entry_key e = k) \<and>
     mset (tc_expiry_list c) = mset (map snd (tc_data c)))"

text \<open>The map the class stands for, and what running the expiry means for it.\<close>

definition cache_view :: "('k, 'v) ttl_cache \<Rightarrow> 'k \<Rightarrow> ('v \<times> rat) option" where
  "cache_view c k = map_option (\<lambda>e. (entry_value e, expiry_time e)) (dict_get (tc_data c) k)"

definition prune :: "rat \<Rightarrow> ('k \<Rightarrow> ('v \<times> rat) option) \<Rightarrow> 'k \<Rightarrow> ('v \<times> rat) option" where
  "prune now m k = (case m k of None \<Rightarrow> None | Some (v, x) \<Rightarrow> if now < x then Some (v, x) else None)"

lemma cache_inv_empty: "cache_inv empty_cache"
  by (simp add: cache_inv_def empty_cache_def)

lemma cache_inv_mem:
  assumes "cache_inv c"
  shows "e \<in> set (tc_expiry_list c) \<longleftrightarrow> (entry_key e, e) \<in> set (tc_data c)"
proof -
  from assms have "set (tc_expiry_list c) = snd ` set (tc_data c)"
    unfolding cache_inv_def by (metis list.set_map set_mset_mset)
  then show ?thesis using assms by (force simp: cache_inv_def)
qed

lemma cache_inv_get:
  assumes "cache_inv c" and "dict_get (tc_data c) k = Some e"
  shows "e \<in> set (tc_expiry_list c)" and "entry_key e = k"
proof -
  from assms(2) have "(k, e) \<in> set (tc_data c)" by (rule map_of_SomeD)
  then show "entry_key e = k" using assms(1) by (auto simp: cache_inv_def)
  with \<open>(k, e) \<in> set (tc_data c)\<close> show "e \<in> set (tc_expiry_list c)"
    using cache_inv_mem [OF assms(1)] by simp
qed

lemma dict_del_mset:
  "dict_wf d \<Longrightarrow> dict_get d k = Some e \<Longrightarrow> mset (map snd (dict_del d k)) = mset (map snd d) - {#e#}"
proof (induction d)
  case (Cons p d)
  obtain a b where p: "p = (a, b)" by fastforce
  show ?case
  proof (cases "a = k")
    case True
    with Cons.prems p have "dict_del d k = d"
      unfolding dict_del_def by (intro filter_True) (auto simp: rev_image_eqI)
    with True Cons.prems p show ?thesis by (simp add: dict_del_def)
  next
    case False
    with Cons.prems p have "e \<in># mset (map snd d)"
      by (auto dest!: map_of_SomeD) (metis image_eqI snd_conv)
    with False Cons p show ?thesis by (simp add: dict_del_def)
  qed
qed simp

lemma cache_inv_del:
  assumes "cache_inv c" and "dict_get (tc_data c) k = Some e"
  shows "cache_inv \<lparr>tc_data = dict_del (tc_data c) k, tc_expiry_list = remove1 e (tc_expiry_list c)\<rparr>"
  using assms dict_del_mset [of "tc_data c" k e]
  by (auto simp: cache_inv_def sorted_remove1 dict_wf_del) (auto simp: dict_del_def)

lemma cache_inv_add:
  assumes "cache_inv c" and "dict_get (tc_data c) k = None"
  shows "cache_inv \<lparr>tc_data = dict_set (tc_data c) k (CacheEntry x k v),
      tc_expiry_list = insort (CacheEntry x k v) (tc_expiry_list c)\<rparr>"
proof -
  from assms(2) have "k \<notin> fst ` set (tc_data c)" by (simp add: map_of_eq_None_iff)
  then have "dict_set (tc_data c) k (CacheEntry x k v) = tc_data c @ [(k, CacheEntry x k v)]"
    by (rule dict_set_fresh)
  with assms \<open>k \<notin> fst ` set (tc_data c)\<close> show ?thesis
    by (auto simp: cache_inv_def sorted_insort)
qed

lemma expire_loop_spec:
  assumes "cache_inv \<lparr>tc_data = data, tc_expiry_list = l\<rparr>"
  shows "\<exists>c'. expire_loop now data l = (Inr (), c') \<and> cache_inv c' \<and>
    cache_view c' = prune now (cache_view \<lparr>tc_data = data, tc_expiry_list = l\<rparr>)"
  using assms
proof (induction now data l rule: expire_loop.induct)
  case (1 now data)
  then show ?case by (auto simp: cache_inv_def cache_view_def prune_def fun_eq_iff)
next
  case (2 now data e rest)
  let ?c = "\<lparr>tc_data = data, tc_expiry_list = e # rest\<rparr>"
  show ?case
  proof (cases "expiry_time e - now > 0")
    case True
    have "now < expiry_time e'" if "dict_get data k = Some e'" for k e'
    proof -
      have "e' \<in> set (e # rest)" using cache_inv_get(1) [OF "2.prems", of k e'] that by simp
      with "2.prems" have "e \<le> e'" by (auto simp: cache_inv_def)
      with True entry_le_expiry show ?thesis by fastforce
    qed
    then have "prune now (cache_view ?c) = cache_view ?c"
      by (auto simp: prune_def cache_view_def fun_eq_iff split: option.splits)
    with True "2.prems" show ?thesis by simp
  next
    case False
    from cache_inv_mem [OF "2.prems", of e] have mem: "(entry_key e, e) \<in> set data" by simp
    then have get: "dict_get data (entry_key e) = Some e"
      using "2.prems" by (simp add: cache_inv_def)
    then have has: "dict_has data (entry_key e)" by (simp add: dict_has_iff)
    have "cache_inv \<lparr>tc_data = dict_del data (entry_key e), tc_expiry_list = rest\<rparr>"
      using cache_inv_del [OF "2.prems", of "entry_key e" e] get by simp
    from "2.IH" [OF False _ this] has obtain c' where
      c': "expire_loop now (dict_del data (entry_key e)) rest = (Inr (), c')" "cache_inv c'"
        "cache_view c' = prune now (cache_view \<lparr>tc_data = dict_del data (entry_key e), tc_expiry_list = rest\<rparr>)"
      by auto
    have "prune now (cache_view \<lparr>tc_data = dict_del data (entry_key e), tc_expiry_list = rest\<rparr>)
        = prune now (cache_view ?c)"
      using False get by (auto simp: prune_def cache_view_def fun_eq_iff dict_get_del)
    with False has c' show ?thesis by simp
  qed
qed

lemma cache_expire_spec:
  assumes "cache_inv c"
  obtains c' where "cache_expire now c = (Inr (), c')" and "cache_inv c'"
    and "cache_view c' = prune now (cache_view c)"
  using expire_loop_spec [of "tc_data c" "tc_expiry_list c" now] assms
  by (auto simp: cache_expire_def cache_view_def [abs_def] cache_inv_def)

lemma cache_set_spec:
  assumes "sorted_list_ops add rem" and "cache_inv c"
  obtains c' where "cache_set add rem now k v ttl c = (Inr (), c')" and "cache_inv c'"
    and "cache_view c' = (prune now (cache_view c))(k \<mapsto> (v, now + ttl))"
proof -
  let ?e = "CacheEntry (now + ttl) k v"
  obtain c1 where c1: "cache_expire now c = (Inr (), c1)" "cache_inv c1"
    "cache_view c1 = prune now (cache_view c)"
    using cache_expire_spec [OF assms(2)] by blast
  let ?d = "dict_del (tc_data c1) k"
  define l where "l = (case dict_get (tc_data c1) k of
     None \<Rightarrow> tc_expiry_list c1 | Some e \<Rightarrow> remove1 e (tc_expiry_list c1))"
  have inv: "cache_inv \<lparr>tc_data = ?d, tc_expiry_list = l\<rparr>"
  proof (cases "dict_get (tc_data c1) k")
    case None
    then have "?d = tc_data c1"
      unfolding dict_del_def by (intro filter_True) (auto simp: map_of_eq_None_iff)
    with None c1(2) show ?thesis by (simp add: l_def cache_inv_def)
  next
    case (Some e)
    then show ?thesis using cache_inv_del [OF c1(2)] by (simp add: l_def)
  qed
  then have srt: "sorted l" and srt1: "sorted (tc_expiry_list c1)"
    using c1(2) by (auto simp: cache_inv_def)
  let ?c = "\<lparr>tc_data = dict_set ?d k ?e, tc_expiry_list = insort ?e l\<rparr>"
  have "cache_set add rem now k v ttl c = (Inr (), ?c)"
    using c1(1) cache_inv_get(1) [OF c1(2)] srt
    by (auto simp: cache_set_def Let_def l_def list_remove_def sorted_list_ops_add [OF assms(1)]
        sorted_list_ops_remove [OF assms(1) srt1] split: option.splits)
  moreover have "cache_inv ?c" using cache_inv_add [OF inv] by (simp add: dict_get_del)
  moreover have "cache_view ?c = (prune now (cache_view c))(k \<mapsto> (v, now + ttl))"
    using c1(3) by (auto simp: cache_view_def fun_eq_iff dict_get_del)
  ultimately show ?thesis using that by blast
qed

lemma cache_get_spec:
  assumes "cache_inv c"
  obtains c' where "cache_get now k dflt c =
      ((case (prune now (cache_view c) k, dflt) of
          (Some (v, x), _) \<Rightarrow> Inr v | (None, Some d) \<Rightarrow> Inr d | (None, None) \<Rightarrow> Inl KeyError), c')"
    and "cache_inv c'" and "cache_view c' = prune now (cache_view c)"
proof -
  obtain c1 where c1: "cache_expire now c = (Inr (), c1)" "cache_inv c1"
    "cache_view c1 = prune now (cache_view c)"
    using cache_expire_spec [OF assms] by blast
  then show ?thesis
    by (intro that [of c1])
       (auto simp: cache_get_def cache_view_def split: option.splits simp flip: c1(3))
qed

lemma cache_get_with_expiry_spec:
  assumes "cache_inv c"
  obtains c' where "cache_get_with_expiry now k c =
      ((case prune now (cache_view c) k of Some p \<Rightarrow> Inr p | None \<Rightarrow> Inl KeyError), c')"
    and "cache_inv c'" and "cache_view c' = prune now (cache_view c)"
proof -
  obtain c1 where c1: "cache_expire now c = (Inr (), c1)" "cache_inv c1"
    "cache_view c1 = prune now (cache_view c)"
    using cache_expire_spec [OF assms] by blast
  then show ?thesis
    by (intro that [of c1])
       (auto simp: cache_get_with_expiry_def cache_view_def split: option.splits simp flip: c1(3))
qed

lemma cache_pop_spec:
  assumes "sorted_list_ops add rem" and "cache_inv c"
  obtains c' where "cache_pop rem now k dflt c =
      ((case (prune now (cache_view c) k, dflt) of
          (Some (v, x), _) \<Rightarrow> Inr v | (None, Some d) \<Rightarrow> Inr d | (None, None) \<Rightarrow> Inl KeyError), c')"
    and "cache_inv c'" and "cache_view c' = (prune now (cache_view c))(k := None)"
proof -
  obtain c1 where c1: "cache_expire now c = (Inr (), c1)" "cache_inv c1"
    "cache_view c1 = prune now (cache_view c)"
    using cache_expire_spec [OF assms(2)] by blast
  have srt: "sorted (tc_expiry_list c1)" using c1(2) by (simp add: cache_inv_def)
  show ?thesis
  proof (cases "dict_get (tc_data c1) k")
    case None
    then have "prune now (cache_view c) k = None" by (simp add: cache_view_def flip: c1(3))
    moreover from this have "(prune now (cache_view c))(k := None) = prune now (cache_view c)"
      by (simp add: fun_upd_idem)
    ultimately show ?thesis
      using None c1 by (intro that [of c1]) (auto simp: cache_pop_def split: option.splits)
  next
    case (Some e)
    let ?c = "\<lparr>tc_data = dict_del (tc_data c1) k, tc_expiry_list = remove1 e (tc_expiry_list c1)\<rparr>"
    have "prune now (cache_view c) k = Some (entry_value e, expiry_time e)"
      using Some by (simp add: cache_view_def flip: c1(3))
    moreover have "cache_view ?c = (prune now (cache_view c))(k := None)"
      by (auto simp: cache_view_def fun_eq_iff dict_get_del simp flip: c1(3))
    ultimately show ?thesis
      using Some c1 cache_inv_get(1) [OF c1(2) Some] cache_inv_del [OF c1(2) Some]
      by (intro that [of ?c])
         (auto simp: cache_pop_def sorted_list_ops_remove [OF assms(1) srt] list_remove_def Let_def)
  qed
qed

lemma cache_len_spec:
  assumes "cache_inv c"
  obtains c' where "cache_len now c = (Inr (card (dom (prune now (cache_view c)))), c')"
    and "cache_inv c'" and "cache_view c' = prune now (cache_view c)"
proof -
  obtain c1 where c1: "cache_expire now c = (Inr (), c1)" "cache_inv c1"
    "cache_view c1 = prune now (cache_view c)"
    using cache_expire_spec [OF assms] by blast
  have "dom (cache_view c1) = fst ` set (tc_data c1)"
    by (auto simp: cache_view_def dom_def map_of_eq_None_iff)
  moreover have "card (fst ` set (tc_data c1)) = length (tc_data c1)"
    using c1(2) unfolding cache_inv_def by (metis distinct_card length_map list.set_map)
  ultimately show ?thesis
    using c1(1,2) by (intro that [of c1]) (simp_all add: cache_len_def flip: c1(3))
qed

section \<open>What clients rely on\<close>

text \<open>
  A cache as its clients see it: \<open>put\<close> stores a value for a period, \<open>fetch\<close> returns the
  stored value while the period lasts. Entries of other keys do not interfere.
\<close>

locale timed_store =
  fixes put :: "rat \<Rightarrow> 'k \<Rightarrow> 'v \<Rightarrow> rat \<Rightarrow> 's \<Rightarrow> 's"
    and fetch :: "rat \<Rightarrow> 'k \<Rightarrow> 's \<Rightarrow> ('v \<times> rat) option \<times> 's"
    and view :: "'s \<Rightarrow> 'k \<Rightarrow> ('v \<times> rat) option"
    and good :: "'s \<Rightarrow> bool"
  assumes put_good: "good s \<Longrightarrow> good (put now k v ttl s)"
    and put_view: "good s \<Longrightarrow> view (put now k v ttl s) = (prune now (view s))(k \<mapsto> (v, now + ttl))"
    and fetch_good: "good s \<Longrightarrow> good (snd (fetch now k s))"
    and fetch_view: "good s \<Longrightarrow> view (snd (fetch now k s)) = prune now (view s)"
    and fetch_result: "good s \<Longrightarrow> fst (fetch now k s) = prune now (view s) k"
begin

lemma fetch_put:
  assumes "good s" and "now \<le> now'" and "now' < now + ttl"
  shows "fst (fetch now' k (put now k v ttl s)) = Some (v, now + ttl)"
  using assms by (simp add: fetch_result put_good put_view prune_def)

lemma fetch_put_expired:
  assumes "good s" and "now + ttl \<le> now'"
  shows "fst (fetch now' k (put now k v ttl s)) = None"
  using assms by (simp add: fetch_result put_good put_view prune_def)

lemma fetch_put_other:
  assumes "good s" and "j \<noteq> k" and "now \<le> now'"
  shows "fst (fetch now' j (put now k v ttl s)) = fst (fetch now' j s)"
  using assms by (auto simp: fetch_result put_good put_view prune_def split: option.splits)

lemma fetch_fetch:
  assumes "good s" and "now \<le> now'"
  shows "fst (fetch now' j (snd (fetch now k s))) = fst (fetch now' j s)"
  using assms by (auto simp: fetch_result fetch_good fetch_view prune_def split: option.splits)

end

definition cache_put ::
    "rat \<Rightarrow> 'k \<Rightarrow> 'v \<Rightarrow> rat \<Rightarrow> ('k::linorder, 'v::linorder) ttl_cache \<Rightarrow> ('k, 'v) ttl_cache" where
  "cache_put now k v ttl c = snd (cache_set insort list_remove now k v ttl c)"

definition cache_fetch ::
    "rat \<Rightarrow> 'k \<Rightarrow> ('k, 'v) ttl_cache \<Rightarrow> ('v \<times> rat) option \<times> ('k, 'v) ttl_cache" where
  "cache_fetch now k c = (case cache_get_with_expiry now k c of
     (Inl err, c') \<Rightarrow> (None, c') | (Inr p, c') \<Rightarrow> (Some p, c'))"

interpretation tc: timed_store cache_put cache_fetch cache_view cache_inv
proof
  fix s :: "('k::linorder, 'v::linorder) ttl_cache" and now k v ttl
  assume s: "cache_inv s"
  show "cache_inv (cache_put now k v ttl s)"
    by (rule cache_set_spec [OF sorted_list_ops_reference s, of now k v ttl]) (simp add: cache_put_def)
  show "cache_view (cache_put now k v ttl s) = (prune now (cache_view s))(k \<mapsto> (v, now + ttl))"
    by (rule cache_set_spec [OF sorted_list_ops_reference s, of now k v ttl]) (simp add: cache_put_def)
  show "cache_inv (snd (cache_fetch now k s))"
    by (rule cache_get_with_expiry_spec [OF s, of now k]) (auto simp: cache_fetch_def split: option.splits)
  show "cache_view (snd (cache_fetch now k s)) = prune now (cache_view s)"
    by (rule cache_get_with_expiry_spec [OF s, of now k]) (auto simp: cache_fetch_def split: option.splits)
  show "fst (cache_fetch now k s) = prune now (cache_view s) k"
    by (rule cache_get_with_expiry_spec [OF s, of now k]) (auto simp: cache_fetch_def split: option.splits)
qed

section \<open>Properties\<close>

datatype ('k, 'v) cache_op =
    CacheSet 'k 'v rat | CacheGet 'k "'v option" | CacheGetWithExpiry 'k | CachePop 'k "'v option"
  | CacheContains 'k | CacheLen

datatype 'v cache_out =
    OutUnit | OutValue 'v | OutValueExpiry "'v \<times> rat" | OutBool bool | OutLen nat | OutError exn

definition out_of :: "('a \<Rightarrow> 'v cache_out) \<Rightarrow> 'a res \<times> 's \<Rightarrow> 'v cache_out \<times> 's" where
  "out_of f r = (case r of (Inl err, s) \<Rightarrow> (OutError err, s) | (Inr x, s) \<Rightarrow> (f x, s))"

fun cache_step where
  "cache_step add rem now (CacheSet k v ttl) c = out_of (\<lambda>_. OutUnit) (cache_set add rem now k v ttl c)"
| "cache_step add rem now (CacheGet k d) c = out_of OutValue (cache_get now k d c)"
| "cache_step add rem now (CacheGetWithExpiry k) c = out_of OutValueExpiry (cache_get_with_expiry now k c)"
| "cache_step add rem now (CachePop k d) c = out_of OutValue (cache_pop rem now k d c)"
| "cache_step add rem now (CacheContains k) c = (OutBool (cache_contains k c), c)"
| "cache_step add rem now CacheLen c = out_of OutLen (cache_len now c)"

definition or_default :: "('v \<times> rat) option \<Rightarrow> 'v option \<Rightarrow> 'v cache_out" where
  "or_default r d = (case (r, d) of
     (Some (v, x), _) \<Rightarrow> OutValue v | (None, Some d') \<Rightarrow> OutValue d' | (None, None) \<Rightarrow> OutError KeyError)"

text \<open>The specification: one map from keys to values with expiry times.\<close>

fun spec_step :: "rat \<Rightarrow> ('k, 'v) cache_op \<Rightarrow> ('k \<Rightarrow> ('v \<times> rat) option) \<Rightarrow>
    'v cache_out \<times> ('k \<Rightarrow> ('v \<times> rat) option)" where
  "spec_step now (CacheSet k v ttl) m = (OutUnit, (prune now m)(k \<mapsto> (v, now + ttl)))"
| "spec_step now (CacheGet k d) m = (or_default (prune now m k) d, prune now m)"
| "spec_step now (CacheGetWithExpiry k) m =
     (case prune now m k of None \<Rightarrow> OutError KeyError | Some p \<Rightarrow> OutValueExpiry p, prune now m)"
| "spec_step now (CachePop k d) m = (or_default (prune now m k) d, (prune now m)(k := None))"
| "spec_step now (CacheContains k) m = (OutBool (m k \<noteq> None), m)"
| "spec_step now CacheLen m = (OutLen (card (dom (prune now m))), prune now m)"

fun run_ops :: "(rat \<Rightarrow> 'o \<Rightarrow> 's \<Rightarrow> 'r \<times> 's) \<Rightarrow> (rat \<times> 'o) list \<Rightarrow> 's \<Rightarrow> 'r list" where
  "run_ops step [] s = []"
| "run_ops step ((now, op) # ops) s = (case step now op s of (r, s') \<Rightarrow> r # run_ops step ops s')"

lemma cache_step_refines:
  assumes "sorted_list_ops add rem" and "cache_inv c"
  obtains c' where "cache_step add rem now op c = (fst (spec_step now op (cache_view c)), c')"
    and "cache_inv c'" and "cache_view c' = snd (spec_step now op (cache_view c))"
proof (cases op)
  case (CacheSet k v ttl)
  show ?thesis
    by (rule cache_set_spec [OF assms, of now k v ttl])
       (auto intro!: that simp: CacheSet out_of_def)
next
  case (CacheGet k d)
  show ?thesis
    by (rule cache_get_spec [OF assms(2), of now k d])
       (auto intro!: that simp: CacheGet out_of_def or_default_def split: option.splits prod.splits)
next
  case (CacheGetWithExpiry k)
  show ?thesis
    by (rule cache_get_with_expiry_spec [OF assms(2), of now k])
       (auto intro!: that simp: CacheGetWithExpiry out_of_def split: option.splits)
next
  case (CachePop k d)
  show ?thesis
    by (rule cache_pop_spec [OF assms, of now k d])
       (auto intro!: that simp: CachePop out_of_def or_default_def split: option.splits prod.splits)
next
  case (CacheContains k)
  show ?thesis
    by (rule that [of c]) (auto simp: CacheContains cache_contains_def dict_has_iff cache_view_def assms)
next
  case CacheLen
  show ?thesis
    by (rule cache_len_spec [OF assms(2), of now]) (auto intro!: that simp: CacheLen out_of_def)
qed

text \<open>C18: the cache, with its two indexes, answers every sequence of operations as the plain map with
  expiry times does; in particular its internal deletions never raise, an entry
  is returned exactly while its period lasts, and the length counts the live entries.\<close>

theorem cache_refines_map:
  fixes add :: "('k::linorder, 'v::linorder) cache_entry \<Rightarrow> _"
  assumes "sorted_list_ops add rem"
  shows "run_ops (cache_step add rem) ops empty_cache = run_ops spec_step ops (\<lambda>_. None)"
proof -
  have "run_ops (cache_step add rem) ops c = run_ops spec_step ops (cache_view c)"
    if "cache_inv c" for c
    using that
  proof (induction ops arbitrary: c)
    case (Cons o' ops)
    obtain now op where o': "o' = (now, op)" by fastforce
    obtain c' where c': "cache_step add rem now op c = (fst (spec_step now op (cache_view c)), c')"
      "cache_inv c'" "cache_view c' = snd (spec_step now op (cache_view c))"
      by (rule cache_step_refines [OF assms Cons.prems, of now op])
    then show ?case using Cons.IH [OF c'(2)] o' by (simp split: prod.splits)
  qed simp
  from this [OF cache_inv_empty] show ?thesis by (simp add: empty_cache_def cache_view_def [abs_def])
qed

theorem cache_refines_map_witness:
  "run_ops (cache_step insort list_remove)
     [(0, CacheSet (1::nat) (7::nat) 5), (4, CacheGet 1 None), (5, CacheGet 1 None)] empty_cache
   = [OutUnit, OutValue 7, OutError KeyError]"
  using cache_refines_map [OF sorted_list_ops_reference,
      of "[(0, CacheSet (1::nat) (7::nat) 5), (4, CacheGet 1 None), (5, CacheGet 1 None)]"]
  by (simp add: prune_def or_default_def)

end
