(* ===== verification/Val_Session_Store.thy ===== *)
theory Val_Session_Store
  imports StringUtils
begin

text \<open>
  \<open>sydent/db/valsession.py\<close> and \<open>sydent/validators/common.py\<close>: the sessions in which a user
  proves to own a third-party identifier. A session is created unvalidated together with
  a secret token that is sent to the address; presenting the token validates it.
\<close>

section \<open>Data\<close>

definition THREEPID_SESSION_VALIDATION_TIMEOUT_MS :: int where
  "THREEPID_SESSION_VALIDATION_TIMEOUT_MS = 24 * 60 * 60 * 1000"

definition THREEPID_SESSION_VALID_LIFETIME_MS :: int where
  "THREEPID_SESSION_VALID_LIFETIME_MS = 24 * 60 * 60 * 1000"

record val_session =
  vs_id :: int
  vs_medium :: string
  vs_address :: string
  vs_client_secret :: string
  vs_validated :: bool
  vs_mtime :: int

record token_info =
  ti_token :: string
  ti_send_attempt_number :: int

text \<open>The two tables. The key of a row of tokens is the one SQLite assigns: one more than the largest.\<close>

record token_row =
  t_id :: int
  t_validationSession :: int
  t_token :: string
  t_sendAttemptNumber :: int

record session_db =
  sd_sessions :: "val_session list"
  sd_tokens :: "token_row list"

definition empty_sessions :: session_db where
  "empty_sessions = \<lparr>sd_sessions = [], sd_tokens = []\<rparr>"

definition next_rowid :: "int list \<Rightarrow> int" where
  "next_rowid ids = fold max ids 0 + 1"

definition row_token_info :: "token_row \<Rightarrow> token_info" where
  "row_token_info t = \<lparr>ti_token = t_token t, ti_send_attempt_number = t_sendAttemptNumber t\<rparr>"

section \<open>Operations of the store\<close>

definition joined :: "(val_session \<Rightarrow> bool) \<Rightarrow> session_db \<Rightarrow> (val_session \<times> token_row) list" where
  "joined P db = concat (map (\<lambda>s. map (\<lambda>t. (s, t))
     (filter (\<lambda>t. t_validationSession t = vs_id s) (sd_tokens db))) (filter P (sd_sessions db)))"

definition fetchone :: "'a list \<Rightarrow> 'a option" where
  "fetchone rows = (case rows of [] \<Rightarrow> None | r # _ \<Rightarrow> Some r)"

definition addValSession ::
    "string \<Rightarrow> string \<Rightarrow> string \<Rightarrow> int \<Rightarrow> nat \<Rightarrow> session_db \<Rightarrow> int res \<times> session_db" where
  "addValSession medium address clientSecret mtime rnd db =
     (let sid = randint 0 (2 ^ 31) rnd in
      if sid \<in> set (map vs_id (sd_sessions db)) then (Inl IntegrityError, db)
      else (Inr sid, db\<lparr>sd_sessions := sd_sessions db @
        [\<lparr>vs_id = sid, vs_medium = medium, vs_address = address, vs_client_secret = clientSecret,
          vs_validated = False, vs_mtime = mtime\<rparr>]\<rparr>))"

definition getOrCreateTokenSession ::
    "string \<Rightarrow> string \<Rightarrow> string \<Rightarrow> int \<Rightarrow> nat \<Rightarrow> (nat \<Rightarrow> nat) \<Rightarrow> session_db \<Rightarrow>
     (val_session \<times> token_info) res \<times> session_db" where
  "getOrCreateTokenSession medium address clientSecret now rnd r db =
     (case fetchone (joined (\<lambda>s. vs_medium s = medium \<and> vs_address s = address \<and>
              vs_client_secret s = clientSecret) db) of
        Some (s, t) \<Rightarrow> (Inr (s, row_token_info t), db)
      | None \<Rightarrow>
          (case addValSession medium address clientSecret now rnd db of
             (Inl e, db') \<Rightarrow> (Inl e, db')
           | (Inr sid, db') \<Rightarrow>
               (let tokenString = generateTokenForMedium r medium;
                    row = \<lparr>t_id = next_rowid (map t_id (sd_tokens db')), t_validationSession = sid,
                           t_token = tokenString, t_sendAttemptNumber = -1\<rparr>
                in (Inr (\<lparr>vs_id = sid, vs_medium = medium, vs_address = address,
                          vs_client_secret = clientSecret, vs_validated = False, vs_mtime = now\<rparr>,
                         \<lparr>ti_token = tokenString, ti_send_attempt_number = -1\<rparr>),
                    db'\<lparr>sd_tokens := sd_tokens db' @ [row]\<rparr>))))"

text \<open>The statement selects the row of tokens by its own key, not by its session.\<close>

definition setSendAttemptNumber :: "int \<Rightarrow> int \<Rightarrow> session_db \<Rightarrow> session_db" where
  "setSendAttemptNumber sid attemptNo db =
     db\<lparr>sd_tokens := map (\<lambda>t. if t_id t = sid then t\<lparr>t_sendAttemptNumber := attemptNo\<rparr> else t)
          (sd_tokens db)\<rparr>"

definition setValidated :: "int \<Rightarrow> bool \<Rightarrow> session_db \<Rightarrow> session_db" where
  "setValidated sid validated db =
     db\<lparr>sd_sessions := map (\<lambda>s. if vs_id s = sid then s\<lparr>vs_validated := validated\<rparr> else s)
          (sd_sessions db)\<rparr>"

definition setMtime :: "int \<Rightarrow> int \<Rightarrow> session_db \<Rightarrow> session_db" where
  "setMtime sid mtime db =
     db\<lparr>sd_sessions := map (\<lambda>s. if vs_id s = sid then s\<lparr>vs_mtime := mtime\<rparr> else s)
          (sd_sessions db)\<rparr>"

definition getSessionById :: "int \<Rightarrow> session_db \<Rightarrow> val_session option" where
  "getSessionById sid db = fetchone (filter (\<lambda>s. vs_id s = sid) (sd_sessions db))"

definition getTokenSessionById :: "int \<Rightarrow> session_db \<Rightarrow> (val_session \<times> token_info) option" where
  "getTokenSessionById sid db =
     map_option (\<lambda>(s, t). (s, row_token_info t)) (fetchone (joined (\<lambda>s. vs_id s = sid) db))"

definition getValidatedSession :: "int \<Rightarrow> string \<Rightarrow> int \<Rightarrow> session_db \<Rightarrow> val_session res" where
  "getValidatedSession sid client_secret now db =
     (case getSessionById sid db of
        None \<Rightarrow> Inl InvalidSessionIdException
      | Some s \<Rightarrow>
          if vs_client_secret s \<noteq> client_secret then Inl IncorrectClientSecretException
          else if vs_mtime s + THREEPID_SESSION_VALID_LIFETIME_MS < now then Inl SessionExpiredException
          else if \<not> vs_validated s then Inl SessionNotValidatedException
          else Inr s)"

definition deleteOldSessions :: "int \<Rightarrow> session_db \<Rightarrow> session_db" where
  "deleteOldSessions now db =
     (let delete_before_ts = now - 5 * THREEPID_SESSION_VALID_LIFETIME_MS;
          sessions = filter (\<lambda>s. \<not> vs_mtime s < delete_before_ts) (sd_sessions db)
      in \<lparr>sd_sessions = sessions,
          sd_tokens = filter (\<lambda>t. t_validationSession t \<in> set (map vs_id sessions)) (sd_tokens db)\<rparr>)"

text \<open>\<open>validators/common.py\<close>\<close>

definition validateSessionWithToken ::
    "int \<Rightarrow> string \<Rightarrow> string \<Rightarrow> int \<Rightarrow> session_db \<Rightarrow> bool res \<times> session_db" where
  "validateSessionWithToken sid clientSecret token now db =
     (case getTokenSessionById sid db of
        None \<Rightarrow> (Inl InvalidSessionIdException, db)
      | Some (session, info) \<Rightarrow>
          if clientSecret \<noteq> vs_client_secret session then (Inl IncorrectClientSecretException, db)
          else if vs_mtime session + THREEPID_SESSION_VALIDATION_TIMEOUT_MS < now
          then (Inl SessionExpiredException, db)
          else if ti_token info = token then (Inr True, setValidated (vs_id session) True db)
          else (Inl IncorrectSessionTokenException, db))"

section \<open>Invariant\<close>

abbreviation session_key :: "val_session \<Rightarrow> string \<times> string \<times> string" where
  "session_key s \<equiv> (vs_medium s, vs_address s, vs_client_secret s)"

definition session_inv :: "session_db \<Rightarrow> bool" where
  "session_inv db =
     (distinct (map vs_id (sd_sessions db)) \<and> distinct (map session_key (sd_sessions db)) \<and>
      distinct (map t_validationSession (sd_tokens db)) \<and> distinct (map t_id (sd_tokens db)) \<and>
      set (map t_validationSession (sd_tokens db)) = set (map vs_id (sd_sessions db)))"

lemma session_inv_empty [store_inv]: "session_inv empty_sessions"
  by (simp add: session_inv_def empty_sessions_def)

lemma fetchone_SomeD: "fetchone rows = Some r \<Longrightarrow> r \<in> set rows"
  by (auto simp: fetchone_def split: list.splits)

lemma fetchone_None [simp]: "fetchone rows = None \<longleftrightarrow> rows = []"
  by (auto simp: fetchone_def split: list.splits)

lemma joined_mem [simp]:
  "(s, t) \<in> set (joined P db) \<longleftrightarrow>
     s \<in> set (sd_sessions db) \<and> P s \<and> t \<in> set (sd_tokens db) \<and> t_validationSession t = vs_id s"
  by (auto simp: joined_def)

lemma joined_empty:
  assumes "session_inv db"
  shows "joined P db = [] \<longleftrightarrow> (\<forall>s \<in> set (sd_sessions db). \<not> P s)"
proof
  assume e: "joined P db = []"
  show "\<forall>s \<in> set (sd_sessions db). \<not> P s"
  proof
    fix s
    assume s: "s \<in> set (sd_sessions db)"
    then have "vs_id s \<in> set (map t_validationSession (sd_tokens db))"
      using assms by (simp add: session_inv_def)
    then obtain t where t: "t \<in> set (sd_tokens db)" "t_validationSession t = vs_id s" by auto
    show "\<not> P s"
    proof
      assume "P s"
      with s t have "(s, t) \<in> set (joined P db)" by simp
      with e show False by simp
    qed
  qed
next
  assume "\<forall>s \<in> set (sd_sessions db). \<not> P s"
  then show "joined P db = []" by (simp add: joined_def)
qed

lemma next_rowid_fresh:
  assumes "i \<in> set ids"
  shows "i < next_rowid ids"
proof -
  have "i \<le> Max (insert 0 (set ids))" using assms by simp
  then show ?thesis by (simp add: next_rowid_def fold_max_Max)
qed

lemma session_inv_map_session [store_inv]:
  assumes "session_inv db" and "\<And>s. vs_id (f s) = vs_id s" and "\<And>s. session_key (f s) = session_key s"
  shows "session_inv (db\<lparr>sd_sessions := map f (sd_sessions db)\<rparr>)"
  using assms(1) assms(3) by (simp add: session_inv_def comp_def image_image assms(2))

lemma session_inv_map_token [store_inv]:
  assumes "session_inv db" and "\<And>t. t_id (f t) = t_id t"
    and "\<And>t. t_validationSession (f t) = t_validationSession t"
  shows "session_inv (db\<lparr>sd_tokens := map f (sd_tokens db)\<rparr>)"
  using assms(1) by (simp add: session_inv_def comp_def image_image assms(2,3))

lemma session_inv_setValidated [store_inv]: "session_inv db \<Longrightarrow> session_inv (setValidated sid b db)"
  unfolding setValidated_def by (rule session_inv_map_session) auto

lemma session_inv_setMtime [store_inv]: "session_inv db \<Longrightarrow> session_inv (setMtime sid m db)"
  unfolding setMtime_def by (rule session_inv_map_session) auto

lemma session_inv_setSendAttemptNumber [store_inv]:
  "session_inv db \<Longrightarrow> session_inv (setSendAttemptNumber sid n db)"
  unfolding setSendAttemptNumber_def by (rule session_inv_map_token) auto

lemma session_inv_validate [store_inv]:
  "session_inv db \<Longrightarrow> session_inv (snd (validateSessionWithToken sid sec tok now db))"
  by (auto simp: validateSessionWithToken_def session_inv_setValidated split: option.splits)

lemma session_inv_reap [store_inv]:
  assumes "session_inv db"
  shows "session_inv (deleteOldSessions now db)"
proof -
  have img: "f ` {x \<in> A. f x \<in> g ` {y \<in> B. P y}} = g ` {y \<in> B. P y}" if "f ` A = g ` B"
    for f :: "token_row \<Rightarrow> int" and g :: "val_session \<Rightarrow> int" and A B P
  proof
    show "g ` {y \<in> B. P y} \<subseteq> f ` {x \<in> A. f x \<in> g ` {y \<in> B. P y}}"
    proof (rule image_subsetI)
      fix y
      assume y: "y \<in> {y \<in> B. P y}"
      then have "g y \<in> f ` A" using that by blast
      then obtain x where "x \<in> A" "f x = g y" by force
      then show "g y \<in> f ` {x \<in> A. f x \<in> g ` {y \<in> B. P y}}" using y by force
    qed
  qed auto
  show ?thesis
    using assms by (simp add: session_inv_def deleteOldSessions_def Let_def distinct_map_filter img)
qed

lemma session_inv_getOrCreate [store_inv]:
  assumes "session_inv db"
  shows "session_inv (snd (getOrCreateTokenSession m a c now rnd r db))"
proof (cases "joined (\<lambda>s. vs_medium s = m \<and> vs_address s = a \<and> vs_client_secret s = c) db")
  case Nil
  then have "\<forall>s \<in> set (sd_sessions db). session_key s \<noteq> (m, a, c)"
    using joined_empty [OF assms] by simp
  then have k: "(m, a, c) \<notin> session_key ` set (sd_sessions db)" by force
  show ?thesis
    using assms k Nil next_rowid_fresh [of _ "map t_id (sd_tokens db)"]
    by (force simp: getOrCreateTokenSession_def addValSession_def Let_def fetchone_def session_inv_def)
next
  case (Cons p l)
  with assms show ?thesis by (simp add: getOrCreateTokenSession_def fetchone_def split: prod.splits)
qed

section \<open>Reading sessions\<close>

lemma session_unique:
  "session_inv db \<Longrightarrow> s \<in> set (sd_sessions db) \<Longrightarrow> s' \<in> set (sd_sessions db) \<Longrightarrow>
   vs_id s = vs_id s' \<Longrightarrow> s = s'"
  by (auto simp: session_inv_def distinct_map inj_on_def)

lemma token_unique:
  "session_inv db \<Longrightarrow> t \<in> set (sd_tokens db) \<Longrightarrow> t' \<in> set (sd_tokens db) \<Longrightarrow>
   t_validationSession t = t_validationSession t' \<Longrightarrow> t = t'"
  by (auto simp: session_inv_def distinct_map inj_on_def)

lemma session_has_token:
  assumes "session_inv db" and "s \<in> set (sd_sessions db)"
  obtains t where "t \<in> set (sd_tokens db)" and "t_validationSession t = vs_id s"
proof -
  have "vs_id s \<in> set (map t_validationSession (sd_tokens db))"
    using assms by (simp add: session_inv_def)
  then show ?thesis using that by auto
qed

lemma getSessionById_Some:
  assumes "session_inv db"
  shows "getSessionById sid db = Some s \<longleftrightarrow> s \<in> set (sd_sessions db) \<and> vs_id s = sid"
proof
  assume "getSessionById sid db = Some s"
  then show "s \<in> set (sd_sessions db) \<and> vs_id s = sid"
    unfolding getSessionById_def by (auto dest!: fetchone_SomeD)
next
  assume s: "s \<in> set (sd_sessions db) \<and> vs_id s = sid"
  then have "getSessionById sid db \<noteq> None" by (auto simp: getSessionById_def filter_empty_conv)
  then obtain s' where s': "getSessionById sid db = Some s'" by blast
  then have "s' \<in> set (sd_sessions db)" "vs_id s' = sid"
    unfolding getSessionById_def by (auto dest!: fetchone_SomeD)
  with s session_unique [OF assms] have "s' = s" by simp
  with s' show "getSessionById sid db = Some s" by simp
qed

lemma getTokenSessionById_SomeD:
  assumes "getTokenSessionById sid db = Some (s, info)"
  obtains t where "s \<in> set (sd_sessions db)" "vs_id s = sid" "t \<in> set (sd_tokens db)"
    "t_validationSession t = sid" "info = row_token_info t"
  using assms by (auto simp: getTokenSessionById_def dest!: fetchone_SomeD)

lemma getTokenSessionById_eq:
  assumes "session_inv db" and "s \<in> set (sd_sessions db)" and "t \<in> set (sd_tokens db)"
    and "t_validationSession t = vs_id s"
  shows "getTokenSessionById (vs_id s) db = Some (s, row_token_info t)"
proof -
  have "joined (\<lambda>s'. vs_id s' = vs_id s) db \<noteq> []" using joined_empty [OF assms(1)] assms(2) by auto
  then obtain s' t' where st: "fetchone (joined (\<lambda>s'. vs_id s' = vs_id s) db) = Some (s', t')"
    by (metis fetchone_None not_None_eq surj_pair)
  then have "(s', t') \<in> set (joined (\<lambda>s'. vs_id s' = vs_id s) db)" by (rule fetchone_SomeD)
  then have "s' = s" and "t' = t"
    using session_unique [OF assms(1) _ assms(2)] token_unique [OF assms(1) _ assms(3)] assms(4)
    by auto
  with st show ?thesis by (simp add: getTokenSessionById_def)
qed

lemma getOrCreate_Inr:
  assumes "session_inv db" and "getOrCreateTokenSession m a c now rnd r db = (Inr (s, info), db')"
  obtains t where "s \<in> set (sd_sessions db')" "t \<in> set (sd_tokens db')"
    "t_validationSession t = vs_id s" "info = row_token_info t" "session_key s = (m, a, c)"
proof (cases "fetchone (joined (\<lambda>s. vs_medium s = m \<and> vs_address s = a \<and> vs_client_secret s = c) db)")
  case None
  with assms(2) show ?thesis
    by (intro that [of "last (sd_tokens db')"])
       (auto simp: getOrCreateTokenSession_def addValSession_def Let_def row_token_info_def
         split: if_splits)
next
  case (Some p)
  with assms(2) fetchone_SomeD [OF Some] show ?thesis
    by (cases p) (auto simp: getOrCreateTokenSession_def intro: that)
qed

section \<open>Histories\<close>

text \<open>Everything the rest of the program does to the store.\<close>

datatype session_op =
    GetOrCreate string string string int nat "nat \<Rightarrow> nat"
  | SetMtime int int
  | SetSendAttempt int int
  | Validate int string string int
  | Reap int

fun exec_session_op :: "session_op \<Rightarrow> session_db \<Rightarrow> session_db" where
  "exec_session_op (GetOrCreate m a c now rnd r) db = snd (getOrCreateTokenSession m a c now rnd r db)"
| "exec_session_op (SetMtime sid t) db = setMtime sid t db"
| "exec_session_op (SetSendAttempt sid n) db = setSendAttemptNumber sid n db"
| "exec_session_op (Validate sid c tok now) db = snd (validateSessionWithToken sid c tok now db)"
| "exec_session_op (Reap now) db = deleteOldSessions now db"

inductive session_history :: "session_op list \<Rightarrow> session_db \<Rightarrow> bool" where
  start: "session_history [] empty_sessions"
| extend: "session_history ops db \<Longrightarrow> session_history (ops @ [op]) (exec_session_op op db)"

inductive_cases session_history_snocE: "session_history (ops @ [op]) db"

lemma session_history_inv [store_inv]: "session_history ops db \<Longrightarrow> session_inv db"
proof (induction rule: session_history.induct)
  case (extend ops db op)
  then show ?case by (cases op) (simp_all add: store_inv)
qed (rule session_inv_empty)

lemma session_history_exec: "session_history ops (fold exec_session_op ops empty_sessions)"
  by (induction ops rule: rev_induct) (auto intro: session_history.intros)

text \<open>Where a validated session comes from, one operation back.\<close>

lemma getOrCreate_validated:
  assumes "s \<in> set (sd_sessions (snd (getOrCreateTokenSession m a c now rnd r db)))" "vs_validated s"
  shows "s \<in> set (sd_sessions db)"
  using assms
  by (auto simp: getOrCreateTokenSession_def addValSession_def Let_def
      split: option.splits if_splits)

lemma validate_validated:
  assumes "session_inv db" and "s \<in> set (sd_sessions (snd (validateSessionWithToken sid c tok now db)))"
  obtains "s \<in> set (sd_sessions db)"
  | s0 t where "s0 \<in> set (sd_sessions db)" "vs_id s0 = sid" "vs_id s = sid" "vs_client_secret s0 = c"
      "session_key s = session_key s0" "t \<in> set (sd_tokens db)" "t_validationSession t = sid"
      "t_token t = tok" "now \<le> vs_mtime s0 + THREEPID_SESSION_VALIDATION_TIMEOUT_MS"
proof (cases "fst (validateSessionWithToken sid c tok now db)")
  case (Inl e)
  then have "snd (validateSessionWithToken sid c tok now db) = db"
    by (auto simp: validateSessionWithToken_def split: option.splits if_splits)
  with assms that(1) show ?thesis by simp
next
  case (Inr b)
  then obtain s0 info where g: "getTokenSessionById sid db = Some (s0, info)"
      "c = vs_client_secret s0" "now \<le> vs_mtime s0 + THREEPID_SESSION_VALIDATION_TIMEOUT_MS"
      "ti_token info = tok"
      "snd (validateSessionWithToken sid c tok now db) = setValidated (vs_id s0) True db"
    by (auto simp: validateSessionWithToken_def split: option.splits if_splits)
  obtain t where t: "s0 \<in> set (sd_sessions db)" "vs_id s0 = sid" "t \<in> set (sd_tokens db)"
    "t_validationSession t = sid" "info = row_token_info t"
    by (rule getTokenSessionById_SomeD [OF g(1)])
  from assms(2) g(5) obtain s1 where s1: "s1 \<in> set (sd_sessions db)"
    "s = (if vs_id s1 = vs_id s0 then s1\<lparr>vs_validated := True\<rparr> else s1)"
    by (auto simp: setValidated_def)
  show ?thesis
  proof (cases "vs_id s1 = vs_id s0")
    case True
    then have "s1 = s0" using session_unique [OF assms(1)] s1(1) t(1) by blast
    then show ?thesis using that(2) [of s0 t] True g t s1 by (simp add: row_token_info_def)
  next
    case False
    then show ?thesis using that(1) s1 by simp
  qed
qed

definition token_presented :: "session_op list \<Rightarrow> int \<Rightarrow> string \<times> string \<times> string \<Rightarrow> bool" where
  "token_presented ops sid key =
     (\<exists>before after tok t0 db0 s0 row.
        ops = before @ [Validate sid (snd (snd key)) tok t0] @ after \<and> session_history before db0 \<and>
        s0 \<in> set (sd_sessions db0) \<and> vs_id s0 = sid \<and> session_key s0 = key \<and>
        row \<in> set (sd_tokens db0) \<and> t_validationSession row = sid \<and> t_token row = tok \<and>
        t0 \<le> vs_mtime s0 + THREEPID_SESSION_VALIDATION_TIMEOUT_MS)"

lemma token_presented_append: "token_presented ops sid key \<Longrightarrow> token_presented (ops @ [op]) sid key"
  unfolding token_presented_def by (metis append.assoc)

lemma token_presented_now:
  assumes "session_history ops db" "s0 \<in> set (sd_sessions db)" "row \<in> set (sd_tokens db)"
    "t_validationSession row = vs_id s0" "t0 \<le> vs_mtime s0 + THREEPID_SESSION_VALIDATION_TIMEOUT_MS"
  shows "token_presented (ops @ [Validate (vs_id s0) (vs_client_secret s0) (t_token row) t0])
    (vs_id s0) (session_key s0)"
  unfolding token_presented_def
  by (intro exI [of _ ops] exI [of _ "[]"] exI [of _ "t_token row"] exI [of _ t0] exI [of _ db]
      exI [of _ s0] exI [of _ row]) (use assms in simp)

lemma validated_token_presented:
  assumes "session_history ops db" "s \<in> set (sd_sessions db)" "vs_validated s"
  shows "token_presented ops (vs_id s) (session_key s)"
  using assms
proof (induction arbitrary: s rule: session_history.induct)
  case start
  then show ?case by (simp add: empty_sessions_def)
next
  case (extend ops db op)
  have old: ?case if "s' \<in> set (sd_sessions db)" "vs_validated s'" "vs_id s' = vs_id s"
      "session_key s' = session_key s" for s'
    using token_presented_append [OF extend.IH [OF that(1,2)], of op] that(3,4) by simp
  show ?case
  proof (cases op)
    case (GetOrCreate m a c' now' rnd r)
    then show ?thesis using old [of s] extend.prems getOrCreate_validated [of s] by simp
  next
    case (SetMtime sid' t)
    then obtain s' where "s' \<in> set (sd_sessions db)"
      "s = (if vs_id s' = sid' then s'\<lparr>vs_mtime := t\<rparr> else s')"
      using extend.prems(1) by (auto simp: setMtime_def)
    then show ?thesis using old [of s'] extend.prems(2) by (auto split: if_splits)
  next
    case (SetSendAttempt sid' n)
    then show ?thesis using old [of s] extend.prems by (simp add: setSendAttemptNumber_def)
  next
    case (Reap t)
    then show ?thesis using old [of s] extend.prems by (simp add: deleteOldSessions_def Let_def)
  next
    case (Validate sid' c' tok t0)
    from extend.prems Validate
    have "s \<in> set (sd_sessions (snd (validateSessionWithToken sid' c' tok t0 db)))" by simp
    then show ?thesis
    proof (cases rule: validate_validated [OF session_history_inv [OF extend.hyps], consumes 1, case_names kept set])
      case kept
      then show ?thesis using old [of s] extend.prems by simp
    next
      case (set s0 t)
      from token_presented_now [OF extend.hyps set(1) set(6), of t0] set Validate
      show ?thesis by simp
    qed
  qed
qed

section \<open>Properties\<close>

text \<open>C4: no session becomes validated without its token. Whatever sequence of operations the store went
  through, if a validated session is handed out for a session identifier and a client
  secret, then some earlier operation presented, for that identifier and that client
  secret, exactly the token that was stored for the session at that moment (the one sent to the
  address), within the validation period, and the session had the same medium, address and
  client secret then.\<close>

theorem validated_session_provenance:
  assumes "session_history ops db" and "getValidatedSession sid c now db = Inr s"
  shows "\<exists>before after tok t0 db0 s0 row.
     ops = before @ [Validate sid c tok t0] @ after \<and> session_history before db0 \<and>
     s0 \<in> set (sd_sessions db0) \<and> vs_id s0 = sid \<and> session_key s0 = session_key s \<and>
     vs_client_secret s = c \<and>
     row \<in> set (sd_tokens db0) \<and> t_validationSession row = sid \<and> t_token row = tok \<and>
     t0 \<le> vs_mtime s0 + THREEPID_SESSION_VALIDATION_TIMEOUT_MS"
proof -
  have s: "s \<in> set (sd_sessions db)" "vs_validated s" "vs_id s = sid" "vs_client_secret s = c"
    using assms(2) session_history_inv [OF assms(1)]
    by (auto simp: getValidatedSession_def getSessionById_Some split: option.splits if_splits)
  from validated_token_presented [OF assms(1) s(1,2)] show ?thesis
    unfolding token_presented_def s(3) by (auto simp: s(4))
qed

theorem validated_session_provenance_witness:
  "let ops = [GetOrCreate ''msisdn'' ''123'' ''sec'' 0 5 (\<lambda>_. 0), Validate 5 ''sec'' ''000000'' 10] in
   \<exists>before after tok t0. ops = before @ [Validate 5 ''sec'' tok t0] @ after"
proof -
  let ?ops = "[GetOrCreate ''msisdn'' ''123'' ''sec'' 0 5 (\<lambda>_. 0), Validate 5 ''sec'' ''000000'' 10]"
  let ?db = "fold exec_session_op ?ops empty_sessions"
  have "getValidatedSession 5 ''sec'' 20 ?db = Inr \<lparr>vs_id = 5, vs_medium = ''msisdn'',
      vs_address = ''123'', vs_client_secret = ''sec'', vs_validated = True, vs_mtime = 0\<rparr>"
    by code_simp
  from validated_session_provenance [OF session_history_exec this] show ?thesis
    unfolding Let_def by fast
qed

text \<open>the way through. After a session was requested (and its time set, as the validators do),
  presenting the issued token with the same client secret within the validation period
  succeeds, and from then on the validated session is handed out for that secret until its
  life time is over, with the medium and address it was requested for.\<close>

theorem session_request_validate_roundtrip:
  assumes "session_inv db"
    and "getOrCreateTokenSession medium address secret now rnd r db = (Inr (s, info), db1)"
    and "t1 \<le> now + THREEPID_SESSION_VALIDATION_TIMEOUT_MS"
    and "t2 \<le> now + THREEPID_SESSION_VALID_LIFETIME_MS"
  shows "\<exists>db2. validateSessionWithToken (vs_id s) secret (ti_token info) t1 (setMtime (vs_id s) now db1)
            = (Inr True, db2) \<and>
         getValidatedSession (vs_id s) secret t2 db2 =
            Inr \<lparr>vs_id = vs_id s, vs_medium = medium, vs_address = address,
                 vs_client_secret = secret, vs_validated = True, vs_mtime = now\<rparr>"
proof -
  have inv1: "session_inv db1" using session_inv_getOrCreate [OF assms(1)] assms(2) by (metis snd_conv)
  obtain t where t: "s \<in> set (sd_sessions db1)" "t \<in> set (sd_tokens db1)"
    "t_validationSession t = vs_id s" "info = row_token_info t" "session_key s = (medium, address, secret)"
    by (rule getOrCreate_Inr [OF assms(1,2)])
  let ?db = "setMtime (vs_id s) now db1"
  let ?s = "s\<lparr>vs_mtime := now\<rparr>"
  let ?s2 = "?s\<lparr>vs_validated := True\<rparr>"
  have inv: "session_inv ?db" using inv1 by (rule session_inv_setMtime)
  have mem: "?s \<in> set (sd_sessions ?db)" using t(1) by (force simp: setMtime_def)
  have "getTokenSessionById (vs_id ?s) ?db = Some (?s, row_token_info t)"
    by (rule getTokenSessionById_eq [OF inv mem]) (use t in \<open>simp_all add: setMtime_def\<close>)
  then have "validateSessionWithToken (vs_id s) secret (ti_token info) t1 ?db =
      (Inr True, setValidated (vs_id s) True ?db)"
    using t(4,5) assms(3) by (simp add: validateSessionWithToken_def)
  moreover have "?s2 \<in> set (sd_sessions (setValidated (vs_id s) True ?db))"
    using mem by (force simp: setValidated_def)
  then have "getSessionById (vs_id s) (setValidated (vs_id s) True ?db) = Some ?s2"
    using getSessionById_Some [OF session_inv_setValidated [OF inv]] by simp
  then have "getValidatedSession (vs_id s) secret t2 (setValidated (vs_id s) True ?db) = Inr ?s2"
    using t(5) assms(4) by (simp add: getValidatedSession_def)
  moreover have "?s2 = \<lparr>vs_id = vs_id s, vs_medium = medium, vs_address = address,
      vs_client_secret = secret, vs_validated = True, vs_mtime = now\<rparr>"
    using t(5) by simp
  ultimately show ?thesis by auto
qed

theorem session_request_validate_roundtrip_witness:
  "\<exists>db2. validateSessionWithToken 5 ''sec'' (generateTokenForMedium (\<lambda>_. 0) ''email'') 1000
      (setMtime 5 0 (snd (getOrCreateTokenSession ''email'' ''a@b'' ''sec'' 0 5 (\<lambda>_. 0) empty_sessions)))
      = (Inr True, db2) \<and>
    getValidatedSession 5 ''sec'' 2000 db2 =
      Inr \<lparr>vs_id = 5, vs_medium = ''email'', vs_address = ''a@b'', vs_client_secret = ''sec'',
           vs_validated = True, vs_mtime = 0\<rparr>"
  using session_request_validate_roundtrip [OF session_inv_empty, where medium = "''email''"
      and address = "''a@b''" and secret = "''sec''" and now = 0 and rnd = 5 and r = "\<lambda>_. 0"
      and ?t1.0 = 1000 and ?t2.0 = 2000]
  by (simp add: getOrCreateTokenSession_def joined_def empty_sessions_def fetchone_def addValSession_def
      randint_def Let_def THREEPID_SESSION_VALIDATION_TIMEOUT_MS_def THREEPID_SESSION_VALID_LIFETIME_MS_def)

text \<open>C24: the periodic clean-up takes nothing that is still usable. For every session identifier and every client secret,
  what \<open>getValidatedSession\<close> answers now or later is the same as without the clean-up, with one exception: a session
  untouched for more than five life times is reported as unknown, where it was reported as expired, or as having another
  client secret when the secret did not match; it was not handed out before either. No token is left without its session.\<close>

theorem deleteOldSessions_safe:
  assumes "session_inv db" and "now \<le> now'"
  shows "let before = getValidatedSession sid c now' db;
             after = getValidatedSession sid c now' (deleteOldSessions now db)
         in (after = before \<or> (before \<in> {Inl SessionExpiredException, Inl IncorrectClientSecretException}
               \<and> after = Inl InvalidSessionIdException
               \<and> (\<exists>s \<in> set (sd_sessions db). vs_id s = sid \<and>
                    vs_mtime s < now - 5 * THREEPID_SESSION_VALID_LIFETIME_MS)))
          \<and> set (map t_validationSession (sd_tokens (deleteOldSessions now db)))
              = set (map vs_id (sd_sessions (deleteOldSessions now db)))"
proof -
  let ?db = "deleteOldSessions now db"
  have inv: "session_inv ?db" using assms(1) by (rule session_inv_reap)
  have kept: "s \<in> set (sd_sessions ?db) \<longleftrightarrow> s \<in> set (sd_sessions db) \<and>
      now - 5 * THREEPID_SESSION_VALID_LIFETIME_MS \<le> vs_mtime s" for s
    by (auto simp: deleteOldSessions_def Let_def)
  show ?thesis
  proof (cases "getSessionById sid db")
    case None
    then have "getSessionById sid ?db = None"
      using getSessionById_Some [OF assms(1)] getSessionById_Some [OF inv] kept
      by (metis not_None_eq)
    with None inv show ?thesis by (simp add: getValidatedSession_def session_inv_def)
  next
    case (Some s)
    then have s: "s \<in> set (sd_sessions db)" "vs_id s = sid" using getSessionById_Some [OF assms(1)] by auto
    show ?thesis
    proof (cases "s \<in> set (sd_sessions ?db)")
      case True
      then have "getSessionById sid ?db = Some s" using getSessionById_Some [OF inv] s by blast
      with Some inv show ?thesis by (simp add: getValidatedSession_def session_inv_def)
    next
      case False
      then have old: "vs_mtime s < now - 5 * THREEPID_SESSION_VALID_LIFETIME_MS" using kept s by auto
      have "getSessionById sid ?db = None"
        using getSessionById_Some [OF inv] session_unique [OF assms(1)] kept s False
        by (metis not_None_eq)
      moreover have "vs_mtime s + THREEPID_SESSION_VALID_LIFETIME_MS < now'"
        using old assms(2) by (simp add: THREEPID_SESSION_VALID_LIFETIME_MS_def)
      ultimately show ?thesis
        using Some inv s old by (auto simp: getValidatedSession_def session_inv_def)
    qed
  qed
qed

text \<open>A store with a session untouched for six life times and a validated one of today, each with its token.\<close>

definition demo_session_db :: "int \<Rightarrow> session_db" where
  "demo_session_db now =
     \<lparr>sd_sessions =
        [\<lparr>vs_id = 1, vs_medium = ''email'', vs_address = ''old@a'', vs_client_secret = ''s'', vs_validated = True, vs_mtime = 0\<rparr>,
         \<lparr>vs_id = 2, vs_medium = ''email'', vs_address = ''new@a'', vs_client_secret = ''s'', vs_validated = True, vs_mtime = now\<rparr>],
      sd_tokens =
        [\<lparr>t_id = 1, t_validationSession = 1, t_token = ''x'', t_sendAttemptNumber = 1\<rparr>,
         \<lparr>t_id = 2, t_validationSession = 2, t_token = ''y'', t_sendAttemptNumber = 1\<rparr>]\<rparr>"

lemma demo_session_db_inv [store_inv]: "session_inv (demo_session_db now)"
  by (auto simp: session_inv_def demo_session_db_def)

theorem deleteOldSessions_safe_witness:
  "let now = 6 * THREEPID_SESSION_VALID_LIFETIME_MS;
       db = demo_session_db now;
       ask = (\<lambda>sid c. getValidatedSession sid c (now + 1));
       cleaned = deleteOldSessions now db
   in map vs_id (sd_sessions cleaned) = [2] \<and> map t_validationSession (sd_tokens cleaned) = [2] \<and>
      ask 1 ''s'' db = Inl SessionExpiredException \<and> ask 1 ''s'' cleaned = Inl InvalidSessionIdException \<and>
      ask 1 ''t'' db = Inl IncorrectClientSecretException \<and> ask 1 ''t'' cleaned = Inl InvalidSessionIdException \<and>
      (\<exists>s. ask 2 ''s'' db = Inr s \<and> ask 2 ''s'' cleaned = Inr s)"
proof -
  let ?now = "6 * THREEPID_SESSION_VALID_LIFETIME_MS"
  let ?db = "demo_session_db ?now"
  have n: "?now \<le> ?now + 1" by simp
  note safe = deleteOldSessions_safe [OF demo_session_db_inv [of ?now] n]
  have "map vs_id (sd_sessions (deleteOldSessions ?now ?db)) = [2]"
    "map t_validationSession (sd_tokens (deleteOldSessions ?now ?db)) = [2]" by code_simp+
  moreover have "getValidatedSession 1 ''s'' (?now + 1) ?db = Inl SessionExpiredException"
    "getValidatedSession 1 ''t'' (?now + 1) ?db = Inl IncorrectClientSecretException" by code_simp+
  moreover have "getValidatedSession 1 ''s'' (?now + 1) (deleteOldSessions ?now ?db) = Inl InvalidSessionIdException"
    "getValidatedSession 1 ''t'' (?now + 1) (deleteOldSessions ?now ?db) = Inl InvalidSessionIdException" by code_simp+
  moreover have "getValidatedSession 2 ''s'' (?now + 1) ?db = Inr (sd_sessions ?db ! 1)" by code_simp
  moreover from this have "getValidatedSession 2 ''s'' (?now + 1) (deleteOldSessions ?now ?db) = Inr (sd_sessions ?db ! 1)"
    using safe [of 2 "''s''"] by (auto simp: Let_def)
  ultimately show ?thesis unfolding Let_def by blast
qed

end
