(* ===== verification/Servlet_Base.thy ===== *)
theory Servlet_Base
  imports Json
begin

text \<open>
  \<open>sydent/http/servlets/__init__.py\<close> and \<open>tokenFromRequest\<close> of \<open>sydent/http/auth.py\<close>: requests,
  how arguments are read from them, and the wrappers that turn the result or the
  exception of a handler into a response.

  A request carries the bytes of its arguments as the HTTP layer parsed them (each a list
  of values) and the JSON value that the unread rest of its body decodes to, \<^const>\<open>None\<close> if that
  is not UTF-8 encoded JSON. Reading the arguments of a request consumes its body and nothing rewinds
  it: a second reading finds the empty text, which is no JSON. \<open>after_args\<close> and \<open>after_token\<close>
  are the request as a reading of its arguments and of its access token leave it, and a handler that
  reads twice is given them for the second time. A response is its status and the JSON value of its
  body.
\<close>

section \<open>UTF-8\<close>

definition cont_byte :: "nat \<Rightarrow> bool" where
  "cont_byte b = (0x80 \<le> b \<and> b \<le> 0xBF)"

definition utf8_head :: "nat list \<Rightarrow> nat" where
  "utf8_head bs =
     (case bs of
        [] \<Rightarrow> 0
      | a # r \<Rightarrow>
         if a < 0x80 then 1
         else if 0xC2 \<le> a \<and> a \<le> 0xDF then
           (case r of b # _ \<Rightarrow> if cont_byte b then 2 else 0 | _ \<Rightarrow> 0)
         else if 0xE0 \<le> a \<and> a \<le> 0xEF then
           (case r of b # c # _ \<Rightarrow>
              if cont_byte b \<and> cont_byte c \<and> (a = 0xE0 \<longrightarrow> 0xA0 \<le> b) \<and> (a = 0xED \<longrightarrow> b \<le> 0x9F)
              then 3 else 0 | _ \<Rightarrow> 0)
         else if 0xF0 \<le> a \<and> a \<le> 0xF4 then
           (case r of b # c # d # _ \<Rightarrow>
              if cont_byte b \<and> cont_byte c \<and> cont_byte d \<and> (a = 0xF0 \<longrightarrow> 0x90 \<le> b) \<and>
                 (a = 0xF4 \<longrightarrow> b \<le> 0x8F)
              then 4 else 0 | _ \<Rightarrow> 0)
         else 0)"

definition bytes_of :: "string \<Rightarrow> nat list" where
  "bytes_of s = map of_char s"

definition hex_digit :: "nat \<Rightarrow> char" where
  "hex_digit n = ''0123456789abcdef'' ! n"

text \<open>\<open>decode("UTF-8")\<close> and \<open>decode("UTF-8", errors="backslashreplace")\<close>; the text is kept as its bytes.\<close>

function is_utf8 :: "string \<Rightarrow> bool" where
  "is_utf8 s = (if s = [] then True
     else let n = utf8_head (bytes_of s) in if n = 0 then False else is_utf8 (drop n s))"
  by pat_completeness auto
termination by (relation "measure length") auto

function backslashreplace :: "string \<Rightarrow> string" where
  "backslashreplace s =
     (if s = [] then []
      else let n = utf8_head (bytes_of s); b = of_char (hd s) :: nat in
        if n = 0 then CHR 0x5C # CHR ''x'' # hex_digit (b div 16) # hex_digit (b mod 16) #
             backslashreplace (tl s)
        else take n s @ backslashreplace (drop n s))"
  by pat_completeness auto
termination by (relation "measure length") auto

declare is_utf8.simps [simp del] backslashreplace.simps [simp del]

section \<open>Requests\<close>

record request =
  rq_method :: string
  rq_path :: string
  rq_headers :: "(string, string list) dict"
  rq_args :: "(string, string list) dict"
  rq_body :: "json option"

text \<open>\<open>getHeader\<close> returns the last of several values, \<open>getRawHeaders\<close> all of them.\<close>

definition getRawHeaders :: "request \<Rightarrow> string \<Rightarrow> string list option" where
  "getRawHeaders req name = dict_get (rq_headers req) (str_lower name)"

definition getHeader :: "request \<Rightarrow> string \<Rightarrow> string option" where
  "getHeader req name = (case getRawHeaders req name of None \<Rightarrow> None | Some vs \<Rightarrow>
     if vs = [] then None else Some (last vs))"

section \<open>Arguments\<close>

fun substring :: "string \<Rightarrow> string \<Rightarrow> bool" where
  "substring p [] = (p = [])"
| "substring p (c # s) = (startswith (c # s) p \<or> substring p s)"

text \<open>Python's \<open>k in v\<close>, \<open>v[k]\<close> and \<open>v.get(k)\<close> for a text \<open>k\<close> and a decoded JSON value \<open>v\<close>.\<close>

fun json_in :: "string \<Rightarrow> json \<Rightarrow> bool res" where
  "json_in k (JObj d) = Inr (dict_has d k)"
| "json_in k (JArr l) = Inr (JStr k \<in> set l)"
| "json_in k (JStr s) = Inr (substring k s)"
| "json_in k _ = Inl TypeError"

fun json_index :: "json \<Rightarrow> string \<Rightarrow> json res" where
  "json_index (JObj d) k = (case dict_get d k of None \<Rightarrow> Inl KeyError | Some v \<Rightarrow> Inr v)"
| "json_index _ k = Inl TypeError"

fun json_get :: "json \<Rightarrow> string \<Rightarrow> json res" where
  "json_get (JObj d) k = Inr (case dict_get d k of None \<Rightarrow> JNull | Some v \<Rightarrow> v)"
| "json_get _ k = Inl AttributeError"

fun missing_args :: "json \<Rightarrow> string list \<Rightarrow> string list res" where
  "missing_args v [] = Inr []"
| "missing_args v (a # as) =
     bindR (json_in a v) (\<lambda>b. bindR (missing_args v as) (\<lambda>ms. Inr (if b then ms else a # ms)))"

fun urlencoded_args :: "(string \<times> string list) list \<Rightarrow> jdict \<Rightarrow> jdict res" where
  "urlencoded_args [] acc = Inr acc"
| "urlencoded_args ((k, v) # kvs) acc =
     (case v of
        [x] \<Rightarrow>
          if is_utf8 k \<and> is_utf8 x then urlencoded_args kvs (dict_set acc k (JStr x))
          else Inl (MatrixRestError 400 ''M_INVALID_PARAM''
                 (''Parameter '' @ backslashreplace k @ '' and its value must be valid UTF-8''))
      | _ \<Rightarrow> urlencoded_args kvs acc)"

definition v1_path :: "request \<Rightarrow> bool" where
  "v1_path req = startswith (rq_path req) ''/_matrix/identity/api/v1''"

definition wants_json :: "request \<Rightarrow> bool" where
  "wants_json req =
     (rq_method req \<in> {''POST'', ''PUT''} \<and>
      (\<not> v1_path req \<or>
       (case getRawHeaders req ''Content-Type'' of
          Some (ct # _) \<Rightarrow> startswith ct ''application/json'' | _ \<Rightarrow> False)))"

definition get_args :: "request \<Rightarrow> string list \<Rightarrow> bool \<Rightarrow> json res" where
  "get_args req args required =
     bindR (if wants_json req
            then (case rq_body req of
                    None \<Rightarrow> Inl (MatrixRestError 400 ''M_BAD_JSON'' ''Malformed JSON'')
                  | Some v \<Rightarrow> Inr v)
            else Inr JNull)
       (\<lambda>decoded. bindR
          (if decoded = JNull \<and> (v1_path req \<or> rq_method req = ''GET'')
           then bindR (urlencoded_args (rq_args req) []) (\<lambda>d. Inr (JObj d))
           else if decoded = JNull then Inr (JObj [])
           else Inr decoded)
          (\<lambda>request_args.
             if required then
               bindR (missing_args request_args args) (\<lambda>missing.
                 if missing \<noteq> []
                 then Inl (MatrixRestError 400 ''M_MISSING_PARAMS''
                        (''Missing parameters: '' @ str_join '','' missing))
                 else Inr request_args)
             else Inr request_args))"

text \<open>
  What \<open>get_args\<close> leaves of the request, whether it returns or raises: \<open>request.content.read()\<close> has
  moved the content to its end, so that the next \<open>read()\<close> gives the empty bytes, which do not decode.
\<close>

definition after_args :: "request \<Rightarrow> request" where
  "after_args req = (if wants_json req then req\<lparr>rq_body := None\<rparr> else req)"

section \<open>Responses\<close>

type_synonym reply = "int \<times> json"

abbreviation ok_reply :: "jdict \<Rightarrow> reply" where
  "ok_reply d \<equiv> (200, JObj d)"

definition err_body :: "string \<Rightarrow> string \<Rightarrow> json" where
  "err_body code msg = JObj [(''errcode'', JStr code), (''error'', JStr msg)]"

text \<open>
  The wrappers of synchronous and asynchronous handlers: they send the same responses.
  A handler returns the status it set and the dictionary it returned.
\<close>

definition jsonwrap :: "reply res \<times> 's \<Rightarrow> reply \<times> 's" where
  "jsonwrap r =
     (case r of
        (Inr reply, s) \<Rightarrow> (reply, s)
      | (Inl (MatrixRestError status code msg), s) \<Rightarrow> ((status, err_body code msg), s)
      | (Inl _, s) \<Rightarrow> ((500, err_body ''M_UNKNOWN'' ''Internal Server Error''), s))"

section \<open>Access tokens\<close>

definition bearer_token :: "request \<Rightarrow> string option" where
  "bearer_token req =
     (case getHeader req ''Authorization'' of
        None \<Rightarrow> None
      | Some h \<Rightarrow> if startswith h ''Bearer '' then Some (drop (length ''Bearer '') h) else None)"

definition tokenFromRequest :: "request \<Rightarrow> json option res" where
  "tokenFromRequest req =
     (case bearer_token req of
        Some token \<Rightarrow> Inr (Some (JStr token))
      | None \<Rightarrow>
          bindR (get_args req [''access_token''] False) (\<lambda>args.
          bindR (json_get args ''access_token'') (\<lambda>v. Inr (if v = JNull then None else Some v))))"

text \<open>What \<open>tokenFromRequest\<close>, and with it \<open>authV2\<close>, leaves of the request; \<open>after_auth\<close> is for a
  handler that authenticates only if \<open>self.require_auth\<close> is set.\<close>

definition after_token :: "request \<Rightarrow> request" where
  "after_token req = (if bearer_token req = None then after_args req else req)"

definition after_auth :: "bool \<Rightarrow> request \<Rightarrow> request" where
  "after_auth require_auth req = (if require_auth then after_token req else req)"

section \<open>Lemmas\<close>

lemma urlencoded_args_wf: "urlencoded_args kvs acc = Inr d \<Longrightarrow> dict_wf acc \<Longrightarrow> dict_wf d"
  by (induction kvs acc rule: urlencoded_args.induct) (auto split: list.splits if_splits)

lemma missing_args_iff:
  "missing_args (JObj d) as = Inr (filter (\<lambda>a. \<not> dict_has d a) as)"
  by (induction as) auto

subsection \<open>What a reading leaves\<close>

lemma after_args_fields [simp]:
  "rq_method (after_args req) = rq_method req" "rq_path (after_args req) = rq_path req"
  "rq_headers (after_args req) = rq_headers req" "rq_args (after_args req) = rq_args req"
  "getRawHeaders (after_args req) = getRawHeaders req" "getHeader (after_args req) = getHeader req"
  "v1_path (after_args req) = v1_path req" "wants_json (after_args req) = wants_json req"
  "bearer_token (after_args req) = bearer_token req"
  by (auto simp: after_args_def getRawHeaders_def getHeader_def v1_path_def wants_json_def
        bearer_token_def fun_eq_iff)

lemma after_token_fields [simp]:
  "rq_method (after_token req) = rq_method req" "rq_path (after_token req) = rq_path req"
  "rq_headers (after_token req) = rq_headers req" "rq_args (after_token req) = rq_args req"
  "getRawHeaders (after_token req) = getRawHeaders req" "getHeader (after_token req) = getHeader req"
  "v1_path (after_token req) = v1_path req" "wants_json (after_token req) = wants_json req"
  "bearer_token (after_token req) = bearer_token req"
  by (simp_all add: after_token_def)

lemma after_token_bearer [simp]: "bearer_token req = Some tok \<Longrightarrow> after_token req = req"
  by (simp add: after_token_def)

lemma after_auth_False [simp]: "after_auth False req = req"
  by (simp add: after_auth_def)

lemma after_auth_True [simp]: "after_auth True req = after_token req"
  by (simp add: after_auth_def)

text \<open>Where the body is not read, nothing is consumed.\<close>

lemma after_not_json [simp]:
  "\<not> wants_json req \<Longrightarrow> after_args req = req" "\<not> wants_json req \<Longrightarrow> after_token req = req"
  "\<not> wants_json req \<Longrightarrow> after_auth b req = req"
  by (simp_all add: after_args_def after_token_def after_auth_def)

lemma wants_json_GET [simp]: "rq_method req = ''GET'' \<Longrightarrow> \<not> wants_json req"
  by (simp add: wants_json_def)

text \<open>A body that has been consumed fails every reading, with status 400.\<close>

lemma get_args_consumed:
  "wants_json req \<Longrightarrow> rq_body req = None \<Longrightarrow>
   get_args req args b = Inl (MatrixRestError 400 ''M_BAD_JSON'' ''Malformed JSON'')"
  by (simp add: get_args_def)

lemma get_args_second:
  "wants_json req \<Longrightarrow>
   get_args (after_args req) args b = Inl (MatrixRestError 400 ''M_BAD_JSON'' ''Malformed JSON'')"
  by (rule get_args_consumed) (simp, simp add: after_args_def)

text \<open>What a later reading gives, the first would have given.\<close>

lemma get_args_after_args: "get_args (after_args req) args b = Inr v \<Longrightarrow> get_args req args b = Inr v"
  by (cases "wants_json req") (auto simp: get_args_second)

lemma get_args_after_token: "get_args (after_token req) args b = Inr v \<Longrightarrow> get_args req args b = Inr v"
  by (auto simp: after_token_def dest: get_args_after_args split: if_splits)

lemma get_args_after_auth: "get_args (after_auth c req) args b = Inr v \<Longrightarrow> get_args req args b = Inr v"
  by (auto simp: after_auth_def dest: get_args_after_token split: if_splits)

lemma tokenFromRequest_after_args:
  "tokenFromRequest (after_args req) = Inr t \<Longrightarrow> tokenFromRequest req = Inr t"
  by (cases "wants_json req")
    (auto simp: tokenFromRequest_def get_args_second split: option.splits)

lemma token_of_bearer [simp]:
  "bearer_token req = Some tok \<Longrightarrow> tokenFromRequest req = Inr (Some (JStr tok))"
  by (simp add: tokenFromRequest_def)

subsection \<open>Required arguments\<close>

text \<open>when \<open>get_args\<close> returns a JSON object for required arguments, every one of them is there.
  If the body of the request is an object, the only failure is that arguments are missing, and it is
  reported with status 400 naming exactly the missing ones, in the order asked.\<close>

theorem get_args_object_body:
  assumes "wants_json req" and "rq_body req = Some (JObj d)"
  shows "get_args req args True =
    (let missing = filter (\<lambda>a. \<not> dict_has d a) args in
     if missing = [] then Inr (JObj d)
     else Inl (MatrixRestError 400 ''M_MISSING_PARAMS'' (''Missing parameters: '' @ str_join '','' missing)))"
  using assms by (simp add: get_args_def missing_args_iff Let_def)

theorem get_args_object_body_witness:
  "get_args \<lparr>rq_method = ''POST'', rq_path = ''/_matrix/identity/v2/x'', rq_headers = [], rq_args = [],
      rq_body = Some (JObj [(''sid'', JInt 1)])\<rparr> [''sid'', ''client_secret''] True =
   Inl (MatrixRestError 400 ''M_MISSING_PARAMS'' ''Missing parameters: client_secret'')"
  using get_args_object_body [of "\<lparr>rq_method = ''POST'', rq_path = ''/_matrix/identity/v2/x'',
      rq_headers = [], rq_args = [], rq_body = Some (JObj [(''sid'', JInt 1)])\<rparr>" "[(''sid'', JInt 1)]"
      "[''sid'', ''client_secret'']"]
  by (simp add: wants_json_def v1_path_def startswith_def dict_has_def)

end
