(* ===== verification/Account_Store.thy ===== *)
theory Account_Store
  imports Servlet_Base
begin

text \<open>
  Accounts, access tokens and terms of service: \<open>sydent/db/accounts.py\<close>, \<open>sydent/db/terms.py\<close>,
  \<open>sydent/users/\<close>, \<open>sydent/terms/terms.py\<close> and \<open>authV2\<close> of \<open>sydent/http/auth.py\<close>. The locale
  \<open>credential_store\<close> is what authentication relies on: a token stands for the user it
  was granted to until it is revoked.
\<close>

section \<open>The tables\<close>

record account =
  ac_userId :: string
  ac_creationTs :: int
  ac_consentVersion :: "string option"

record account_db =
  ad_accounts :: "account list"
  ad_tokens :: "(string \<times> string) list"
  ad_terms :: "(string \<times> string) list"

definition empty_accounts :: account_db where
  "empty_accounts = \<lparr>ad_accounts = [], ad_tokens = [], ad_terms = []\<rparr>"

definition getAccountByToken :: "string \<Rightarrow> account_db \<Rightarrow> account option" where
  "getAccountByToken token db =
     (case concat (map (\<lambda>a. map (\<lambda>_. a) (filter (\<lambda>(tok, u). u = ac_userId a \<and> tok = token) (ad_tokens db)))
             (ad_accounts db)) of
        [] \<Rightarrow> None | a # _ \<Rightarrow> Some a)"

definition storeAccount :: "string \<Rightarrow> int \<Rightarrow> string option \<Rightarrow> account_db \<Rightarrow> account_db" where
  "storeAccount user_id creation_ts consent_version db =
     (if user_id \<in> set (map ac_userId (ad_accounts db)) then db
      else db\<lparr>ad_accounts := ad_accounts db @
        [\<lparr>ac_userId = user_id, ac_creationTs = creation_ts, ac_consentVersion = consent_version\<rparr>]\<rparr>)"

definition setConsentVersion :: "string \<Rightarrow> string option \<Rightarrow> account_db \<Rightarrow> account_db" where
  "setConsentVersion user_id consent_version db =
     db\<lparr>ad_accounts := map (\<lambda>a. if ac_userId a = user_id then a\<lparr>ac_consentVersion := consent_version\<rparr> else a)
          (ad_accounts db)\<rparr>"

definition addToken :: "string \<Rightarrow> string \<Rightarrow> (account_db, unit) act" where
  "addToken user_id token db =
     (if token \<in> set (map fst (ad_tokens db)) then (Inl IntegrityError, db)
      else (Inr (), db\<lparr>ad_tokens := ad_tokens db @ [(token, user_id)]\<rparr>))"

definition delToken :: "string \<Rightarrow> account_db \<Rightarrow> nat \<times> account_db" where
  "delToken token db =
     (length (filter (\<lambda>p. fst p = token) (ad_tokens db)),
      db\<lparr>ad_tokens := filter (\<lambda>p. fst p \<noteq> token) (ad_tokens db)\<rparr>)"

definition getAgreedUrls :: "string \<Rightarrow> account_db \<Rightarrow> string list" where
  "getAgreedUrls user_id db = map snd (filter (\<lambda>p. fst p = user_id) (ad_terms db))"

definition addAgreedUrls :: "string \<Rightarrow> string list \<Rightarrow> account_db \<Rightarrow> account_db" where
  "addAgreedUrls user_id urls db =
     db\<lparr>ad_terms := fold (\<lambda>u rows. if (user_id, u) \<in> set rows then rows else rows @ [(user_id, u)])
          urls (ad_terms db)\<rparr>"

text \<open>\<open>users/tokens.py\<close>\<close>

definition issueToken :: "string \<Rightarrow> int \<Rightarrow> (nat \<Rightarrow> nat) \<Rightarrow> (account_db, string) act" where
  "issueToken user_id now r =
     bindM (modifyM (storeAccount user_id now None)) (\<lambda>_.
     let new_token = generateAlphanumericTokenOfLength r 64 in
     bindM (addToken user_id new_token) (\<lambda>_. ret new_token))"

section \<open>Terms of service\<close>

record localised_policy =
  lp_name :: string
  lp_url :: string

record policy =
  po_version :: string
  po_langs :: "(string, localised_policy) dict"

record term_config =
  tc_master_version :: string
  tc_docs :: "(string, policy) dict"

type_synonym terms = "term_config option"

definition getMasterVersion :: "terms \<Rightarrow> string option" where
  "getMasterVersion t = (case t of None \<Rightarrow> None | Some c \<Rightarrow> Some (tc_master_version c))"

definition policy_json :: "localised_policy \<Rightarrow> json" where
  "policy_json p = JObj [(''name'', JStr (lp_name p)), (''url'', JStr (lp_url p))]"

definition getForClient :: "terms \<Rightarrow> jdict" where
  "getForClient t =
     (let policies = (case t of None \<Rightarrow> [] | Some c \<Rightarrow>
        fold (\<lambda>(docName, doc) ps. dict_set ps docName
            (JObj (dict_update [(''version'', JStr (po_version doc))]
               (map (\<lambda>(l, p). (l, policy_json p)) (po_langs doc)))))
          (tc_docs c) [])
      in [(''policies'', JObj policies)])"

definition getUrlSet :: "terms \<Rightarrow> string set" where
  "getUrlSet t = (case t of None \<Rightarrow> {} | Some c \<Rightarrow>
     set (concat (map (\<lambda>(docName, doc). map (\<lambda>(langName, lang). lp_url lang) (po_langs doc)) (tc_docs c))))"

fun agreed_docs :: "string list \<Rightarrow> (string \<times> policy) list \<Rightarrow> string set" where
  "agreed_docs urls [] = {}"
| "agreed_docs urls ((docName, doc) # docs) =
     (if \<exists>lang \<in> set (map snd (po_langs doc)). lp_url lang \<in> set urls
      then insert docName (agreed_docs urls docs) else agreed_docs urls docs)"

definition urlListIsSufficient :: "terms \<Rightarrow> string list \<Rightarrow> bool res" where
  "urlListIsSufficient t urls =
     (case t of
        None \<Rightarrow> if urls \<noteq> [] then Inl ValueError else Inr True
      | Some c \<Rightarrow> Inr (agreed_docs urls (tc_docs c) = set (map fst (tc_docs c))))"

text \<open>
  \<open>get_terms\<close>: the checks of the parsed file. Reading and parsing it is \<open>load\<close>. A member of the
  wrong type, which the code does not check, is a \<open>TypeError\<close> here.
\<close>

definition require_key :: "string \<Rightarrow> json \<Rightarrow> json res" where
  "require_key k v = bindR (json_in k v) (\<lambda>b. if \<not> b then Inl GenericException else json_index v k)"

definition require_str :: "json \<Rightarrow> string res" where
  "require_str v = (case v of JStr s \<Rightarrow> Inr s | _ \<Rightarrow> Inl TypeError)"

fun items :: "json \<Rightarrow> (string \<times> json) list res" where
  "items (JObj d) = Inr d"
| "items _ = Inl AttributeError"

definition check_lang :: "json \<Rightarrow> localised_policy res" where
  "check_lang lang =
     bindR (require_key ''name'' lang) (\<lambda>n. bindR (require_key ''url'' lang) (\<lambda>u.
     bindR (require_str n) (\<lambda>n'. bindR (require_str u) (\<lambda>u'. Inr \<lparr>lp_name = n', lp_url = u'\<rparr>))))"

fun check_all :: "(json \<Rightarrow> 'a res) \<Rightarrow> (string \<times> json) list \<Rightarrow> (string \<times> 'a) list res" where
  "check_all f [] = Inr []"
| "check_all f ((k, v) # kvs) =
     bindR (f v) (\<lambda>x. bindR (check_all f kvs) (\<lambda>xs. Inr ((k, x) # xs)))"

definition check_doc :: "json \<Rightarrow> policy res" where
  "check_doc doc =
     bindR (require_key ''version'' doc) (\<lambda>v. bindR (require_key ''langs'' doc) (\<lambda>l.
     bindR (items l) (\<lambda>ls. bindR (check_all check_lang ls) (\<lambda>langs.
     bindR (require_str v) (\<lambda>v'. Inr \<lparr>po_version = v', po_langs = langs\<rparr>)))))"

definition get_terms :: "(string \<Rightarrow> json res) \<Rightarrow> string \<Rightarrow> terms res" where
  "get_terms load termsPath =
     (if termsPath = '''' then Inr None
      else bindR (load termsPath) (\<lambda>y.
        bindR (require_key ''master_version'' y) (\<lambda>mv.
        bindR (require_str mv) (\<lambda>mv'.
        bindR (require_key ''docs'' y) (\<lambda>d.
        bindR (items d) (\<lambda>ds.
        bindR (check_all check_doc ds) (\<lambda>docs.
          Inr (Some \<lparr>tc_master_version = mv', tc_docs = docs\<rparr>))))))))"

section \<open>Authentication\<close>

text \<open>
  A value bound into the text comparison of the query: SQLite turns numbers into text;
  containers cannot be bound.
\<close>

definition sql_text :: "json \<Rightarrow> string res" where
  "sql_text v = (case v of JStr s \<Rightarrow> Inr s | JInt i \<Rightarrow> Inr (show_int i)
     | JBool b \<Rightarrow> Inr (if b then ''1'' else ''0'') | JFloat t \<Rightarrow> Inr t | _ \<Rightarrow> Inl TypeError)"

definition unauthorized :: exn where
  "unauthorized = MatrixRestError 401 ''M_UNAUTHORIZED'' ''Unauthorized''"

definition authV2 :: "terms res \<Rightarrow> request \<Rightarrow> bool \<Rightarrow> account_db \<Rightarrow> account res" where
  "authV2 get_terms_result req requireTermsAgreed db =
     bindR (tokenFromRequest req) (\<lambda>token.
       case token of
         None \<Rightarrow> Inl unauthorized
       | Some v \<Rightarrow>
         bindR (sql_text v) (\<lambda>tok.
           case getAccountByToken tok db of
             None \<Rightarrow> Inl unauthorized
           | Some account \<Rightarrow>
               if requireTermsAgreed then
                 bindR get_terms_result (\<lambda>t.
                   if getMasterVersion t \<noteq> None \<and> ac_consentVersion account \<noteq> getMasterVersion t
                   then Inl (MatrixRestError 403 ''M_TERMS_NOT_SIGNED'' ''Terms not signed'')
                   else Inr account)
               else Inr account))"

section \<open>Handlers\<close>

text \<open>\<open>authV2\<close> has read the access token when a handler goes on, so that what the handler reads of the
  request afterwards it reads of \<open>after_token req\<close>.\<close>

definition account_render_GET :: "terms res \<Rightarrow> request \<Rightarrow> (account_db, reply) act" where
  "account_render_GET ts req db =
     (bindR (authV2 ts req True db) (\<lambda>account. Inr (ok_reply [(''user_id'', JStr (ac_userId account))])), db)"

definition logout_render_POST :: "terms res \<Rightarrow> request \<Rightarrow> (account_db, reply) act" where
  "logout_render_POST ts req =
     bindM (\<lambda>db. (authV2 ts req False db, db)) (\<lambda>_.
     bindM (liftR (tokenFromRequest (after_token req))) (\<lambda>token.
       case token of
         None \<Rightarrow> raise (MatrixRestError 400 ''M_MISSING_PARAMS'' ''Missing token'')
       | Some v \<Rightarrow> bindM (liftR (sql_text v)) (\<lambda>tok.
           bindM (modifyM (\<lambda>db. snd (delToken tok db))) (\<lambda>_. ret (ok_reply [])))))"

definition terms_render_GET :: "terms res \<Rightarrow> reply res" where
  "terms_render_GET ts = bindR ts (\<lambda>t. Inr (ok_reply (getForClient t)))"

text \<open>The elements of \<open>set(user_accepts)\<close>: of a list its elements, of a text its characters, of an object its keys.\<close>

fun iter_strs :: "json \<Rightarrow> string list res" where
  "iter_strs (JArr []) = Inr []"
| "iter_strs (JArr (JStr s # l)) = bindR (iter_strs (JArr l)) (\<lambda>ss. Inr (s # ss))"
| "iter_strs (JStr s) = Inr (map (\<lambda>c. [c]) s)"
| "iter_strs (JObj d) = Inr (map fst d)"
| "iter_strs _ = Inl TypeError"

definition terms_render_POST :: "terms res \<Rightarrow> request \<Rightarrow> (account_db, reply) act" where
  "terms_render_POST ts req =
     bindM (\<lambda>db. (authV2 ts req False db, db)) (\<lambda>account.
     bindM (liftR (get_args (after_token req) [''user_accepts''] True)) (\<lambda>args.
     bindM (liftR (json_index args ''user_accepts'')) (\<lambda>ua.
     bindM (liftR ts) (\<lambda>t.
     bindM (liftR (iter_strs ua)) (\<lambda>user_accepts.
     let unknown_urls = filter (\<lambda>u. u \<notin> getUrlSet t) (remdups user_accepts) in
     if unknown_urls \<noteq> []
     then raise (MatrixRestError 400 ''M_UNKNOWN'' (''Unrecognised URLs: '' @ str_join '', '' unknown_urls))
     else
       bindM (modifyM (addAgreedUrls (ac_userId account) user_accepts)) (\<lambda>_.
       bindM (getsM (getAgreedUrls (ac_userId account))) (\<lambda>all_accepted_urls.
       bindM (liftR (urlListIsSufficient t all_accepted_urls)) (\<lambda>sufficient.
       bindM (if sufficient then modifyM (setConsentVersion (ac_userId account) (getMasterVersion t))
              else ret ()) (\<lambda>_.
       ret (ok_reply []))))))))))"

section \<open>Invariant\<close>

definition account_inv :: "account_db \<Rightarrow> bool" where
  "account_inv db =
     (distinct (map ac_userId (ad_accounts db)) \<and> distinct (map fst (ad_tokens db)) \<and>
      snd ` set (ad_tokens db) \<subseteq> set (map ac_userId (ad_accounts db)) \<and> distinct (ad_terms db))"

lemma account_inv_empty [store_inv]: "account_inv empty_accounts"
  by (simp add: account_inv_def empty_accounts_def)

lemma account_inv_storeAccount [store_inv]: "account_inv db \<Longrightarrow> account_inv (storeAccount u ts v db)"
  by (auto simp: account_inv_def storeAccount_def)

lemma userIds_setConsentVersion [simp]:
  "map ac_userId (ad_accounts (setConsentVersion u v db)) = map ac_userId (ad_accounts db)"
  by (simp add: setConsentVersion_def)

lemma account_inv_setConsentVersion [store_inv]:
  "account_inv db \<Longrightarrow> account_inv (setConsentVersion u v db)"
  using userIds_setConsentVersion [of u v db]
  by (simp add: account_inv_def del: userIds_setConsentVersion) (simp add: setConsentVersion_def)

lemma account_inv_addToken [store_inv]:
  "account_inv db \<Longrightarrow> u \<in> set (map ac_userId (ad_accounts db)) \<Longrightarrow> account_inv (snd (addToken u t db))"
  by (auto simp: account_inv_def addToken_def)

lemma account_inv_delToken [store_inv]: "account_inv db \<Longrightarrow> account_inv (snd (delToken t db))"
  by (auto simp: account_inv_def delToken_def distinct_map_filter)

lemma addAgreedUrls_rows:
  "distinct rows \<Longrightarrow>
   distinct (fold (\<lambda>u rows. if (usr, u) \<in> set rows then rows else rows @ [(usr, u)]) urls rows) \<and>
   set (fold (\<lambda>u rows. if (usr, u) \<in> set rows then rows else rows @ [(usr, u)]) urls rows) =
     set rows \<union> Pair usr ` set urls"
  by (induction urls arbitrary: rows) auto

lemma account_inv_addAgreedUrls [store_inv]: "account_inv db \<Longrightarrow> account_inv (addAgreedUrls u urls db)"
  using addAgreedUrls_rows [of "ad_terms db" u urls] by (simp add: account_inv_def addAgreedUrls_def)

lemma set_getAgreedUrls: "set (getAgreedUrls u db) = {url. (u, url) \<in> set (ad_terms db)}"
  by (force simp: getAgreedUrls_def)

lemma getAgreedUrls_add:
  assumes "account_inv db"
  shows "set (getAgreedUrls u (addAgreedUrls u urls db)) = set (getAgreedUrls u db) \<union> set urls"
proof -
  have "set (ad_terms (addAgreedUrls u urls db)) = set (ad_terms db) \<union> Pair u ` set urls"
    using addAgreedUrls_rows [of "ad_terms db" u urls] assms
    by (simp add: addAgreedUrls_def account_inv_def)
  then show ?thesis by (auto simp: set_getAgreedUrls)
qed

lemma getAccountByToken_Some:
  assumes "account_inv db"
  shows "getAccountByToken tok db = Some a \<longleftrightarrow>
    a \<in> set (ad_accounts db) \<and> (tok, ac_userId a) \<in> set (ad_tokens db)"
proof -
  let ?l = "concat (map (\<lambda>a. map (\<lambda>_. a) (filter (\<lambda>(tk, u). u = ac_userId a \<and> tk = tok) (ad_tokens db)))
             (ad_accounts db))"
  have mem: "b \<in> set ?l \<longleftrightarrow> b \<in> set (ad_accounts db) \<and> (tok, ac_userId b) \<in> set (ad_tokens db)" for b
    by auto
  have uniq: "b = c" if "b \<in> set ?l" "c \<in> set ?l" for b c
  proof -
    from that have "ac_userId b = ac_userId c"
      unfolding mem using assms by (auto simp: account_inv_def dest: eq_key_imp_eq_value)
    with that assms show ?thesis unfolding mem account_inv_def distinct_map inj_on_def by blast
  qed
  show ?thesis
  proof (cases ?l)
    case Nil
    then have "\<not> (a \<in> set (ad_accounts db) \<and> (tok, ac_userId a) \<in> set (ad_tokens db))"
      using mem [of a] by (metis empty_iff list.set(1))
    then show ?thesis unfolding getAccountByToken_def Nil by simp
  next
    case (Cons b l)
    then have "b \<in> set ?l" by simp
    then have "a \<in> set ?l \<longleftrightarrow> b = a" using uniq by blast
    with mem [of a] show ?thesis unfolding getAccountByToken_def Cons by simp
  qed
qed

definition token_user :: "string \<Rightarrow> account_db \<Rightarrow> string option" where
  "token_user tok db = map_option ac_userId (getAccountByToken tok db)"

lemma token_user_Some:
  assumes "account_inv db"
  shows "token_user tok db = Some u \<longleftrightarrow> (tok, u) \<in> set (ad_tokens db)"
proof
  assume "token_user tok db = Some u"
  then show "(tok, u) \<in> set (ad_tokens db)"
    using getAccountByToken_Some [OF assms] by (auto simp: token_user_def)
next
  assume t: "(tok, u) \<in> set (ad_tokens db)"
  then have "u \<in> set (map ac_userId (ad_accounts db))" using assms by (force simp: account_inv_def)
  then obtain a where "a \<in> set (ad_accounts db)" "ac_userId a = u" by auto
  with t getAccountByToken_Some [OF assms, of tok a] show "token_user tok db = Some u"
    by (simp add: token_user_def)
qed

lemma token_user_eqI:
  "account_inv db \<Longrightarrow> account_inv db' \<Longrightarrow>
   (\<And>u. (tok, u) \<in> set (ad_tokens db) \<longleftrightarrow> (tok', u) \<in> set (ad_tokens db')) \<Longrightarrow>
   token_user tok db = token_user tok' db'"
  using token_user_Some by (metis not_None_eq)

section \<open>What authentication relies on\<close>

datatype ('x, 'u, 't) cred_event = Grant 'x 'u 't | Revoke 't

locale credential_store =
  fixes find :: "'t \<Rightarrow> 's \<Rightarrow> 'u option"
    and grant :: "'x \<Rightarrow> 'u \<Rightarrow> 't \<Rightarrow> 's \<Rightarrow> 's"
    and revoke :: "'t \<Rightarrow> 's \<Rightarrow> 's"
    and good :: "'s \<Rightarrow> bool"
  assumes grant_good: "good s \<Longrightarrow> good (grant x u t s)"
    and revoke_good: "good s \<Longrightarrow> good (revoke t s)"
    and find_grant: "good s \<Longrightarrow> find t' (grant x u t s) =
          (if t' = t \<and> find t s = None then Some u else find t' s)"
    and find_revoke: "good s \<Longrightarrow> find t' (revoke t s) = (if t' = t then None else find t' s)"
begin

fun run :: "('x, 'u, 't) cred_event list \<Rightarrow> 's \<Rightarrow> 's" where
  "run [] s = s"
| "run (Grant x u t # es) s = run es (grant x u t s)"
| "run (Revoke t # es) s = run es (revoke t s)"

lemma run_good: "good s \<Longrightarrow> good (run es s)"
  by (induction es s rule: run.induct) (auto simp: grant_good revoke_good)

lemma run_append: "run (es @ fs) s = run fs (run es s)"
  by (induction es s rule: run.induct) auto

text \<open>A granted token keeps standing for its user through anything but its own revocation.\<close>

lemma find_persists:
  assumes "good s" and "find t s = Some u" and "Revoke t \<notin> set es"
  shows "find t (run es s) = Some u"
  using assms
proof (induction es s rule: run.induct)
  case (2 x u' t' es s)
  then have "find t (grant x u' t' s) = Some u" by (auto simp: find_grant)
  with 2 show ?case by (simp add: grant_good)
qed (auto simp: find_revoke revoke_good)

text \<open>A token stands for nobody unless it was granted after its last revocation.\<close>

lemma find_granted:
  assumes "good s" and "find t s = None" and "find t (run es s) = Some u"
  shows "\<exists>before x after. es = before @ Grant x u t # after \<and> Revoke t \<notin> set after"
  using assms
proof (induction es arbitrary: u rule: rev_induct)
  case (snoc e es)
  have good: "good (run es s)" using snoc.prems(1) by (rule run_good)
  have f: "find t (run [e] (run es s)) = Some u" using snoc.prems(3) by (simp add: run_append)
  have keep: ?case if "find t (run es s) = Some u" "e \<noteq> Revoke t"
  proof -
    from snoc.IH [OF snoc.prems(1,2) that(1)] obtain before x after
      where "es = before @ Grant x u t # after" "Revoke t \<notin> set after" by blast
    with that(2) show ?thesis
      by (intro exI [of _ before] exI [of _ x] exI [of _ "after @ [e]"]) auto
  qed
  show ?case
  proof (cases e)
    case (Grant x u' t')
    show ?thesis
    proof (cases "t' = t \<and> find t (run es s) = None")
      case True
      then have "u' = u" using f Grant good by (simp add: find_grant)
      with True Grant show ?thesis by (intro exI [of _ es] exI [of _ x] exI [of _ "[]"]) simp
    next
      case False
      then have "find t (run es s) = Some u"
        using f Grant good by (auto simp: find_grant split: if_splits)
      with keep Grant show ?thesis by simp
    qed
  next
    case (Revoke t')
    then have "t' \<noteq> t" and "find t (run es s) = Some u"
      using f good by (auto simp: find_revoke split: if_splits)
    with keep Revoke show ?thesis by simp
  qed
qed simp

end

definition grant_token :: "int \<Rightarrow> string \<Rightarrow> string \<Rightarrow> account_db \<Rightarrow> account_db" where
  "grant_token now u t db = snd (addToken u t (storeAccount u now None db))"

definition revoke_token :: "string \<Rightarrow> account_db \<Rightarrow> account_db" where
  "revoke_token t db = snd (delToken t db)"

lemma tokens_storeAccount [simp]: "ad_tokens (storeAccount u ts v db) = ad_tokens db"
  by (simp add: storeAccount_def)

lemma account_inv_grant [store_inv]: "account_inv db \<Longrightarrow> account_inv (grant_token now u t db)"
  unfolding grant_token_def
  by (intro account_inv_addToken account_inv_storeAccount) (auto simp: storeAccount_def)

interpretation cred: credential_store token_user grant_token revoke_token account_inv
proof
  fix s :: account_db and x :: int and u t t' :: string
  assume s: "account_inv s"
  show g: "account_inv (grant_token x u t s)" using s by (rule account_inv_grant)
  show d: "account_inv (revoke_token t s)" unfolding revoke_token_def using s by (rule account_inv_delToken)
  have t: "(\<exists>u. (t, u) \<in> set (ad_tokens s)) \<longleftrightarrow> t \<in> fst ` set (ad_tokens s)" by force
  show "token_user t' (grant_token x u t s) =
      (if t' = t \<and> token_user t s = None then Some u else token_user t' s)"
  proof (cases "t \<in> fst ` set (ad_tokens s)")
    case True
    then have "token_user t s \<noteq> None" using t token_user_Some [OF s] by auto
    moreover from True have "token_user t' (grant_token x u t s) = token_user t' s"
      by (intro token_user_eqI g s) (simp add: grant_token_def addToken_def)
    ultimately show ?thesis by simp
  next
    case False
    then have "token_user t s = None" using t token_user_Some [OF s] by (metis not_None_eq)
    moreover from False have toks: "set (ad_tokens (grant_token x u t s)) = insert (t, u) (set (ad_tokens s))"
      by (simp add: grant_token_def addToken_def)
    have "token_user t' (grant_token x u t s) = token_user t' s" if "t' \<noteq> t"
      by (rule token_user_eqI [OF g s]) (use toks that in auto)
    moreover have "token_user t (grant_token x u t s) = Some u"
      using token_user_Some [OF g] toks by simp
    ultimately show ?thesis by auto
  qed
  show "token_user t' (revoke_token t s) = (if t' = t then None else token_user t' s)"
  proof (cases "t' = t")
    case True
    have "token_user t (revoke_token t s) = None"
      using token_user_Some [OF d, of t] by (auto simp: revoke_token_def delToken_def)
    with True show ?thesis by simp
  next
    case False
    have "token_user t' (revoke_token t s) = token_user t' s"
      by (rule token_user_eqI [OF d s]) (use False in \<open>auto simp: revoke_token_def delToken_def\<close>)
    with False show ?thesis by simp
  qed
qed

section \<open>Properties\<close>

lemma issueToken_cases:
  "issueToken u now r db =
     (let tok = generateAlphanumericTokenOfLength r 64; db' = grant_token now u tok db in
      (if tok \<in> fst ` set (ad_tokens db) then (Inl IntegrityError, db') else (Inr tok, db')))"
  by (simp add: issueToken_def act_simps Let_def addToken_def grant_token_def)

lemma authV2_token:
  assumes "tokenFromRequest req = Inr (Some (JStr tok))"
  shows "authV2 ts req False db =
    (case getAccountByToken tok db of None \<Rightarrow> Inl unauthorized | Some a \<Rightarrow> Inr a)"
  using assms by (simp add: authV2_def sql_text_def split: option.splits)

lemma authV2_after_args: "authV2 ts (after_args req) b db = Inr a \<Longrightarrow> authV2 ts req b db = Inr a"
  by (auto simp: authV2_def bindR_eq_Inr dest: tokenFromRequest_after_args)

lemma logout_token:
  assumes "bearer_token req = Some tok" and "getAccountByToken tok db = Some a"
  shows "logout_render_POST ts req db = (Inr (ok_reply []), revoke_token tok db)"
  using assms
  by (simp add: logout_render_POST_def act_simps authV2_def sql_text_def revoke_token_def)

definition bearer_req :: "string \<Rightarrow> json \<Rightarrow> request" where
  "bearer_req tok body = \<lparr>rq_method = ''POST'', rq_path = ''/_matrix/identity/v2/terms'',
     rq_headers = [(''authorization'', [''Bearer '' @ tok])], rq_args = [], rq_body = Some body\<rparr>"

lemma bearer_token_bearer: "bearer_token (bearer_req tok body) = Some tok"
proof -
  have "str_lower ''Authorization'' = ''authorization''" by code_simp
  then show ?thesis
    by (simp add: bearer_token_def bearer_req_def getHeader_def getRawHeaders_def startswith_def)
qed

lemma tokenFromRequest_bearer: "tokenFromRequest (bearer_req tok body) = Inr (Some (JStr tok))"
  by (rule token_of_bearer [OF bearer_token_bearer])

text \<open>A request that carries its token in its body cannot log out: checking the token has consumed the
  body, and the second reading fails before the token is deleted.\<close>

theorem logout_body_token_fails:
  assumes "wants_json req" and "bearer_token req = None"
  shows "\<exists>ex. logout_render_POST ts req db = (Inl ex, db) \<and>
    (\<forall>a. authV2 ts req False db = Inr a \<longrightarrow> ex = MatrixRestError 400 ''M_BAD_JSON'' ''Malformed JSON'')"
proof -
  have "tokenFromRequest (after_token req) = Inl (MatrixRestError 400 ''M_BAD_JSON'' ''Malformed JSON'')"
    using assms by (simp add: tokenFromRequest_def after_token_def get_args_second)
  then show ?thesis
    by (cases "authV2 ts req False db") (simp_all add: logout_render_POST_def act_simps)
qed

theorem logout_body_token_fails_witness:
  "let db = grant_token 0 ''@a:hs'' ''tok'' empty_accounts;
       req = bearer_req ''other'' (JObj [(''access_token'', JStr ''tok'')])\<lparr>rq_headers := []\<rparr>
   in logout_render_POST (Inr None) req db =
      (Inl (MatrixRestError 400 ''M_BAD_JSON'' ''Malformed JSON''), db)"
proof -
  let ?db = "grant_token 0 ''@a:hs'' ''tok'' empty_accounts"
  let ?req = "bearer_req ''other'' (JObj [(''access_token'', JStr ''tok'')])\<lparr>rq_headers := []\<rparr>"
  have w: "wants_json ?req" and n: "bearer_token ?req = None" by code_simp+
  have "authV2 (Inr None) ?req False ?db =
      Inr \<lparr>ac_userId = ''@a:hs'', ac_creationTs = 0, ac_consentVersion = None\<rparr>" by code_simp
  then show ?thesis
    using logout_body_token_fails [OF w n, of "Inr None" ?db] unfolding Let_def by blast
qed

lemma get_args_bearer:
  "get_args (bearer_req tok (JObj d)) args True =
    (let missing = filter (\<lambda>a. \<not> dict_has d a) args in
     if missing = [] then Inr (JObj d)
     else Inl (MatrixRestError 400 ''M_MISSING_PARAMS'' (''Missing parameters: '' @ str_join '','' missing)))"
  by (simp add: get_args_def missing_args_iff Let_def wants_json_def v1_path_def bearer_req_def startswith_def)

text \<open>C17: the life of an access token. A token issued for a user authenticates requests that bear it in
  their \<open>Authorization\<close> header as that user, through any further issuing and revoking of other tokens;
  logging out with it succeeds, after which the token is refused with 401, while every other token
  stands for the same user as before. (With the token in the body of the request logging out fails,
  \<open>logout_body_token_fails\<close>.)\<close>

theorem token_lifecycle:
  assumes "account_inv db" and "issueToken u now r db = (Inr tok, db1)"
    and bearer: "bearer_token req = Some tok"
    and "Revoke tok \<notin> set events"
  shows "let db2 = cred.run events db1; db3 = snd (logout_render_POST ts req db2) in
    (\<exists>a. authV2 ts req False db2 = Inr a \<and> ac_userId a = u) \<and>
    fst (logout_render_POST ts req db2) = Inr (ok_reply []) \<and>
    authV2 ts req False db3 = Inl unauthorized \<and>
    (\<forall>tok'. tok' \<noteq> tok \<longrightarrow> token_user tok' db3 = token_user tok' db2)"
proof -
  let ?db2 = "cred.run events db1"
  have new: "tok \<notin> fst ` set (ad_tokens db)" and db1: "db1 = grant_token now u tok db"
    using assms(2) by (auto simp: issueToken_cases Let_def split: if_splits)
  have "token_user tok db = None"
    using new token_user_Some [OF assms(1), of tok] by (metis image_eqI fst_conv not_None_eq)
  then have "token_user tok db1 = Some u" using cred.find_grant [OF assms(1)] db1 by simp
  moreover have inv1: "account_inv db1" using db1 assms(1) by (simp add: account_inv_grant)
  ultimately have u: "token_user tok ?db2 = Some u"
    using cred.find_persists assms(4) by blast
  then obtain a where a: "getAccountByToken tok ?db2 = Some a" "ac_userId a = u"
    by (auto simp: token_user_def)
  have inv2: "account_inv ?db2" using inv1 by (rule cred.run_good)
  note lo = logout_token [OF bearer a(1), of ts]
  have "token_user tok (revoke_token tok ?db2) = None" using cred.find_revoke [OF inv2] by simp
  then have "getAccountByToken tok (revoke_token tok ?db2) = None" by (simp add: token_user_def)
  then show ?thesis
    using a lo authV2_token [OF token_of_bearer [OF bearer], of ts] cred.find_revoke [OF inv2] by (simp add: Let_def)
qed

theorem token_lifecycle_witness:
  "let tok = generateAlphanumericTokenOfLength (\<lambda>_. 1) 64; req = bearer_req tok (JObj []);
       db2 = cred.run [Grant 5 ''@b:hs'' ''other''] (snd (issueToken ''@a:hs'' 0 (\<lambda>_. 1) empty_accounts))
   in authV2 (Inr None) req False (snd (logout_render_POST (Inr None) req db2)) = Inl unauthorized"
proof -
  let ?tok = "generateAlphanumericTokenOfLength (\<lambda>_. 1) 64"
  have i: "issueToken ''@a:hs'' 0 (\<lambda>_. 1) empty_accounts =
      (Inr ?tok, snd (issueToken ''@a:hs'' 0 (\<lambda>_. 1) empty_accounts))"
    by (simp add: issueToken_cases Let_def empty_accounts_def)
  show ?thesis
    using token_lifecycle [OF account_inv_empty i bearer_token_bearer,
        of "[Grant 5 ''@b:hs'' ''other'']" "Inr None" "JObj []"]
    by (simp add: Let_def)
qed

text \<open>who passes authentication with terms. The check returns an account exactly if the request bears
  a token stored for it and either no terms are configured or the account's consent is for
  the current version of the terms.\<close>

theorem authV2_iff:
  assumes "account_inv db" and "tokenFromRequest req = Inr (Some (JStr tok))"
  shows "authV2 (Inr t) req True db = Inr a \<longleftrightarrow>
    a \<in> set (ad_accounts db) \<and> (tok, ac_userId a) \<in> set (ad_tokens db) \<and>
    (t = None \<or> (\<exists>c. t = Some c \<and> ac_consentVersion a = Some (tc_master_version c)))"
proof -
  have "authV2 (Inr t) req True db = Inr a \<longleftrightarrow> getAccountByToken tok db = Some a \<and>
      (t = None \<or> (\<exists>c. t = Some c \<and> ac_consentVersion a = Some (tc_master_version c)))"
    using assms(2) by (auto simp: authV2_def sql_text_def getMasterVersion_def split: option.splits)
  then show ?thesis by (simp add: getAccountByToken_Some [OF assms(1)])
qed

theorem authV2_iff_witness:
  "let db = grant_token 0 ''@a:hs'' ''tok'' empty_accounts;
       a = \<lparr>ac_userId = ''@a:hs'', ac_creationTs = 0, ac_consentVersion = None\<rparr>
   in authV2 (Inr None) (bearer_req ''tok'' JNull) True db = Inr a"
  using authV2_iff [OF account_inv_grant [OF account_inv_empty] tokenFromRequest_bearer,
      of None "''tok''" JNull 0 "''@a:hs''" "''tok''"]
  by (simp add: Let_def grant_token_def storeAccount_def addToken_def empty_accounts_def)

lemma agreed_docs_iff:
  "d \<in> agreed_docs urls docs \<longleftrightarrow>
     (\<exists>doc. (d, doc) \<in> set docs \<and> (\<exists>l p. (l, p) \<in> set (po_langs doc) \<and> lp_url p \<in> set urls))"
proof (induction docs)
  case (Cons x docs)
  obtain d' doc' where x: "x = (d', doc')" by fastforce
  have "(\<exists>lang \<in> set (map snd (po_langs doc')). lp_url lang \<in> set urls) \<longleftrightarrow>
      (\<exists>l p. (l, p) \<in> set (po_langs doc') \<and> lp_url p \<in> set urls)"
    by force
  with Cons x show ?case by (auto simp del: set_map)
qed simp

text \<open>Each document needs one of its languages accepted.\<close>

definition covers :: "string set \<Rightarrow> term_config \<Rightarrow> bool" where
  "covers urls c = (\<forall>(d, doc) \<in> set (tc_docs c). \<exists>(l, p) \<in> set (po_langs doc). lp_url p \<in> urls)"

lemma sufficient_iff_covers:
  assumes "dict_wf (tc_docs c)"
  shows "urlListIsSufficient (Some c) urls = Inr (covers (set urls) c)"
proof -
  have key: "doc = doc'" if "(d, doc) \<in> set (tc_docs c)" "(d, doc') \<in> set (tc_docs c)" for d doc doc'
    using assms that by (rule eq_key_imp_eq_value)
  have "agreed_docs urls (tc_docs c) = set (map fst (tc_docs c)) \<longleftrightarrow> covers (set urls) c"
  proof
    assume e: "agreed_docs urls (tc_docs c) = set (map fst (tc_docs c))"
    show "covers (set urls) c"
      unfolding covers_def
    proof (intro ballI, clarify)
      fix d doc
      assume m: "(d, doc) \<in> set (tc_docs c)"
      then have "d \<in> set (map fst (tc_docs c))" by force
      with e have "d \<in> agreed_docs urls (tc_docs c)" by simp
      with key [OF m] show "\<exists>(l, p) \<in> set (po_langs doc). lp_url p \<in> set urls"
        unfolding agreed_docs_iff by blast
    qed
  next
    assume "covers (set urls) c"
    then show "agreed_docs urls (tc_docs c) = set (map fst (tc_docs c))"
      unfolding covers_def by (intro set_eqI) (force simp: agreed_docs_iff)
  qed
  then show ?thesis by (simp add: urlListIsSufficient_def)
qed

lemma getAccountByToken_terms:
  assumes "account_inv db" and "getAccountByToken tok db = Some a"
  shows "getAccountByToken tok (setConsentVersion (ac_userId a) v (addAgreedUrls u urls db)) =
      Some (a\<lparr>ac_consentVersion := v\<rparr>)"
    and "getAccountByToken tok (addAgreedUrls u urls db) = Some a"
proof -
  from assms have a: "a \<in> set (ad_accounts db)" "(tok, ac_userId a) \<in> set (ad_tokens db)"
    using getAccountByToken_Some by auto
  have inv: "account_inv (addAgreedUrls u urls db)" using assms(1) by (rule store_inv)
  show "getAccountByToken tok (addAgreedUrls u urls db) = Some a"
    using getAccountByToken_Some [OF inv] a by (simp add: addAgreedUrls_def)
  show "getAccountByToken tok (setConsentVersion (ac_userId a) v (addAgreedUrls u urls db)) =
      Some (a\<lparr>ac_consentVersion := v\<rparr>)"
    using getAccountByToken_Some [OF account_inv_setConsentVersion [OF inv]] a
    by (force simp: addAgreedUrls_def setConsentVersion_def)
qed

text \<open>C25: accepting the terms. A logged-in user posts a list of URLs, all of them URLs of the current
  terms, in a request whose arguments can still be read after its access token has been (so that the
  token is not in the body). If together with what the user accepted before they cover every document in some
  language, authentication with terms succeeds from then on; if they do not, the account's consent
  is unchanged. In both cases the URLs are remembered.\<close>

theorem terms_post_unlocks:
  assumes "account_inv db" and "dict_wf (tc_docs c)"
    and "tokenFromRequest req = Inr (Some (JStr tok))" and "getAccountByToken tok db = Some a"
    and "get_args (after_token req) [''user_accepts''] True = Inr (JObj args)"
    and "dict_get args ''user_accepts'' = Some ua" and "iter_strs ua = Inr urls"
    and "set urls \<subseteq> getUrlSet (Some c)"
  shows "let (r, db') = terms_render_POST (Inr (Some c)) req db;
             accepted = set (getAgreedUrls (ac_userId a) db) \<union> set urls
         in r = Inr (ok_reply []) \<and> set (getAgreedUrls (ac_userId a) db') = accepted \<and>
            authV2 (Inr (Some c)) req True db' =
              (if covers accepted c
               then Inr (a\<lparr>ac_consentVersion := Some (tc_master_version c)\<rparr>)
               else authV2 (Inr (Some c)) req True db)"
proof -
  let ?u = "ac_userId a"
  let ?db = "addAgreedUrls ?u urls db"
  let ?acc = "set (getAgreedUrls ?u db) \<union> set urls"
  have none: "filter (\<lambda>u. u \<notin> getUrlSet (Some c)) (remdups urls) = []"
    using assms(8) by (auto simp: filter_empty_conv)
  have suff: "urlListIsSufficient (Some c) (getAgreedUrls ?u ?db) = Inr (covers ?acc c)"
    using sufficient_iff_covers [OF assms(2)] getAgreedUrls_add [OF assms(1)] by simp
  have post: "terms_render_POST (Inr (Some c)) req db = (Inr (ok_reply []),
      if covers ?acc c then setConsentVersion ?u (Some (tc_master_version c)) ?db else ?db)"
    using assms(3-7) none suff
    by (simp add: terms_render_POST_def act_simps authV2_token Let_def getMasterVersion_def)
  have urls: "set (getAgreedUrls ?u (setConsentVersion ?u v ?db)) = ?acc" for v
    using getAgreedUrls_add [OF assms(1)] by (simp add: setConsentVersion_def getAgreedUrls_def)
  note acc = getAccountByToken_terms [OF assms(1,4), where u = ?u and urls = urls]
  show ?thesis
  proof (cases "covers ?acc c")
    case True
    then have "authV2 (Inr (Some c)) req True (setConsentVersion ?u (Some (tc_master_version c)) ?db) =
        Inr (a\<lparr>ac_consentVersion := Some (tc_master_version c)\<rparr>)"
      using assms(3) acc(1) by (simp add: authV2_def sql_text_def getMasterVersion_def)
    with True post urls show ?thesis by simp
  next
    case False
    then have "authV2 (Inr (Some c)) req True ?db = authV2 (Inr (Some c)) req True db"
      using assms(3,4) acc(2) by (simp add: authV2_def sql_text_def)
    with False post getAgreedUrls_add [OF assms(1)] show ?thesis by simp
  qed
qed

theorem terms_post_unlocks_witness:
  "let db = grant_token 0 ''@a:hs'' ''tok'' empty_accounts;
       a = \<lparr>ac_userId = ''@a:hs'', ac_creationTs = 0, ac_consentVersion = None\<rparr>;
       c = \<lparr>tc_master_version = ''1'', tc_docs = [(''tos'', \<lparr>po_version = ''1'',
              po_langs = [(''en'', \<lparr>lp_name = ''T'', lp_url = ''http://t''\<rparr>)]\<rparr>)]\<rparr>;
       req = bearer_req ''tok'' (JObj [(''user_accepts'', JArr [JStr ''http://t''])])
   in authV2 (Inr (Some c)) req True (snd (terms_render_POST (Inr (Some c)) req db)) =
        Inr (a\<lparr>ac_consentVersion := Some ''1''\<rparr>)"
proof -
  let ?db = "grant_token 0 ''@a:hs'' ''tok'' empty_accounts"
  let ?a = "\<lparr>ac_userId = ''@a:hs'', ac_creationTs = 0, ac_consentVersion = None\<rparr>"
  let ?c = "\<lparr>tc_master_version = ''1'', tc_docs = [(''tos'', \<lparr>po_version = ''1'',
              po_langs = [(''en'', \<lparr>lp_name = ''T'', lp_url = ''http://t''\<rparr>)]\<rparr>)]\<rparr>"
  let ?args = "[(''user_accepts'', JArr [JStr ''http://t''])]"
  have a: "getAccountByToken ''tok'' ?db = Some ?a" by code_simp
  have g: "get_args (after_token (bearer_req ''tok'' (JObj ?args))) [''user_accepts''] True = Inr (JObj ?args)"
    by (simp add: get_args_bearer dict_has_def after_token_bearer [OF bearer_token_bearer])
  show ?thesis
    using terms_post_unlocks [OF account_inv_grant [OF account_inv_empty] _ tokenFromRequest_bearer a g,
        of ?c "JArr [JStr ''http://t'']" "[''http://t'']"]
    by (simp add: Let_def getUrlSet_def covers_def split: prod.splits)
qed

end
