(* ===== verification/Invite_Store.thy ===== *)
theory Invite_Store
  imports Json
begin

text \<open>
  \<open>sydent/db/invite_tokens.py\<close>: invitations of third-party identifiers that are not bound
  yet, and the ephemeral public keys that go with them. Times in this table are in
  seconds.
\<close>

record invite_row =
  i_medium :: string
  i_address :: string
  i_room_id :: string
  i_sender :: string
  i_token :: string
  i_received_ts :: int
  i_sent_ts :: "int option"

record ephemeral_key =
  ek_public_key :: string
  ek_verify_count :: int
  ek_persistence_ts :: int

record invite_db =
  iv_tokens :: "invite_row list"
  iv_keys :: "ephemeral_key list"

definition empty_invites :: invite_db where
  "empty_invites = \<lparr>iv_tokens = [], iv_keys = []\<rparr>"

definition storeToken ::
    "string \<Rightarrow> string \<Rightarrow> string \<Rightarrow> string \<Rightarrow> string \<Rightarrow> int \<Rightarrow> invite_db \<Rightarrow> invite_db" where
  "storeToken medium normalised_address roomId sender token now_s db =
     db\<lparr>iv_tokens := iv_tokens db @
       [\<lparr>i_medium = medium, i_address = normalised_address, i_room_id = roomId, i_sender = sender,
         i_token = token, i_received_ts = now_s, i_sent_ts = None\<rparr>]\<rparr>"

definition invite_dict :: "invite_row \<Rightarrow> jdict" where
  "invite_dict r =
     [(''medium'', JStr (i_medium r)), (''address'', JStr (i_address r)), (''room_id'', JStr (i_room_id r)),
      (''sender'', JStr (i_sender r)), (''token'', JStr (i_token r))]"

definition pending_rows :: "string \<Rightarrow> string \<Rightarrow> invite_db \<Rightarrow> invite_row list" where
  "pending_rows medium address db =
     filter (\<lambda>r. i_medium r = medium \<and> i_address r = address \<and> i_sent_ts r = None) (iv_tokens db)"

definition getTokens :: "string \<Rightarrow> string \<Rightarrow> invite_db \<Rightarrow> jdict list" where
  "getTokens medium address db = map invite_dict (pending_rows medium address db)"

definition markTokensAsSent :: "string \<Rightarrow> string \<Rightarrow> int \<Rightarrow> invite_db \<Rightarrow> invite_db" where
  "markTokensAsSent medium address now_s db =
     db\<lparr>iv_tokens := map (\<lambda>r. if i_medium r = medium \<and> i_address r = address
          then r\<lparr>i_sent_ts := Some now_s\<rparr> else r) (iv_tokens db)\<rparr>"

definition storeEphemeralPublicKey :: "string \<Rightarrow> int \<Rightarrow> (invite_db, unit) act" where
  "storeEphemeralPublicKey publicKey now_s db =
     (if publicKey \<in> set (map ek_public_key (iv_keys db)) then (Inl IntegrityError, db)
      else (Inr (), db\<lparr>iv_keys := iv_keys db @
        [\<lparr>ek_public_key = publicKey, ek_verify_count = 0, ek_persistence_ts = now_s\<rparr>]\<rparr>))"

definition validateEphemeralPublicKey :: "string \<Rightarrow> invite_db \<Rightarrow> bool \<times> invite_db" where
  "validateEphemeralPublicKey publicKey db =
     (let rowcount = length (filter (\<lambda>k. ek_public_key k = publicKey) (iv_keys db))
      in (rowcount > 0,
          db\<lparr>iv_keys := map (\<lambda>k. if ek_public_key k = publicKey
               then k\<lparr>ek_verify_count := ek_verify_count k + 1\<rparr> else k) (iv_keys db)\<rparr>))"

definition getSenderForToken :: "string \<Rightarrow> invite_db \<Rightarrow> string option" where
  "getSenderForToken token db =
     (case filter (\<lambda>r. i_token r = token) (iv_tokens db) of [] \<Rightarrow> None | r # _ \<Rightarrow> Some (i_sender r))"

definition deleteTokens :: "string \<Rightarrow> string \<Rightarrow> invite_db \<Rightarrow> invite_db" where
  "deleteTokens medium address db =
     db\<lparr>iv_tokens := filter (\<lambda>r. \<not> (i_medium r = medium \<and> i_address r = address)) (iv_tokens db)\<rparr>"

lemma pending_after_mark [store_frame]:
  "pending_rows m a (markTokensAsSent medium address now db) =
     (if (m, a) = (medium, address) then [] else pending_rows m a db)"
proof -
  have "filter (\<lambda>r. i_medium r = m \<and> i_address r = a \<and> i_sent_ts r = None)
      (map (\<lambda>r. if i_medium r = medium \<and> i_address r = address then r\<lparr>i_sent_ts := Some now\<rparr> else r) rows) =
    (if (m, a) = (medium, address) then []
     else filter (\<lambda>r. i_medium r = m \<and> i_address r = a \<and> i_sent_ts r = None) rows)" for rows
    by (induction rows) auto
  from this [of "iv_tokens db"] show ?thesis by (simp add: pending_rows_def markTokensAsSent_def)
qed

lemma pending_after_delete [store_frame]:
  "pending_rows m a (deleteTokens medium address db) =
     (if (m, a) = (medium, address) then [] else pending_rows m a db)"
  by (auto simp: pending_rows_def deleteTokens_def filter_empty_conv intro: filter_cong)

lemma pending_after_store [store_frame]:
  "pending_rows m a (storeToken medium address room sender tok now db) =
     pending_rows m a db @ (if (m, a) = (medium, address)
       then [\<lparr>i_medium = medium, i_address = address, i_room_id = room, i_sender = sender,
         i_token = tok, i_received_ts = now, i_sent_ts = None\<rparr>] else [])"
  by (simp add: pending_rows_def storeToken_def)

lemma validate_after_store_key:
  "storeEphemeralPublicKey k now db = (Inr (), db') \<Longrightarrow> fst (validateEphemeralPublicKey k db')"
  by (auto simp: storeEphemeralPublicKey_def validateEphemeralPublicKey_def Let_def split: if_splits)

end
