(* ===== verification/Hashing_Store.thy ===== *)
theory Hashing_Store
  imports Assoc_Store
begin

text \<open>
  \<open>sydent/db/hashing_metadata.py\<close>: the pepper of the lookup hashes and the rehashing of both
  tables when it is stored. The hash function is an argument of the operations, as in the code.
\<close>

text \<open>The object's cache and the row of the table.\<close>

record hashing_store =
  hs_cached :: "string option"
  hs_row :: "string option"

definition get_lookup_pepper :: "hashing_store \<Rightarrow> string option \<times> hashing_store" where
  "get_lookup_pepper hs =
     (case hs_cached hs of
        Some p \<Rightarrow> (Some p, hs)
      | None \<Rightarrow> (case hs_row hs of None \<Rightarrow> (None, hs) | Some p \<Rightarrow> (Some p, hs\<lparr>hs_cached := Some p\<rparr>)))"

definition hash_input :: "string \<Rightarrow> string \<Rightarrow> string \<Rightarrow> string" where
  "hash_input address medium pepper = str_join '' '' [address, medium, pepper]"

text \<open>
  \<open>_rehash_threepids\<close> on a table of rows in the order of their identifiers, given how to read the
  medium and address of a row and how to set its hash.
\<close>

definition rehash_one ::
    "('r \<Rightarrow> string \<times> string) \<Rightarrow> (string \<Rightarrow> 'r \<Rightarrow> 'r) \<Rightarrow> (string \<Rightarrow> string) \<Rightarrow> string \<Rightarrow>
     string \<times> string \<Rightarrow> 'r list \<Rightarrow> 'r list" where
  "rehash_one pid set_hash hf pepper p rows =
     (case p of (medium, address) \<Rightarrow>
        if medium = '''' \<or> address = '''' then rows
        else let result = hf (hash_input address medium pepper)
             in map (\<lambda>r. if pid r = (medium, address) then set_hash result r else r) rows)"

lemma length_rehash_one [simp]: "length (rehash_one pid set_hash hf pepper p rows) = length rows"
  by (simp add: rehash_one_def Let_def split: prod.splits)

lemma length_fold_rehash [simp]:
  "length (fold (rehash_one pid set_hash hf pepper) ps rows) = length rows"
  by (induction ps arbitrary: rows) auto

function rehash_loop ::
    "('r \<Rightarrow> string \<times> string) \<Rightarrow> (string \<Rightarrow> 'r \<Rightarrow> 'r) \<Rightarrow> (string \<Rightarrow> string) \<Rightarrow> string \<Rightarrow>
     nat \<Rightarrow> 'r list \<Rightarrow> 'r list" where
  "rehash_loop pid set_hash hf pepper count rows =
     (if count < length rows
      then let batch = map pid (take 500 (drop count rows))
           in rehash_loop pid set_hash hf pepper (count + length batch)
                (fold (rehash_one pid set_hash hf pepper) batch rows)
      else rows)"
  by pat_completeness auto
termination
  by (relation "measure (\<lambda>(pid, sh, hf, p, count, rows). length rows - count)") auto

declare rehash_loop.simps [simp del]

definition rehash_threepids ::
    "('r \<Rightarrow> string \<times> string) \<Rightarrow> (string \<Rightarrow> 'r \<Rightarrow> 'r) \<Rightarrow> (string \<Rightarrow> string) \<Rightarrow> string \<Rightarrow> 'r list \<Rightarrow> 'r list"
  where
  "rehash_threepids pid set_hash hf pepper rows = rehash_loop pid set_hash hf pepper 0 rows"

definition set_local_hash :: "string \<Rightarrow> local_row \<Rightarrow> local_row" where
  "set_local_hash h r = r\<lparr>l_assoc := (l_assoc r)\<lparr>ta_lookup_hash := Some h\<rparr>\<rparr>"

definition set_global_hash :: "string \<Rightarrow> global_row \<Rightarrow> global_row" where
  "set_global_hash h r = r\<lparr>g_lookup_hash := Some h\<rparr>"

definition store_lookup_pepper ::
    "(string \<Rightarrow> string) \<Rightarrow> string \<Rightarrow> hashing_store \<times> local_table \<times> global_table \<Rightarrow>
     hashing_store \<times> local_table \<times> global_table" where
  "store_lookup_pepper hashing_function pepper st =
     (case st of (hs, lt, gt) \<Rightarrow>
        (\<lparr>hs_cached = Some pepper, hs_row = Some pepper\<rparr>,
         lt\<lparr>l_rows := rehash_threepids row_3pid set_local_hash hashing_function pepper (l_rows lt)\<rparr>,
         gt\<lparr>g_rows := rehash_threepids g_3pid set_global_hash hashing_function pepper (g_rows gt)\<rparr>))"

text \<open>The start of the server: a pepper is generated if there is none.\<close>

definition startup_pepper ::
    "(string \<Rightarrow> string) \<Rightarrow> (nat \<Rightarrow> nat) \<Rightarrow> hashing_store \<times> local_table \<times> global_table \<Rightarrow>
     hashing_store \<times> local_table \<times> global_table" where
  "startup_pepper hf r st =
     (case st of (hs, lt, gt) \<Rightarrow>
        (case get_lookup_pepper hs of
           (Some (c # p), hs') \<Rightarrow> (hs', lt, gt)
         | (_, hs') \<Rightarrow> store_lookup_pepper hf (generateAlphanumericTokenOfLength r 5) (hs', lt, gt)))"

section \<open>Rehashing reaches every row\<close>

definition hashed :: "('r \<Rightarrow> string \<times> string) \<Rightarrow> (string \<Rightarrow> 'r \<Rightarrow> 'r) \<Rightarrow> (string \<Rightarrow> string) \<Rightarrow> string \<Rightarrow> 'r \<Rightarrow> 'r"
  where
  "hashed pid set_hash hf pepper r =
     (case pid r of (medium, address) \<Rightarrow>
        if medium = '''' \<or> address = '''' then r else set_hash (hf (hash_input address medium pepper)) r)"

text \<open>What is needed of reading and setting: setting the hash keeps the identifier, and the last setting counts.\<close>

definition hash_field :: "('r \<Rightarrow> string \<times> string) \<Rightarrow> (string \<Rightarrow> 'r \<Rightarrow> 'r) \<Rightarrow> bool" where
  "hash_field pid set_hash =
     ((\<forall>h r. pid (set_hash h r) = pid r) \<and> (\<forall>h k r. set_hash h (set_hash k r) = set_hash h r))"

lemma hash_field_local: "hash_field row_3pid set_local_hash"
  by (simp add: hash_field_def row_3pid_def set_local_hash_def)

lemma hash_field_global: "hash_field g_3pid set_global_hash"
  by (simp add: hash_field_def g_3pid_def set_global_hash_def)

lemma rehash_one_eq:
  "rehash_one pid set_hash hf pepper p rows =
     map (\<lambda>r. if pid r = p then hashed pid set_hash hf pepper r else r) rows"
proof -
  obtain m a where p: "p = (m, a)" by fastforce
  have "map (\<lambda>r. if pid r = p then hashed pid set_hash hf pepper r else r) rows = rows"
    if "m = [] \<or> a = []"
    using that p by (intro map_idI) (auto simp: hashed_def)
  then show ?thesis using p by (auto simp: rehash_one_def hashed_def Let_def)
qed

lemma hashed_pid: "hash_field pid sh \<Longrightarrow> pid (hashed pid sh hf p r) = pid r"
  by (simp add: hash_field_def hashed_def split: prod.splits)

lemma hashed_hashed:
  "hash_field pid sh \<Longrightarrow> hashed pid sh hf p (hashed pid sh hf p r) = hashed pid sh hf p r"
  by (auto simp: hash_field_def hashed_def split: prod.splits)

lemma fold_rehash_one:
  assumes "hash_field pid sh"
  shows "fold (rehash_one pid sh hf p) ps rows =
    map (\<lambda>r. if pid r \<in> set ps then hashed pid sh hf p r else r) rows"
proof (induction ps arbitrary: rows)
  case (Cons q ps)
  have "fold (rehash_one pid sh hf p) (q # ps) rows =
      map (\<lambda>r. if pid r \<in> set ps then hashed pid sh hf p r else r) (rehash_one pid sh hf p q rows)"
    by (simp add: Cons.IH)
  also have "\<dots> = map (\<lambda>r. if pid r \<in> set (q # ps) then hashed pid sh hf p r else r) rows"
    using assms by (auto simp: rehash_one_eq hashed_pid hashed_hashed)
  finally show ?case .
qed simp

lemma rehash_loop_eq:
  assumes "hash_field pid sh"
    and "rows = map (\<lambda>r. if pid r \<in> set (map pid (take count rows0)) then hashed pid sh hf p r else r) rows0"
  shows "rehash_loop pid sh hf p count rows = map (hashed pid sh hf p) rows0"
  using assms
proof (induction pid sh hf p count rows rule: rehash_loop.induct)
  case (1 pid sh hf p count rows)
  have len: "length rows = length rows0" using arg_cong [OF "1.prems"(2), of length] by simp
  have pids: "map pid rows = map pid rows0"
  proof -
    have "map pid rows = map (\<lambda>r. pid (if pid r \<in> set (map pid (take count rows0))
        then hashed pid sh hf p r else r)) rows0"
      by (subst "1.prems"(2)) (simp add: comp_def)
    then show ?thesis using hashed_pid [OF "1.prems"(1)] by (simp cong: if_cong)
  qed
  show ?case
  proof (cases "count < length rows")
    case True
    define batch where "batch = map pid (take 500 (drop count rows))"
    have b: "batch = map pid (take 500 (drop count rows0))"
      using pids by (metis batch_def drop_map take_map)
    have lb: "length batch = min 500 (length rows0 - count)" by (simp add: b)
    have tk: "set (map pid (take (count + length batch) rows0)) =
        set (map pid (take count rows0)) \<union> set batch"
    proof -
      have "take (length batch) (drop count rows0) = take 500 (drop count rows0)"
        by (simp add: lb min_def)
      then show ?thesis by (simp add: take_add image_Un b)
    qed
    have "fold (rehash_one pid sh hf p) batch rows =
        map (\<lambda>r. if pid r \<in> set (map pid (take (count + length batch) rows0))
             then hashed pid sh hf p r else r) rows0"
      unfolding fold_rehash_one [OF "1.prems"(1)] tk
      by (subst "1.prems"(2))
         (auto simp: hashed_pid [OF "1.prems"(1)] hashed_hashed [OF "1.prems"(1)])
    from "1.IH" [OF True batch_def "1.prems"(1) this] True show ?thesis
      by (subst rehash_loop.simps) (simp add: Let_def flip: batch_def)
  next
    case False
    then have "take count rows0 = rows0" using len by simp
    then have "rows = map (hashed pid sh hf p) rows0"
      using "1.prems"(2) by simp
    with False show ?thesis by (subst rehash_loop.simps) simp
  qed
qed

lemma rehash_threepids_eq:
  "hash_field pid sh \<Longrightarrow> rehash_threepids pid sh hf p rows = map (hashed pid sh hf p) rows"
  unfolding rehash_threepids_def by (rule rehash_loop_eq) simp_all

text \<open>C23: storing a pepper rehashes both tables completely: afterwards every row whose medium and
  address are not empty carries the hash of its own address, medium and the new pepper,
  whatever the number of rows and batches; rows with an empty part and all other columns
  are unchanged.\<close>

theorem store_lookup_pepper_rehashes_all:
  "store_lookup_pepper hf pepper (hs, lt, gt) =
     (\<lparr>hs_cached = Some pepper, hs_row = Some pepper\<rparr>,
      lt\<lparr>l_rows := map (\<lambda>r. let a = l_assoc r in
          if ta_medium a = '''' \<or> ta_address a = '''' then r
          else r\<lparr>l_assoc := a\<lparr>ta_lookup_hash := Some (hf (ta_address a @ '' '' @ ta_medium a @ '' '' @ pepper))\<rparr>\<rparr>)
        (l_rows lt)\<rparr>,
      gt\<lparr>g_rows := map (\<lambda>r.
          if g_medium r = '''' \<or> g_address r = '''' then r
          else r\<lparr>g_lookup_hash := Some (hf (g_address r @ '' '' @ g_medium r @ '' '' @ pepper))\<rparr>)
        (g_rows gt)\<rparr>)"
  by (simp add: store_lookup_pepper_def rehash_threepids_eq [OF hash_field_local]
      rehash_threepids_eq [OF hash_field_global] hashed_def [abs_def] row_3pid_def g_3pid_def
      set_local_hash_def set_global_hash_def hash_input_def Let_def cong: if_cong)

end
