(* ===== verification/Local_Push.thy ===== *)
theory Local_Push
  imports Assoc_Queries Hashing_Store Invite_Store
begin

text \<open>
  The state of the identity data and the push of local associations into the global table:
  \<open>LocalPeer\<close> of \<open>sydent/replication/peer.py\<close> and \<open>doLocalPush\<close> of
  \<open>sydent/replication/pusher.py\<close>.
\<close>

section \<open>The state\<close>

text \<open>
  The server's name and the configuration used here, and the functions of other packages: signing with the
  server's key, \<open>sha256_and_url_safe_base64\<close>, and the checks for IP addresses.
\<close>

record env =
  ev_server_name :: string
  ev_delete_tokens_on_bind :: bool
  ev_sign :: "jdict \<Rightarrow> jdict"
  ev_hash :: "string \<Rightarrow> string"
  ev_isIPAddress :: "string \<Rightarrow> bool"
  ev_isIPv6Address :: "string \<Rightarrow> bool"

text \<open>
  Several objects each own a \<open>HashingMetadataStore\<close> with a cache; the row behind them is written
  only at the start of the server, so one store stands for all of them. \<open>is_outbox\<close> holds the
  notifications in flight, \<open>is_retries\<close> the ones scheduled, with their delay in seconds.
\<close>

record identity_state =
  is_local :: local_table
  is_global :: global_conn
  is_invites :: invite_db
  is_extra :: jdict
  is_hashing :: hashing_store
  is_outbox :: "(string \<times> jdict \<times> nat) list"
  is_retries :: "(nat \<times> jdict \<times> nat) list"

abbreviation known :: "identity_state \<Rightarrow> global_table" where
  "known s \<equiv> gc_work (is_global s)"

definition pepper_of :: "identity_state \<Rightarrow> string option" where
  "pepper_of s = fst (get_lookup_pepper (is_hashing s))"

lemma get_lookup_pepper_cached:
  "fst (get_lookup_pepper (snd (get_lookup_pepper hs))) = fst (get_lookup_pepper hs)"
  by (simp add: get_lookup_pepper_def split: option.splits)

section \<open>The local peer\<close>

definition LocalPeer_lastId :: "env \<Rightarrow> identity_state \<Rightarrow> int" where
  "LocalPeer_lastId e s =
     (case lastIdFromServer (ev_server_name e) (known s) of None \<Rightarrow> -1 | Some i \<Rightarrow> i)"

fun LocalPeer_pushUpdates ::
    "env \<Rightarrow> int \<Rightarrow> (int \<times> jdict) list \<Rightarrow> (identity_state, unit) act" where
  "LocalPeer_pushUpdates e lastId [] s = (Inr (), s)"
| "LocalPeer_pushUpdates e lastId ((localId, sgAssoc) # rest) s =
     (if localId > lastId then
        (case threePidAssocFromDict sgAssoc of
           Inl ex \<Rightarrow> (Inl ex, s)
         | Inr a \<Rightarrow>
            (let assocObj = a\<lparr>ta_address := normalise_address (ta_address a) (ta_medium a)\<rparr> in
             case ta_mxid assocObj of
               Some _ \<Rightarrow>
                 (case pepper_of s of
                    None \<Rightarrow> (Inl RuntimeError, s)
                  | Some pepper \<Rightarrow>
                      if pepper = '''' then (Inl RuntimeError, s)
                      else
                        let str_to_hash = hash_input (ta_address assocObj) (ta_medium assocObj) pepper;
                            assocObj' = assocObj\<lparr>ta_lookup_hash := Some (ev_hash e str_to_hash)\<rparr>
                        in LocalPeer_pushUpdates e lastId rest
                             (s\<lparr>is_global := addAssociation assocObj' sgAssoc (ev_server_name e) localId True
                                  (is_global s)\<rparr>))
             | None \<Rightarrow>
                 LocalPeer_pushUpdates e lastId rest
                   (s\<lparr>is_global := removeAssociation (ta_medium assocObj) (ta_address assocObj)
                        (is_global s)\<rparr>)))
      else LocalPeer_pushUpdates e lastId rest s)"

definition doLocalPush :: "env \<Rightarrow> (identity_state, unit) act" where
  "doLocalPush e s =
     (let lastId = LocalPeer_lastId e s;
          signedAssocs = fst (getSignedAssociationsAfterId (ev_sign e) (is_extra s) (Some lastId) None (is_local s))
      in LocalPeer_pushUpdates e lastId signedAssocs s)"

section \<open>Invariant\<close>

definition local_normal :: "local_table \<Rightarrow> bool" where
  "local_normal t = (\<forall>r \<in> set (l_rows t).
     normalise_address (ta_address (l_assoc r)) (ta_medium (l_assoc r)) = ta_address (l_assoc r))"

text \<open>What this server has copied to the global table carries an identifier the local table has given out.\<close>

definition origin_link :: "string \<Rightarrow> int \<Rightarrow> global_table \<Rightarrow> bool" where
  "origin_link name seq g =
     (\<forall>r \<in> set (g_rows g). g_originServer r = name \<longrightarrow> g_originId r \<le> seq)"

definition identity_inv :: "env \<Rightarrow> identity_state \<Rightarrow> bool" where
  "identity_inv e s =
     (local_inv (is_local s) \<and> local_normal (is_local s) \<and>
      global_inv (known s) \<and> global_normal (known s) \<and>
      gc_disk (is_global s) = known s \<and>
      origin_link (ev_server_name e) (l_seq (is_local s)) (known s) \<and>
      dict_wf (is_extra s) \<and> fst ` set (is_extra s) \<subseteq> {''invites''})"

text \<open>What the two functions of other packages have to satisfy, and that the server has a pepper.\<close>

definition env_ok :: "env \<Rightarrow> identity_state \<Rightarrow> bool" where
  "env_ok e s = (sign_keeps (ev_sign e) \<and> (\<exists>p. pepper_of s = Some p \<and> p \<noteq> ''''))"

section \<open>What a push does\<close>

definition pushed_assoc :: "env \<Rightarrow> string \<Rightarrow> threepid_association \<Rightarrow> threepid_association" where
  "pushed_assoc e pepper a =
     (let addr = normalise_address (ta_address a) (ta_medium a)
      in a\<lparr>ta_address := addr, ta_lookup_hash := Some (ev_hash e (hash_input addr (ta_medium a) pepper))\<rparr>)"

definition push_row :: "env \<Rightarrow> string \<Rightarrow> jdict \<Rightarrow> local_row \<Rightarrow> global_table \<Rightarrow> global_table" where
  "push_row e pepper extra r g =
     (let a = l_assoc r in
      if ta_mxid a = None
      then delete_3pid (ta_medium a) (normalise_address (ta_address a) (ta_medium a)) g
      else insert_or_ignore (pushed_assoc e pepper a)
             (signedThreePidAssociation (ev_sign e) extra a) (ev_server_name e) (l_id r) g)"

definition pending :: "env \<Rightarrow> identity_state \<Rightarrow> local_row list" where
  "pending e s = filter (\<lambda>r. LocalPeer_lastId e s < l_id r) (l_rows (is_local s))"

definition with_global :: "global_table \<Rightarrow> identity_state \<Rightarrow> identity_state" where
  "with_global g s = s\<lparr>is_global := \<lparr>gc_work = g, gc_disk = g\<rparr>\<rparr>"

lemma conn_eta: "gc_disk c = gc_work c \<Longrightarrow> \<lparr>gc_work = gc_work c, gc_disk = gc_work c\<rparr> = (c :: global_conn)"
  by simp

lemma removeAssociation_eq:
  "removeAssociation m a c = \<lparr>gc_work = delete_3pid m a (gc_work c), gc_disk = delete_3pid m a (gc_work c)\<rparr>"
  by (cases c) (simp add: removeAssociation_def db_commit_def)

lemma addAssociation_commit_eq:
  "addAssociation a raw srv i True c =
     \<lparr>gc_work = insert_or_ignore a raw srv i (gc_work c), gc_disk = insert_or_ignore a raw srv i (gc_work c)\<rparr>"
  by (cases c) (simp add: addAssociation_def db_commit_def Let_def)

lemma extra_core: "fst ` set ex \<subseteq> {''invites''} \<Longrightarrow> set core_keys \<inter> fst ` set ex = {}"
  by (auto simp: core_keys_def)

lemma pushUpdates_rows:
  assumes "sign_keeps (ev_sign e)" and "fst ` set ex \<subseteq> {''invites''}"
    and "pepper_of s = Some p" and "p \<noteq> ''''" and "gc_disk (is_global s) = known s"
    and "\<forall>r \<in> set rows. lastId < l_id r"
  shows "LocalPeer_pushUpdates e lastId
      (map (\<lambda>r. (l_id r, signedThreePidAssociation (ev_sign e) ex (l_assoc r))) rows) s =
    (Inr (), with_global (fold (push_row e p ex) rows (known s)) s)"
  using assms(3-)
proof (induction rows arbitrary: s)
  case Nil
  then show ?case by (simp add: with_global_def conn_eta)
next
  case (Cons r rows)
  let ?sg = "signedThreePidAssociation (ev_sign e) ex (l_assoc r)"
  have rt: "threePidAssocFromDict ?sg = Inr ((l_assoc r)\<lparr>ta_lookup_hash := None\<rparr>)"
    by (rule assoc_roundtrip [OF assms(1) extra_core [OF assms(2)]])
  have IH: "LocalPeer_pushUpdates e lastId
      (map (\<lambda>r. (l_id r, signedThreePidAssociation (ev_sign e) ex (l_assoc r))) rows) (with_global g s) =
    (Inr (), with_global (fold (push_row e p ex) rows g) s)" for g
    using Cons.IH [of "with_global g s"] Cons.prems
    by (simp add: with_global_def pepper_of_def)
  show ?case
  proof (cases "ta_mxid (l_assoc r)")
    case None
    then have "push_row e p ex r g = delete_3pid (ta_medium (l_assoc r))
        (normalise_address (ta_address (l_assoc r)) (ta_medium (l_assoc r))) g" for g
      by (simp add: push_row_def Let_def)
    with None show ?thesis
      using Cons.prems rt IH [of "push_row e p ex r (known s)"]
      by (simp add: removeAssociation_eq with_global_def)
  next
    case (Some x)
    have "(l_assoc r)\<lparr>ta_address := normalise_address (ta_address (l_assoc r)) (ta_medium (l_assoc r)),
        ta_lookup_hash := Some (ev_hash e (hash_input
          (normalise_address (ta_address (l_assoc r)) (ta_medium (l_assoc r))) (ta_medium (l_assoc r)) p))\<rparr>
        = pushed_assoc e p (l_assoc r)"
      by (simp add: pushed_assoc_def Let_def)
    moreover from Some have "push_row e p ex r g = insert_or_ignore (pushed_assoc e p (l_assoc r)) ?sg
        (ev_server_name e) (l_id r) g" for g
      by (simp add: push_row_def Let_def)
    ultimately show ?thesis
      using Some Cons.prems rt IH [of "push_row e p ex r (known s)"]
      by (simp add: Let_def addAssociation_commit_eq with_global_def)
  qed
qed

lemma signed_feed_map:
  assumes "local_inv t"
  shows "fst (getSignedAssociationsAfterId sg ex (Some i) None t) =
    map (\<lambda>r. (l_id r, signedThreePidAssociation sg ex (l_assoc r))) (filter (\<lambda>r. i < l_id r) (l_rows t))"
  using getSignedAssociationsAfterId_feed [OF assms, of sg ex "Some i" None]
  by (simp add: feed_def after_rows_def)

lemma doLocalPush_eq:
  assumes "identity_inv e s" and "sign_keeps (ev_sign e)" and "pepper_of s = Some p" and "p \<noteq> ''''"
  shows "doLocalPush e s =
    (Inr (), with_global (fold (push_row e p (is_extra s)) (pending e s) (known s)) s)"
proof -
  let ?i = "LocalPeer_lastId e s"
  have "doLocalPush e s = LocalPeer_pushUpdates e ?i
      (map (\<lambda>r. (l_id r, signedThreePidAssociation (ev_sign e) (is_extra s) (l_assoc r))) (pending e s)) s"
    using assms(1) by (simp add: doLocalPush_def signed_feed_map identity_inv_def pending_def Let_def)
  also have "\<dots> = (Inr (), with_global (fold (push_row e p (is_extra s)) (pending e s) (known s)) s)"
    using assms by (intro pushUpdates_rows) (auto simp: identity_inv_def pending_def)
  finally show ?thesis .
qed

lemma push_row_inv:
  assumes "global_inv g" and "global_normal g" and "origin_link (ev_server_name e) seq g" and "l_id r \<le> seq"
  shows "global_inv (push_row e p ex r g)" and "global_normal (push_row e p ex r g)"
    and "origin_link (ev_server_name e) seq (push_row e p ex r g)"
proof -
  show "global_inv (push_row e p ex r g)"
    using assms(1) by (simp add: push_row_def Let_def store_inv)
  have "normalise_address (ta_address (pushed_assoc e p a)) (ta_medium (pushed_assoc e p a)) =
      ta_address (pushed_assoc e p a)" for a
    by (simp add: pushed_assoc_def Let_def)
  then show "global_normal (push_row e p ex r g)"
    using assms(2) by (simp add: push_row_def Let_def store_inv)
  show "origin_link (ev_server_name e) seq (push_row e p ex r g)"
    using assms(3,4)
    by (auto simp: push_row_def Let_def origin_link_def delete_3pid_def insert_or_ignore_def
        split: option.splits)
qed

lemma fold_push_row_inv:
  assumes "global_inv g" and "global_normal g" and "origin_link (ev_server_name e) seq g"
    and "\<forall>r \<in> set rows. l_id r \<le> seq"
  shows "global_inv (fold (push_row e p ex) rows g)" and "global_normal (fold (push_row e p ex) rows g)"
    and "origin_link (ev_server_name e) seq (fold (push_row e p ex) rows g)"
  using assms by (induction rows arbitrary: g) (simp_all add: push_row_inv)

lemma identity_inv_push [store_inv]:
  assumes "identity_inv e s" and "env_ok e s"
  shows "identity_inv e (snd (doLocalPush e s))" and "fst (doLocalPush e s) = Inr ()"
proof -
  obtain p where p: "pepper_of s = Some p" "p \<noteq> ''''" "sign_keeps (ev_sign e)"
    using assms(2) by (auto simp: env_ok_def)
  note eq = doLocalPush_eq [OF assms(1) p(3,1,2)]
  have "\<forall>r \<in> set (pending e s). l_id r \<le> l_seq (is_local s)"
    using assms(1) by (auto simp: pending_def identity_inv_def local_inv_def)
  then show "identity_inv e (snd (doLocalPush e s))"
    using assms(1) fold_push_row_inv [of "known s" e "l_seq (is_local s)" "pending e s" p "is_extra s"]
    by (simp add: eq identity_inv_def with_global_def)
  show "fst (doLocalPush e s) = Inr ()" by (simp add: eq)
qed

end
