(* ===== verification/Binder.thy ===== *)
theory Binder
  imports Local_Push
begin

text \<open>
  \<open>sydent/threepid/bind.py\<close>: creating and removing the association of a third-party identifier with a
  Matrix identifier, delivering pending invitations, and notifying the homeserver with
  exponential back-off.
\<close>

definition THREEPID_ASSOCIATION_LIFETIME_MS :: int where
  "THREEPID_ASSOCIATION_LIFETIME_MS = 100 * 365 * 24 * 60 * 60 * 1000"

section \<open>Notifying the homeserver\<close>

text \<open>
  The part of \<open>_notify\<close> before its request: it runs at once, and the request joins the ones in
  flight. An exception in it is logged by the event loop and has no other effect.
\<close>

definition notify :: "env \<Rightarrow> jdict \<Rightarrow> nat \<Rightarrow> identity_state \<Rightarrow> identity_state" where
  "notify e assoc attempt s =
     (case jstr_field assoc ''mxid'' of
        Inl _ \<Rightarrow> s
      | Inr mxid \<Rightarrow>
         (case split_once CHR '':'' mxid of
            (_, None) \<Rightarrow> s
          | (_, Some matrix_server) \<Rightarrow>
              (case is_valid_matrix_server_name (ev_isIPAddress e) (ev_isIPv6Address e) matrix_server of
                 Inr True \<Rightarrow>
                   s\<lparr>is_outbox := is_outbox s @
                      [(''matrix://'' @ matrix_server @ ''/_matrix/federation/v1/3pid/onbind'', assoc, attempt)]\<rparr>
               | _ \<Rightarrow> s)))"

definition notifyErrback :: "jdict \<Rightarrow> nat \<Rightarrow> identity_state \<Rightarrow> identity_state" where
  "notifyErrback assoc attempt s = s\<lparr>is_retries := is_retries s @ [(2 ^ attempt, assoc, attempt + 1)]\<rparr>"

text \<open>The part after it, given the exception or the status of the response.\<close>

definition notify_response ::
    "env \<Rightarrow> jdict \<Rightarrow> nat \<Rightarrow> int res \<Rightarrow> identity_state \<Rightarrow> identity_state" where
  "notify_response e assoc attempt outcome s =
     (case outcome of
        Inl _ \<Rightarrow> notifyErrback assoc attempt s
      | Inr code \<Rightarrow>
          if code \<noteq> 200 then notifyErrback assoc attempt s
          else if \<not> ev_delete_tokens_on_bind e then s
          else (case (jstr_field assoc ''medium'', jstr_field assoc ''address'') of
                  (Inr m, Inr a) \<Rightarrow> s\<lparr>is_invites := deleteTokens m a (is_invites s)\<rparr>
                | _ \<Rightarrow> s))"

section \<open>Binding\<close>

definition signed_invite :: "env \<Rightarrow> string \<Rightarrow> jdict \<Rightarrow> jdict" where
  "signed_invite e mxid token =
     (let presigned = [(''mxid'', JStr mxid),
            (''token'', case dict_get token ''token'' of Some v \<Rightarrow> v | None \<Rightarrow> JNull)]
      in dict_set (dict_set token ''mxid'' (JStr mxid)) ''signed'' (JObj (ev_sign e presigned)))"

definition new_assoc :: "env \<Rightarrow> string \<Rightarrow> string \<Rightarrow> string \<Rightarrow> string \<Rightarrow> int \<Rightarrow> threepid_association" where
  "new_assoc e medium address mxid pepper createdAt =
     (let normalised_address = normalise_address address medium;
          lookup_hash = ev_hash e (hash_input normalised_address medium pepper)
      in \<lparr>ta_medium = medium, ta_address = normalised_address, ta_lookup_hash = Some lookup_hash,
          ta_mxid = Some mxid, ta_ts = Some createdAt, ta_not_before = Some createdAt,
          ta_not_after = Some (createdAt + THREEPID_ASSOCIATION_LIFETIME_MS)\<rparr>)"

definition deliver_invites :: "env \<Rightarrow> threepid_association \<Rightarrow> string \<Rightarrow> int \<Rightarrow> identity_state \<Rightarrow> identity_state" where
  "deliver_invites e assoc mxid now s =
     (let pendingJoinTokens = getTokens (ta_medium assoc) (ta_address assoc) (is_invites s);
          invites = map (\<lambda>token. JObj (signed_invite e mxid token)) pendingJoinTokens
      in if invites \<noteq> []
         then s\<lparr>is_extra := dict_set (is_extra s) ''invites'' (JArr invites),
                is_invites := markTokensAsSent (ta_medium assoc) (ta_address assoc) (now div 1000) (is_invites s)\<rparr>
         else s)"

definition addBinding :: "env \<Rightarrow> string \<Rightarrow> string \<Rightarrow> string \<Rightarrow> int \<Rightarrow> (identity_state, jdict) act" where
  "addBinding e medium address mxid now s =
     (case pepper_of s of
        None \<Rightarrow> (Inl AssertionError, s)
      | Some lookup_pepper \<Rightarrow>
         (let assoc = new_assoc e medium address mxid lookup_pepper now;
              s1 = s\<lparr>is_local := addOrUpdateAssociation assoc (is_local s)\<rparr>
          in case doLocalPush e s1 of
               (Inl ex, s2) \<Rightarrow> (Inl ex, s2)
             | (Inr _, s2) \<Rightarrow>
                (let s3 = deliver_invites e assoc mxid now s2;
                     sgassoc = signedThreePidAssociation (ev_sign e) (is_extra s3) assoc
                 in (Inr sgassoc, notify e sgassoc 0 s3))))"

definition removeBinding :: "env \<Rightarrow> string \<Rightarrow> string \<Rightarrow> string \<Rightarrow> int \<Rightarrow> (identity_state, unit) act" where
  "removeBinding e medium address mxid now s =
     (let normalised_address = normalise_address address medium;
          s1 = s\<lparr>is_local := removeAssociation_local medium normalised_address mxid now (is_local s)\<rparr>
      in doLocalPush e s1)"

section \<open>Lemmas\<close>

lemma notify_frame [simp]:
  "is_local (notify e a n s) = is_local s" "is_global (notify e a n s) = is_global s"
  "is_invites (notify e a n s) = is_invites s" "is_extra (notify e a n s) = is_extra s"
  "is_hashing (notify e a n s) = is_hashing s"
  by (simp_all add: notify_def split: sum.splits prod.splits option.splits bool.splits)

lemma deliver_invites_frame [simp]:
  "is_local (deliver_invites e a x now s) = is_local s"
  "is_global (deliver_invites e a x now s) = is_global s"
  "is_hashing (deliver_invites e a x now s) = is_hashing s"
  by (simp_all add: deliver_invites_def Let_def)

lemma with_global_frame [simp]:
  "is_local (with_global g s) = is_local s" "is_invites (with_global g s) = is_invites s"
  "is_extra (with_global g s) = is_extra s" "is_hashing (with_global g s) = is_hashing s"
  "is_global (with_global g s) = \<lparr>gc_work = g, gc_disk = g\<rparr>"
  by (simp_all add: with_global_def)

lemma identity_inv_cong:
  assumes "identity_inv e s" "is_local s' = is_local s" "is_global s' = is_global s"
    "dict_wf (is_extra s')" "fst ` set (is_extra s') \<subseteq> {''invites''}"
  shows "identity_inv e s'"
  using assms by (simp add: identity_inv_def)

lemma deliver_invites_extra:
  "fst ` set (is_extra s) \<subseteq> {''invites''} \<Longrightarrow>
   fst ` set (is_extra (deliver_invites e a x now s)) \<subseteq> {''invites''}"
  by (auto simp: deliver_invites_def Let_def)

lemma deliver_invites_extra_wf:
  "dict_wf (is_extra s) \<Longrightarrow> dict_wf (is_extra (deliver_invites e a x now s))"
  by (auto simp: deliver_invites_def Let_def)

lemma identity_inv_deliver [store_inv]:
  "identity_inv e s \<Longrightarrow> identity_inv e (deliver_invites e a x now s)"
  by (rule identity_inv_cong) (simp_all add: deliver_invites_extra deliver_invites_extra_wf identity_inv_def)

lemma identity_inv_notify [store_inv]: "identity_inv e s \<Longrightarrow> identity_inv e (notify e a n s)"
  by (rule identity_inv_cong) (simp_all add: identity_inv_def)

lemma identity_inv_add_local [store_inv]:
  assumes "identity_inv e s" and "normalise_address (ta_address a) (ta_medium a) = ta_address a"
  shows "identity_inv e (s\<lparr>is_local := addOrUpdateAssociation a (is_local s)\<rparr>)"
  using assms local_inv_addOrUpdate [of "is_local s" a]
  by (auto simp: identity_inv_def local_normal_def origin_link_def addOrUpdateAssociation_def)

lemma identity_inv_remove_local [store_inv]:
  assumes "identity_inv e s" and "normalise_address a m = a"
  shows "identity_inv e (s\<lparr>is_local := removeAssociation_local m a x now (is_local s)\<rparr>)"
proof -
  have "identity_inv e (s\<lparr>is_local := addOrUpdateAssociation (tombstone m a now) (is_local s)\<rparr>)"
    using assms by (intro identity_inv_add_local) (simp_all add: tombstone_def)
  with assms(1) show ?thesis by (simp add: removeAssociation_local_def Let_def)
qed

lemma new_assoc_normal:
  "normalise_address (ta_address (new_assoc e m a x p now)) (ta_medium (new_assoc e m a x p now)) =
     ta_address (new_assoc e m a x p now)"
  by (simp add: new_assoc_def Let_def)

lemma env_ok_cong: "env_ok e s \<Longrightarrow> is_hashing s' = is_hashing s \<Longrightarrow> env_ok e s'"
  by (simp add: env_ok_def pepper_of_def)

lemma doLocalPush_hashing:
  assumes "identity_inv e s" and "env_ok e s"
  shows "is_hashing (snd (doLocalPush e s)) = is_hashing s"
proof -
  obtain p where p: "pepper_of s = Some p" "p \<noteq> []" "sign_keeps (ev_sign e)"
    using assms(2) by (auto simp: env_ok_def)
  show ?thesis by (simp add: doLocalPush_eq [OF assms(1) p(3,1,2)])
qed

lemma addBinding_inv [store_inv]:
  assumes "identity_inv e s" and "env_ok e s"
  shows "identity_inv e (snd (addBinding e m a x now s))"
    and "env_ok e (snd (addBinding e m a x now s))"
    and "isr (fst (addBinding e m a x now s))"
proof -
  obtain p where p: "pepper_of s = Some p" using assms(2) by (auto simp: env_ok_def)
  let ?a = "new_assoc e m a x p now"
  let ?s1 = "s\<lparr>is_local := addOrUpdateAssociation ?a (is_local s)\<rparr>"
  have i1: "identity_inv e ?s1" by (rule identity_inv_add_local [OF assms(1) new_assoc_normal])
  have e1: "env_ok e ?s1" by (rule env_ok_cong [OF assms(2)]) simp
  obtain s2 where s2: "doLocalPush e ?s1 = (Inr (), s2)" "identity_inv e s2" "env_ok e s2"
    using identity_inv_push [OF i1 e1] doLocalPush_hashing [OF i1 e1] env_ok_cong [OF e1]
    by (cases "doLocalPush e ?s1") auto
  show "identity_inv e (snd (addBinding e m a x now s))"
    using s2 by (simp add: addBinding_def p Let_def store_inv)
  show "env_ok e (snd (addBinding e m a x now s))"
    using s2 by (simp add: addBinding_def p Let_def) (rule env_ok_cong [OF s2(3)], simp)
  show "isr (fst (addBinding e m a x now s))"
    using s2 by (simp add: addBinding_def p Let_def)
qed

lemma removeBinding_inv [store_inv]:
  assumes "identity_inv e s" and "env_ok e s"
  shows "identity_inv e (snd (removeBinding e m a x now s))"
    and "env_ok e (snd (removeBinding e m a x now s))"
    and "fst (removeBinding e m a x now s) = Inr ()"
proof -
  let ?s1 = "s\<lparr>is_local := removeAssociation_local m (normalise_address a m) x now (is_local s)\<rparr>"
  have i1: "identity_inv e ?s1" by (rule identity_inv_remove_local [OF assms(1)]) simp
  have e1: "env_ok e ?s1" by (rule env_ok_cong [OF assms(2)]) simp
  show "identity_inv e (snd (removeBinding e m a x now s))" "fst (removeBinding e m a x now s) = Inr ()"
    using identity_inv_push [OF i1 e1] by (simp_all add: removeBinding_def)
  show "env_ok e (snd (removeBinding e m a x now s))"
    unfolding removeBinding_def Let_def
    by (rule env_ok_cong [OF assms(2)]) (simp add: doLocalPush_hashing [OF i1 e1])
qed

end
