(* ===== verification/Bind_Lookup.thy ===== *)
theory Bind_Lookup
  imports Binder
begin

text \<open>
  What binding and unbinding mean for lookups: the properties that connect the binder, the
  local table, the push into the global table and the queries on it.
\<close>

section \<open>Rows after a push\<close>

lemma rows_for_mem:
  "q \<in> set (rows_for m a t g) \<longleftrightarrow>
     q \<in> set (g_rows g) \<and> g_medium q = m \<and> str_lower (g_address q) = str_lower a \<and> valid_at t q"
  by (auto simp: rows_for_def)

text \<open>Where a row of the global table comes from when a local row is pushed.\<close>

lemma push_row_mem:
  assumes "r \<in> set (g_rows (push_row e p ex q g))"
  shows "r \<in> set (g_rows g) \<or>
    (g_medium r = ta_medium (l_assoc q) \<and>
     g_address r = normalise_address (ta_address (l_assoc q)) (ta_medium (l_assoc q)) \<and>
     ta_ts (l_assoc q) = Some (g_ts r) \<and> ta_mxid (l_assoc q) = Some (g_mxid r))"
  using assms
  by (auto simp: push_row_def Let_def delete_3pid_def insert_or_ignore_def pushed_assoc_def
      split: option.splits if_splits)

lemma fold_push_row_mem:
  assumes "r \<in> set (g_rows (fold (push_row e p ex) rows g))"
  shows "r \<in> set (g_rows g) \<or>
    (\<exists>q \<in> set rows. g_medium r = ta_medium (l_assoc q) \<and>
     g_address r = normalise_address (ta_address (l_assoc q)) (ta_medium (l_assoc q)) \<and>
     ta_ts (l_assoc q) = Some (g_ts r) \<and> ta_mxid (l_assoc q) = Some (g_mxid r))"
  using assms
proof (induction rows arbitrary: g)
  case (Cons q rows)
  then show ?case using push_row_mem [of r e p ex q g] by fastforce
qed simp

lemma lastId_le:
  assumes "identity_inv e s"
  shows "LocalPeer_lastId e s \<le> l_seq (is_local s)"
proof (cases "map g_originId (filter (\<lambda>r. g_originServer r = ev_server_name e) (g_rows (known s)))")
  case Nil
  then show ?thesis
    using assms by (simp add: LocalPeer_lastId_def lastIdFromServer_def identity_inv_def local_inv_def)
next
  case (Cons i "is")
  have "\<forall>j \<in> set (i # is). j \<le> l_seq (is_local s)"
    unfolding Cons [symmetric] using assms by (auto simp: identity_inv_def origin_link_def)
  then have "Max (insert i (set is)) \<le> l_seq (is_local s)" by simp
  with Cons show ?thesis by (simp add: LocalPeer_lastId_def lastIdFromServer_def fold_max_Max)
qed

text \<open>After a change of the local table the push ends with the row that was just written.\<close>

definition others :: "env \<Rightarrow> threepid_association \<Rightarrow> identity_state \<Rightarrow> local_row list" where
  "others e a s = filter (\<lambda>r. LocalPeer_lastId e s < l_id r)
     (filter (\<lambda>r. row_3pid r \<noteq> (ta_medium a, ta_address a)) (l_rows (is_local s)))"

lemma pending_after_add:
  assumes "identity_inv e s"
  shows "pending e (s\<lparr>is_local := addOrUpdateAssociation a (is_local s)\<rparr>) =
    others e a s @ [\<lparr>l_id = l_seq (is_local s) + 1, l_assoc = a\<rparr>]"
proof -
  let ?s1 = "s\<lparr>is_local := addOrUpdateAssociation a (is_local s)\<rparr>"
  have "LocalPeer_lastId e ?s1 = LocalPeer_lastId e s" by (simp add: LocalPeer_lastId_def)
  with lastId_le [OF assms] show ?thesis
    by (simp add: pending_def others_def addOrUpdateAssociation_def)
qed

lemma push_after_add:
  assumes "identity_inv e s" and "sign_keeps (ev_sign e)" and "pepper_of s = Some p" and "p \<noteq> []"
    and "normalise_address (ta_address a) (ta_medium a) = ta_address a"
  defines "s1 \<equiv> s\<lparr>is_local := addOrUpdateAssociation a (is_local s)\<rparr>"
  defines "g1 \<equiv> fold (push_row e p (is_extra s)) (others e a s) (known s)"
  shows "doLocalPush e s1 = (Inr (), with_global
      (push_row e p (is_extra s) \<lparr>l_id = l_seq (is_local s) + 1, l_assoc = a\<rparr> g1) s1)"
    and "origin_link (ev_server_name e) (l_seq (is_local s)) g1" and "global_normal g1"
proof -
  have i1: "identity_inv e s1" unfolding s1_def by (rule identity_inv_add_local [OF assms(1,5)])
  have "doLocalPush e s1 =
      (Inr (), with_global (fold (push_row e p (is_extra s1)) (pending e s1) (known s1)) s1)"
    by (rule doLocalPush_eq [OF i1 assms(2)]) (use assms in \<open>simp_all add: s1_def pepper_of_def\<close>)
  then show "doLocalPush e s1 = (Inr (), with_global
      (push_row e p (is_extra s) \<lparr>l_id = l_seq (is_local s) + 1, l_assoc = a\<rparr> g1) s1)"
    using pending_after_add [OF assms(1), of a] by (simp add: s1_def g1_def)
  have "\<forall>r \<in> set (others e a s). l_id r \<le> l_seq (is_local s)"
    using assms(1) by (auto simp: others_def identity_inv_def local_inv_def)
  then show "origin_link (ev_server_name e) (l_seq (is_local s)) g1" "global_normal g1"
    using fold_push_row_inv [of "known s" e "l_seq (is_local s)" "others e a s" p "is_extra s"] assms(1)
    by (auto simp: g1_def identity_inv_def)
qed

text \<open>The clock is past every timestamp stored for the identifier.\<close>

definition older_than :: "int \<Rightarrow> string \<Rightarrow> string \<Rightarrow> identity_state \<Rightarrow> bool" where
  "older_than now medium address s =
     ((\<forall>r \<in> set (g_rows (known s)). g_medium r = medium \<and> str_lower (g_address r) = str_lower address
         \<longrightarrow> g_ts r < now) \<and>
      (\<forall>r \<in> set (l_rows (is_local s)). ta_medium (l_assoc r) = medium \<and>
         str_lower (ta_address (l_assoc r)) = str_lower address
         \<longrightarrow> (case ta_ts (l_assoc r) of None \<Rightarrow> True | Some t \<Rightarrow> t < now)))"

lemma older_pushed:
  assumes "older_than now m a s" and "r \<in> set (g_rows (fold (push_row e p ex) rows (known s)))"
    and "set rows \<subseteq> set (l_rows (is_local s))"
    and "g_medium r = m" and "str_lower (g_address r) = str_lower a"
  shows "g_ts r < now"
proof -
  from fold_push_row_mem [OF assms(2)] show ?thesis
  proof
    assume "r \<in> set (g_rows (known s))"
    with assms(1,4,5) show ?thesis by (simp add: older_than_def)
  next
    assume "\<exists>q \<in> set rows. g_medium r = ta_medium (l_assoc q) \<and>
     g_address r = normalise_address (ta_address (l_assoc q)) (ta_medium (l_assoc q)) \<and>
     ta_ts (l_assoc q) = Some (g_ts r) \<and> ta_mxid (l_assoc q) = Some (g_mxid r)"
    then obtain q where q: "q \<in> set (l_rows (is_local s))" "ta_medium (l_assoc q) = m"
      "g_address r = normalise_address (ta_address (l_assoc q)) m" "ta_ts (l_assoc q) = Some (g_ts r)"
      using assms(3,4) by auto
    have "str_lower (ta_address (l_assoc q)) = str_lower a"
      using q(3) assms(5) str_lower_normalise by simp
    with q assms(1) show ?thesis by (force simp: older_than_def)
  qed
qed

section \<open>Properties\<close>

definition bound_row :: "env \<Rightarrow> string \<Rightarrow> threepid_association \<Rightarrow> global_row \<Rightarrow> bool" where
  "bound_row e p a r = (g_medium r = ta_medium a \<and> g_address r = ta_address a \<and>
     Some (g_mxid r) = ta_mxid a \<and> Some (g_ts r) = ta_ts a \<and> Some (g_notBefore r) = ta_not_before a \<and>
     Some (g_notAfter r) = ta_not_after a \<and> g_originServer r = ev_server_name e \<and>
     g_lookup_hash r = Some (ev_hash e (hash_input (ta_address a) (ta_medium a) p)))"

lemma addBinding_rows:
  assumes "identity_inv e s" and "sign_keeps (ev_sign e)" and "pepper_of s = Some p" and "p \<noteq> []"
  obtains sg s' r where "addBinding e medium address mxid now s = (Inr sg, s')"
    and "g_rows (known s') = g_rows (fold (push_row e p (is_extra s))
        (others e (new_assoc e medium address mxid p now) s) (known s)) @ [r]"
    and "bound_row e p (new_assoc e medium address mxid p now) r"
proof -
  let ?a = "new_assoc e medium address mxid p now"
  let ?g1 = "fold (push_row e p (is_extra s)) (others e ?a s) (known s)"
  let ?n = "\<lparr>l_id = l_seq (is_local s) + 1, l_assoc = ?a\<rparr>"
  note push = push_after_add [OF assms new_assoc_normal]
  have "\<not> (\<exists>r \<in> set (g_rows ?g1). g_originServer r = ev_server_name e \<and>
      g_originId r = l_seq (is_local s) + 1)"
    using push(2) by (force simp: origin_link_def)
  then obtain r where "g_rows (push_row e p (is_extra s) ?n ?g1) = g_rows ?g1 @ [r]"
      "bound_row e p ?a r"
    by (auto simp: push_row_def Let_def insert_or_ignore_def pushed_assoc_def new_assoc_def bound_row_def)
  then show ?thesis
    using push(1) assms(3) that by (simp add: addBinding_def Let_def)
qed

text \<open>A concrete environment and state, with the identity as signing and hash function.\<close>

definition plain_env :: env where
  "plain_env = \<lparr>ev_server_name = ''is.example'', ev_delete_tokens_on_bind = False, ev_sign = (\<lambda>d. d),
     ev_hash = (\<lambda>x. x), ev_isIPAddress = (\<lambda>_. False), ev_isIPv6Address = (\<lambda>_. False)\<rparr>"

definition fresh_state :: identity_state where
  "fresh_state = \<lparr>is_local = empty_local, is_global = \<lparr>gc_work = empty_global, gc_disk = empty_global\<rparr>,
     is_invites = empty_invites, is_extra = [], is_hashing = \<lparr>hs_cached = None, hs_row = Some ''pepper''\<rparr>,
     is_outbox = [], is_retries = []\<rparr>"

lemma fresh_state_ok: "identity_inv plain_env fresh_state" "env_ok plain_env fresh_state"
  by (simp_all add: identity_inv_def env_ok_def plain_env_def fresh_state_def local_inv_empty global_inv_empty
      pepper_of_def get_lookup_pepper_def sign_keeps_def)
     (simp add: local_normal_def global_normal_def origin_link_def empty_local_def empty_global_def)

text \<open>C6: binding is visible to lookups. If the clock is past every timestamp stored for a third-party identifier,
  then binding it to a Matrix identifier succeeds, and from the next millisecond on until the
  association expires, looking the identifier up, in any spelling of its letters' case,
  returns that Matrix identifier.\<close>

theorem bind_then_lookup:
  assumes "identity_inv e s" and "env_ok e s" and "older_than now medium address s"
    and "str_lower query = str_lower address"
    and "now < t" and "t < now + THREEPID_ASSOCIATION_LIFETIME_MS"
  shows "\<exists>sg s'. addBinding e medium address mxid now s = (Inr sg, s') \<and>
    getMxid medium query t (known s') = Some mxid"
proof -
  obtain p where p: "pepper_of s = Some p" "p \<noteq> []" "sign_keeps (ev_sign e)"
    using assms(2) by (auto simp: env_ok_def)
  let ?a = "new_assoc e medium address mxid p now"
  let ?g1 = "fold (push_row e p (is_extra s)) (others e ?a s) (known s)"
  obtain sg s' r where b: "addBinding e medium address mxid now s = (Inr sg, s')"
    "g_rows (known s') = g_rows ?g1 @ [r]" "bound_row e p ?a r"
    by (rule addBinding_rows [OF assms(1) p(3,1,2)])
  have r: "g_medium r = medium" "str_lower (g_address r) = str_lower address" "g_mxid r = mxid" "g_ts r = now"
    "valid_at t r"
    using b(3) assms(5,6) by (auto simp: bound_row_def new_assoc_def Let_def valid_at_def str_lower_normalise)
  have "first_by (\<lambda>r. - g_ts r) (rows_for medium query t (known s')) = Some r"
  proof (rule first_by_unique)
    show "r \<in> set (rows_for medium query t (known s'))"
      using b(2) r assms(4) by (simp add: rows_for_mem)
    fix q
    assume "q \<in> set (rows_for medium query t (known s'))" and "q \<noteq> r"
    then have "q \<in> set (g_rows ?g1)" "g_medium q = medium" "str_lower (g_address q) = str_lower address"
      using b(2) assms(4) by (auto simp: rows_for_mem)
    moreover have "set (others e ?a s) \<subseteq> set (l_rows (is_local s))" by (auto simp: others_def)
    ultimately have "g_ts q < now" using older_pushed [OF assms(3)] by blast
    with r(4) show "- g_ts r < - g_ts q" by simp
  qed
  with b(1) r(3) show ?thesis by (auto simp: getMxid_def)
qed

theorem bind_then_lookup_witness:
  "\<exists>sg s'. addBinding plain_env ''email'' ''Bob@Example.com'' ''@bob:hs'' 1000 fresh_state = (Inr sg, s') \<and>
     getMxid ''email'' ''BOB@example.com'' 1001 (known s') = Some ''@bob:hs''"
proof (rule bind_then_lookup [OF fresh_state_ok])
  show "older_than 1000 ''email'' ''Bob@Example.com'' fresh_state"
    by (simp add: older_than_def fresh_state_def empty_local_def empty_global_def)
  show "str_lower ''BOB@example.com'' = str_lower ''Bob@Example.com''" by code_simp
qed (simp_all add: THREEPID_ASSOCIATION_LIFETIME_MS_def)

text \<open>C7: unbinding is visible to lookups. If this server's table has the identifier bound to the given Matrix
  identifier, removing the binding succeeds and leaves no association of that medium and
  normalised address in the global table, whichever server it came from; for e-mail
  addresses a lookup then finds nothing at any time, in any spelling of their case.\<close>

theorem unbind_then_lookup:
  assumes "identity_inv e s" and "env_ok e s"
    and "\<exists>r \<in> set (l_rows (is_local s)). row_3pid r = (medium, normalise_address address medium) \<and>
           ta_mxid (l_assoc r) = Some mxid"
  shows "\<exists>s'. removeBinding e medium address mxid now s = (Inr (), s') \<and>
    (\<forall>r \<in> set (g_rows (known s')). g_3pid r \<noteq> (medium, normalise_address address medium)) \<and>
    (medium = ''email'' \<longrightarrow> (\<forall>query t. str_lower query = str_lower address \<longrightarrow>
        getMxid medium query t (known s') = None))"
proof -
  obtain p where p: "pepper_of s = Some p" "p \<noteq> []" "sign_keeps (ev_sign e)"
    using assms(2) by (auto simp: env_ok_def)
  let ?addr = "normalise_address address medium"
  let ?a = "tombstone medium ?addr now"
  let ?g1 = "fold (push_row e p (is_extra s)) (others e ?a s) (known s)"
  have norm: "normalise_address (ta_address ?a) (ta_medium ?a) = ta_address ?a" by (simp add: tombstone_def)
  note push = push_after_add [OF assms(1) p(3,1,2) norm]
  have "removeAssociation_local medium ?addr mxid now (is_local s) = addOrUpdateAssociation ?a (is_local s)"
    using assms(3) by (auto simp: removeAssociation_local_def Let_def filter_empty_conv)
  then obtain s' where s': "removeBinding e medium address mxid now s = (Inr (), s')"
    "known s' = delete_3pid medium ?addr ?g1"
    using push(1) by (simp add: removeBinding_def Let_def push_row_def tombstone_def)
  have gone: "\<forall>r \<in> set (g_rows (known s')). g_3pid r \<noteq> (medium, ?addr)"
    by (auto simp: s'(2) delete_3pid_def g_3pid_def)
  have norm': "global_normal (known s')" unfolding s'(2) by (rule global_normal_delete [OF push(3)])
  have "rows_for medium query t (known s') = []"
    if "medium = ''email''" "str_lower query = str_lower address" for query t
  proof -
    have "g_address r = ?addr" if "r \<in> set (g_rows (known s'))" "g_medium r = medium"
      "str_lower (g_address r) = str_lower query" for r
      using that norm' \<open>medium = ''email''\<close> \<open>str_lower query = str_lower address\<close>
      by (force simp: global_normal_def normalise_address_def)
    with gone show ?thesis by (auto simp: rows_for_def filter_empty_conv g_3pid_def)
  qed
  then have "\<forall>query t. str_lower query = str_lower address \<longrightarrow> getMxid medium query t (known s') = None"
    if "medium = ''email''" using that by (auto simp: getMxid_None)
  with s'(1) gone show ?thesis by blast
qed

theorem unbind_then_lookup_witness:
  "let s = snd (addBinding plain_env ''email'' ''bob@example.com'' ''@bob:hs'' 1000 fresh_state) in
   \<exists>s'. removeBinding plain_env ''email'' ''bob@example.com'' ''@bob:hs'' 2000 s = (Inr (), s') \<and>
     getMxid ''email'' ''bob@example.com'' 3000 (known s') = None"
proof -
  let ?s = "snd (addBinding plain_env ''email'' ''bob@example.com'' ''@bob:hs'' 1000 fresh_state)"
  have "map row_3pid (l_rows (is_local ?s)) = [(''email'', ''bob@example.com'')] \<and>
      map (\<lambda>r. ta_mxid (l_assoc r)) (l_rows (is_local ?s)) = [Some ''@bob:hs'']"
    by code_simp
  moreover have "normalise_address ''bob@example.com'' ''email'' = ''bob@example.com''" by code_simp
  ultimately have "\<exists>r \<in> set (l_rows (is_local ?s)).
      row_3pid r = (''email'', normalise_address ''bob@example.com'' ''email'') \<and>
      ta_mxid (l_assoc r) = Some ''@bob:hs''"
    by (auto simp: map_eq_Cons_conv)
  from unbind_then_lookup [OF addBinding_inv(1,2) [OF fresh_state_ok] this, of 2000]
  show ?thesis unfolding Let_def by blast
qed

text \<open>C20: invitations are delivered once. When a bound identifier has pending invitations, the signed
  association that is returned carries exactly those, each with the Matrix identifier and
  a signature over it and the token; afterwards none of them is pending, and the pending invitations of
  other identifiers are untouched.\<close>

theorem bind_delivers_invites_once:
  assumes "identity_inv e s" and "env_ok e s"
    and "pending_rows medium (normalise_address address medium) (is_invites s) \<noteq> []"
  shows "\<exists>sg s'. addBinding e medium address mxid now s = (Inr sg, s') \<and>
    dict_get sg ''invites'' = Some (JArr (map (\<lambda>r. JObj (signed_invite e mxid (invite_dict r)))
        (pending_rows medium (normalise_address address medium) (is_invites s)))) \<and>
    (\<forall>m a. pending_rows m a (is_invites s') =
       (if (m, a) = (medium, normalise_address address medium) then [] else pending_rows m a (is_invites s)))"
proof -
  obtain p where p: "pepper_of s = Some p" "p \<noteq> []" "sign_keeps (ev_sign e)"
    using assms(2) by (auto simp: env_ok_def)
  let ?a = "new_assoc e medium address mxid p now"
  let ?rows = "pending_rows medium (normalise_address address medium) (is_invites s)"
  let ?v = "JArr (map (\<lambda>r. JObj (signed_invite e mxid (invite_dict r))) ?rows)"
  have a: "ta_medium ?a = medium" "ta_address ?a = normalise_address address medium"
    by (simp_all add: new_assoc_def Let_def)
  obtain s2 where s2: "doLocalPush e (s\<lparr>is_local := addOrUpdateAssociation ?a (is_local s)\<rparr>) = (Inr (), s2)"
    "is_invites s2 = is_invites s" "is_extra s2 = is_extra s"
    using push_after_add(1) [OF assms(1) p(3,1,2) new_assoc_normal] by simp
  let ?s3 = "deliver_invites e ?a mxid now s2"
  have s3: "is_extra ?s3 = dict_set (is_extra s) ''invites'' ?v"
    "is_invites ?s3 = markTokensAsSent medium (normalise_address address medium) (now div 1000) (is_invites s)"
    using assms(3) by (simp_all add: deliver_invites_def Let_def a s2 getTokens_def comp_def)
  have "dict_wf (dict_set (is_extra s) ''invites'' ?v)" using assms(1) by (simp add: identity_inv_def dict_wf_set)
  then have "dict_get (signedThreePidAssociation (ev_sign e) (is_extra ?s3) ?a) ''invites'' = Some ?v"
    by (simp add: signedThreePidAssociation_def sign_keepsD [OF p(3)] s3 dict_get_update)
  then show ?thesis
    using s2(1) p(1) s3(2) by (auto simp: addBinding_def Let_def pending_after_mark)
qed

theorem bind_delivers_invites_once_witness:
  "let s = fresh_state\<lparr>is_invites := storeToken ''email'' ''bob@example.com'' ''!room:hs'' ''@eve:hs'' ''tok'' 7
             empty_invites\<rparr>;
       (r, s') = addBinding plain_env ''email'' ''bob@example.com'' ''@bob:hs'' 1000 s
   in pending_rows ''email'' ''bob@example.com'' (is_invites s') = []"
proof -
  let ?s = "fresh_state\<lparr>is_invites := storeToken ''email'' ''bob@example.com'' ''!room:hs'' ''@eve:hs'' ''tok'' 7
      empty_invites\<rparr>"
  have i: "identity_inv plain_env ?s" using fresh_state_ok(1) by (simp add: identity_inv_def)
  have ok: "env_ok plain_env ?s" by (rule env_ok_cong [OF fresh_state_ok(2)]) simp
  have n: "normalise_address ''bob@example.com'' ''email'' = ''bob@example.com''" by code_simp
  have pend: "pending_rows ''email'' (normalise_address ''bob@example.com'' ''email'') (is_invites ?s) \<noteq> []"
    unfolding n by (simp add: pending_after_store)
  show ?thesis
    using bind_delivers_invites_once [OF i ok pend, of "''@bob:hs''" 1000] by (auto simp: n Let_def)
qed

text \<open>
  The dictionary of extra fields is shared by all associations, so invitations once
  delivered stay in it: a later binding of an identifier with no invitations returns, and sends to
  its homeserver, the invitations of somebody else.
\<close>

theorem later_binding_repeats_invites:
  assumes "identity_inv e s" and "env_ok e s"
    and "dict_get (is_extra s) ''invites'' = Some v"
    and "pending_rows medium (normalise_address address medium) (is_invites s) = []"
  shows "\<exists>sg s'. addBinding e medium address mxid now s = (Inr sg, s') \<and> dict_get sg ''invites'' = Some v"
proof -
  obtain p where p: "pepper_of s = Some p" "p \<noteq> []" "sign_keeps (ev_sign e)"
    using assms(2) by (auto simp: env_ok_def)
  let ?a = "new_assoc e medium address mxid p now"
  have a: "ta_medium ?a = medium" "ta_address ?a = normalise_address address medium"
    by (simp_all add: new_assoc_def Let_def)
  obtain s2 where s2: "doLocalPush e (s\<lparr>is_local := addOrUpdateAssociation ?a (is_local s)\<rparr>) = (Inr (), s2)"
    "is_invites s2 = is_invites s" "is_extra s2 = is_extra s"
    using push_after_add(1) [OF assms(1) p(3,1,2) new_assoc_normal] by simp
  have s3: "deliver_invites e ?a mxid now s2 = s2"
    using assms(4) by (simp add: deliver_invites_def Let_def a s2 getTokens_def)
  have "dict_wf (is_extra s)" using assms(1) by (simp add: identity_inv_def)
  then have "dict_get (signedThreePidAssociation (ev_sign e) (is_extra s2) ?a) ''invites'' = Some v"
    using assms(3) by (simp add: signedThreePidAssociation_def sign_keepsD [OF p(3)] s2 dict_get_update map_add_Some_iff)
  then show ?thesis using s2(1) p(1) s3 by (auto simp: addBinding_def Let_def)
qed

theorem later_binding_repeats_invites_witness:
  "let s0 = fresh_state\<lparr>is_invites := storeToken ''email'' ''bob@example.com'' ''!room:hs'' ''@eve:hs'' ''tok'' 7
              empty_invites\<rparr>;
       s1 = snd (addBinding plain_env ''email'' ''bob@example.com'' ''@bob:hs'' 1000 s0)
   in \<exists>sg s2 inv. addBinding plain_env ''email'' ''carol@example.com'' ''@carol:hs'' 2000 s1 = (Inr sg, s2) \<and>
        dict_get sg ''invites'' = Some (JArr [JObj inv]) \<and>
        dict_get inv ''address'' = Some (JStr ''bob@example.com'')"
proof -
  let ?s0 = "fresh_state\<lparr>is_invites := storeToken ''email'' ''bob@example.com'' ''!room:hs'' ''@eve:hs'' ''tok'' 7
      empty_invites\<rparr>"
  let ?s1 = "snd (addBinding plain_env ''email'' ''bob@example.com'' ''@bob:hs'' 1000 ?s0)"
  let ?inv = "signed_invite plain_env ''@bob:hs'' (invite_dict \<lparr>i_medium = ''email'',
     i_address = ''bob@example.com'', i_room_id = ''!room:hs'', i_sender = ''@eve:hs'', i_token = ''tok'',
     i_received_ts = 7, i_sent_ts = None\<rparr>)"
  have i: "identity_inv plain_env ?s0" using fresh_state_ok(1) by (simp add: identity_inv_def)
  have ok: "env_ok plain_env ?s0" by (rule env_ok_cong [OF fresh_state_ok(2)]) simp
  have ex: "dict_get (is_extra ?s1) ''invites'' = Some (JArr [JObj ?inv])" by code_simp
  have pend: "pending_rows ''email'' (normalise_address ''carol@example.com'' ''email'') (is_invites ?s1) = []"
    by code_simp
  have "dict_get ?inv ''address'' = Some (JStr ''bob@example.com'')" by code_simp
  with later_binding_repeats_invites [OF addBinding_inv(1,2) [OF i ok] ex pend, of "''@carol:hs''" 2000]
  show ?thesis unfolding Let_def by blast
qed

end
