(* ===== verification/Peers.thy ===== *)
theory Peers
  imports Local_Push Servlet_Base
begin

text \<open>
  Replication peers: \<open>sydent/db/peers.py\<close>, \<open>RemotePeer\<close> of \<open>sydent/replication/peer.py\<close> and the
  scheduled push of \<open>sydent/replication/pusher.py\<close>. The locale \<open>id_log\<close> is what the pusher relies
  on: a log of entries with ascending identifiers from which the entries after an identifier can be read in
  batches.
\<close>

section \<open>The tables\<close>

record peer_row =
  pr_name :: string
  pr_port :: "int option"
  pr_lastSentVersion :: "int option"
  pr_lastPokeSucceededAt :: "int option"
  pr_active :: bool

record pubkey_row =
  pk_peername :: string
  pk_alg :: string
  pk_key :: string

record peer_db =
  pd_peers :: "peer_row list"
  pd_pubkeys :: "pubkey_row list"

section \<open>Remote peers\<close>

text \<open>
  The functions of other packages: \<open>signature_ids\<close> and \<open>verify_signed_json\<close> of
  \<open>signedjson.sign\<close>, \<open>decode_base64\<close> and \<open>decode_verify_key_bytes\<close>. A verification key is
  represented by its bytes. The configured replication URLs come with them.
\<close>

record sig_env =
  sv_signature_ids :: "jdict \<Rightarrow> string \<Rightarrow> string list"
  sv_verify_signed_json :: "jdict \<Rightarrow> string \<Rightarrow> string \<Rightarrow> unit res"
  sv_decode_base64 :: "string \<Rightarrow> string res"
  sv_decode_verify_key_bytes :: "string \<Rightarrow> string \<Rightarrow> string res"
  sv_base_replication_urls :: "(string, string) dict"

definition SIGNING_KEY_ALGORITHM :: string where
  "SIGNING_KEY_ALGORITHM = ''ed25519''"

record remote_peer =
  rp_servername :: string
  rp_pubkeys :: "(string, string) dict"
  rp_is_being_pushed_to :: bool
  rp_lastSentVersion :: "int option"
  rp_replication_url_origin :: string
  rp_replication_url :: string
  rp_verify_key :: string

definition hex_val :: "char \<Rightarrow> nat option" where
  "hex_val c = (let n = of_char c :: nat in
     if 48 \<le> n \<and> n \<le> 57 then Some (n - 48)
     else if 97 \<le> n \<and> n \<le> 102 then Some (n - 87)
     else if 65 \<le> n \<and> n \<le> 70 then Some (n - 55) else None)"

text \<open>
  \<open>int(pubkey, 16)\<close> followed by \<open>unhexlify(pubkey)\<close>: both succeed exactly on a nonempty text of an even
  number of hexadecimal digits.
\<close>

fun unhexlify :: "string \<Rightarrow> string option" where
  "unhexlify [] = Some []"
| "unhexlify [c] = None"
| "unhexlify (c # d # s) =
     (case (hex_val c, hex_val d, unhexlify s) of
        (Some x, Some y, Some bs) \<Rightarrow> Some (char_of (16 * x + y) # bs) | _ \<Rightarrow> None)"

definition decode_pubkey :: "sig_env \<Rightarrow> string \<Rightarrow> string res" where
  "decode_pubkey se pubkey =
     (case (if pubkey = [] then None else unhexlify pubkey) of
        Some bs \<Rightarrow> Inr bs
      | None \<Rightarrow> (case sv_decode_base64 se pubkey of Inl _ \<Rightarrow> Inl GenericException | Inr bs \<Rightarrow> Inr bs))"

definition peer_url :: "sig_env \<Rightarrow> string \<Rightarrow> int option \<Rightarrow> string" where
  "peer_url se server_name port =
     (let url = (case dict_get (sv_base_replication_urls se) server_name of
            Some u \<Rightarrow> u
          | None \<Rightarrow>
              ''https://'' @ server_name @ '':'' @
              show_int (case port of None \<Rightarrow> 1001 | Some p \<Rightarrow> if p = 0 then 1001 else p))
      in if endswith url ''/'' then url else url @ ''/'')"

definition RemotePeer_init ::
    "sig_env \<Rightarrow> string \<Rightarrow> int option \<Rightarrow> (string, string) dict \<Rightarrow> int option \<Rightarrow> remote_peer res" where
  "RemotePeer_init se server_name port pubkeys lastSentVersion =
     (let origin = peer_url se server_name port in
      case dict_get pubkeys SIGNING_KEY_ALGORITHM of
        None \<Rightarrow> Inl KeyError
      | Some pubkey \<Rightarrow>
          bindR (decode_pubkey se pubkey) (\<lambda>bs.
          bindR (sv_decode_verify_key_bytes se (SIGNING_KEY_ALGORITHM @ '':'') bs) (\<lambda>key.
            Inr \<lparr>rp_servername = server_name, rp_pubkeys = pubkeys, rp_is_being_pushed_to = False,
                 rp_lastSentVersion = lastSentVersion, rp_replication_url_origin = origin,
                 rp_replication_url = origin @ ''_matrix/identity/replicate/v1/push'',
                 rp_verify_key = key\<rparr>)))"

definition verifySignedAssociation :: "sig_env \<Rightarrow> remote_peer \<Rightarrow> jdict \<Rightarrow> unit res" where
  "verifySignedAssociation se peer assoc =
     (if \<not> dict_has assoc ''signatures'' then Inl NoSignaturesException
      else
        let key_ids = sv_signature_ids se assoc (rp_servername peer)
        in case key_ids of
             [] \<Rightarrow> Inl NoMatchingSignatureException
           | k # _ \<Rightarrow>
               if \<not> startswith k (SIGNING_KEY_ALGORITHM @ '':'') then Inl NoMatchingSignatureException
               else sv_verify_signed_json se assoc (rp_servername peer) (rp_verify_key peer))"

text \<open>
  \<open>RemotePeer.pushUpdates\<close> with \<open>_pushSuccess\<close>, \<open>_failedPushBodyRead\<close> and \<open>_pushFailed\<close>: what the
  deferred ends with, given how the HTTP request ended.
\<close>

definition push_outcome :: "int res \<Rightarrow> int res" where
  "push_outcome r =
     (case r of Inl ex \<Rightarrow> Inl ex | Inr code \<Rightarrow> if 200 \<le> code \<and> code < 300 then Inr code else Inl GenericException)"

section \<open>The store of peers\<close>

type_synonym peer_join = "string \<times> int option \<times> int option \<times> string \<times> string"

definition peer_rows :: "(peer_row \<Rightarrow> bool) \<Rightarrow> peer_db \<Rightarrow> peer_join list" where
  "peer_rows P db = concat (map (\<lambda>p. map (\<lambda>k. (pr_name p, pr_port p, pr_lastSentVersion p, pk_alg k, pk_key k))
      (filter (\<lambda>k. pk_peername k = pr_name p) (pd_pubkeys db)))
     (filter (\<lambda>p. P p \<and> pr_active p) (pd_peers db)))"

definition getPeerByName :: "sig_env \<Rightarrow> string \<Rightarrow> peer_db \<Rightarrow> remote_peer option res" where
  "getPeerByName se name db =
     (let rows = peer_rows (\<lambda>p. pr_name p = name) db;
          pubkeys = fold (\<lambda>(n, port, v, alg, key) d. dict_set d alg key) rows []
      in if pubkeys = [] then Inr None
         else (case last rows of (serverName, port, lastSentVer, _, _) \<Rightarrow>
                 bindR (RemotePeer_init se serverName port pubkeys lastSentVer) (\<lambda>p. Inr (Some p))))"

text \<open>The loop of \<open>getAllPeers\<close>; a peer is built whenever the name changes and after the last row.\<close>

fun peers_loop ::
    "sig_env \<Rightarrow> string option \<Rightarrow> int option \<Rightarrow> int option \<Rightarrow> (string, string) dict \<Rightarrow> peer_join list \<Rightarrow>
     remote_peer list res" where
  "peers_loop se peername port ver pubkeys [] =
     (case (pubkeys, peername) of
        (_ # _, Some n) \<Rightarrow> bindR (RemotePeer_init se n port pubkeys ver) (\<lambda>p. Inr [p])
      | _ \<Rightarrow> Inr [])"
| "peers_loop se peername port ver pubkeys ((n, pt, v, alg, key) # rows) =
     (if Some n \<noteq> peername then
        (case (pubkeys, peername) of
           (_ # _, Some old) \<Rightarrow>
             bindR (RemotePeer_init se old port pubkeys ver) (\<lambda>p.
             bindR (peers_loop se (Some n) pt v (dict_set [] alg key) rows) (\<lambda>ps. Inr (p # ps)))
         | _ \<Rightarrow> peers_loop se (Some n) pt v (dict_set pubkeys alg key) rows)
      else peers_loop se peername port ver (dict_set pubkeys alg key) rows)"

definition getAllPeers :: "sig_env \<Rightarrow> peer_db \<Rightarrow> remote_peer list res" where
  "getAllPeers se db = peers_loop se None None None [] (peer_rows (\<lambda>_. True) db)"

definition setLastSentVersionAndPokeSucceeded ::
    "string \<Rightarrow> int option \<Rightarrow> int option \<Rightarrow> peer_db \<Rightarrow> peer_db" where
  "setLastSentVersionAndPokeSucceeded peerName lastSentVersion lastPokeSucceeded db =
     db\<lparr>pd_peers := map (\<lambda>p. if pr_name p = peerName
          then p\<lparr>pr_lastSentVersion := lastSentVersion, pr_lastPokeSucceededAt := lastPokeSucceeded\<rparr> else p)
        (pd_peers db)\<rparr>"

section \<open>The pusher\<close>

definition ASSOCIATIONS_PUSH_LIMIT :: nat where
  "ASSOCIATIONS_PUSH_LIMIT = 100"

text \<open>
  \<open>_push_to_peer\<close> up to its request: the batch and the version to record when it was accepted,
  or nothing if a push is running or there is nothing to send.
\<close>

definition push_to_peer_start ::
    "env \<Rightarrow> jdict \<Rightarrow> local_table \<Rightarrow> remote_peer \<Rightarrow> ((int, jdict) dict \<times> int option) option" where
  "push_to_peer_start e extra lt p =
     (if rp_is_being_pushed_to p then None
      else case getSignedAssociationsAfterId (ev_sign e) extra (rp_lastSentVersion p)
             (Some ASSOCIATIONS_PUSH_LIMIT) lt of
        (assocs, latest_assoc_id) \<Rightarrow> if assocs = [] then None else Some (assocs, latest_assoc_id))"

text \<open>The rest of it, given how the request ended; every exception is logged and dropped.\<close>

definition push_to_peer_finish ::
    "remote_peer \<Rightarrow> int option \<Rightarrow> int res \<Rightarrow> int \<Rightarrow> peer_db \<Rightarrow> peer_db" where
  "push_to_peer_finish p latest_assoc_id response now db =
     (case push_outcome response of
        Inl _ \<Rightarrow> db
      | Inr _ \<Rightarrow> setLastSentVersionAndPokeSucceeded (rp_servername p) latest_assoc_id (Some now) db)"

definition push_to_peer ::
    "env \<Rightarrow> jdict \<Rightarrow> local_table \<Rightarrow> remote_peer \<Rightarrow> int res \<Rightarrow> int \<Rightarrow> peer_db \<Rightarrow> (int, jdict) dict \<times> peer_db"
  where
  "push_to_peer e extra lt p response now db =
     (case push_to_peer_start e extra lt p of
        None \<Rightarrow> ([], db)
      | Some (assocs, latest) \<Rightarrow> (assocs, push_to_peer_finish p latest response now db))"

text \<open>\<open>scheduledPush\<close>: the pushes it starts, one per active peer.\<close>

definition scheduledPush ::
    "env \<Rightarrow> sig_env \<Rightarrow> jdict \<Rightarrow> local_table \<Rightarrow> peer_db \<Rightarrow> (remote_peer \<times> (int, jdict) dict \<times> int option) list res" where
  "scheduledPush e se extra lt db =
     bindR (getAllPeers se db) (\<lambda>peers. Inr (concat (map (\<lambda>p.
       case push_to_peer_start e extra lt p of None \<Rightarrow> [] | Some (as, i) \<Rightarrow> [(p, as, i)]) peers)))"

section \<open>What the pusher relies on\<close>

definition ver :: "int option \<Rightarrow> int" where
  "ver v = (case v of None \<Rightarrow> -1 | Some i \<Rightarrow> i)"

locale id_log =
  fixes entries :: "'s \<Rightarrow> (int \<times> 'a) list"
    and since :: "int option \<Rightarrow> nat \<Rightarrow> 's \<Rightarrow> (int \<times> 'a) list \<times> int option"
    and good :: "'s \<Rightarrow> bool"
  assumes entries_sorted: "good s \<Longrightarrow> sorted_wrt (<) (map fst (entries s))"
    and since_eq: "good s \<Longrightarrow> since v n s =
      (let b = take n (filter (\<lambda>x. ver v < fst x) (entries s))
       in (b, if b = [] then None else Some (fst (last b))))"
begin

text \<open>The backlog of a reader that has everything up to an identifier.\<close>

definition backlog :: "int option \<Rightarrow> 's \<Rightarrow> (int \<times> 'a) list" where
  "backlog v s = filter (\<lambda>x. ver v < fst x) (entries s)"

text \<open>Reading in batches of \<open>n\<close>; a batch that is not acknowledged is read again.\<close>

fun drain :: "nat \<Rightarrow> bool list \<Rightarrow> int option \<Rightarrow> 's \<Rightarrow> (int \<times> 'a) list \<times> int option" where
  "drain n [] v s = ([], v)"
| "drain n (ack # acks) v s =
     (case since v n s of (b, latest) \<Rightarrow>
        if b = [] \<or> \<not> ack then drain n acks v s
        else case drain n acks latest s of (bs, v') \<Rightarrow> (b @ bs, v'))"

lemma backlog_step:
  assumes "good s" and "take n (backlog v s) \<noteq> []"
  shows "backlog (Some (fst (last (take n (backlog v s))))) s = drop n (backlog v s)"
proof -
  let ?F = "backlog v s" and ?b = "take n (backlog v s)"
  let ?m = "fst (last ?b)"
  have srt: "sorted_wrt (<) (map fst ?F)"
    using entries_sorted [OF assms(1)] by (simp add: backlog_def sorted_wrt_map sorted_wrt_filter)
  have split: "?F = ?b @ drop n ?F" by simp
  have srt': "sorted_wrt (<) (map fst (?b @ drop n ?F))" using srt by simp
  have low: "fst x \<le> ?m" if "x \<in> set ?b" for x
    using srt' assms(2) that
    by (cases ?b rule: rev_cases) (auto simp: sorted_wrt_append less_imp_le simp del: append_take_drop_id)
  have high: "?m < fst x" if "x \<in> set (drop n ?F)" for x
    using srt' assms(2) that
    by (auto simp: sorted_wrt_append simp del: append_take_drop_id)
  have "last ?b \<in> set ?F" using assms(2) last_in_set in_set_takeD by metis
  then have v: "ver v < ?m" by (simp add: backlog_def)
  have "backlog (Some ?m) s = filter (\<lambda>x. ?m < fst x) ?F"
    using v by (auto simp: backlog_def ver_def intro!: filter_cong)
  also have "\<dots> = filter (\<lambda>x. ?m < fst x) ?b @ filter (\<lambda>x. ?m < fst x) (drop n ?F)"
    by (subst (1) split) (simp only: filter_append)
  also have "\<dots> = drop n ?F"
    using low high by (auto simp: filter_empty_conv filter_id_conv not_less)
  finally show ?thesis .
qed

text \<open>Whatever batches fail, what was acknowledged is the backlog from its start, without gap or repetition.\<close>

lemma drain_prefix:
  assumes "good s"
  shows "fst (drain n acks v s) = take (n * length (filter (\<lambda>b. b) acks)) (backlog v s) \<and>
    snd (drain n acks v s) =
      (if fst (drain n acks v s) = [] then v else Some (fst (last (fst (drain n acks v s)))))"
proof (induction acks arbitrary: v)
  case (Cons ack acks)
  let ?b = "take n (backlog v s)"
  have sn: "since v n s = (?b, if ?b = [] then None else Some (fst (last ?b)))"
    by (simp only: since_eq [OF assms] Let_def backlog_def)
  show ?case
  proof (cases "?b = [] \<or> \<not> ack")
    case True
    then have "drain n (ack # acks) v s = drain n acks v s" by (simp add: sn)
    moreover have "take (n * length (filter (\<lambda>b. b) (ack # acks))) (backlog v s) =
        take (n * length (filter (\<lambda>b. b) acks)) (backlog v s)"
      using True by (cases "backlog v s") auto
    ultimately show ?thesis using Cons.IH [of v] by simp
  next
    case False
    obtain bs v' where r: "drain n acks (Some (fst (last ?b))) s = (bs, v')" by fastforce
    have bl: "backlog (Some (fst (last ?b))) s = drop n (backlog v s)"
      using backlog_step [OF assms] False by blast
    have "drain n (ack # acks) v s = (?b @ bs, v')" using False r by (simp add: sn)
    moreover have "bs = take (n * length (filter (\<lambda>b. b) acks)) (drop n (backlog v s))"
      and "v' = (if bs = [] then Some (fst (last ?b)) else Some (fst (last bs)))"
      using Cons.IH [of "Some (fst (last ?b))"] unfolding r bl fst_conv snd_conv by blast+
    ultimately show ?thesis
      using False by (simp add: take_add del: take_eq_Nil)
  qed
qed simp

end

definition signed_entries :: "(jdict \<Rightarrow> jdict) \<Rightarrow> jdict \<Rightarrow> local_table \<Rightarrow> (int \<times> jdict) list" where
  "signed_entries sg extra t = map (\<lambda>r. (l_id r, signedThreePidAssociation sg extra (l_assoc r))) (l_rows t)"

definition signed_since ::
    "(jdict \<Rightarrow> jdict) \<Rightarrow> jdict \<Rightarrow> int option \<Rightarrow> nat \<Rightarrow> local_table \<Rightarrow> (int \<times> jdict) list \<times> int option" where
  "signed_since sg extra v n t = getSignedAssociationsAfterId sg extra v (Some n) t"

interpretation alog: id_log "signed_entries sg extra" "signed_since sg extra" local_inv
proof
  fix s :: local_table and v n
  assume s: "local_inv s"
  show "sorted_wrt (<) (map fst (signed_entries sg extra s))"
    using s by (simp add: signed_entries_def local_inv_def comp_def)
  have "filter (\<lambda>x. ver v < fst x) (signed_entries sg extra s) =
      map (\<lambda>r. (l_id r, signedThreePidAssociation sg extra (l_assoc r))) (after_rows (ver v) s)"
    by (simp add: signed_entries_def after_rows_def filter_map comp_def)
  moreover have "feed v (Some n) s = take n (after_rows (ver v) s)"
    by (simp add: feed_def ver_def)
  ultimately show "signed_since sg extra v n s =
      (let b = take n (filter (\<lambda>x. ver v < fst x) (signed_entries sg extra s))
       in (b, if b = [] then None else Some (fst (last b))))"
    using getSignedAssociationsAfterId_feed [OF s, of sg extra v "Some n"]
    by (simp add: signed_since_def Let_def take_map last_map)
qed

section \<open>Properties\<close>

definition recorded :: "string \<Rightarrow> peer_db \<Rightarrow> int option" where
  "recorded name db = (case filter (\<lambda>r. pr_name r = name) (pd_peers db) of
     [] \<Rightarrow> None | r # _ \<Rightarrow> pr_lastSentVersion r)"

text \<open>
  Pushes to one peer, each with the version recorded for it and ending as the list says.
  What the peer received is what was sent with a successful end.
\<close>

fun push_rounds :: "env \<Rightarrow> jdict \<Rightarrow> local_table \<Rightarrow> remote_peer \<Rightarrow> (int \<times> int res) list \<Rightarrow> peer_db \<Rightarrow>
    (int, jdict) dict \<times> peer_db" where
  "push_rounds e extra lt p [] db = ([], db)"
| "push_rounds e extra lt p ((now, response) # rs) db =
     (let p' = p\<lparr>rp_lastSentVersion := recorded (rp_servername p) db\<rparr>;
          (sent, db1) = push_to_peer e extra lt p' response now db;
          (rest, db2) = push_rounds e extra lt p rs db1
      in ((if isr (push_outcome response) then sent else []) @ rest, db2))"

lemma recorded_set:
  assumes "name \<in> pr_name ` set (pd_peers db)"
  shows "recorded name (setLastSentVersionAndPokeSucceeded name v t db) = v"
    and "name \<in> pr_name ` set (pd_peers (setLastSentVersionAndPokeSucceeded name v t db))"
proof -
  let ?f = "\<lambda>p. if pr_name p = name
    then p\<lparr>pr_lastSentVersion := v, pr_lastPokeSucceededAt := t\<rparr> else p"
  have flt: "filter (\<lambda>r. pr_name r = name) (map ?f ps) = map ?f (filter (\<lambda>r. pr_name r = name) ps)" for ps
    by (induction ps) auto
  have ps: "pd_peers (setLastSentVersionAndPokeSucceeded name v t db) = map ?f (pd_peers db)"
    by (simp add: setLastSentVersionAndPokeSucceeded_def)
  obtain q qs where q: "filter (\<lambda>r. pr_name r = name) (pd_peers db) = q # qs"
    using assms by (cases "filter (\<lambda>r. pr_name r = name) (pd_peers db)") (auto simp: filter_empty_conv)
  then have n: "pr_name q = name" by (meson filter_eq_ConsD)
  show "recorded name (setLastSentVersionAndPokeSucceeded name v t db) = v"
    unfolding recorded_def ps flt q using n by simp
  show "name \<in> pr_name ` set (pd_peers (setLastSentVersionAndPokeSucceeded name v t db))"
  proof -
    have "map pr_name (map ?f (pd_peers db)) = map pr_name (pd_peers db)" by simp
    with assms show ?thesis unfolding ps by (metis list.set_map)
  qed
qed

lemma push_rounds_drain:
  assumes "\<not> rp_is_being_pushed_to p" and "rp_servername p \<in> pr_name ` set (pd_peers db)"
  shows "fst (push_rounds e extra lt p rs db) =
      fst (alog.drain (ev_sign e) extra ASSOCIATIONS_PUSH_LIMIT (map (\<lambda>r. isr (push_outcome (snd r))) rs)
        (recorded (rp_servername p) db) lt) \<and>
    recorded (rp_servername p) (snd (push_rounds e extra lt p rs db)) =
      snd (alog.drain (ev_sign e) extra ASSOCIATIONS_PUSH_LIMIT (map (\<lambda>r. isr (push_outcome (snd r))) rs)
        (recorded (rp_servername p) db) lt)"
  using assms(2)
proof (induction rs arbitrary: db)
  case (Cons r rs)
  obtain now response where r: "r = (now, response)" by fastforce
  let ?n = "rp_servername p"
  obtain b latest where b: "getSignedAssociationsAfterId (ev_sign e) extra (recorded ?n db)
      (Some ASSOCIATIONS_PUSH_LIMIT) lt = (b, latest)" by fastforce
  then have since: "signed_since (ev_sign e) extra (recorded ?n db) ASSOCIATIONS_PUSH_LIMIT lt = (b, latest)"
    by (simp add: signed_since_def)
  show ?case
  proof (cases "b = []")
    case True
    with b assms(1) Cons.IH [OF Cons.prems] show ?thesis
      by (simp add: r Let_def push_to_peer_def push_to_peer_start_def since split: prod.splits)
  next
    case False
    then have st: "push_to_peer e extra lt (p\<lparr>rp_lastSentVersion := recorded ?n db\<rparr>) response now db =
        (b, push_to_peer_finish p latest response now db)"
      using b assms(1)
      by (simp add: push_to_peer_def push_to_peer_start_def push_to_peer_finish_def split: sum.splits)
    show ?thesis
    proof (cases "push_outcome response")
      case (Inl ex)
      then have "push_to_peer_finish p latest response now db = db" by (simp add: push_to_peer_finish_def)
      with Inl b st Cons.IH [OF Cons.prems] show ?thesis
        by (simp add: r Let_def since split: prod.splits)
    next
      case (Inr c)
      let ?db = "setLastSentVersionAndPokeSucceeded ?n latest (Some now) db"
      have "push_to_peer_finish p latest response now db = ?db" using Inr by (simp add: push_to_peer_finish_def)
      with Inr b st False Cons.IH [OF recorded_set(2) [OF Cons.prems], of latest "Some now"]
        recorded_set(1) [OF Cons.prems, of latest "Some now"] show ?thesis
        by (auto simp: r Let_def since split: prod.splits)
    qed
  qed
qed simp

text \<open>C12: replication to a peer makes progress and loses nothing. After any sequence of pushes, some of which failed,
  what the peer received is exactly the first part of the server's associations after the version
  recorded at the start, in ascending order of identifier, without gap or repetition: 100 associations
  per successful push. The recorded version is that of the last association received. So once
  enough pushes succeeded to cover the backlog, the peer has all of it.\<close>

theorem push_rounds_deliver:
  assumes "local_inv lt" and "\<not> rp_is_being_pushed_to p" and "rp_servername p \<in> pr_name ` set (pd_peers db)"
  shows "let backlog = map (\<lambda>r. (l_id r, signedThreePidAssociation (ev_sign e) extra (l_assoc r)))
               (filter (\<lambda>r. (case recorded (rp_servername p) db of None \<Rightarrow> -1 | Some i \<Rightarrow> i) < l_id r) (l_rows lt));
             succeeded = length (filter (\<lambda>(now, response). isr (push_outcome response)) rs);
             (received, db') = push_rounds e extra lt p rs db
         in received = take (100 * succeeded) backlog \<and>
            (received \<noteq> [] \<longrightarrow> recorded (rp_servername p) db' = Some (fst (last received))) \<and>
            (length backlog \<le> 100 * succeeded \<longrightarrow> received = backlog)"
proof -
  let ?acks = "map (\<lambda>r. isr (push_outcome (snd r))) rs"
  have "length (filter (\<lambda>b. b) ?acks) = length (filter (\<lambda>(now, response). isr (push_outcome response)) rs)"
    by (simp add: filter_map comp_def case_prod_beta')
  moreover have "alog.backlog (ev_sign e) extra (recorded (rp_servername p) db) lt =
      map (\<lambda>r. (l_id r, signedThreePidAssociation (ev_sign e) extra (l_assoc r)))
        (filter (\<lambda>r. (case recorded (rp_servername p) db of None \<Rightarrow> -1 | Some i \<Rightarrow> i) < l_id r) (l_rows lt))"
    by (simp add: alog.backlog_def signed_entries_def ver_def filter_map comp_def)
  ultimately show ?thesis
    using push_rounds_drain [OF assms(2,3), of e extra lt rs]
      alog.drain_prefix [OF assms(1), of "ev_sign e" extra ASSOCIATIONS_PUSH_LIMIT ?acks "recorded (rp_servername p) db"]
    by (auto simp: Let_def ASSOCIATIONS_PUSH_LIMIT_def split: prod.splits)
qed

theorem push_rounds_deliver_witness:
  "let lt = addOrUpdateAssociation (tombstone ''email'' ''a@b'' 5) empty_local;
       e = \<lparr>ev_server_name = ''is'', ev_delete_tokens_on_bind = False, ev_sign = (\<lambda>d. d), ev_hash = (\<lambda>x. x),
             ev_isIPAddress = (\<lambda>_. False), ev_isIPv6Address = (\<lambda>_. False)\<rparr>;
       p = \<lparr>rp_servername = ''peer'', rp_pubkeys = [], rp_is_being_pushed_to = False, rp_lastSentVersion = None,
             rp_replication_url_origin = [], rp_replication_url = [], rp_verify_key = []\<rparr>;
       db = \<lparr>pd_peers = [\<lparr>pr_name = ''peer'', pr_port = None, pr_lastSentVersion = None,
             pr_lastPokeSucceededAt = None, pr_active = True\<rparr>], pd_pubkeys = []\<rparr>;
       (received, db') = push_rounds e [] lt p [(1, Inl ConnectError), (2, Inr 503), (3, Inr 200)] db
   in map fst received = [1] \<and> recorded ''peer'' db' = Some 1"
proof -
  let ?lt = "addOrUpdateAssociation (tombstone ''email'' ''a@b'' 5) empty_local"
  let ?e = "\<lparr>ev_server_name = ''is'', ev_delete_tokens_on_bind = False, ev_sign = (\<lambda>d. d), ev_hash = (\<lambda>x. x),
      ev_isIPAddress = (\<lambda>_. False), ev_isIPv6Address = (\<lambda>_. False)\<rparr>"
  let ?p = "\<lparr>rp_servername = ''peer'', rp_pubkeys = [], rp_is_being_pushed_to = False, rp_lastSentVersion = None,
      rp_replication_url_origin = [], rp_replication_url = [], rp_verify_key = []\<rparr>"
  let ?db = "\<lparr>pd_peers = [\<lparr>pr_name = ''peer'', pr_port = None, pr_lastSentVersion = None,
      pr_lastPokeSucceededAt = None, pr_active = True\<rparr>], pd_pubkeys = []\<rparr>"
  have "local_inv ?lt" by (rule local_inv_addOrUpdate [OF local_inv_empty])
  moreover have "l_rows ?lt = [\<lparr>l_id = 1, l_assoc = tombstone ''email'' ''a@b'' 5\<rparr>]"
    by (simp add: addOrUpdateAssociation_def empty_local_def)
  ultimately show ?thesis
    using push_rounds_deliver [of ?lt ?p ?db ?e "[]" "[(1, Inl ConnectError), (2, Inr 503), (3, Inr 200)]"]
    by (auto simp: Let_def recorded_def push_outcome_def split: prod.splits)
qed

section \<open>All peers\<close>

definition peer_keys :: "peer_db \<Rightarrow> peer_row \<Rightarrow> pubkey_row list" where
  "peer_keys db p = filter (\<lambda>k. pk_peername k = pr_name p) (pd_pubkeys db)"

definition key_dict :: "pubkey_row list \<Rightarrow> (string, string) dict \<Rightarrow> (string, string) dict" where
  "key_dict ks d = fold (\<lambda>k d. dict_set d (pk_alg k) (pk_key k)) ks d"

definition join_rows :: "peer_db \<Rightarrow> peer_row \<Rightarrow> peer_join list" where
  "join_rows db p = map (\<lambda>k. (pr_name p, pr_port p, pr_lastSentVersion p, pk_alg k, pk_key k)) (peer_keys db p)"

fun build_peers :: "sig_env \<Rightarrow> peer_db \<Rightarrow> peer_row list \<Rightarrow> remote_peer list res" where
  "build_peers se db [] = Inr []"
| "build_peers se db (p # ps) =
     (if peer_keys db p = [] then build_peers se db ps
      else bindR (RemotePeer_init se (pr_name p) (pr_port p) (key_dict (peer_keys db p) []) (pr_lastSentVersion p))
        (\<lambda>q. bindR (build_peers se db ps) (\<lambda>qs. Inr (q # qs))))"

lemma peers_loop_same:
  "peers_loop se (Some n) pt v d (map (\<lambda>k. (n, pt', v', pk_alg k, pk_key k)) ks @ rest) =
     peers_loop se (Some n) pt v (key_dict ks d) rest"
  by (induction ks arbitrary: d) (simp_all add: key_dict_def)

lemma dict_set_nonempty [simp]: "dict_set d k v \<noteq> []"
  by (induction d k v rule: dict_set.induct) auto

lemma key_dict_nonempty: "d \<noteq> [] \<or> ks \<noteq> [] \<Longrightarrow> key_dict ks d \<noteq> []"
  by (induction ks arbitrary: d) (auto simp: key_dict_def)

lemma peers_loop_build:
  assumes "distinct (map pr_name ps)" and "\<forall>n. peername = Some n \<longrightarrow> n \<notin> pr_name ` set ps"
    and "(d = []) = (peername = None)"
  shows "peers_loop se peername pt v d (concat (map (join_rows db) ps)) =
    (case peername of None \<Rightarrow> build_peers se db ps
     | Some n \<Rightarrow> bindR (RemotePeer_init se n pt d v) (\<lambda>q. bindR (build_peers se db ps) (\<lambda>qs. Inr (q # qs))))"
  using assms
proof (induction ps arbitrary: peername pt v d)
  case Nil
  then show ?case by (cases d; cases peername) auto
next
  case (Cons p ps)
  show ?case
  proof (cases "peer_keys db p")
    case Nil
    then have "join_rows db p = []" and bp: "build_peers se db (p # ps) = build_peers se db ps"
      by (simp_all add: join_rows_def)
    with Cons.IH [of peername d] Cons.prems show ?thesis unfolding bp by simp
  next
    case (Cons k ks)
    let ?d = "key_dict (peer_keys db p) []"
    have rest: "peers_loop se (Some (pr_name p)) (pr_port p) (pr_lastSentVersion p) (dict_set [] (pk_alg k) (pk_key k))
        (map (\<lambda>k. (pr_name p, pr_port p, pr_lastSentVersion p, pk_alg k, pk_key k)) ks
          @ concat (map (join_rows db) ps)) = build_peers se db (p # ps)"
      using Cons.IH [of "Some (pr_name p)" ?d "pr_port p" "pr_lastSentVersion p"] Cons.prems Cons
        key_dict_nonempty [of "[]" "peer_keys db p"]
      by (simp add: peers_loop_same) (simp add: key_dict_def)
    have jr: "join_rows db p = (pr_name p, pr_port p, pr_lastSentVersion p, pk_alg k, pk_key k) #
        map (\<lambda>k. (pr_name p, pr_port p, pr_lastSentVersion p, pk_alg k, pk_key k)) ks"
      using Cons by (simp add: join_rows_def)
    show ?thesis
    proof (cases peername)
      case None
      with Cons.prems rest show ?thesis by (simp add: jr)
    next
      case (Some n)
      then obtain x xs where "d = x # xs" using Cons.prems(3) by (cases d) auto
      moreover have "n \<noteq> pr_name p" using Cons.prems(2) Some by auto
      ultimately show ?thesis using Some rest by (simp add: jr)
    qed
  qed
qed

lemma getAllPeers_build:
  assumes "distinct (map pr_name (pd_peers db))"
  shows "getAllPeers se db = build_peers se db (filter pr_active (pd_peers db))"
proof -
  have "peer_rows (\<lambda>_. True) db = concat (map (join_rows db) (filter pr_active (pd_peers db)))"
    by (simp add: peer_rows_def join_rows_def [abs_def] peer_keys_def)
  then show ?thesis
    using peers_loop_build [of "filter pr_active (pd_peers db)" None "[]" se None None db] assms
    by (simp add: getAllPeers_def distinct_map_filter)
qed

lemma RemotePeer_init_fields:
  "RemotePeer_init se n pt d v = Inr q \<Longrightarrow>
   rp_servername q = n \<and> rp_lastSentVersion q = v \<and> \<not> rp_is_being_pushed_to q"
  by (auto simp: RemotePeer_init_def Let_def bindR_eq_Inr split: option.splits)

lemma build_peers_fields:
  "build_peers se db ps = Inr qs \<Longrightarrow>
   map rp_servername qs = map pr_name (filter (\<lambda>p. peer_keys db p \<noteq> []) ps) \<and>
   map rp_lastSentVersion qs = map pr_lastSentVersion (filter (\<lambda>p. peer_keys db p \<noteq> []) ps) \<and>
   (\<forall>q \<in> set qs. \<not> rp_is_being_pushed_to q)"
proof (induction ps arbitrary: qs)
  case (Cons p ps)
  then show ?case
    by (auto simp: bindR_eq_Inr split: if_splits dest!: RemotePeer_init_fields)
qed simp

text \<open>every active peer that has a key is found by the scheduled push exactly once, with the version
  recorded for it; and none of the peers is marked as being pushed to, since they are new objects each
  time: the test for a push that is still running never holds for them.\<close>

theorem getAllPeers_complete:
  assumes "distinct (map pr_name (pd_peers db))" and "getAllPeers se db = Inr qs"
  shows "map (\<lambda>q. (rp_servername q, rp_lastSentVersion q)) qs =
      map (\<lambda>p. (pr_name p, pr_lastSentVersion p))
        (filter (\<lambda>p. pr_active p \<and> (\<exists>k \<in> set (pd_pubkeys db). pk_peername k = pr_name p)) (pd_peers db)) \<and>
    (\<forall>q \<in> set qs. \<not> rp_is_being_pushed_to q)"
proof -
  let ?ps = "filter (\<lambda>p. peer_keys db p \<noteq> []) (filter pr_active (pd_peers db))"
  have b: "map rp_servername qs = map pr_name ?ps" "map rp_lastSentVersion qs = map pr_lastSentVersion ?ps"
    "\<forall>q \<in> set qs. \<not> rp_is_being_pushed_to q"
    using build_peers_fields [of se db _ qs] assms getAllPeers_build by auto
  have "map (\<lambda>q. (rp_servername q, rp_lastSentVersion q)) qs = zip (map rp_servername qs) (map rp_lastSentVersion qs)"
    by (simp add: zip_map_map map2_map_map zip_same_conv_map)
  also have "\<dots> = map (\<lambda>p. (pr_name p, pr_lastSentVersion p)) ?ps"
    unfolding b by (simp add: zip_map_map zip_same_conv_map)
  also have "?ps = filter (\<lambda>p. pr_active p \<and> (\<exists>k \<in> set (pd_pubkeys db). pk_peername k = pr_name p)) (pd_peers db)"
    by (auto simp: peer_keys_def filter_empty_conv intro!: filter_cong)
  finally show ?thesis using b(3) by simp
qed

theorem getAllPeers_complete_witness:
  "let se = \<lparr>sv_signature_ids = (\<lambda>_ _. []), sv_verify_signed_json = (\<lambda>_ _ _. Inr ()),
          sv_decode_base64 = Inr, sv_decode_verify_key_bytes = (\<lambda>_ b. Inr b), sv_base_replication_urls = []\<rparr>;
       db = \<lparr>pd_peers = [\<lparr>pr_name = ''peer'', pr_port = None, pr_lastSentVersion = Some 4,
             pr_lastPokeSucceededAt = None, pr_active = True\<rparr>],
             pd_pubkeys = [\<lparr>pk_peername = ''peer'', pk_alg = ''ed25519'', pk_key = []\<rparr>]\<rparr>
   in \<exists>qs. getAllPeers se db = Inr qs \<and> map rp_servername qs = [''peer'']"
proof -
  let ?se = "\<lparr>sv_signature_ids = (\<lambda>_ _. []), sv_verify_signed_json = (\<lambda>_ _ _. Inr ()),
          sv_decode_base64 = Inr, sv_decode_verify_key_bytes = (\<lambda>_ b. Inr b), sv_base_replication_urls = []\<rparr>"
  let ?db = "\<lparr>pd_peers = [\<lparr>pr_name = ''peer'', pr_port = None, pr_lastSentVersion = Some 4,
             pr_lastPokeSucceededAt = None, pr_active = True\<rparr>],
             pd_pubkeys = [\<lparr>pk_peername = ''peer'', pk_alg = ''ed25519'', pk_key = []\<rparr>]\<rparr>"
  have "isl (getAllPeers ?se ?db) = False"
    by (simp add: getAllPeers_build peer_keys_def key_dict_def RemotePeer_init_def SIGNING_KEY_ALGORITHM_def
        decode_pubkey_def Let_def)
  then obtain qs where qs: "getAllPeers ?se ?db = Inr qs" using sum.collapse(2) by metis
  have "distinct (map pr_name (pd_peers ?db))" by simp
  note all = conjunct1 [OF getAllPeers_complete [OF this qs]]
  have "map rp_servername qs = map fst (map (\<lambda>q. (rp_servername q, rp_lastSentVersion q)) qs)" by simp
  also have "\<dots> = [''peer'']" unfolding all by simp
  finally show ?thesis unfolding Let_def using qs by (intro exI [of _ qs] conjI)
qed

end
