(* ===== verification/Replication_Servlet.thy ===== *)
theory Replication_Servlet
  imports Peers Binder Bind_Lookup
begin

text \<open>
  \<open>sydent/http/servlets/replication.py\<close>: associations pushed by another server. Every association is
  verified with the peer's key; the batch is meant to be stored completely or not at all.
\<close>

section \<open>The handler\<close>

definition hash_assoc :: "env \<Rightarrow> string \<Rightarrow> threepid_association \<Rightarrow> threepid_association" where
  "hash_assoc e pepper a = a\<lparr>ta_lookup_hash := Some (ev_hash e (hash_input (ta_address a) (ta_medium a) pepper))\<rparr>"

text \<open>
  One turn of the loop: the failed identifiers and the connection. An exception of any kind
  makes the identifier a failed one and keeps what was done before it.
\<close>

definition store_pushed ::
    "env \<Rightarrow> string option \<Rightarrow> remote_peer \<Rightarrow> int \<Rightarrow> jdict \<Rightarrow> global_conn \<Rightarrow> unit res \<times> global_conn" where
  "store_pushed e pepper peer originId sgAssoc c =
     (case threePidAssocFromDict sgAssoc of
        Inl ex \<Rightarrow> (Inl ex, c)
      | Inr a \<Rightarrow>
         (let assocObj = a\<lparr>ta_address := normalise_address (ta_address a) (ta_medium a)\<rparr> in
          case ta_mxid assocObj of
            Some _ \<Rightarrow>
              (case pepper of
                 None \<Rightarrow> (Inl AssertionError, c)
               | Some p \<Rightarrow>
                   (Inr (), addAssociation (hash_assoc e p assocObj) sgAssoc (rp_servername peer) originId False c))
          | None \<Rightarrow> (Inr (), removeAssociation (ta_medium assocObj) (ta_address assocObj) c)))"

definition push_item ::
    "env \<Rightarrow> sig_env \<Rightarrow> string option \<Rightarrow> remote_peer \<Rightarrow> string \<times> int \<times> json \<Rightarrow>
     string list \<times> global_conn \<Rightarrow> string list \<times> global_conn" where
  "push_item e se pepper peer item st =
     (case (item, st) of
        ((key, originId, v), (failedIds, c)) \<Rightarrow>
          (case v of
             JObj sgAssoc \<Rightarrow>
               (case verifySignedAssociation se peer sgAssoc of
                  Inl _ \<Rightarrow> (failedIds @ [key], c)
                | Inr _ \<Rightarrow>
                    if failedIds \<noteq> [] then (failedIds, c)
                    else (case store_pushed e pepper peer originId sgAssoc c of
                            (Inl _, c') \<Rightarrow> (failedIds @ [key], c')
                          | (Inr _, c') \<Rightarrow> (failedIds, c')))
           | _ \<Rightarrow> (failedIds @ [key], c)))"

text \<open>\<open>int(k)\<close> of the keys; a key that is no number raises outside the loop.\<close>

fun int_keys :: "(string \<times> json) list \<Rightarrow> (string \<times> int \<times> json) list res" where
  "int_keys [] = Inr []"
| "int_keys ((k, v) # kvs) =
     (case py_int k of
        None \<Rightarrow> Inl ValueError
      | Some i \<Rightarrow> bindR (int_keys kvs) (\<lambda>r. Inr ((k, i, v) # r)))"

definition push_all ::
    "env \<Rightarrow> sig_env \<Rightarrow> remote_peer \<Rightarrow> (string \<times> int \<times> json) list \<Rightarrow> (identity_state, reply) act" where
  "push_all e se peer items s =
     (let sg_assocs = sort_key (\<lambda>(k, i, v). i) items;
          (failedIds, c) = fold (push_item e se (pepper_of s) peer) sg_assocs ([], is_global s)
      in if failedIds \<noteq> []
         then (Inr (400, JObj [(''errcode'', JStr ''M_VERIFICATION_FAILED''),
                 (''error'', JStr ''Verification failed for one or more associations''),
                 (''failed_ids'', JArr (map JStr failedIds))]),
               s\<lparr>is_global := db_rollback c\<rparr>)
         else (Inr (ok_reply [(''success'', JBool True)]), s\<lparr>is_global := db_commit c\<rparr>))"

text \<open>
  Reading the request. The log statement for a request without a content type indexes a missing
  list of headers.
\<close>

definition read_push :: "request \<Rightarrow> (string \<times> int \<times> json) list res" where
  "read_push req =
     (case getRawHeaders req ''Content-Type'' of
        None \<Rightarrow> Inl TypeError
      | Some cts \<Rightarrow>
        if cts = [] \<or> hd cts \<noteq> ''application/json''
        then Inl (MatrixRestError 400 ''M_NOT_JSON'' ''This endpoint expects JSON'')
        else
          (case rq_body req of
             None \<Rightarrow> Inl (MatrixRestError 400 ''M_BAD_JSON'' ''Malformed JSON'')
           | Some inJson \<Rightarrow>
               bindR (json_in ''sgAssocs'' inJson) (\<lambda>b.
                 if \<not> b then Inl (MatrixRestError 400 ''M_BAD_JSON'' ''No \"sgAssocs\" key in JSON'')
                 else
                   bindR (json_get inJson ''sgAssocs'') (\<lambda>raw.
                   bindR (case raw of JObj d \<Rightarrow> Inr d | _ \<Rightarrow> Inl AttributeError) int_keys))))"

definition replication_render_POST ::
    "env \<Rightarrow> sig_env \<Rightarrow> peer_db \<Rightarrow> string \<Rightarrow> request \<Rightarrow> (identity_state, reply) act" where
  "replication_render_POST e se pdb peerCertCn req =
     bindM (liftR (getPeerByName se peerCertCn pdb)) (\<lambda>found.
       case found of
         None \<Rightarrow> raise (MatrixRestError 403 ''M_UNKNOWN_PEER'' ''This peer is not known to this server'')
       | Some peer \<Rightarrow> bindM (liftR (read_push req)) (push_all e se peer))"

section \<open>Lemmas\<close>

text \<open>A row that a step of the loop adds was signed by the peer.\<close>

definition pushed_row :: "sig_env \<Rightarrow> remote_peer \<Rightarrow> global_row \<Rightarrow> bool" where
  "pushed_row se peer r =
     (g_originServer r = rp_servername peer \<and> verifySignedAssociation se peer (g_sgAssoc r) = Inr () \<and>
      normalise_address (g_address r) (g_medium r) = g_address r \<and>
      (\<exists>a. threePidAssocFromDict (g_sgAssoc r) = Inr a \<and> g_medium r = ta_medium a \<and>
        g_address r = normalise_address (ta_address a) (ta_medium a) \<and> ta_mxid a = Some (g_mxid r)))"

lemma insert_or_ignore_mem:
  "r \<in> set (g_rows (insert_or_ignore a raw srv i t)) \<Longrightarrow> r \<notin> set (g_rows t) \<Longrightarrow>
   g_originServer r = srv \<and> g_originId r = i \<and> g_sgAssoc r = raw \<and> g_medium r = ta_medium a \<and>
   g_address r = ta_address a \<and> ta_mxid a = Some (g_mxid r)"
  by (auto simp: insert_or_ignore_def split: option.splits if_splits)

lemma store_pushed_rows:
  assumes "verifySignedAssociation se peer sg = Inr ()"
    and "store_pushed e pepper peer i sg c = (r, c')"
    and "row \<in> set (g_rows (gc_work c'))" and "row \<notin> set (g_rows (gc_work c))"
  shows "pushed_row se peer row"
proof (cases "threePidAssocFromDict sg")
  case (Inl ex)
  with assms show ?thesis by (simp add: store_pushed_def)
next
  case (Inr a)
  let ?a = "a\<lparr>ta_address := normalise_address (ta_address a) (ta_medium a)\<rparr>"
  show ?thesis
  proof (cases "ta_mxid a")
    case None
    with Inr assms(2-) show ?thesis by (auto simp: store_pushed_def removeAssociation_eq delete_3pid_def)
  next
    case (Some x)
    with Inr assms(2-) obtain p where p: "pepper = Some p"
      "c' = addAssociation (hash_assoc e p ?a) sg (rp_servername peer) i False c"
      by (auto simp: store_pushed_def split: option.splits)
    with assms(3,4) have "g_originServer row = rp_servername peer \<and> g_sgAssoc row = sg \<and>
        g_medium row = ta_medium a \<and> g_address row = ta_address ?a \<and> ta_mxid a = Some (g_mxid row)"
      using insert_or_ignore_mem [of row "hash_assoc e p ?a" sg "rp_servername peer" i "gc_work c"]
      by (auto simp: addAssociation_def hash_assoc_def)
    with assms(1) Inr show ?thesis by (simp add: pushed_row_def)
  qed
qed

lemma push_item_rows:
  assumes "row \<in> set (g_rows (gc_work (snd (push_item e se pepper peer item (f, c)))))"
    and "row \<notin> set (g_rows (gc_work c))"
  shows "pushed_row se peer row"
proof -
  obtain key i v where item: "item = (key, i, v)" by (cases item)
  from assms obtain sg where sg: "v = JObj sg" "verifySignedAssociation se peer sg = Inr ()"
      "row \<in> set (g_rows (gc_work (snd (store_pushed e pepper peer i sg c))))"
    by (auto simp: push_item_def item split: json.splits sum.splits if_splits prod.splits)
  then show ?thesis
    using store_pushed_rows [OF sg(2), of e pepper i c] assms(2)
    by (cases "store_pushed e pepper peer i sg c") auto
qed

lemma fold_push_rows:
  assumes "row \<in> set (g_rows (gc_work (snd (fold (push_item e se pepper peer) items (f, c)))))"
  shows "row \<in> set (g_rows (gc_work c)) \<or> pushed_row se peer row"
  using assms
proof (induction items arbitrary: f c)
  case (Cons item items)
  obtain f' c' where i: "push_item e se pepper peer item (f, c) = (f', c')" by fastforce
  with Cons have "row \<in> set (g_rows (gc_work c')) \<or> pushed_row se peer row" by simp
  with i push_item_rows [of row e se pepper peer item f c] show ?case by auto
qed simp

text \<open>The contents on disk come from the contents seen before or during the loop.\<close>

lemma push_item_disk:
  "gc_disk (snd (push_item e se pepper peer item (f, c))) = gc_disk c \<or>
   gc_disk (snd (push_item e se pepper peer item (f, c))) = gc_work (snd (push_item e se pepper peer item (f, c)))"
  by (auto simp: push_item_def store_pushed_def addAssociation_def removeAssociation_eq Let_def
      split: json.splits sum.splits if_splits prod.splits option.splits)

lemma fold_push_disk_rows:
  assumes "row \<in> set (g_rows (gc_disk (snd (fold (push_item e se pepper peer) items (f, c)))))"
  shows "row \<in> set (g_rows (gc_disk c)) \<or> row \<in> set (g_rows (gc_work c)) \<or> pushed_row se peer row"
  using assms
proof (induction items arbitrary: f c)
  case (Cons item items)
  obtain f' c' where i: "push_item e se pepper peer item (f, c) = (f', c')" by fastforce
  with Cons have "row \<in> set (g_rows (gc_disk c')) \<or> row \<in> set (g_rows (gc_work c')) \<or> pushed_row se peer row"
    by simp
  then show ?case
    using i push_item_rows [of row e se pepper peer item f c] push_item_disk [of e se pepper peer item f c]
    by (cases "row \<in> set (g_rows (gc_work c))") auto
qed simp

lemma global_inv_push_item:
  assumes "global_inv (gc_work c)" and "global_normal (gc_work c)"
    and "rp_servername peer \<noteq> name" and "origin_link name seq (gc_work c)"
  shows "global_inv (gc_work (snd (push_item e se pepper peer item (f, c)))) \<and>
    global_normal (gc_work (snd (push_item e se pepper peer item (f, c)))) \<and>
    origin_link name seq (gc_work (snd (push_item e se pepper peer item (f, c))))"
proof -
  have del: "origin_link name seq (delete_3pid m a g)" if "origin_link name seq g" for m a g
    using that by (auto simp: origin_link_def delete_3pid_def)
  have ins: "origin_link name seq (insert_or_ignore a raw (rp_servername peer) i g)"
    if "origin_link name seq g" for a raw i g
    using that assms(3) by (auto simp: origin_link_def insert_or_ignore_def split: option.splits)
  have norm: "normalise_address (ta_address (hash_assoc e p (a\<lparr>ta_address := normalise_address x m\<rparr>)))
      m = ta_address (hash_assoc e p (a\<lparr>ta_address := normalise_address x m\<rparr>))" for p a x m
    by (simp add: hash_assoc_def)
  have hm: "ta_medium (hash_assoc e p a) = ta_medium a" for p a by (simp add: hash_assoc_def)
  show ?thesis
    using assms
    by (auto simp: push_item_def store_pushed_def addAssociation_def removeAssociation_eq Let_def store_inv del ins
        norm hm intro!: global_normal_insert
        split: json.splits sum.splits if_splits prod.splits option.splits)
qed

lemma fold_push_inv:
  assumes "rp_servername peer \<noteq> name"
    and "global_inv (gc_work c)" "global_normal (gc_work c)" "origin_link name seq (gc_work c)"
    and "global_inv (gc_disk c)" "global_normal (gc_disk c)" "origin_link name seq (gc_disk c)"
  shows "\<forall>g \<in> {gc_work (snd (fold (push_item e se pepper peer) items (f, c))),
              gc_disk (snd (fold (push_item e se pepper peer) items (f, c)))}.
    global_inv g \<and> global_normal g \<and> origin_link name seq g"
  using assms(2-)
proof (induction items arbitrary: f c)
  case (Cons item items)
  obtain f' c' where i: "push_item e se pepper peer item (f, c) = (f', c')" by fastforce
  have w: "global_inv (gc_work c') \<and> global_normal (gc_work c') \<and> origin_link name seq (gc_work c')"
    using global_inv_push_item [OF Cons.prems(1,2) assms(1) Cons.prems(3), of e se pepper item f] i by simp
  have "gc_disk c' = gc_disk c \<or> gc_disk c' = gc_work c'"
    using push_item_disk [of e se pepper peer item f c] i by simp
  with w Cons.prems have "global_inv (gc_disk c') \<and> global_normal (gc_disk c') \<and> origin_link name seq (gc_disk c')"
    by auto
  with w Cons.IH [of c' f'] i show ?case by simp
qed simp

lemma push_all_inv:
  assumes "identity_inv e s" and "rp_servername peer \<noteq> ev_server_name e"
  shows "identity_inv e (snd (push_all e se peer items s))"
proof -
  let ?l = "sort_key (\<lambda>(k, i, v). i) items"
  obtain f c where fc: "fold (push_item e se (pepper_of s) peer) ?l ([], is_global s) = (f, c)" by fastforce
  have "\<forall>g \<in> {gc_work c, gc_disk c}. global_inv g \<and> global_normal g \<and>
      origin_link (ev_server_name e) (l_seq (is_local s)) g"
    using fold_push_inv [OF assms(2), of "is_global s" "l_seq (is_local s)" e se "pepper_of s" ?l "[]"] assms(1) fc
    by (simp add: identity_inv_def)
  then show ?thesis
    using assms(1) by (simp add: push_all_def fc Let_def identity_inv_def db_commit_def db_rollback_def)
qed

lemma render_POST_cases:
  obtains (unchanged) "snd (replication_render_POST e se pdb cn req s) = s"
      "isl (fst (replication_render_POST e se pdb cn req s))"
    | (pushed) peer items where "getPeerByName se cn pdb = Inr (Some peer)" "read_push req = Inr items"
      "replication_render_POST e se pdb cn req s = push_all e se peer items s"
  by (cases "getPeerByName se cn pdb"; cases "projr (getPeerByName se cn pdb)"; cases "read_push req")
     (auto simp: replication_render_POST_def act_simps)

lemma getPeerByName_name:
  assumes "getPeerByName se cn pdb = Inr (Some peer)"
  shows "rp_servername peer = cn"
proof -
  let ?rows = "peer_rows (\<lambda>p. pr_name p = cn) pdb"
  have rows: "fst r = cn" if "r \<in> set ?rows" for r
    using that by (auto simp: peer_rows_def)
  from assms have ne: "?rows \<noteq> []" by (auto simp: getPeerByName_def)
  then have "fst (last ?rows) = cn" using rows by simp
  with assms show ?thesis
    by (auto simp: getPeerByName_def Let_def bindR_eq_Inr split: prod.splits if_splits
        dest!: RemotePeer_init_fields)
qed

text \<open>A batch without deletions leaves the contents on disk alone until it is committed.\<close>

fun is_deletion :: "json \<Rightarrow> bool" where
  "is_deletion (JObj sg) = (case threePidAssocFromDict sg of Inl _ \<Rightarrow> False | Inr a \<Rightarrow> ta_mxid a = None)"
| "is_deletion _ = False"

lemma push_item_no_deletion:
  assumes "\<not> is_deletion v"
  shows "gc_disk (snd (push_item e se pepper peer (k, i, v) (f, c))) = gc_disk c"
    and "set (g_rows (gc_work c)) \<subseteq> set (g_rows (gc_work (snd (push_item e se pepper peer (k, i, v) (f, c)))))"
  using assms
  by (auto simp: push_item_def store_pushed_def addAssociation_def Let_def insert_or_ignore_def
      split: json.splits sum.splits if_splits prod.splits option.splits)

lemma fold_no_deletion:
  assumes "\<forall>(k, i, v) \<in> set items. \<not> is_deletion v"
  shows "gc_disk (snd (fold (push_item e se pepper peer) items (f, c))) = gc_disk c"
    and "set (g_rows (gc_work c)) \<subseteq> set (g_rows (gc_work (snd (fold (push_item e se pepper peer) items (f, c)))))"
proof -
  have "gc_disk (snd (fold (push_item e se pepper peer) items (f, c))) = gc_disk c \<and>
    set (g_rows (gc_work c)) \<subseteq> set (g_rows (gc_work (snd (fold (push_item e se pepper peer) items (f, c)))))"
    using assms
  proof (induction items arbitrary: f c)
    case (Cons item items)
    obtain k i v where item: "item = (k, i, v)" by (cases item)
    obtain f' c' where st: "push_item e se pepper peer item (f, c) = (f', c')" by fastforce
    have "\<not> is_deletion v" using Cons.prems item by auto
    note step = push_item_no_deletion [OF this, where e = e and se = se and pepper = pepper and peer = peer
        and k = k and i = i and f = f and c = c]
    show ?case using step Cons.IH [of f' c'] Cons.prems st item by auto
  qed simp
  then show "gc_disk (snd (fold (push_item e se pepper peer) items (f, c))) = gc_disk c"
    "set (g_rows (gc_work c)) \<subseteq> set (g_rows (gc_work (snd (fold (push_item e se pepper peer) items (f, c)))))"
    by blast+
qed

text \<open>The failed identifiers only grow, so a batch without failures stored each of its items.\<close>

lemma push_item_failed: "f \<noteq> [] \<Longrightarrow> fst (push_item e se pepper peer item (f, c)) \<noteq> []"
  by (auto simp: push_item_def split: json.splits sum.splits if_splits prod.splits)

lemma fold_failed: "f \<noteq> [] \<Longrightarrow> fst (fold (push_item e se pepper peer) items (f, c)) \<noteq> []"
proof (induction items arbitrary: f c)
  case (Cons item items)
  then show ?case
    using push_item_failed [OF Cons.prems, of e se pepper peer item c]
    by (cases "push_item e se pepper peer item (f, c)") auto
qed simp

definition complete :: "threepid_association \<Rightarrow> bool" where
  "complete a = (ta_mxid a \<noteq> None \<and> ta_ts a \<noteq> None \<and> ta_not_before a \<noteq> None \<and> ta_not_after a \<noteq> None)"

lemma push_item_stored:
  assumes "push_item e se pepper peer (k, i, v) ([], c) = ([], c')"
  obtains sg a where "v = JObj sg" "verifySignedAssociation se peer sg = Inr ()" "threePidAssocFromDict sg = Inr a"
    "complete a \<longrightarrow> (\<exists>r \<in> set (g_rows (gc_work c')). g_originServer r = rp_servername peer \<and> g_originId r = i)"
proof -
  from assms obtain sg where sg: "v = JObj sg" "verifySignedAssociation se peer sg = Inr ()"
      "store_pushed e pepper peer i sg c = (Inr (), c')"
    by (auto simp: push_item_def split: json.splits sum.splits prod.splits)
  then obtain a where a: "threePidAssocFromDict sg = Inr a" by (auto simp: store_pushed_def split: sum.splits)
  have "complete a \<longrightarrow> (\<exists>r \<in> set (g_rows (gc_work c')). g_originServer r = rp_servername peer \<and> g_originId r = i)"
    using sg(3) a
    by (auto simp: complete_def store_pushed_def Let_def addAssociation_def insert_or_ignore_def hash_assoc_def
        split: option.splits if_splits)
  with sg a show ?thesis using that by blast
qed

lemma fold_stored:
  assumes "\<forall>(k, i, v) \<in> set items. \<not> is_deletion v"
    and "fold (push_item e se pepper peer) items ([], c) = ([], c')" and "(k, i, v) \<in> set items"
  shows "\<exists>sg a. v = JObj sg \<and> verifySignedAssociation se peer sg = Inr () \<and> threePidAssocFromDict sg = Inr a \<and>
    (complete a \<longrightarrow> (\<exists>r \<in> set (g_rows (gc_work c')). g_originServer r = rp_servername peer \<and> g_originId r = i))"
  using assms
proof (induction items arbitrary: c)
  case (Cons item items)
  obtain f1 c1 where st: "push_item e se pepper peer item ([], c) = (f1, c1)" by fastforce
  have f1: "f1 = []" using fold_failed [of f1 e se pepper peer items c1] Cons.prems(2) st by auto
  then have rest: "fold (push_item e se pepper peer) items ([], c1) = ([], c')" using Cons.prems(2) st by simp
  have nd: "\<forall>(k, i, v) \<in> set items. \<not> is_deletion v" using Cons.prems(1) by simp
  have sub: "set (g_rows (gc_work c1)) \<subseteq> set (g_rows (gc_work c'))"
    using fold_no_deletion(2) [OF nd, of c1 e se pepper peer "[]"] rest by simp
  show ?case
  proof (cases "item = (k, i, v)")
    case True
    with st f1 have "push_item e se pepper peer (k, i, v) ([], c) = ([], c1)" by simp
    then show ?thesis by (rule push_item_stored) (use sub in blast)
  next
    case False
    then have "(k, i, v) \<in> set items" using Cons.prems(3) by auto
    from Cons.IH [OF nd rest this] show ?thesis .
  qed
qed simp

text \<open>Which items count as failed: every one that does not verify, and none that verifies and can be stored. After a first
  failure an item that verifies is not stored, so it cannot fail any more.\<close>

definition verified_item :: "sig_env \<Rightarrow> remote_peer \<Rightarrow> json \<Rightarrow> bool" where
  "verified_item se peer v = (case v of JObj sg \<Rightarrow> verifySignedAssociation se peer sg = Inr () | _ \<Rightarrow> False)"

definition acceptable_item :: "sig_env \<Rightarrow> string option \<Rightarrow> remote_peer \<Rightarrow> json \<Rightarrow> bool" where
  "acceptable_item se pepper peer v =
     (verified_item se peer v \<and>
      (case v of
         JObj sg \<Rightarrow> (case threePidAssocFromDict sg of Inl _ \<Rightarrow> False | Inr a \<Rightarrow> ta_mxid a = None \<or> pepper \<noteq> None)
       | _ \<Rightarrow> False))"

lemma push_item_keys:
  "fst (push_item e se pepper peer (k, i, v) (f, c)) = f \<and> verified_item se peer v \<or>
   fst (push_item e se pepper peer (k, i, v) (f, c)) = f @ [k] \<and> \<not> acceptable_item se pepper peer v"
  by (auto simp: push_item_def verified_item_def acceptable_item_def store_pushed_def Let_def
      split: json.splits sum.splits if_splits prod.splits option.splits)

lemma fold_failed_keys:
  "\<exists>ks. fst (fold (push_item e se pepper peer) items (f, c)) = f @ ks \<and>
    (\<forall>k \<in> set ks. \<exists>i v. (k, i, v) \<in> set items \<and> \<not> acceptable_item se pepper peer v) \<and>
    (\<forall>(k, i, v) \<in> set items. \<not> verified_item se peer v \<longrightarrow> k \<in> set ks)"
proof (induction items arbitrary: f c)
  case (Cons item items)
  obtain k i v where item: "item = (k, i, v)" by (cases item)
  obtain f' c' where st: "push_item e se pepper peer item (f, c) = (f', c')" by fastforce
  obtain ks where ks: "fst (fold (push_item e se pepper peer) items (f', c')) = f' @ ks"
    "\<forall>k \<in> set ks. \<exists>i v. (k, i, v) \<in> set items \<and> \<not> acceptable_item se pepper peer v"
    "\<forall>(k, i, v) \<in> set items. \<not> verified_item se peer v \<longrightarrow> k \<in> set ks"
    using Cons.IH [of f' c'] by blast
  from push_item_keys [of e se pepper peer k i v f c] st item
  consider "f' = f" "verified_item se peer v" | "f' = f @ [k]" "\<not> acceptable_item se pepper peer v" by auto
  moreover have later: "\<forall>k \<in> set ks. \<exists>i v. (k, i, v) \<in> set (item # items) \<and> \<not> acceptable_item se pepper peer v"
    using ks(2) by (meson list.set_intros(2))
  ultimately show ?case
  proof cases
    case 1
    with ks(1,3) later st item show ?thesis by (intro exI [of _ ks]) simp
  next
    case 2
    then have "\<exists>i v. (k, i, v) \<in> set (item # items) \<and> \<not> acceptable_item se pepper peer v"
      using item by (meson list.set_intros(1))
    with later have "\<forall>k \<in> set (k # ks). \<exists>i v. (k, i, v) \<in> set (item # items) \<and> \<not> acceptable_item se pepper peer v"
      unfolding list.set by blast
    moreover have "\<forall>(k', i, v) \<in> set (item # items). \<not> verified_item se peer v \<longrightarrow> k' \<in> set (k # ks)" using ks(3) item by auto
    ultimately show ?thesis using ks(1) st 2(1) by (intro exI [of _ "k # ks"] conjI) simp_all
  qed
qed simp

section \<open>Properties\<close>

text \<open>C10: replication is authentic. Whatever a connection sends, and however the request ends, each row of the global
  table was there before or is attributed to the peer named by the connection's certificate,
  carries an association that verifies with the key configured for that peer, and has the
  medium, normalised address and Matrix identifier that the signed association states.\<close>

theorem replication_authentic:
  assumes "identity_inv e s" and "row \<in> set (g_rows (known (snd (replication_render_POST e se pdb cn req s))))"
  shows "row \<in> set (g_rows (known s)) \<or>
    (\<exists>peer a. getPeerByName se cn pdb = Inr (Some peer) \<and> g_originServer row = cn \<and>
       verifySignedAssociation se peer (g_sgAssoc row) = Inr () \<and>
       threePidAssocFromDict (g_sgAssoc row) = Inr a \<and> g_medium row = ta_medium a \<and>
       g_address row = normalise_address (ta_address a) (ta_medium a) \<and> ta_mxid a = Some (g_mxid row))"
proof (cases rule: render_POST_cases [of e se pdb cn req s])
  case unchanged
  with assms(2) show ?thesis by simp
next
  case (pushed peer items)
  let ?l = "sort_key (\<lambda>(k, i, v). i) items"
  obtain f c where fc: "fold (push_item e se (pepper_of s) peer) ?l ([], is_global s) = (f, c)" by fastforce
  have work: "r \<in> set (g_rows (known s)) \<or> pushed_row se peer r" if "r \<in> set (g_rows (gc_work c))" for r
    using fold_push_rows [of r e se "pepper_of s" peer ?l "[]" "is_global s"] that fc by simp
  have disk: "r \<in> set (g_rows (known s)) \<or> pushed_row se peer r" if "r \<in> set (g_rows (gc_disk c))" for r
    using fold_push_disk_rows [of r e se "pepper_of s" peer ?l "[]" "is_global s"] that fc assms(1)
    by (simp add: identity_inv_def)
  have "row \<in> set (g_rows (gc_work c)) \<or> row \<in> set (g_rows (gc_disk c))"
    using assms(2) pushed(3) fc
    by (auto simp: push_all_def Let_def db_commit_def db_rollback_def split: if_splits)
  with work disk have "row \<in> set (g_rows (known s)) \<or> pushed_row se peer row" by blast
  then show ?thesis using getPeerByName_name [OF pushed(1)] pushed(1) by (auto simp: pushed_row_def)
qed

text \<open>A concrete peer whose signatures all verify, and requests from it.\<close>

definition trusting_env :: sig_env where
  "trusting_env = \<lparr>sv_signature_ids = (\<lambda>_ _. [''ed25519:0'']), sv_verify_signed_json = (\<lambda>_ _ _. Inr ()),
     sv_decode_base64 = Inr, sv_decode_verify_key_bytes = (\<lambda>_ b. Inr b), sv_base_replication_urls = []\<rparr>"

definition one_peer :: peer_db where
  "one_peer = \<lparr>pd_peers = [\<lparr>pr_name = ''peer'', pr_port = None, pr_lastSentVersion = None,
      pr_lastPokeSucceededAt = None, pr_active = True\<rparr>],
     pd_pubkeys = [\<lparr>pk_peername = ''peer'', pk_alg = ''ed25519'', pk_key = []\<rparr>]\<rparr>"

definition wire_assoc :: "string \<Rightarrow> string option \<Rightarrow> jdict" where
  "wire_assoc address mxid =
     [(''medium'', JStr ''email''), (''address'', JStr address), (''mxid'', jopt_str mxid), (''ts'', JInt 5),
      (''not_before'', JInt 5), (''not_after'', JInt 100000), (''signatures'', JObj [])]"

definition wire_req :: "(string \<times> json) list \<Rightarrow> request" where
  "wire_req items = \<lparr>rq_method = ''POST'', rq_path = ''/_matrix/identity/replicate/v1/push'',
     rq_headers = [(''content-type'', [''application/json''])], rq_args = [],
     rq_body = Some (JObj [(''sgAssocs'', JObj items)])\<rparr>"

theorem replication_authentic_witness:
  "let s' = snd (replication_render_POST plain_env trusting_env one_peer ''peer''
              (wire_req [(''7'', JObj (wire_assoc ''a@b'' (Some ''@a:hs'')))]) fresh_state)
   in map g_originServer (g_rows (known s')) = [''peer''] \<and>
      (\<forall>row \<in> set (g_rows (known s')). g_originServer row = ''peer'')"
proof -
  let ?req = "wire_req [(''7'', JObj (wire_assoc ''a@b'' (Some ''@a:hs'')))]"
  let ?s' = "snd (replication_render_POST plain_env trusting_env one_peer ''peer'' ?req fresh_state)"
  have "map g_originServer (g_rows (known ?s')) = [''peer'']" by code_simp
  moreover have "g_originServer row = ''peer''" if "row \<in> set (g_rows (known ?s'))" for row
  proof -
    from replication_authentic [OF fresh_state_ok(1) that] show ?thesis
      by (auto simp: fresh_state_def empty_global_def)
  qed
  ultimately show ?thesis unfolding Let_def by blast
qed

text \<open>C11: all or nothing, for batches without deletions. If no association of the batch is a deletion, then
  either the request fails with 400, the global table is as before, on disk and in memory, and the answer names the
  failed identifiers: all those that do not verify, and none of an item that verifies and can be stored; or
  every association of the batch verified, and every complete one is in the table under the
  peer's name and its origin identifier.\<close>

theorem replication_all_or_nothing:
  assumes "identity_inv e s" and "getPeerByName se cn pdb = Inr (Some peer)" and "read_push req = Inr items"
    and "\<forall>(k, i, v) \<in> set items. \<not> is_deletion v"
  shows "let (r, s') = replication_render_POST e se pdb cn req s in
    (\<exists>ks. r = Inr (400, JObj [(''errcode'', JStr ''M_VERIFICATION_FAILED''),
                 (''error'', JStr ''Verification failed for one or more associations''),
                 (''failed_ids'', JArr (map JStr ks))]) \<and> s' = s \<and> ks \<noteq> [] \<and>
       (\<forall>k \<in> set ks. \<exists>i v. (k, i, v) \<in> set items \<and> \<not> acceptable_item se (pepper_of s) peer v) \<and>
       (\<forall>(k, i, v) \<in> set items. \<not> verified_item se peer v \<longrightarrow> k \<in> set ks)) \<or>
    (r = Inr (ok_reply [(''success'', JBool True)]) \<and> gc_disk (is_global s') = known s' \<and>
     (\<forall>(k, i, v) \<in> set items. \<exists>sg a. v = JObj sg \<and> verifySignedAssociation se peer sg = Inr () \<and>
        threePidAssocFromDict sg = Inr a \<and>
        (complete a \<longrightarrow> (\<exists>row \<in> set (g_rows (known s')). g_originServer row = cn \<and> g_originId row = i))))"
proof -
  let ?l = "sort_key (\<lambda>(k, i, v). i) items"
  obtain f c where fc: "fold (push_item e se (pepper_of s) peer) ?l ([], is_global s) = (f, c)" by fastforce
  have nd: "\<forall>(k, i, v) \<in> set ?l. \<not> is_deletion v" using assms(4) by simp
  have run: "replication_render_POST e se pdb cn req s = push_all e se peer items s"
    using assms(2,3) by (simp add: replication_render_POST_def act_simps)
  have disk: "gc_disk c = known s"
    using fold_no_deletion(1) [OF nd, of e se "pepper_of s" peer "[]" "is_global s"] fc assms(1)
    by (simp add: identity_inv_def)
  show ?thesis
  proof (cases "f = []")
    case False
    have "db_rollback c = is_global s"
      using disk assms(1) by (cases c; cases "is_global s") (simp add: db_rollback_def identity_inv_def)
    then have "replication_render_POST e se pdb cn req s =
        (Inr (400, JObj [(''errcode'', JStr ''M_VERIFICATION_FAILED''),
           (''error'', JStr ''Verification failed for one or more associations''),
           (''failed_ids'', JArr (map JStr f))]), s)"
      using False fc run by (simp add: push_all_def Let_def)
    moreover have "(\<forall>k \<in> set f. \<exists>i v. (k, i, v) \<in> set items \<and> \<not> acceptable_item se (pepper_of s) peer v) \<and>
       (\<forall>(k, i, v) \<in> set items. \<not> verified_item se peer v \<longrightarrow> k \<in> set f)"
      using fold_failed_keys [of e se "pepper_of s" peer ?l "[]" "is_global s"] fc by auto
    ultimately show ?thesis using False unfolding Let_def split_def by (intro disjI1 exI [of _ f]) simp
  next
    case True
    then have "\<exists>sg a. v = JObj sg \<and> verifySignedAssociation se peer sg = Inr () \<and>
        threePidAssocFromDict sg = Inr a \<and>
        (complete a \<longrightarrow> (\<exists>row \<in> set (g_rows (gc_work c)). g_originServer row = cn \<and> g_originId row = i))"
      if "(k, i, v) \<in> set items" for k i v
      using fold_stored [OF nd, of e se "pepper_of s" peer "is_global s" c k i v] that fc
        getPeerByName_name [OF assms(2)] by simp
    then show ?thesis using True fc run by (auto simp: push_all_def Let_def db_commit_def)
  qed
qed

text \<open>A batch of a good association and of one that is no object: it fails, and the second is named.\<close>

theorem replication_all_or_nothing_witness:
  "\<exists>ks. set ks = {''9''} \<and>
     replication_render_POST plain_env trusting_env one_peer ''peer''
        (wire_req [(''7'', JObj (wire_assoc ''a@b'' (Some ''@a:hs''))), (''9'', JNull)]) fresh_state =
     (Inr (400, JObj [(''errcode'', JStr ''M_VERIFICATION_FAILED''),
        (''error'', JStr ''Verification failed for one or more associations''), (''failed_ids'', JArr (map JStr ks))]), fresh_state)"
proof -
  let ?v = "JObj (wire_assoc ''a@b'' (Some ''@a:hs''))"
  let ?req = "wire_req [(''7'', ?v), (''9'', JNull)]"
  let ?peer = "the (projr (getPeerByName trusting_env ''peer'' one_peer))"
  let ?items = "[(''7'', 7, ?v), (''9'', 9 :: int, JNull)]"
  have peer: "getPeerByName trusting_env ''peer'' one_peer = Inr (Some ?peer)" by code_simp
  have items: "read_push ?req = Inr ?items" by code_simp
  have nd: "\<forall>(k, i, v) \<in> set ?items. \<not> is_deletion v" by code_simp
  have good: "acceptable_item trusting_env (pepper_of fresh_state) ?peer ?v" by code_simp
  have bad: "\<not> verified_item trusting_env ?peer JNull" by (simp add: verified_item_def)
  obtain r s' where run: "replication_render_POST plain_env trusting_env one_peer ''peer'' ?req fresh_state = (r, s')" by fastforce
  have "\<not> (\<forall>(k, i, v) \<in> set ?items. \<exists>sg a. v = JObj sg \<and> P sg a i)" for P by auto
  with replication_all_or_nothing [OF fresh_state_ok(1) peer items nd] run
  obtain ks where ks: "r = Inr (400, JObj [(''errcode'', JStr ''M_VERIFICATION_FAILED''),
        (''error'', JStr ''Verification failed for one or more associations''), (''failed_ids'', JArr (map JStr ks))])"
      "s' = fresh_state" "\<forall>k \<in> set ks. \<exists>i v. (k, i, v) \<in> set ?items \<and> \<not> acceptable_item trusting_env (pepper_of fresh_state) ?peer v"
      "\<forall>(k, i, v) \<in> set ?items. \<not> verified_item trusting_env ?peer v \<longrightarrow> k \<in> set ks"
    unfolding Let_def by auto
  have "set ks \<subseteq> {''9''}" using ks(3) good by auto
  moreover have "''9'' \<in> set ks" using ks(4) bad by auto
  ultimately show ?thesis using run ks(1,2) by blast
qed

text \<open>
  With a deletion in the batch the promise is broken: removing an association commits, so a
  later failure rolls back only what came after it. Here the request fails with 400, yet the
  association it deleted stays deleted on disk.
\<close>

theorem replication_partial_commit:
  "let s = snd (replication_render_POST plain_env trusting_env one_peer ''peer''
              (wire_req [(''7'', JObj (wire_assoc ''a@b'' (Some ''@a:hs'')))]) fresh_state);
       (r, s') = replication_render_POST plain_env trusting_env one_peer ''peer''
              (wire_req [(''8'', JObj (wire_assoc ''a@b'' None)), (''9'', JNull)]) s
   in map fst (case r of Inr x \<Rightarrow> [x] | _ \<Rightarrow> []) = [400] \<and>
      length (g_rows (gc_disk (is_global s))) = 1 \<and> g_rows (gc_disk (is_global s')) = []"
  by code_simp

text \<open>
  A deletion that a peer replicates can be undone by the next local push: with the row gone,
  the identifier of the last copied association goes back, and the local association is copied again.
\<close>

theorem replicated_deletion_resurrected:
  "let s0 = snd (addBinding plain_env ''email'' ''bob@example.com'' ''@bob:hs'' 1000 fresh_state);
       s1 = snd (replication_render_POST plain_env trusting_env one_peer ''peer''
              (wire_req [(''8'', JObj (wire_assoc ''bob@example.com'' None))]) s0);
       s2 = snd (addBinding plain_env ''email'' ''carol@example.com'' ''@carol:hs'' 2000 s1)
   in getMxid ''email'' ''bob@example.com'' 3000 (known s0) = Some ''@bob:hs'' \<and>
      getMxid ''email'' ''bob@example.com'' 3000 (known s1) = None \<and>
      getMxid ''email'' ''bob@example.com'' 3000 (known s2) = Some ''@bob:hs''"
  by code_simp

end
