(* ===== verification/Email_Utils.thy ===== *)
theory Email_Utils
  imports StringUtils
begin

text \<open>
  \<open>sydent/util/emailutils.py\<close>: filling in the template of a mail, checking the address
  and handing the mail to the SMTP server. The files, the Jinja environment, the parser
  \<open>email.utils.parseaddr\<close> and the SMTP connection are arguments (\<open>mail_env\<close>); the model
  returns the mails that reach \<open>smtp.sendmail\<close>.
\<close>

section \<open>URL quoting and HTML escaping\<close>

text \<open>\<open>urllib.parse.quote\<close> with its default of safe characters, its inverse, and \<open>html.escape\<close>.\<close>

definition quote_safe :: "char \<Rightarrow> bool" where
  "quote_safe c = (is_alnum c \<or> c \<in> set ''_.-~/'')"

definition upper_hex :: "nat \<Rightarrow> char" where
  "upper_hex n = ''0123456789ABCDEF'' ! n"

definition quote_char :: "char \<Rightarrow> string" where
  "quote_char c = (if quote_safe c then [c]
     else let n = of_char c :: nat in [CHR ''%'', upper_hex (n div 16), upper_hex (n mod 16)])"

definition quote :: "string \<Rightarrow> string" where
  "quote s = concat (map quote_char s)"

definition hex_digit_val :: "char \<Rightarrow> nat" where
  "hex_digit_val c = (let n = of_char c :: nat in if n \<le> 57 then n - 48 else n - 55)"

fun unquote :: "string \<Rightarrow> string" where
  "unquote [] = []"
| "unquote [c] = [c]"
| "unquote [c, d] = [c, d]"
| "unquote (c # d # e # s) =
     (if c = CHR ''%'' then char_of (16 * hex_digit_val d + hex_digit_val e) # unquote s
      else c # unquote (d # e # s))"

definition escape_char :: "char \<Rightarrow> string" where
  "escape_char c =
     (if c = CHR ''&'' then ''&amp;''
      else if c = CHR ''<'' then ''&lt;''
      else if c = CHR ''>'' then ''&gt;''
      else if c = CHR 0x22 then ''&quot;''
      else if c = CHR 0x27 then ''&#x27;''
      else [c])"

definition escape :: "string \<Rightarrow> string" where
  "escape s = concat (map escape_char s)"

section \<open>Templates\<close>

text \<open>
  \<open>text % dictionary\<close>: \<open>%%\<close> is a percent sign and \<open>%(name)s\<close> the entry \<open>name\<close>. A name that
  is not in the dictionary is a \<open>KeyError\<close>; other conversions do not occur in the templates.
\<close>

function percent_format :: "string \<Rightarrow> (string, string) dict \<Rightarrow> string res" where
  "percent_format s d =
     (case s of
        [] \<Rightarrow> Inr []
      | c # t \<Rightarrow>
         if c \<noteq> CHR ''%'' then bindR (percent_format t d) (\<lambda>r. Inr (c # r))
         else (case t of
            [] \<Rightarrow> Inl ValueError
          | e # u \<Rightarrow>
             if e = CHR ''%'' then bindR (percent_format u d) (\<lambda>r. Inr (CHR ''%'' # r))
             else if e = CHR ''('' then
               (case dropWhile (\<lambda>x. x \<noteq> CHR '')'') u of
                  _ # f # v \<Rightarrow>
                    (case dict_get d (takeWhile (\<lambda>x. x \<noteq> CHR '')'') u) of
                       None \<Rightarrow> Inl KeyError
                     | Some w \<Rightarrow> if f = CHR ''s'' then bindR (percent_format v d) (\<lambda>r. Inr (w @ r))
                                 else Inl ValueError)
                | _ \<Rightarrow> Inl ValueError)
             else Inl ValueError))"
  by pat_completeness auto
termination
proof (relation "measure (length \<circ> fst)", goal_cases)
  case (4 s d c t e u z f v w)
  have "length (dropWhile (\<lambda>x. x \<noteq> CHR '')'') u) \<le> length u" by (rule length_dropWhile_le)
  with 4 show ?case by simp
qed auto

declare percent_format.simps [simp del]

text \<open>\<open>"\r\n".join(s.splitlines())\<close>; on ASCII text these characters and \<open>\r\n\<close> end a line.\<close>

definition line_end :: "char \<Rightarrow> bool" where
  "line_end c = (c \<in> set [CHR 0x0A, CHR 0x0B, CHR 0x0C, CHR 0x0D, CHR 0x1C, CHR 0x1D, CHR 0x1E])"

function splitlines :: "string \<Rightarrow> string list" where
  "splitlines s =
     (if s = [] then []
      else let l = takeWhile (\<lambda>c. \<not> line_end c) s; r = dropWhile (\<lambda>c. \<not> line_end c) s in
        case r of
          [] \<Rightarrow> [l]
        | c # t \<Rightarrow> l # splitlines (case t of
            d # u \<Rightarrow> if c = CHR 0x0D \<and> d = CHR 0x0A then u else t
          | [] \<Rightarrow> []))"
  by pat_completeness auto
termination
proof (relation "measure length", simp)
  fix s l r :: string and c t
  assume "s \<noteq> []" and "r = dropWhile (\<lambda>c. \<not> line_end c) s" and "r = c # t"
  then have "length (c # t) \<le> length s" by (metis length_dropWhile_le)
  then show "(case t of [] \<Rightarrow> [] | d # u \<Rightarrow> if c = CHR 0x0D \<and> d = CHR 0x0A then u else t, s)
      \<in> measure length"
    by (auto split: list.splits)
qed

declare splitlines.simps [simp del]

definition to_crlf :: "string \<Rightarrow> string" where
  "to_crlf s = str_join [CHR 0x0D, CHR 0x0A] (splitlines s)"

section \<open>Sending\<close>

record smtp_mail =
  sm_from :: string
  sm_to :: string
  sm_data :: string

text \<open>
  What comes of the dialogue with the mail server: an exception before the server has the mail, no exception,
  or an exception although the server has the mail, which is what happens when \<open>smtp.quit()\<close> fails after
  \<open>smtp.sendmail(...)\<close> has returned.
\<close>

datatype smtp_outcome = MailRefused | MailTaken | MailTakenThenError

record mail_env =
  me_sender :: string
  me_host_name :: string
  me_date :: string
  me_mid_random :: "nat \<Rightarrow> nat"
  me_boundary :: "nat \<Rightarrow> nat"
  me_parseaddr :: "string \<Rightarrow> string"
  me_files :: "string \<Rightarrow> string option"
  me_jinja :: "string \<Rightarrow> (string, string) dict \<Rightarrow> string res"
  me_smtp :: "smtp_mail \<Rightarrow> smtp_outcome"

definition check_valid_email_address :: "mail_env \<Rightarrow> string \<Rightarrow> bool \<Rightarrow> unit res" where
  "check_valid_email_address me address allow_description =
     (let parsed_address = me_parseaddr me address in
      if parsed_address = [] then Inl EmailAddressException
      else if \<not> allow_description \<and> address \<noteq> parsed_address then Inl EmailAddressException
      else Inr ())"

definition all_substitutions :: "(string, string) dict \<Rightarrow> (string, string) dict" where
  "all_substitutions substitutions =
     fold (\<lambda>(k, v) d. dict_set (dict_set (dict_set d k v) (k @ ''_forhtml'') (escape v))
         (k @ ''_forurl'') (quote v)) substitutions []"

definition mail_text :: "mail_env \<Rightarrow> string \<Rightarrow> (string, string) dict \<Rightarrow> string res" where
  "mail_text me templateFile substitutions =
     (let boundary = generateAlphanumericTokenOfLength (me_boundary me) 32 in
      if endswith templateFile ''.j2''
      then me_jinja me templateFile (dict_set substitutions ''multipart_boundary'' boundary)
      else (case me_files me templateFile of
          None \<Rightarrow> Inl GenericException
        | Some text \<Rightarrow> percent_format text
            (dict_set (all_substitutions substitutions) ''multipart_boundary'' boundary)))"

definition sendEmail ::
    "mail_env \<Rightarrow> int \<Rightarrow> string \<Rightarrow> string \<Rightarrow> (string, string) dict \<Rightarrow> unit res \<times> smtp_mail list" where
  "sendEmail me now templateFile mailTo substitutions =
     (let messageid = ''<'' @ show_int now @ map (\<lambda>i. choice (me_mid_random me) i (ascii_lowercase @ ascii_uppercase)) [0..<16] @ ''@'' @ me_host_name me @ ''>'';
          substs = dict_update substitutions
            [(''messageid'', messageid), (''date'', me_date me), (''to'', mailTo), (''from'', me_sender me)]
      in case mail_text me templateFile substs of
           Inl ex \<Rightarrow> (Inl ex, [])
         | Inr mailString \<Rightarrow>
            (case check_valid_email_address me mailTo False of
               Inl ex \<Rightarrow> (Inl ex, [])
             | Inr _ \<Rightarrow>
                (let mail = \<lparr>sm_from = me_sender me, sm_to = mailTo, sm_data = to_crlf mailString\<rparr> in
                 case me_smtp me mail of
                   MailRefused \<Rightarrow> (Inl EmailSendException, [])
                 | MailTaken \<Rightarrow> (Inr (), [mail])
                 | MailTakenThenError \<Rightarrow> (Inl EmailSendException, [mail]))))"

section \<open>Lemmas on quoting\<close>

lemma upper_hex_val: "n < 16 \<Longrightarrow> hex_digit_val (upper_hex n) = n"
proof -
  have "\<forall>n \<in> set [0..<16]. hex_digit_val (upper_hex n) = n" by code_simp
  then show "n < 16 \<Longrightarrow> hex_digit_val (upper_hex n) = n" by simp
qed

lemma upper_hex_alnum: "n < 16 \<Longrightarrow> is_alnum (upper_hex n)"
proof -
  have "\<forall>n \<in> set [0..<16]. is_alnum (upper_hex n)" by code_simp
  then show "n < 16 \<Longrightarrow> is_alnum (upper_hex n)" by simp
qed

lemma char_hex_digits: "(of_char c :: nat) div 16 < 16" "(of_char c :: nat) mod 16 < 16"
proof -
  have "(of_char c :: nat) < 256" by simp
  then show "(of_char c :: nat) div 16 < 16" by linarith
qed simp

lemma unquote_safe: "quote_safe c \<Longrightarrow> unquote (c # s) = c # unquote s"
proof -
  assume "quote_safe c"
  moreover have "\<not> quote_safe CHR ''%''" by code_simp
  ultimately have "c \<noteq> CHR ''%''" by auto
  then show ?thesis by (cases s rule: unquote.cases) auto
qed

lemma unquote_quote_append: "unquote (quote s @ t) = s @ unquote t"
proof (induction s)
  case (Cons c s)
  show ?case
  proof (cases "quote_safe c")
    case True
    with Cons show ?thesis by (simp add: quote_def quote_char_def unquote_safe)
  next
    case False
    with Cons show ?thesis
      by (simp add: quote_def quote_char_def Let_def upper_hex_val char_hex_digits)
  qed
qed (simp add: quote_def)

lemma unquote_quote [simp]: "unquote (quote s) = s"
  using unquote_quote_append [of s "[]"] by simp

lemma quote_chars: "c \<in> set (quote s) \<Longrightarrow> quote_safe c \<or> c = CHR ''%''"
proof -
  assume "c \<in> set (quote s)"
  then obtain x where "c \<in> set (quote_char x)" by (auto simp: quote_def)
  then show ?thesis
    using upper_hex_alnum char_hex_digits [of x]
    by (auto simp: quote_char_def quote_safe_def Let_def split: if_splits)
qed

lemma quote_no_delimiter [simp]:
  "CHR ''&'' \<notin> set (quote s)" "CHR ''='' \<notin> set (quote s)" "CHR ''?'' \<notin> set (quote s)"
  "CHR ''#'' \<notin> set (quote s)"
proof -
  have "\<not> quote_safe c \<and> c \<noteq> CHR ''%''" if "c \<in> set ''&=?#''" for c
  proof -
    have "\<forall>c \<in> set ''&=?#''. \<not> quote_safe c \<and> c \<noteq> CHR ''%''" by code_simp
    with that show ?thesis by blast
  qed
  then show "CHR ''&'' \<notin> set (quote s)" "CHR ''='' \<notin> set (quote s)" "CHR ''?'' \<notin> set (quote s)"
    "CHR ''#'' \<notin> set (quote s)"
    using quote_chars [of _ s] by (metis list.set_intros)+
qed

lemma escape_chars: "c \<in> set (escape s) \<Longrightarrow> c \<notin> set [CHR ''<'', CHR ''>'', CHR 0x22, CHR 0x27]"
  by (auto simp: escape_def escape_char_def split: if_splits)

section \<open>Lemmas on lines\<close>

lemma splitlines_no_end: "l \<in> set (splitlines s) \<Longrightarrow> c \<in> set l \<Longrightarrow> \<not> line_end c"
proof (induction s rule: splitlines.induct)
  case (1 s)
  let ?l = "takeWhile (\<lambda>c. \<not> line_end c) s"
  have tw: "\<not> line_end c" if "l = ?l" using that 1(3) by (auto dest: set_takeWhileD)
  show ?case
  proof (cases "s = []")
    case True
    with 1(2) show ?thesis by (simp add: splitlines.simps)
  next
    case False
    show ?thesis
    proof (cases "dropWhile (\<lambda>c. \<not> line_end c) s")
      case Nil
      with False 1(2) tw show ?thesis by (subst (asm) splitlines.simps) (simp add: Let_def)
    next
      case (Cons d t)
      with False 1(2) have "l = ?l \<or> l \<in> set (splitlines (case t of e # u \<Rightarrow>
          if d = CHR 0x0D \<and> e = CHR 0x0A then u else t | [] \<Rightarrow> []))"
        by (subst (asm) splitlines.simps) (simp add: Let_def)
      with tw 1(1) [OF False refl refl Cons] 1(3) show ?thesis by blast
    qed
  qed
qed

text \<open>Text whose only line ends are carriage return and line feed together.\<close>

fun crlf_only :: "string \<Rightarrow> bool" where
  "crlf_only [] = True"
| "crlf_only (c # s) =
     (if c = CHR 0x0D then (case s of [] \<Rightarrow> False | d # t \<Rightarrow> d = CHR 0x0A \<and> crlf_only t)
      else \<not> line_end c \<and> crlf_only s)"

lemma crlf_only_append: "(\<forall>c \<in> set l. \<not> line_end c) \<Longrightarrow> crlf_only (l @ s) = crlf_only s"
  by (induction l) (auto simp: line_end_def)

lemma crlf_only_join:
  "(\<forall>l \<in> set ls. \<forall>c \<in> set l. \<not> line_end c) \<Longrightarrow> crlf_only (str_join [CHR 0x0D, CHR 0x0A] ls)"
proof (induction "[CHR 0x0D, CHR 0x0A]" ls rule: str_join.induct)
  case (2 w)
  then show ?case using crlf_only_append [of w "[]"] by simp
qed (simp_all add: crlf_only_append)

lemma crlf_only_to_crlf: "crlf_only (to_crlf s)"
  unfolding to_crlf_def using splitlines_no_end by (blast intro: crlf_only_join)

section \<open>Properties\<close>

text \<open>what reaches the mail server. If \<open>sendEmail\<close> returns without an exception, one mail was given to the server;
  with an exception one may have been as well, and then it is the exception of sending. The mail is
  addressed to the address it was asked to send to; that
  address is one the parser reads back unchanged (so it carries no display name and cannot be read as a
  different address), and every line end of the text is a carriage return with a
  line feed.\<close>

theorem sendEmail_contract:
  assumes "sendEmail me now templateFile mailTo substitutions = (r, mails)"
  shows "(r = Inr () \<longrightarrow> mails \<noteq> []) \<and> (mails \<noteq> [] \<longrightarrow> r \<in> {Inr (), Inl EmailSendException}) \<and> length mails \<le> 1 \<and>
     (\<forall>m \<in> set mails. sm_to m = mailTo \<and> sm_from m = me_sender me \<and>
        me_parseaddr me mailTo = mailTo \<and> mailTo \<noteq> [] \<and> crlf_only (sm_data m))"
  using assms
  by (auto simp: sendEmail_def check_valid_email_address_def Let_def crlf_only_to_crlf
      split: sum.splits if_splits smtp_outcome.splits)

definition echo_mail_env :: mail_env where
  "echo_mail_env = \<lparr>me_sender = ''sydent@host'', me_host_name = ''host'', me_date = ''today'',
     me_mid_random = (\<lambda>_. 0), me_boundary = (\<lambda>_. 0), me_parseaddr = (\<lambda>a. a),
     me_files = (\<lambda>f. Some (''To: %(to)s'' @ [CHR 0x0A] @ ''%(link)s'')),
     me_jinja = (\<lambda>_ _. Inl GenericException), me_smtp = (\<lambda>_. MailTaken)\<rparr>"

lemma echo_mail_env_sends:
  "sendEmail echo_mail_env 7 ''t.eml'' ''a@b'' [(''link'', ''l'')] =
     (Inr (), [\<lparr>sm_from = ''sydent@host'', sm_to = ''a@b'',
        sm_data = ''To: a@b'' @ [CHR 0x0D, CHR 0x0A] @ ''l''\<rparr>])"
  by code_simp

theorem sendEmail_contract_witness:
  "crlf_only (''To: a@b'' @ [CHR 0x0D, CHR 0x0A] @ ''l'')"
  using sendEmail_contract [OF echo_mail_env_sends] by simp

end
