(* ===== verification/Validators.thy ===== *)
theory Validators
  imports Val_Session_Store Email_Utils Servlet_Base
begin

text \<open>
  \<open>sydent/validators/emailvalidator.py\<close>, \<open>sydent/validators/msisdnvalidator.py\<close> and the functions of
  \<open>sydent/sydent.py\<close> they rely on: requesting a validation token and sending it out. Whether the
  SMS service accepts a message is an argument; the definitions return the messages that were sent.
\<close>

section \<open>Branded templates\<close>

record general_config =
  gc_valid_brands :: "string list"
  gc_default_brand :: string
  gc_templates_path :: string
  gc_exists :: "string \<Rightarrow> bool"

definition path_join :: "string \<Rightarrow> string \<Rightarrow> string" where
  "path_join a b =
     (if startswith b ''/'' then b
      else if a = [] \<or> endswith a ''/'' then a @ b
      else a @ ''/'' @ b)"

definition effective_brand :: "general_config \<Rightarrow> string option \<Rightarrow> string" where
  "effective_brand gc brand =
     (case brand of
        None \<Rightarrow> gc_default_brand gc
      | Some b \<Rightarrow> if b \<noteq> [] \<and> b \<in> set (gc_valid_brands gc) then b else gc_default_brand gc)"

definition get_branded_template :: "general_config \<Rightarrow> string option \<Rightarrow> string \<Rightarrow> string" where
  "get_branded_template gc brand template_name =
     (let b = effective_brand gc brand; root = gc_templates_path gc in
      if gc_exists gc (path_join (path_join root b) (template_name @ ''.j2''))
      then path_join b (template_name @ ''.j2'')
      else path_join (path_join root b) template_name)"

definition brand_from_request :: "request \<Rightarrow> string option res" where
  "brand_from_request req =
     (case dict_get (rq_args req) ''brand'' of
        None \<Rightarrow> Inr None
      | Some [] \<Rightarrow> Inl IndexError
      | Some (v # _) \<Rightarrow> if is_utf8 v then Inr (Some v) else Inl ValueError)"

definition ip_from_request :: "bool \<Rightarrow> string option \<Rightarrow> request \<Rightarrow> string option" where
  "ip_from_request obey_x_forwarded_for client req =
     (case (if obey_x_forwarded_for then getRawHeaders req ''X-Forwarded-For'' else None) of
        Some (h # _) \<Rightarrow> Some h
      | _ \<Rightarrow> client)"

section \<open>E-mail\<close>

definition add_sid :: "string \<Rightarrow> int \<Rightarrow> string" where
  "add_sid nextLink session_id =
     nextLink @ (if CHR ''?'' \<in> set nextLink then ''&'' else ''?'') @ ''sid='' @ quote (show_int session_id)"

definition makeValidateLink :: "string \<Rightarrow> int \<Rightarrow> string \<Rightarrow> string \<Rightarrow> string option \<Rightarrow> string" where
  "makeValidateLink base session_id token clientSecret nextLink =
     base @ ''/_matrix/identity/api/v1/validate/email/submitToken?token='' @ quote token @
     ''&client_secret='' @ quote clientSecret @ ''&sid='' @ show_int session_id @
     (case nextLink of
        None \<Rightarrow> []
      | Some l \<Rightarrow> if l = [] then [] else ''&nextLink='' @ quote (add_sid l session_id))"

record email_config =
  ec_base :: string
  ec_template :: "string option"
  ec_general :: general_config
  ec_mail :: mail_env

definition email_requestToken ::
    "email_config \<Rightarrow> string \<Rightarrow> string \<Rightarrow> int \<Rightarrow> string option \<Rightarrow> string option \<Rightarrow> string option \<Rightarrow>
     int \<Rightarrow> nat \<Rightarrow> (nat \<Rightarrow> nat) \<Rightarrow> session_db \<Rightarrow> int res \<times> session_db \<times> smtp_mail list" where
  "email_requestToken ec emailAddress clientSecret sendAttempt nextLink ipaddress brand now rnd r db =
     (case getOrCreateTokenSession ''email'' emailAddress clientSecret now rnd r db of
        (Inl ex, db1) \<Rightarrow> (Inl ex, db1, [])
      | (Inr (valSession, info), db1) \<Rightarrow>
         (let db2 = setMtime (vs_id valSession) now db1;
              templateFile = (case ec_template ec of
                  None \<Rightarrow> get_branded_template (ec_general ec) brand ''verification_template.eml''
                | Some t \<Rightarrow> t)
          in if ti_send_attempt_number info \<ge> sendAttempt then (Inr (vs_id valSession), db2, [])
          else
            let ipstring = (case ipaddress of None \<Rightarrow> ''an unknown location''
                  | Some a \<Rightarrow> if a = [] then ''an unknown location'' else a);
                substitutions = [(''ipaddress'', ipstring),
                  (''link'', makeValidateLink (ec_base ec) (vs_id valSession) (ti_token info) clientSecret nextLink),
                  (''token'', ti_token info)]
            in case sendEmail (ec_mail ec) now templateFile emailAddress substitutions of
                 (Inl ex, mails) \<Rightarrow> (Inl ex, db2, mails)
               | (Inr _, mails) \<Rightarrow>
                   (Inr (vs_id valSession), setSendAttemptNumber (vs_id valSession) sendAttempt db2, mails)))"

section \<open>Text messages\<close>

text \<open>
  A phone number is a pair of its country code and its E.164 digits, what the package
  \<open>phonenumbers\<close> computes for it. An originator is a pair of type and text. The body of a
  message is \<open>template.format(token=...)\<close>; a field other than \<open>{token}\<close> raises.
\<close>

record phone_number =
  pn_country_code :: int
  pn_msisdn :: string

record sms_config =
  sm_body_template :: string
  sm_originators :: "(string, (string \<times> string) list) dict"
  sm_smsRules :: "(string, string) dict"

function str_format_token :: "string \<Rightarrow> string \<Rightarrow> string res" where
  "str_format_token s token =
     (case s of
        [] \<Rightarrow> Inr []
      | c # t \<Rightarrow>
         if startswith s ''{{'' then bindR (str_format_token (drop 2 s) token) (\<lambda>x. Inr (CHR ''{'' # x))
         else if startswith s ''}}'' then bindR (str_format_token (drop 2 s) token) (\<lambda>x. Inr (CHR ''}'' # x))
         else if startswith s ''{token}'' then bindR (str_format_token (drop 7 s) token) (\<lambda>x. Inr (token @ x))
         else if c = CHR ''{'' then Inl KeyError
         else if c = CHR ''}'' then Inl ValueError
         else bindR (str_format_token t token) (\<lambda>x. Inr (c # x)))"
  by pat_completeness auto
termination by (relation "measure (length \<circ> fst)") auto

declare str_format_token.simps [simp del]

fun digit_sum :: "string \<Rightarrow> nat res" where
  "digit_sum [] = Inr 0"
| "digit_sum (c # s) =
     (if is_digit c then bindR (digit_sum s) (\<lambda>n. Inr (digit_val c + n)) else Inl ValueError)"

definition getOriginator :: "sms_config \<Rightarrow> phone_number \<Rightarrow> (string \<times> string) res" where
  "getOriginator cfg destPhoneNumber =
     (let countryCode = show_int (pn_country_code destPhoneNumber);
          origs = (case dict_get (sm_originators cfg) countryCode of
              Some l \<Rightarrow> l
            | None \<Rightarrow> (case dict_get (sm_originators cfg) ''default'' of
                Some l \<Rightarrow> l
              | None \<Rightarrow> [(''alpha'', ''Matrix'')]))
      in bindR (digit_sum (pn_msisdn destPhoneNumber)) (\<lambda>n.
           if origs = [] then Inl GenericException else Inr (origs ! (n mod length origs))))"

record sms =
  sms_body :: string
  sms_dest :: string
  sms_source :: "string \<times> string"

definition msisdn_requestToken ::
    "sms_config \<Rightarrow> (sms \<Rightarrow> unit res) \<Rightarrow> phone_number \<Rightarrow> string \<Rightarrow> int \<Rightarrow> int \<Rightarrow> nat \<Rightarrow> (nat \<Rightarrow> nat) \<Rightarrow> session_db \<Rightarrow>
     int res \<times> session_db \<times> sms list" where
  "msisdn_requestToken cfg sendTextSMS phoneNumber clientSecret send_attempt now rnd r db =
     (if dict_get (sm_smsRules cfg) (show_int (pn_country_code phoneNumber)) = Some ''reject''
      then (Inl DestinationRejectedException, db, [])
      else
        let msisdn = pn_msisdn phoneNumber in
        case getOrCreateTokenSession ''msisdn'' msisdn clientSecret now rnd r db of
          (Inl ex, db1) \<Rightarrow> (Inl ex, db1, [])
        | (Inr (valSession, info), db1) \<Rightarrow>
           (let db2 = setMtime (vs_id valSession) now db1 in
            if ti_send_attempt_number info \<ge> send_attempt then (Inr (vs_id valSession), db2, [])
            else
              case bindR (getOriginator cfg phoneNumber) (\<lambda>originator.
                     bindR (str_format_token (sm_body_template cfg) (ti_token info)) (\<lambda>smsBody.
                       Inr \<lparr>sms_body = smsBody, sms_dest = msisdn, sms_source = originator\<rparr>)) of
                Inl ex \<Rightarrow> (Inl ex, db2, [])
              | Inr m \<Rightarrow>
                 (case sendTextSMS m of
                    Inl ex \<Rightarrow> (Inl ex, db2, [])
                  | Inr _ \<Rightarrow> (Inr (vs_id valSession),
                      setSendAttemptNumber (vs_id valSession) send_attempt db2, [m]))))"

section \<open>Lemmas\<close>

lemma digit_sum_digits: "list_all is_digit s \<Longrightarrow> digit_sum s = Inr (sum_list (map digit_val s))"
  by (induction s) auto

lemma getOrCreate_inv_eq:
  "session_inv db \<Longrightarrow> getOrCreateTokenSession m a c now rnd r db = (x, db') \<Longrightarrow> session_inv db'"
  using session_inv_getOrCreate by (metis snd_conv)

lemma session_inv_email_requestToken [store_inv]:
  "session_inv db \<Longrightarrow>
   session_inv (fst (snd (email_requestToken ec a c n l ip brand now rnd r db)))"
  by (auto simp: email_requestToken_def Let_def session_inv_setMtime session_inv_setSendAttemptNumber
      dest: getOrCreate_inv_eq split: prod.splits sum.splits)

lemma session_inv_msisdn_requestToken [store_inv]:
  "session_inv db \<Longrightarrow>
   session_inv (fst (snd (msisdn_requestToken cfg snds p c n now rnd r db)))"
  by (auto simp: msisdn_requestToken_def Let_def session_inv_setMtime session_inv_setSendAttemptNumber
      dest: getOrCreate_inv_eq split: prod.splits sum.splits)

text \<open>The session a request leaves behind: its time is set and its token is the one issued.\<close>

lemma requested_session:
  assumes "session_inv db" and "getOrCreateTokenSession m a c now rnd r db = (Inr (s, info), db1)"
    and "db2 = setMtime (vs_id s) now db1 \<or> db2 = setSendAttemptNumber (vs_id s) n (setMtime (vs_id s) now db1)"
  obtains t where "session_inv db2" "s\<lparr>vs_mtime := now\<rparr> \<in> set (sd_sessions db2)" "t \<in> set (sd_tokens db2)"
    "t_validationSession t = vs_id s" "t_token t = ti_token info" "session_key s = (m, a, c)"
proof -
  have inv1: "session_inv db1" using getOrCreate_inv_eq [OF assms(1,2)] .
  obtain t where t: "s \<in> set (sd_sessions db1)" "t \<in> set (sd_tokens db1)"
    "t_validationSession t = vs_id s" "info = row_token_info t" "session_key s = (m, a, c)"
    by (rule getOrCreate_Inr [OF assms(1,2)])
  have inv2: "session_inv db2"
    using assms(3) inv1 by (auto intro: session_inv_setMtime session_inv_setSendAttemptNumber)
  have mem: "s\<lparr>vs_mtime := now\<rparr> \<in> set (sd_sessions db2)"
    using t(1) assms(3) by (force simp: setMtime_def setSendAttemptNumber_def)
  let ?t = "if db2 = setMtime (vs_id s) now db1 then t
     else if t_id t = vs_id s then t\<lparr>t_sendAttemptNumber := n\<rparr> else t"
  have "?t \<in> set (sd_tokens db2)"
    using t(2) assms(3) by (auto simp: setMtime_def setSendAttemptNumber_def)
  from that [OF inv2 mem this] t(3,4,5) show ?thesis by (simp add: row_token_info_def)
qed

lemma issued_token_validates:
  assumes "session_inv db" "s \<in> set (sd_sessions db)" "t \<in> set (sd_tokens db)"
    "t_validationSession t = vs_id s" "t1 \<le> vs_mtime s + THREEPID_SESSION_VALIDATION_TIMEOUT_MS"
  shows "validateSessionWithToken (vs_id s) (vs_client_secret s) (t_token t) t1 db =
     (Inr True, setValidated (vs_id s) True db)"
  using getTokenSessionById_eq [OF assms(1-4)] assms(5)
  by (simp add: validateSessionWithToken_def row_token_info_def)

section \<open>Properties\<close>

definition link_path :: string where
  "link_path = ''/_matrix/identity/api/v1/validate/email/submitToken''"

definition query_params :: "string \<Rightarrow> (string \<times> string option) list" where
  "query_params q = map (\<lambda>p. case split_once (CHR ''='') p of (k, v) \<Rightarrow> (k, map_option unquote v))
     (split_on (CHR ''&'') q)"

lemma show_int_chars: "c \<in> set (show_int i) \<Longrightarrow> is_digit c \<or> c = CHR ''-''"
  by (auto simp: show_int_def dest: show_nat_digits split: if_splits)

lemma unquote_no_percent: "CHR ''%'' \<notin> set s \<Longrightarrow> unquote s = s"
  by (induction s rule: unquote.induct) auto

lemma show_int_plain [simp]:
  "CHR ''&'' \<notin> set (show_int i)" "CHR ''='' \<notin> set (show_int i)" "unquote (show_int i) = show_int i"
proof -
  have "\<not> is_digit c \<and> c \<noteq> CHR ''-''" if "c \<in> set ''&=%''" for c
    using that by (auto simp: is_digit_def)
  then have "CHR ''&'' \<notin> set (show_int i) \<and> CHR ''='' \<notin> set (show_int i) \<and> CHR ''%'' \<notin> set (show_int i)"
    using show_int_chars by (metis list.set_intros)
  then show "CHR ''&'' \<notin> set (show_int i)" "CHR ''='' \<notin> set (show_int i)" "unquote (show_int i) = show_int i"
    by (simp_all add: unquote_no_percent)
qed

text \<open>C21: the link in a validation mail carries exactly the parameters the submit servlet reads. Splitting
  its query at \<open>&\<close> and \<open>=\<close> and undoing the quoting gives back the token, the client secret and
  the session identifier, and the next link (with the session identifier appended) when
  there is one, whatever characters they contain: no value can add or change a parameter.\<close>

theorem makeValidateLink_roundtrip:
  "\<exists>q. makeValidateLink base sid token secret nextLink = base @ link_path @ ''?'' @ q \<and>
     query_params q =
       [(''token'', Some token), (''client_secret'', Some secret), (''sid'', Some (show_int sid))] @
       (case nextLink of None \<Rightarrow> []
        | Some l \<Rightarrow> if l = [] then [] else [(''nextLink'', Some (add_sid l sid))])"
proof -
  let ?a = "''token='' @ quote token" and ?b = "''client_secret='' @ quote secret"
    and ?c = "''sid='' @ show_int sid"
  let ?n = "\<lambda>l. ''nextLink='' @ quote (add_sid l sid)"
  have amp: "CHR ''&'' \<notin> set ?a" "CHR ''&'' \<notin> set ?b" "CHR ''&'' \<notin> set ?c" "\<And>l. CHR ''&'' \<notin> set (?n l)"
    by simp_all
  have par: "split_once CHR ''='' ?a = (''token'', Some (quote token))"
    "split_once CHR ''='' ?b = (''client_secret'', Some (quote secret))"
    "split_once CHR ''='' ?c = (''sid'', Some (show_int sid))"
    "\<And>l. split_once CHR ''='' (?n l) = (''nextLink'', Some (quote (add_sid l sid)))"
    by simp_all
  have plain: "query_params (?a @ CHR ''&'' # ?b @ CHR ''&'' # ?c) =
      [(''token'', Some token), (''client_secret'', Some secret), (''sid'', Some (show_int sid))]"
    unfolding query_params_def split_on_append [OF amp(1)] split_on_append [OF amp(2)]
      split_on_no_sep [OF amp(3)] by (simp only: list.map par) simp
  have linked: "query_params (?a @ CHR ''&'' # ?b @ CHR ''&'' # ?c @ CHR ''&'' # ?n l) =
      [(''token'', Some token), (''client_secret'', Some secret), (''sid'', Some (show_int sid)),
       (''nextLink'', Some (add_sid l sid))]" for l
    unfolding query_params_def split_on_append [OF amp(1)] split_on_append [OF amp(2)]
      split_on_append [OF amp(3)] split_on_no_sep [OF amp(4)] by (simp only: list.map par) simp
  show ?thesis
  proof (cases "nextLink = None \<or> nextLink = Some []")
    case True
    then show ?thesis
      using plain by (intro exI [of _ "?a @ CHR ''&'' # ?b @ CHR ''&'' # ?c"])
        (auto simp: makeValidateLink_def link_path_def)
  next
    case False
    then obtain l where "nextLink = Some l" "l \<noteq> []" by auto
    then show ?thesis
      using linked by (intro exI [of _ "?a @ CHR ''&'' # ?b @ CHR ''&'' # ?c @ CHR ''&'' # ?n l"])
        (simp add: makeValidateLink_def link_path_def)
  qed
qed

text \<open>C22: a successful request for an e-mail token leaves a session for exactly the requested address and
  secret, and presenting its stored token within a day validates it. A mail is sent only to
  the requested address, and then it is the template filled in with the link that carries
  that token.\<close>

theorem email_requestToken_correct:
  assumes "session_inv db"
    and "email_requestToken ec a c attempt link ip brand now rnd r db = (Inr sid, db', mails)"
  shows "\<exists>s t. s \<in> set (sd_sessions db') \<and> vs_id s = sid \<and> session_key s = (''email'', a, c) \<and>
     t \<in> set (sd_tokens db') \<and> t_validationSession t = sid \<and>
     (\<forall>t1 \<le> now + THREEPID_SESSION_VALIDATION_TIMEOUT_MS.
        fst (validateSessionWithToken sid c (t_token t) t1 db') = Inr True) \<and>
     (mails \<noteq> [] \<longrightarrow> (\<exists>templateFile ipstring. (Inr (), mails) =
        sendEmail (ec_mail ec) now templateFile a
          [(''ipaddress'', ipstring), (''link'', makeValidateLink (ec_base ec) sid (t_token t) c link),
           (''token'', t_token t)]))"
proof -
  obtain s info db1 where g: "getOrCreateTokenSession ''email'' a c now rnd r db = (Inr (s, info), db1)"
    using assms(2) by (auto simp: email_requestToken_def split: prod.splits sum.splits)
  define tf where "tf = (case ec_template ec of
      None \<Rightarrow> get_branded_template (ec_general ec) brand ''verification_template.eml'' | Some t \<Rightarrow> t)"
  define ips where "ips = (case ip of None \<Rightarrow> ''an unknown location''
      | Some a \<Rightarrow> if a = [] then ''an unknown location'' else a)"
  have sid: "sid = vs_id s"
    and db': "db' = setMtime (vs_id s) now db1 \<or>
       db' = setSendAttemptNumber (vs_id s) attempt (setMtime (vs_id s) now db1)"
    and mails: "mails \<noteq> [] \<Longrightarrow> (Inr (), mails) = sendEmail (ec_mail ec) now tf a
          [(''ipaddress'', ips), (''link'', makeValidateLink (ec_base ec) (vs_id s) (ti_token info) c link),
           (''token'', ti_token info)]"
    using assms(2) g unfolding email_requestToken_def tf_def [symmetric] ips_def [symmetric]
    by (auto simp: Let_def split: if_splits sum.splits prod.splits)
  obtain t where t: "session_inv db'" "s\<lparr>vs_mtime := now\<rparr> \<in> set (sd_sessions db')" "t \<in> set (sd_tokens db')"
    "t_validationSession t = vs_id s" "t_token t = ti_token info" "session_key s = (''email'', a, c)"
    by (rule requested_session [OF assms(1) g db'])
  have "fst (validateSessionWithToken sid c (t_token t) t1 db') = Inr True"
    if "t1 \<le> now + THREEPID_SESSION_VALIDATION_TIMEOUT_MS" for t1
    using issued_token_validates [OF t(1-3), of t1] t(4,6) that sid by simp
  then show ?thesis
    using t mails sid by (intro exI [of _ "s\<lparr>vs_mtime := now\<rparr>"] exI [of _ t]) (simp, fast)
qed

definition demo_email_config :: email_config where
  "demo_email_config = \<lparr>ec_base = ''http://is'', ec_template = Some ''t.eml'',
     ec_general = \<lparr>gc_valid_brands = [], gc_default_brand = ''b'', gc_templates_path = ''res'',
       gc_exists = (\<lambda>_. False)\<rparr>, ec_mail = echo_mail_env\<rparr>"

abbreviation demo_request :: "session_db \<Rightarrow> int res \<times> session_db \<times> smtp_mail list" where
  "demo_request db \<equiv>
     email_requestToken demo_email_config ''a@b'' ''sec'' 1 None None None 0 5 (\<lambda>_. 0) db"

lemma demo_request_ok:
  "demo_request empty_sessions =
     (Inr 5, fst (snd (demo_request empty_sessions)), snd (snd (demo_request empty_sessions)))"
proof -
  have "fst (demo_request empty_sessions) = Inr 5" by code_simp
  then show ?thesis by (metis prod.collapse)
qed

theorem email_requestToken_correct_witness:
  "\<exists>s t. s \<in> set (sd_sessions (fst (snd (demo_request empty_sessions)))) \<and> vs_id s = 5 \<and>
     session_key s = (''email'', ''a@b'', ''sec'') \<and>
     t \<in> set (sd_tokens (fst (snd (demo_request empty_sessions)))) \<and> t_validationSession t = 5 \<and>
     (\<forall>t1 \<le> 0 + THREEPID_SESSION_VALIDATION_TIMEOUT_MS.
        fst (validateSessionWithToken 5 ''sec'' (t_token t) t1 (fst (snd (demo_request empty_sessions)))) = Inr True) \<and>
     (snd (snd (demo_request empty_sessions)) \<noteq> [] \<longrightarrow>
        (\<exists>templateFile ipstring. (Inr (), snd (snd (demo_request empty_sessions))) =
          sendEmail (ec_mail demo_email_config) 0 templateFile ''a@b''
          [(''ipaddress'', ipstring),
           (''link'', makeValidateLink (ec_base demo_email_config) 5 (t_token t) ''sec'' None),
           (''token'', t_token t)]))"
  by (rule email_requestToken_correct [OF session_inv_empty demo_request_ok])

text \<open>the number of the last attempt is not recorded. The update selects the row of tokens whose
  own key is the session identifier, so asking again with the same attempt number sends the
  same mail again, although an attempt is meant to send only when its number is larger.\<close>

theorem same_attempt_sent_again:
  "length (snd (snd (demo_request empty_sessions))) = 1 \<and>
   snd (snd (demo_request (fst (snd (demo_request empty_sessions))))) =
     snd (snd (demo_request empty_sessions))"
  by code_simp

text \<open>an originator is always found for a number of decimal digits when no configured list is
  empty: it is taken from the list of the number's country, else from the default list,
  else it is the built-in one.\<close>

theorem getOriginator_total:
  assumes "list_all is_digit (pn_msisdn p)" and "\<And>k l. dict_get (sm_originators cfg) k = Some l \<Longrightarrow> l \<noteq> []"
  shows "\<exists>o'. getOriginator cfg p = Inr o' \<and>
     o' \<in> set (case dict_get (sm_originators cfg) (show_int (pn_country_code p)) of
              Some l \<Rightarrow> l
            | None \<Rightarrow> (case dict_get (sm_originators cfg) ''default'' of
                Some l \<Rightarrow> l
              | None \<Rightarrow> [(''alpha'', ''Matrix'')]))"
proof -
  have "(case dict_get (sm_originators cfg) (show_int (pn_country_code p)) of
              Some l \<Rightarrow> l
            | None \<Rightarrow> (case dict_get (sm_originators cfg) ''default'' of
                Some l \<Rightarrow> l
              | None \<Rightarrow> [(''alpha'', ''Matrix'')])) \<noteq> []"
    using assms(2) by (simp split: option.splits)
  then show ?thesis
    by (simp add: getOriginator_def Let_def digit_sum_digits [OF assms(1)])
qed

theorem getOriginator_total_witness:
  "getOriginator \<lparr>sm_body_template = ''{token}'', sm_originators = [(''44'', [(''long'', ''1''), (''long'', ''2'')])],
      sm_smsRules = []\<rparr> \<lparr>pn_country_code = 44, pn_msisdn = ''447''\<rparr> \<in> {Inr (''long'', ''1''), Inr (''long'', ''2'')}"
proof -
  let ?cfg = "\<lparr>sm_body_template = ''{token}'', sm_originators = [(''44'', [(''long'', ''1''), (''long'', ''2'')])],
      sm_smsRules = []\<rparr>"
  have "show_int 44 = ''44''" by code_simp
  moreover have "list_all is_digit ''447''" by code_simp
  moreover have "l \<noteq> []" if "dict_get (sm_originators ?cfg) k = Some l" for k l
    using that by (auto split: if_splits)
  ultimately show ?thesis
    using getOriginator_total [of "\<lparr>pn_country_code = 44, pn_msisdn = ''447''\<rparr>" ?cfg]
    by (simp only: phone_number.simps sms_config.simps map_of.simps fun_upd_apply) auto
qed

text \<open>a hint in a request selects a template only among the brands the administrator listed: the file is
  always one of the default brand or of a listed brand, so a hint cannot name another path.\<close>

theorem get_branded_template_listed:
  "\<exists>b \<in> insert (gc_default_brand gc) (set (gc_valid_brands gc)).
     get_branded_template gc brand name = path_join b (name @ ''.j2'') \<or>
     get_branded_template gc brand name = path_join (path_join (gc_templates_path gc) b) name"
  by (auto simp: get_branded_template_def effective_brand_def Let_def split: option.splits)

end
