(* ===== verification/Server_State.thy ===== *)
theory Server_State
  imports Binder Validators Account_Store Rate_Limiter Peers
begin

text \<open>
  The state the handlers of the client API share (everything the object \<open>Sydent\<close> of
  \<open>sydent/sydent.py\<close> and its database hold) and the configuration they read; how a
  computation on one component is a computation on the whole; and how JSON values reach
  the queries.
\<close>

text \<open>
  \<open>cf_public_key\<close> is \<open>encode_base64\<close> of the server's public key, \<open>cf_sign_with\<close> decoding a given private key and
  signing with it, \<open>cf_parse_phone\<close> the package \<open>phonenumbers\<close> (the number and its international
  format), \<open>cf_header_encode\<close> the encoding of a mail header, \<open>cf_float_int\<close> the integer part of a
  floating-point numeral and \<open>cf_repr\<close> Python's text of a container.
\<close>

record server_conf =
  cf_env :: env
  cf_terms :: "terms res"
  cf_email :: email_config
  cf_sms :: sms_config
  cf_send_sms :: "sms \<Rightarrow> unit res"
  cf_parse_phone :: "json \<Rightarrow> json \<Rightarrow> (phone_number \<times> string) res"
  cf_lookup_pepper :: string
  cf_lookup_limit :: nat
  cf_obey_x_forwarded_for :: bool
  cf_public_key :: string
  cf_sign_with :: "json \<Rightarrow> jdict \<Rightarrow> jdict res"
  cf_homeserver_allow_list :: "string list"
  cf_verify_response_template :: "string option"
  cf_room_blocklist :: "string list"
  cf_homeserver_blocklist :: "string list"
  cf_keyword_blocklist :: "string list"
  cf_invite_template :: "string option"
  cf_invite_subject :: string
  cf_invite_subject_space :: string
  cf_default_web_client_location :: string
  cf_username_obfuscate :: int
  cf_domain_obfuscate :: int
  cf_header_encode :: "string \<Rightarrow> string"
  cf_float_int :: "string \<Rightarrow> int"
  cf_repr :: "json \<Rightarrow> string"

text \<open>
  The limiter of senders is shared; the limiters of numbers and countries belong to the servlet, of which
  there is one for each of the two versions of the API (\<^const>\<open>True\<close> for the one with authentication).
  The mails and text messages that were sent are part of the state.
\<close>

record server_state =
  sv_identity :: identity_state
  sv_sessions :: session_db
  sv_accounts :: account_db
  sv_email_rl :: "string ratelimiter"
  sv_msisdn_rl :: "bool \<Rightarrow> string ratelimiter"
  sv_country_rl :: "bool \<Rightarrow> int ratelimiter"
  sv_mails :: "smtp_mail list"
  sv_smses :: "sms list"

type_synonym 'a handler = "(server_state, 'a) act"

definition on_identity :: "(identity_state, 'a) act \<Rightarrow> 'a handler" where
  "on_identity m s = (case m (sv_identity s) of (r, i) \<Rightarrow> (r, s\<lparr>sv_identity := i\<rparr>))"

definition on_accounts :: "(account_db, 'a) act \<Rightarrow> 'a handler" where
  "on_accounts m s = (case m (sv_accounts s) of (r, i) \<Rightarrow> (r, s\<lparr>sv_accounts := i\<rparr>))"

definition on_sessions :: "(session_db, 'a) act \<Rightarrow> 'a handler" where
  "on_sessions m s = (case m (sv_sessions s) of (r, i) \<Rightarrow> (r, s\<lparr>sv_sessions := i\<rparr>))"

definition auth :: "server_conf \<Rightarrow> request \<Rightarrow> account handler" where
  "auth cf req s = (authV2 (cf_terms cf) req True (sv_accounts s), s)"

text \<open>\<open>if self.require_auth: account = authV2(...)\<close>\<close>

definition auth_if :: "bool \<Rightarrow> server_conf \<Rightarrow> request \<Rightarrow> account option handler" where
  "auth_if require_auth cf req =
     (if require_auth then bindM (auth cf req) (\<lambda>a. ret (Some a)) else ret None)"

text \<open>
  A value compared with an integer column: a text that is a decimal numeral, also with a
  fraction of zeros, is converted, any other text equals no integer; \<open>null\<close> equals nothing, an
  integer of more than 64 bits cannot be bound, and neither can a container. Numerals with an
  exponent are taken to match no row.
\<close>

definition decimal_nat :: "string \<Rightarrow> int option" where
  "decimal_nat t =
     (case split_once CHR ''.'' t of
        (a, f) \<Rightarrow> if a \<noteq> [] \<and> list_all is_digit a \<and> (case f of None \<Rightarrow> True | Some z \<Rightarrow> list_all (\<lambda>c. c = CHR ''0'') z)
          then map_option int (digits_val 0 a) else None)"

definition decimal_int :: "string \<Rightarrow> int option" where
  "decimal_int s =
     (case str_strip s of
        [] \<Rightarrow> None
      | c # t \<Rightarrow>
          if c = CHR ''-'' then map_option uminus (decimal_nat t)
          else if c = CHR ''+'' then decimal_nat t
          else decimal_nat (c # t))"

definition sql_int :: "json \<Rightarrow> int option res" where
  "sql_int v =
     (case v of
        JInt i \<Rightarrow> if - (2 ^ 63) \<le> i \<and> i < 2 ^ 63 then Inr (Some i) else Inl ValueError
      | JBool b \<Rightarrow> Inr (Some (if b then 1 else 0))
      | JStr s \<Rightarrow> Inr (decimal_int s)
      | JFloat t \<Rightarrow> Inr (decimal_int t)
      | JNull \<Rightarrow> Inr None
      | _ \<Rightarrow> Inl TypeError)"

text \<open>\<open>is_valid_client_secret\<close> on a JSON value: \<open>0 < len(x) <= 255\<close> first, then the pattern.\<close>

definition client_secret_of :: "json \<Rightarrow> string option res" where
  "client_secret_of v =
     (case v of
        JStr s \<Rightarrow> Inr (if is_valid_client_secret s then Some s else None)
      | JArr l \<Rightarrow> if 0 < length l \<and> length l \<le> 255 then Inl TypeError else Inr None
      | JObj d \<Rightarrow> if 0 < length d \<and> length d \<le> 255 then Inl TypeError else Inr None
      | _ \<Rightarrow> Inl TypeError)"

text \<open>\<open>getValidatedSession\<close> with a session identifier as it comes from a request.\<close>

definition validated_session :: "json \<Rightarrow> string \<Rightarrow> int \<Rightarrow> val_session handler" where
  "validated_session sid client_secret now s =
     (bindR (sql_int sid) (\<lambda>i. case i of
        None \<Rightarrow> Inl InvalidSessionIdException
      | Some n \<Rightarrow> getValidatedSession n client_secret now (sv_sessions s)), s)"

text \<open>
  A value that has to be text for the code that follows; the model stops with a \<open>TypeError\<close> on
  other values, which the claims about handlers leave out.
\<close>

definition text_value :: "json \<Rightarrow> string res" where
  "text_value v = (case v of JStr s \<Rightarrow> Inr s | _ \<Rightarrow> Inl TypeError)"

section \<open>Lemmas\<close>

lemma on_identity_frame [simp]:
  "sv_email_rl (snd (on_identity m s)) = sv_email_rl s"
  "sv_sessions (snd (on_identity m s)) = sv_sessions s" "sv_accounts (snd (on_identity m s)) = sv_accounts s"
  "sv_identity (snd (on_identity m s)) = snd (m (sv_identity s))" "fst (on_identity m s) = fst (m (sv_identity s))"
  by (simp_all add: on_identity_def split: prod.splits)

lemma on_accounts_frame [simp]:
  "sv_email_rl (snd (on_accounts m s)) = sv_email_rl s"
  "sv_sessions (snd (on_accounts m s)) = sv_sessions s" "sv_identity (snd (on_accounts m s)) = sv_identity s"
  "sv_accounts (snd (on_accounts m s)) = snd (m (sv_accounts s))" "fst (on_accounts m s) = fst (m (sv_accounts s))"
  by (simp_all add: on_accounts_def split: prod.splits)

lemma on_sessions_frame [simp]:
  "sv_email_rl (snd (on_sessions m s)) = sv_email_rl s"
  "sv_identity (snd (on_sessions m s)) = sv_identity s" "sv_accounts (snd (on_sessions m s)) = sv_accounts s"
  "sv_sessions (snd (on_sessions m s)) = snd (m (sv_sessions s))" "fst (on_sessions m s) = fst (m (sv_sessions s))"
  by (simp_all add: on_sessions_def split: prod.splits)

text \<open>Inversion of a computation that ends in a value, and one that only reads.\<close>

lemma bindM_Inr:
  "bindM m f s = (Inr y, s') \<longleftrightarrow> (\<exists>x s1. m s = (Inr x, s1) \<and> f x s1 = (Inr y, s'))"
  by (auto simp: bindM_def split: prod.splits sum.splits)

lemma ret_eq [simp]: "ret x s = (r, s') \<longleftrightarrow> r = Inr x \<and> s' = s"
  by (auto simp: ret_def)

lemma raise_eq [simp]: "raise e s = (r, s') \<longleftrightarrow> r = Inl e \<and> s' = s"
  by (auto simp: raise_def)

lemma liftR_eq [simp]: "liftR x s = (r, s') \<longleftrightarrow> r = x \<and> s' = s"
  by (auto simp: liftR_def)

definition reads_only :: "('s, 'a) act \<Rightarrow> bool" where
  "reads_only m = (\<forall>s. snd (m s) = s)"

lemma reads_only_intros [intro, simp]:
  "reads_only (ret x)" "reads_only (raise e)" "reads_only (liftR r)" "reads_only (getsM f)"
  "reads_only (auth cf req)" "reads_only (validated_session sid sec now)"
  by (simp_all add: reads_only_def ret_def raise_def liftR_def getsM_def auth_def validated_session_def)

lemma reads_only_bindM [intro]:
  "reads_only m \<Longrightarrow> (\<And>x. reads_only (f x)) \<Longrightarrow> reads_only (bindM m f)"
  unfolding reads_only_def bindM_def by (metis (mono_tags, lifting) case_prod_beta old.sum.simps(5,6) snd_conv sum.exhaust)

lemma reads_only_auth_if [intro, simp]: "reads_only (auth_if b cf req)"
  by (auto simp: auth_if_def)

lemma reads_only_step: "reads_only m \<Longrightarrow> m s = (r, s') \<Longrightarrow> s' = s"
  unfolding reads_only_def by (metis snd_conv)

lemma sql_int_JInt [simp]: "- (2 ^ 63) \<le> i \<Longrightarrow> i < 2 ^ 63 \<Longrightarrow> sql_int (JInt i) = Inr (Some i)"
  by (simp add: sql_int_def)

end
