(* ===== verification/Bind_Servlets.thy ===== *)
theory Bind_Servlets
  imports Server_State Bind_Lookup
begin

text \<open>
  The handlers that create and remove associations and report validated sessions:
  \<open>threepidbindservlet.py\<close>, \<open>getvalidated3pidservlet.py\<close>, \<open>threepidunbindservlet.py\<close> and the two
  handlers of the internal API, all under \<open>sydent/http/servlets/\<close>.
\<close>

section \<open>Handlers\<close>

definition no_valid_session :: exn where
  "no_valid_session = MatrixRestError 404 ''M_NO_VALID_SESSION''
     ''No valid session was found matching that sid and client secret''"

definition session_error :: "exn \<Rightarrow> exn" where
  "session_error ex =
     (case ex of
        IncorrectClientSecretException \<Rightarrow> no_valid_session
      | InvalidSessionIdException \<Rightarrow> no_valid_session
      | SessionExpiredException \<Rightarrow> MatrixRestError 400 ''M_SESSION_EXPIRED''
          ''This validation session has expired: call requestToken again''
      | SessionNotValidatedException \<Rightarrow> MatrixRestError 400 ''M_SESSION_NOT_VALIDATED''
          ''This validation session has not yet been completed''
      | _ \<Rightarrow> ex)"

text \<open>\<open>try: ... except ...: raise ...\<close> around the query for the session\<close>

definition mapE :: "(exn \<Rightarrow> exn) \<Rightarrow> ('s, 'a) act \<Rightarrow> ('s, 'a) act" where
  "mapE f m s = (case m s of (Inl ex, s') \<Rightarrow> (Inl (f ex), s') | r \<Rightarrow> r)"

definition threepidbind_render_POST :: "server_conf \<Rightarrow> bool \<Rightarrow> int \<Rightarrow> request \<Rightarrow> reply handler" where
  "threepidbind_render_POST cf require_auth now req =
     bindM (auth_if require_auth cf req) (\<lambda>account.
     bindM (liftR (get_args (after_auth require_auth req) [''sid'', ''client_secret'', ''mxid''] True)) (\<lambda>args.
     bindM (liftR (json_index args ''sid'')) (\<lambda>sid.
     bindM (liftR (json_index args ''mxid'')) (\<lambda>mxid.
     bindM (liftR (json_index args ''client_secret'')) (\<lambda>secret.
     bindM (liftR (client_secret_of secret)) (\<lambda>clientSecret.
     case clientSecret of
       None \<Rightarrow> raise (MatrixRestError 400 ''M_INVALID_PARAM'' ''Invalid client_secret provided'')
     | Some cs \<Rightarrow>
         if (case account of None \<Rightarrow> False | Some a \<Rightarrow> JStr (ac_userId a) \<noteq> mxid)
         then raise (MatrixRestError 403 ''M_UNAUTHORIZED'' ''This user is prohibited from binding to the mxid'')
         else
           bindM (mapE session_error (validated_session sid cs now)) (\<lambda>s.
           bindM (liftR (text_value mxid)) (\<lambda>mx.
           bindM (on_identity (addBinding (cf_env cf) (vs_medium s) (vs_address s) mx now)) (\<lambda>res.
           ret (ok_reply res))))))))))"

definition getvalidated3pid_render_GET :: "server_conf \<Rightarrow> bool \<Rightarrow> int \<Rightarrow> request \<Rightarrow> reply handler" where
  "getvalidated3pid_render_GET cf require_auth now req =
     bindM (auth_if require_auth cf req) (\<lambda>_.
     bindM (liftR (get_args (after_auth require_auth req) [''sid'', ''client_secret''] True)) (\<lambda>args.
     bindM (liftR (json_index args ''sid'')) (\<lambda>sid.
     bindM (liftR (json_index args ''client_secret'')) (\<lambda>secret.
     bindM (liftR (client_secret_of secret)) (\<lambda>clientSecret.
     case clientSecret of
       None \<Rightarrow> ret (400, err_body ''M_INVALID_PARAM'' ''Invalid client_secret provided'')
     | Some cs \<Rightarrow> (\<lambda>st.
         case validated_session sid cs now st of
           (Inr s, st') \<Rightarrow> (Inr (ok_reply [(''medium'', JStr (vs_medium s)), (''address'', JStr (vs_address s)),
              (''validated_at'', JInt (vs_mtime s))]), st')
         | (Inl ex, st') \<Rightarrow>
             (case session_error ex of
                MatrixRestError code errcode msg \<Rightarrow> (Inr (code, err_body errcode msg), st')
              | ex' \<Rightarrow> (Inl ex', st'))))))))"

definition authenticated_bind_render_POST :: "server_conf \<Rightarrow> int \<Rightarrow> request \<Rightarrow> reply handler" where
  "authenticated_bind_render_POST cf now req =
     bindM (liftR (get_args req [''medium'', ''address'', ''mxid''] True)) (\<lambda>args.
     bindM (liftR (bindR (json_index args ''medium'') text_value)) (\<lambda>medium.
     bindM (liftR (bindR (json_index args ''address'') text_value)) (\<lambda>address.
     bindM (liftR (bindR (json_index args ''mxid'') text_value)) (\<lambda>mxid.
     bindM (on_identity (addBinding (cf_env cf) medium address mxid now)) (\<lambda>res.
     ret (ok_reply res))))))"

definition authenticated_unbind_render_POST :: "server_conf \<Rightarrow> int \<Rightarrow> request \<Rightarrow> reply handler" where
  "authenticated_unbind_render_POST cf now req =
     bindM (liftR (get_args req [''medium'', ''address'', ''mxid''] True)) (\<lambda>args.
     bindM (liftR (bindR (json_index args ''medium'') text_value)) (\<lambda>medium.
     bindM (liftR (bindR (json_index args ''address'') text_value)) (\<lambda>address.
     bindM (liftR (bindR (json_index args ''mxid'') text_value)) (\<lambda>mxid.
     bindM (on_identity (removeBinding (cf_env cf) medium address mxid now)) (\<lambda>_.
     ret (ok_reply []))))))"

section \<open>Unbinding\<close>

text \<open>
  \<open>_async_render_POST\<close> writes its response itself: a status and a body, and whether the
  request was finished. It suspends where it authenticates the request, so it is two
  parts: \<open>unbind_start\<close> up to there, which gives a response or asks to authenticate the body,
  and \<open>unbind_resume\<close> with the outcome of \<open>authenticate_request\<close>. \<open>str_exn\<close> is Python's \<open>str\<close> of an
  exception.
\<close>

datatype unbind_step =
    Responded (ub_status: int) (ub_body: json) (ub_finished: bool)
  | Authenticate json

definition fail_with :: "int \<Rightarrow> string \<Rightarrow> string \<Rightarrow> unbind_step" where
  "fail_with status code msg = Responded status (err_body code msg) True"

definition outer_except :: "(exn \<Rightarrow> string) \<Rightarrow> unbind_step handler \<Rightarrow> server_state \<Rightarrow> unbind_step \<times> server_state" where
  "outer_except str_exn m s =
     (case m s of
        (Inr step, s') \<Rightarrow> (step, s')
      | (Inl ex, s') \<Rightarrow> (fail_with 500 ''M_UNKNOWN'' (str_exn ex), s'))"

definition do_unbind :: "server_conf \<Rightarrow> int \<Rightarrow> json \<Rightarrow> json \<Rightarrow> unbind_step handler" where
  "do_unbind cf now threepid mxid =
     bindM (liftR (bindR (json_index threepid ''address'') text_value)) (\<lambda>address.
     bindM (liftR (bindR (json_index threepid ''medium'') text_value)) (\<lambda>medium.
     bindM (liftR (text_value mxid)) (\<lambda>mx.
     bindM (on_identity (removeBinding (cf_env cf) medium address mx now)) (\<lambda>_.
     ret (Responded 200 (JObj []) True)))))"

definition unbind_by_session ::
    "server_conf \<Rightarrow> int \<Rightarrow> json \<Rightarrow> json \<Rightarrow> json \<Rightarrow> json \<Rightarrow> unbind_step handler" where
  "unbind_by_session cf now sid secret threepid mxid =
     bindM (liftR (client_secret_of secret)) (\<lambda>client_secret.
     case client_secret of
       None \<Rightarrow> ret (fail_with 400 ''M_INVALID_PARAM'' ''Invalid client_secret provided'')
     | Some cs \<Rightarrow> (\<lambda>st.
         case validated_session sid cs now st of
           (Inl InvalidSessionIdException, st') \<Rightarrow> (Inr (fail_with 401 ''M_NO_VALID_SESSION''
              ''No valid session was found matching that sid and client secret''), st')
         | (Inl IncorrectClientSecretException, st') \<Rightarrow> (Inr (fail_with 401 ''M_NO_VALID_SESSION''
              ''No valid session was found matching that sid and client secret''), st')
         | (Inl SessionNotValidatedException, st') \<Rightarrow> (Inr (Responded 403 (err_body ''M_SESSION_NOT_VALIDATED''
              ''This validation session has not yet been completed'') False), st')
         | (Inl ex, st') \<Rightarrow> (Inl ex, st')
         | (Inr s, st') \<Rightarrow>
             bindM (liftR (json_index threepid ''medium'')) (\<lambda>m.
             if JStr (vs_medium s) \<noteq> m
             then ret (fail_with 403 ''M_FORBIDDEN'' ''Provided session information does not match medium/address combo'')
             else bindM (liftR (json_index threepid ''address'')) (\<lambda>a.
               if JStr (vs_address s) \<noteq> a
               then ret (fail_with 403 ''M_FORBIDDEN'' ''Provided session information does not match medium/address combo'')
               else do_unbind cf now threepid mxid)) st'))"

definition unbind_body :: "server_conf \<Rightarrow> int \<Rightarrow> json \<Rightarrow> unbind_step handler" where
  "unbind_body cf now body =
     bindM (liftR (missing_args body [''threepid'', ''mxid''])) (\<lambda>missing.
     if missing \<noteq> []
     then ret (fail_with 400 ''M_MISSING_PARAMS'' (''Missing parameters: '' @ str_join '','' missing))
     else
       bindM (liftR (json_index body ''threepid'')) (\<lambda>threepid.
       bindM (liftR (json_index body ''mxid'')) (\<lambda>mxid.
       bindM (liftR (bindR (json_in ''medium'' threepid) (\<lambda>m.
                       if m then json_in ''address'' threepid else Inr False))) (\<lambda>complete.
       if \<not> complete then ret (fail_with 400 ''M_MISSING_PARAMS'' ''Threepid lacks medium / address'')
       else
         bindM (liftR (bindR (json_in ''sid'' body) (\<lambda>m.
                       if m then json_in ''client_secret'' body else Inr False))) (\<lambda>by_session.
         if by_session then
           bindM (liftR (json_index body ''sid'')) (\<lambda>sid.
           bindM (liftR (json_index body ''client_secret'')) (\<lambda>secret.
           unbind_by_session cf now sid secret threepid mxid))
         else ret (Authenticate body))))))"

definition unbind_start ::
    "(exn \<Rightarrow> string) \<Rightarrow> server_conf \<Rightarrow> int \<Rightarrow> request \<Rightarrow> server_state \<Rightarrow> unbind_step \<times> server_state" where
  "unbind_start str_exn cf now req s =
     (case rq_body req of
        None \<Rightarrow> (fail_with 400 ''M_BAD_JSON'' ''Malformed JSON'', s)
      | Some body \<Rightarrow> outer_except str_exn (unbind_body cf now body) s)"

definition exn_name :: "exn \<Rightarrow> string" where
  "exn_name ex = (case ex of DNSLookupError \<Rightarrow> ''DNSLookupError'' | ConnectError \<Rightarrow> ''ConnectError''
     | _ \<Rightarrow> ''ResponseFailed'')"

definition unbind_resume ::
    "(exn \<Rightarrow> string) \<Rightarrow> server_conf \<Rightarrow> int \<Rightarrow> json \<Rightarrow> string res \<Rightarrow> server_state \<Rightarrow> unbind_step \<times> server_state" where
  "unbind_resume str_exn cf now body authenticated =
     outer_except str_exn
       (case authenticated of
          Inl SignatureVerifyException \<Rightarrow> ret (fail_with 401 ''M_FORBIDDEN'' (str_exn SignatureVerifyException))
        | Inl NoAuthenticationError \<Rightarrow> ret (fail_with 401 ''M_FORBIDDEN'' (str_exn NoAuthenticationError))
        | Inl InvalidServerName \<Rightarrow> ret (fail_with 400 ''M_INVALID_PARAM'' (str_exn InvalidServerName))
        | Inl ex \<Rightarrow>
            if ex \<in> {DNSLookupError, ConnectError, ResponseFailed}
            then ret (fail_with 500 ''M_UNKNOWN''
              (''Unable to contact the Matrix homeserver to authenticate request ('' @ exn_name ex @ '')''))
            else ret (fail_with 500 ''M_UNKNOWN'' ''Internal Server Error'')
        | Inr origin_server_name \<Rightarrow>
            bindM (liftR (json_index body ''threepid'')) (\<lambda>threepid.
            bindM (liftR (json_index body ''mxid'')) (\<lambda>mxid.
            bindM (liftR (case mxid of JStr m \<Rightarrow> Inr m | _ \<Rightarrow> Inl AttributeError)) (\<lambda>mx.
            if \<not> endswith mx ('':'' @ origin_server_name)
            then ret (fail_with 403 ''M_FORBIDDEN'' ''Origin server name does not match mxid'')
            else do_unbind cf now threepid mxid))))"

section \<open>Lemmas\<close>

lemma mapE_Inr [simp]: "mapE f m s = (Inr x, s') \<longleftrightarrow> m s = (Inr x, s')"
  by (auto simp: mapE_def split: prod.splits sum.splits)

lemma mapE_snd [simp]: "snd (mapE f m s) = snd (m s)"
  by (auto simp: mapE_def split: prod.splits sum.splits)

lemma text_value_Inr [simp]: "text_value v = Inr m \<longleftrightarrow> v = JStr m"
  by (auto simp: text_value_def split: json.splits)

lemma client_secret_of_Some: "client_secret_of v = Inr (Some cs) \<longleftrightarrow> v = JStr cs \<and> is_valid_client_secret cs"
  by (auto simp: client_secret_of_def split: json.splits if_splits)

lemma validated_session_Inr:
  "validated_session sid cs now s = (Inr v, s') \<longleftrightarrow>
     s' = s \<and> (\<exists>i. sql_int sid = Inr (Some i) \<and> getValidatedSession i cs now (sv_sessions s) = Inr v)"
  by (auto simp: validated_session_def bindR_eq_Inr split: option.splits)

lemma auth_if_Inr:
  "auth_if b cf req s = (Inr a, s') \<longleftrightarrow>
     s' = s \<and> (if b then \<exists>x. a = Some x \<and> authV2 (cf_terms cf) req True (sv_accounts s) = Inr x else a = None)"
  by (auto simp: auth_if_def bindM_Inr auth_def)

text \<open>If a computation changed the state, the parts of it that only read were passed with a value.\<close>

lemma bindM_changed:
  assumes "bindM m f s = (r, s')" and "s' \<noteq> s" and "reads_only m"
  obtains x where "m s = (Inr x, s)" and "f x s = (r, s')"
proof -
  obtain q s1 where m: "m s = (q, s1)" by (cases "m s")
  have "s1 = s" by (rule reads_only_step [OF assms(3) m])
  with m assms(1,2) that show ?thesis by (cases q) (auto simp: bindM_def)
qed

lemma reads_only_mapE [intro, simp]: "reads_only m \<Longrightarrow> reads_only (mapE f m)"
  by (simp add: reads_only_def)

lemma liftR_changed:
  assumes "bindM (liftR x) f s = (r, s')" and "s' \<noteq> s"
  obtains y where "x = Inr y" and "f y s = (r, s')"
  using bindM_changed [OF assms reads_only_intros(3)] by (metis liftR_eq)

lemma auth_if_changed:
  assumes "bindM (auth_if b cf req) f s = (r, s')" and "s' \<noteq> s"
  obtains a where "if b then \<exists>x. a = Some x \<and> authV2 (cf_terms cf) req True (sv_accounts s) = Inr x else a = None"
    and "f a s = (r, s')"
  using bindM_changed [OF assms reads_only_auth_if] that by (metis auth_if_Inr)

lemma session_changed:
  assumes "bindM (mapE g (validated_session sid cs now)) f s = (r, s')" and "s' \<noteq> s"
  obtains i v where "sql_int sid = Inr (Some i)" and "getValidatedSession i cs now (sv_sessions s) = Inr v"
    and "f v s = (r, s')"
proof -
  obtain v where "mapE g (validated_session sid cs now) s = (Inr v, s)" "f v s = (r, s')"
    by (rule bindM_changed [OF assms]) simp_all
  then show ?thesis using that by (auto simp: validated_session_Inr)
qed

lemma on_identity_then_ret:
  "bindM (on_identity m) (\<lambda>x. ret (g x)) s = (r, s') \<Longrightarrow> s' = s\<lparr>sv_identity := snd (m (sv_identity s))\<rparr>"
  by (auto simp: on_identity_def bindM_def ret_def split: prod.splits sum.splits)

lemmas handler_changed = liftR_changed auth_if_changed session_changed

lemma do_unbind_changed:
  assumes "do_unbind cf now threepid mxid s = (r, s')" and "s' \<noteq> s"
  obtains m a mx where "json_index threepid ''medium'' = Inr (JStr m)"
    and "json_index threepid ''address'' = Inr (JStr a)" and "mxid = JStr mx"
    and "s' = s\<lparr>sv_identity := snd (removeBinding (cf_env cf) m a mx now (sv_identity s))\<rparr>"
  using assms unfolding do_unbind_def
  by (auto simp: bindR_eq_Inr elim!: handler_changed dest!: on_identity_then_ret intro: that)

lemma outer_except_snd: "outer_except f m s = (step, s') \<Longrightarrow> \<exists>r. m s = (r, s')"
  by (auto simp: outer_except_def split: prod.splits sum.splits)

section \<open>Properties\<close>

text \<open>C8: binding through the authenticated API takes a proof of both ends. If a request to bind changes the
  stored data, then its access token belongs to a user, the user is the Matrix identifier of
  the request, and the session it names is validated, unexpired and has the client secret of
  the request; what happens is exactly the binding of the session's address to that user.\<close>

theorem bind_requires_proof:
  assumes "threepidbind_render_POST cf True now req s = (r, s')" and "s' \<noteq> s"
  shows "\<exists>a v sid i cs args. authV2 (cf_terms cf) req True (sv_accounts s) = Inr a \<and>
     get_args req [''sid'', ''client_secret'', ''mxid''] True = Inr args \<and>
     json_index args ''mxid'' = Inr (JStr (ac_userId a)) \<and>
     json_index args ''client_secret'' = Inr (JStr cs) \<and> is_valid_client_secret cs \<and>
     json_index args ''sid'' = Inr sid \<and> sql_int sid = Inr (Some i) \<and>
     getValidatedSession i cs now (sv_sessions s) = Inr v \<and>
     s' = s\<lparr>sv_identity := snd (addBinding (cf_env cf) (vs_medium v) (vs_address v) (ac_userId a) now
              (sv_identity s))\<rparr>"
  using assms unfolding threepidbind_render_POST_def
  by (auto simp: client_secret_of_Some split: option.splits if_splits
      elim!: handler_changed dest!: on_identity_then_ret get_args_after_token)

text \<open>A server with one user, one validated session, and the request that binds its address.\<close>

definition demo_conf :: server_conf where
  "demo_conf = \<lparr>cf_env = plain_env, cf_terms = Inr None, cf_email = demo_email_config,
     cf_sms = \<lparr>sm_body_template = ''{token}'', sm_originators = [], sm_smsRules = []\<rparr>,
     cf_send_sms = (\<lambda>_. Inr ()), cf_parse_phone = (\<lambda>_ _. Inl GenericException),
     cf_lookup_pepper = ''pepper'', cf_lookup_limit = 100, cf_obey_x_forwarded_for = False,
     cf_public_key = ''pk'', cf_sign_with = (\<lambda>_ d. Inr d), cf_homeserver_allow_list = [],
     cf_verify_response_template = None, cf_room_blocklist = [], cf_homeserver_blocklist = [],
     cf_keyword_blocklist = [], cf_invite_template = Some ''i.eml'', cf_invite_subject = ''hello'',
     cf_invite_subject_space = ''hello'', cf_default_web_client_location = ''https://app'',
     cf_username_obfuscate = 3, cf_domain_obfuscate = 3, cf_header_encode = (\<lambda>x. x),
     cf_float_int = (\<lambda>_. 0), cf_repr = (\<lambda>_. [])\<rparr>"

definition demo_session :: val_session where
  "demo_session = \<lparr>vs_id = 5, vs_medium = ''email'', vs_address = ''bob@example.com'', vs_client_secret = ''sec'',
     vs_validated = True, vs_mtime = 0\<rparr>"

definition demo_server :: server_state where
  "demo_server = \<lparr>sv_identity = fresh_state,
     sv_sessions = \<lparr>sd_sessions = [demo_session], sd_tokens = []\<rparr>,
     sv_accounts = \<lparr>ad_accounts = [\<lparr>ac_userId = ''@bob:hs'', ac_creationTs = 0, ac_consentVersion = None\<rparr>],
       ad_tokens = [(''tok'', ''@bob:hs'')], ad_terms = []\<rparr>,
     sv_email_rl = Ratelimiter_init 5, sv_msisdn_rl = (\<lambda>_. Ratelimiter_init 5),
     sv_country_rl = (\<lambda>_. Ratelimiter_init 5), sv_mails = [], sv_smses = []\<rparr>"

definition demo_post :: "jdict \<Rightarrow> request" where
  "demo_post d = \<lparr>rq_method = ''POST'', rq_path = ''/_matrix/identity/v2/x'',
     rq_headers = [(''authorization'', [''Bearer tok''])], rq_args = [], rq_body = Some (JObj d)\<rparr>"

abbreviation demo_bind :: request where
  "demo_bind \<equiv> demo_post [(''sid'', JInt 5), (''client_secret'', JStr ''sec''), (''mxid'', JStr ''@bob:hs'')]"

lemma demo_post_bearer: "bearer_token (demo_post d) = Some ''tok''"
proof -
  have "str_lower ''Authorization'' = ''authorization''" by code_simp
  then show ?thesis
    by (simp add: bearer_token_def demo_post_def getHeader_def getRawHeaders_def startswith_def)
qed

lemma demo_post_read: "after_token (demo_post d) = demo_post d" "rq_body (demo_post d) = Some (JObj d)"
  by (rule after_token_bearer [OF demo_post_bearer]) (simp add: demo_post_def)

lemma demo_bind_changes:
  "snd (threepidbind_render_POST demo_conf True 1000 demo_bind demo_server) \<noteq> demo_server"
proof -
  have "map l_id (l_rows (is_local (sv_identity
      (snd (threepidbind_render_POST demo_conf True 1000 demo_bind demo_server))))) = [1]"
    by code_simp
  moreover have "map l_id (l_rows (is_local (sv_identity demo_server))) = []" by code_simp
  ultimately show ?thesis by (metis list.distinct(1))
qed

theorem bind_requires_proof_witness:
  "\<exists>a v. authV2 (cf_terms demo_conf) demo_bind True (sv_accounts demo_server) = Inr a \<and>
     getValidatedSession 5 ''sec'' 1000 (sv_sessions demo_server) = Inr v \<and>
     sv_identity (snd (threepidbind_render_POST demo_conf True 1000 demo_bind demo_server)) =
       snd (addBinding (cf_env demo_conf) (vs_medium v) (vs_address v) (ac_userId a) 1000 (sv_identity demo_server))"
proof -
  have args: "get_args demo_bind [''sid'', ''client_secret'', ''mxid''] True =
      Inr (JObj [(''sid'', JInt 5), (''client_secret'', JStr ''sec''), (''mxid'', JStr ''@bob:hs'')])"
    by code_simp
  show ?thesis
    using bind_requires_proof [OF surjective_pairing demo_bind_changes] unfolding args
    by auto
qed

definition bind_answer :: "env \<Rightarrow> string \<Rightarrow> int \<Rightarrow> string \<Rightarrow> string \<Rightarrow> int \<Rightarrow> server_state \<Rightarrow> reply" where
  "bind_answer e userId sid secret mxid now s =
     (if \<not> is_valid_client_secret secret then (400, err_body ''M_INVALID_PARAM'' ''Invalid client_secret provided'')
      else if userId \<noteq> mxid then (403, err_body ''M_UNAUTHORIZED'' ''This user is prohibited from binding to the mxid'')
      else (case getValidatedSession sid secret now (sv_sessions s) of
          Inl SessionExpiredException \<Rightarrow> (400, err_body ''M_SESSION_EXPIRED''
             ''This validation session has expired: call requestToken again'')
        | Inl SessionNotValidatedException \<Rightarrow> (400, err_body ''M_SESSION_NOT_VALIDATED''
             ''This validation session has not yet been completed'')
        | Inl _ \<Rightarrow> (404, err_body ''M_NO_VALID_SESSION''
             ''No valid session was found matching that sid and client secret'')
        | Inr v \<Rightarrow>
            (case fst (addBinding e (vs_medium v) (vs_address v) mxid now (sv_identity s)) of
               Inr sg \<Rightarrow> (200, JObj sg)
             | Inl _ \<Rightarrow> (500, err_body ''M_UNKNOWN'' ''Internal Server Error''))))"

lemma getValidatedSession_errors:
  "getValidatedSession sid c now db = Inl ex \<Longrightarrow>
     ex \<in> {InvalidSessionIdException, IncorrectClientSecretException, SessionExpiredException,
           SessionNotValidatedException}"
  by (auto simp: getValidatedSession_def split: option.splits if_splits)

lemma addBinding_errors:
  assumes "identity_inv e st" and "env_ok e st"
  shows "\<exists>sg. fst (addBinding e m a x now st) = Inr sg"
  using addBinding_inv(3) [OF assms, of m a x now] by (metis isl_def sum.collapse(2))

lemma get_args_present:
  assumes "wants_json req" "rq_body req = Some (JObj d)" "\<forall>k \<in> set args. dict_get d k \<noteq> None"
  shows "get_args req args True = Inr (JObj d)"
  using assms by (simp add: get_args_def missing_args_iff dict_has_iff filter_empty_conv)

text \<open>what a request to bind is answered. For a request whose body is an object with an integer session
  identifier, a text as client secret and a text as Matrix identifier, sent by an authenticated user, the
  response is determined: an invalid secret is refused, then another user's identifier, and
  then the state of the session decides; an unknown session and a wrong secret get the
  same answer, so that nobody learns of a session without its secret.\<close>

theorem bind_response:
  assumes "authV2 (cf_terms cf) req True (sv_accounts s) = Inr a"
    and "wants_json req" and "rq_body (after_token req) = Some (JObj d)"
    and "dict_get d ''sid'' = Some (JInt sid)" and "- (2 ^ 63) \<le> sid" and "sid < 2 ^ 63"
    and "dict_get d ''client_secret'' = Some (JStr secret)" and "dict_get d ''mxid'' = Some (JStr mxid)"
    and "identity_inv (cf_env cf) (sv_identity s)" and "env_ok (cf_env cf) (sv_identity s)"
  shows "fst (jsonwrap (threepidbind_render_POST cf True now req s)) =
     bind_answer (cf_env cf) (ac_userId a) sid secret mxid now s"
proof -
  have args: "get_args (after_token req) [''sid'', ''client_secret'', ''mxid''] True = Inr (JObj d)"
    by (rule get_args_present [OF _ assms(3)]) (simp_all add: assms(2,4,7,8))
  note run = threepidbind_render_POST_def bind_answer_def auth_if_def auth_def bindM_def liftR_def ret_def
    raise_def args client_secret_of_def mapE_def validated_session_def on_identity_def jsonwrap_def
    text_value_def
  show ?thesis
  proof (cases "is_valid_client_secret secret \<and> ac_userId a = mxid")
    case False
    with assms show ?thesis by (auto simp: run)
  next
    case True
    show ?thesis
    proof (cases "getValidatedSession sid secret now (sv_sessions s)")
      case (Inl ex)
      with True assms getValidatedSession_errors [OF Inl] show ?thesis
        by (auto simp: run session_error_def no_valid_session_def)
    next
      case (Inr v)
      with True assms addBinding_errors [OF assms(9,10), of "vs_medium v" "vs_address v" mxid now]
      show ?thesis by (auto simp: run split: prod.splits)
    qed
  qed
qed

theorem bind_response_witness:
  "fst (jsonwrap (threepidbind_render_POST demo_conf True 1000 demo_bind demo_server)) =
     bind_answer plain_env ''@bob:hs'' 5 ''sec'' ''@bob:hs'' 1000 demo_server"
proof -
  have a: "authV2 (cf_terms demo_conf) demo_bind True (sv_accounts demo_server) =
      Inr \<lparr>ac_userId = ''@bob:hs'', ac_creationTs = 0, ac_consentVersion = None\<rparr>"
    by code_simp
  have w: "wants_json demo_bind" by code_simp
  have e: "cf_env demo_conf = plain_env" "sv_identity demo_server = fresh_state"
    by (simp_all add: demo_conf_def demo_server_def)
  show ?thesis
    using bind_response [OF a w, of _ 5 "''sec''" "''@bob:hs''" 1000] fresh_state_ok
    by (simp add: e demo_post_read)
qed

lemma unbind_by_session_changed:
  assumes "unbind_by_session cf now sid secret tp mxid s = (r, s')" and "s' \<noteq> s"
  obtains i cs v mx where "secret = JStr cs" "sql_int sid = Inr (Some i)"
    "getValidatedSession i cs now (sv_sessions s) = Inr v"
    "json_index tp ''medium'' = Inr (JStr (vs_medium v))" "json_index tp ''address'' = Inr (JStr (vs_address v))"
    "mxid = JStr mx"
    "s' = s\<lparr>sv_identity := snd (removeBinding (cf_env cf) (vs_medium v) (vs_address v) mx now (sv_identity s))\<rparr>"
proof -
  from assms obtain cs where cs: "secret = JStr cs"
    and 1: "(case validated_session sid cs now s of
           (Inl InvalidSessionIdException, st') \<Rightarrow> (Inr (fail_with 401 ''M_NO_VALID_SESSION''
              ''No valid session was found matching that sid and client secret''), st')
         | (Inl IncorrectClientSecretException, st') \<Rightarrow> (Inr (fail_with 401 ''M_NO_VALID_SESSION''
              ''No valid session was found matching that sid and client secret''), st')
         | (Inl SessionNotValidatedException, st') \<Rightarrow> (Inr (Responded 403 (err_body ''M_SESSION_NOT_VALIDATED''
              ''This validation session has not yet been completed'') False), st')
         | (Inl ex, st') \<Rightarrow> (Inl ex, st')
         | (Inr v, st') \<Rightarrow>
             bindM (liftR (json_index tp ''medium'')) (\<lambda>m.
             if JStr (vs_medium v) \<noteq> m
             then ret (fail_with 403 ''M_FORBIDDEN'' ''Provided session information does not match medium/address combo'')
             else bindM (liftR (json_index tp ''address'')) (\<lambda>a.
               if JStr (vs_address v) \<noteq> a
               then ret (fail_with 403 ''M_FORBIDDEN'' ''Provided session information does not match medium/address combo'')
               else do_unbind cf now tp mxid)) st') = (r, s')"
    unfolding unbind_by_session_def
    by (elim liftR_changed) (auto simp: client_secret_of_Some split: option.splits)
  obtain q where q: "validated_session sid cs now s = (q, s)" by (simp add: validated_session_def)
  show ?thesis
  proof (cases q)
    case (Inl ex)
    with 1 q assms(2) show ?thesis by (cases ex) auto
  next
    case (Inr v)
    with 1 q assms(2) have "json_index tp ''medium'' = Inr (JStr (vs_medium v))"
      "json_index tp ''address'' = Inr (JStr (vs_address v))" "do_unbind cf now tp mxid s = (r, s')"
      by (auto elim!: liftR_changed split: if_splits)
    with q Inr cs assms(2) that show ?thesis
      by (auto simp: validated_session_Inr elim!: do_unbind_changed)
  qed
qed

lemma unbind_body_changed:
  assumes "unbind_body cf now body s = (r, s')" and "s' \<noteq> s"
  obtains tp mxid sid secret where "json_index body ''threepid'' = Inr tp" "json_index body ''mxid'' = Inr mxid"
    "json_index body ''sid'' = Inr sid" "json_index body ''client_secret'' = Inr secret"
    "unbind_by_session cf now sid secret tp mxid s = (r, s')"
  using assms unfolding unbind_body_def by (auto elim!: liftR_changed split: if_splits intro: that)

lemma unbind_resume_changed:
  assumes "unbind_resume str_exn cf now body authenticated s = (step, s')" and "s' \<noteq> s"
  obtains r server tp mx where "authenticated = Inr server" "json_index body ''threepid'' = Inr tp"
    "json_index body ''mxid'' = Inr (JStr mx)" "endswith mx ('':'' @ server)"
    "do_unbind cf now tp (JStr mx) s = (r, s')"
proof -
  obtain server where "authenticated = Inr server"
    using assms by (cases authenticated)
      (auto simp: unbind_resume_def outer_except_def ret_def split: exn.splits if_splits)
  with assms that show ?thesis
    unfolding unbind_resume_def
    by (auto dest!: outer_except_snd elim!: liftR_changed split: json.splits if_splits)
qed

text \<open>C9: unbinding takes a proof too. If the first part of the handler changes the stored data, the session
  named in the request is validated, unexpired, has the given client secret and is for
  exactly the medium and address of the request. If the second part does, the request was
  authenticated as coming from a server, and the Matrix identifier ends with the name of that server.
  In both cases what happens is exactly the removal of that binding.\<close>

theorem unbind_requires_proof:
  "(unbind_start str_exn cf now req s = (step, s') \<and> s' \<noteq> s \<longrightarrow>
     (\<exists>body sid i cs v mx tp. rq_body req = Some body \<and> json_index body ''threepid'' = Inr tp \<and>
        json_index body ''mxid'' = Inr (JStr mx) \<and> json_index body ''sid'' = Inr sid \<and>
        json_index body ''client_secret'' = Inr (JStr cs) \<and> sql_int sid = Inr (Some i) \<and>
        getValidatedSession i cs now (sv_sessions s) = Inr v \<and>
        json_index tp ''medium'' = Inr (JStr (vs_medium v)) \<and>
        json_index tp ''address'' = Inr (JStr (vs_address v)) \<and>
        s' = s\<lparr>sv_identity := snd (removeBinding (cf_env cf) (vs_medium v) (vs_address v) mx now (sv_identity s))\<rparr>)) \<and>
   (unbind_resume str_exn cf now body authenticated s = (step, s') \<and> s' \<noteq> s \<longrightarrow>
     (\<exists>server tp m a mx. authenticated = Inr server \<and> json_index body ''threepid'' = Inr tp \<and>
        json_index body ''mxid'' = Inr (JStr mx) \<and> endswith mx ('':'' @ server) \<and>
        json_index tp ''medium'' = Inr (JStr m) \<and> json_index tp ''address'' = Inr (JStr a) \<and>
        s' = s\<lparr>sv_identity := snd (removeBinding (cf_env cf) m a mx now (sv_identity s))\<rparr>))"
  by (auto simp: unbind_start_def split: option.splits dest!: outer_except_snd
      elim!: unbind_body_changed unbind_by_session_changed unbind_resume_changed do_unbind_changed)

abbreviation demo_unbind :: request where
  "demo_unbind \<equiv> demo_post [(''threepid'', JObj [(''medium'', JStr ''email''), (''address'', JStr ''bob@example.com'')]),
     (''mxid'', JStr ''@bob:hs''), (''sid'', JInt 5), (''client_secret'', JStr ''sec'')]"

definition bound_server :: server_state where
  "bound_server = snd (threepidbind_render_POST demo_conf True 1000 demo_bind demo_server)"

lemma demo_unbind_changes: "snd (unbind_start (\<lambda>_. []) demo_conf 2000 demo_unbind bound_server) \<noteq> bound_server"
proof -
  have "map l_id (l_rows (is_local (sv_identity
      (snd (unbind_start (\<lambda>_. []) demo_conf 2000 demo_unbind bound_server))))) = [2]"
    by code_simp
  moreover have "map l_id (l_rows (is_local (sv_identity bound_server))) = [1]" by code_simp
  ultimately show ?thesis by (metis list.inject one_neq_neg_one numeral_eq_one_iff semiring_norm(85))
qed

theorem unbind_requires_proof_witness:
  "\<exists>sid i cs v. sql_int sid = Inr (Some i) \<and> getValidatedSession i cs 2000 (sv_sessions bound_server) = Inr v"
  using unbind_requires_proof [of "\<lambda>_. []" demo_conf 2000 demo_unbind bound_server
      "fst (unbind_start (\<lambda>_. []) demo_conf 2000 demo_unbind bound_server)"
      "snd (unbind_start (\<lambda>_. []) demo_conf 2000 demo_unbind bound_server)" JNull "Inl KeyError"]
    demo_unbind_changes
  by auto

text \<open>two branches of the unbind handler go wrong. For a session that is not validated it writes its refusal but
  never finishes the request, so the client waits; an expired session is not caught
  and is answered as an internal error with the text of the exception.\<close>

theorem unbind_unfinished_request:
  "fst (unbind_start (\<lambda>_. []) demo_conf 2000 demo_unbind
      (demo_server\<lparr>sv_sessions := \<lparr>sd_sessions = [demo_session\<lparr>vs_validated := False\<rparr>], sd_tokens = []\<rparr>\<rparr>)) =
     Responded 403 (err_body ''M_SESSION_NOT_VALIDATED'' ''This validation session has not yet been completed'') False \<and>
   fst (unbind_start (\<lambda>_. []) demo_conf (100 * 24 * 60 * 60 * 1000) demo_unbind demo_server) =
     Responded 500 (err_body ''M_UNKNOWN'' []) True"
  by code_simp

end
