(* ===== verification/Lookup_Servlets.thy ===== *)
theory Lookup_Servlets
  imports Bind_Servlets
begin

text \<open>
  The handlers that only answer questions: \<open>lookupservlet.py\<close>, \<open>bulklookupservlet.py\<close>,
  \<open>lookupv2servlet.py\<close>, \<open>hashdetailsservlet.py\<close>, \<open>pubkeyservlets.py\<close>, \<open>blindlysignstuffservlet.py\<close> and
  \<open>versions.py\<close> under \<open>sydent/http/servlets/\<close>.
\<close>

section \<open>Looking up one address\<close>

definition lookup_render_GET :: "server_conf \<Rightarrow> int \<Rightarrow> request \<Rightarrow> reply handler" where
  "lookup_render_GET cf now req =
     bindM (liftR (get_args req [''medium'', ''address''] True)) (\<lambda>args.
     bindM (liftR (bindR (json_index args ''medium'') text_value)) (\<lambda>medium.
     bindM (liftR (bindR (json_index args ''address'') text_value)) (\<lambda>address.
     bindM (getsM (\<lambda>s. signedAssociationStringForThreepid medium address now (known (sv_identity s)))) (\<lambda>sgassoc_raw.
     case sgassoc_raw of
       None \<Rightarrow> ret (ok_reply [])
     | Some sgassoc \<Rightarrow>
         bindM (liftR (json_index (JObj sgassoc) ''signatures'')) (\<lambda>signatures.
         bindM (liftR (json_in (ev_server_name (cf_env cf)) signatures)) (\<lambda>mine.
         ret (ok_reply (if mine then sgassoc else ev_sign (cf_env cf) sgassoc))))))))"

section \<open>Looking up many\<close>

text \<open>
  An element of \<open>threepids\<close> is bound to two parameters of a statement: a list of two values, or a
  text of two characters. A \<open>null\<close> among them matches no row.
\<close>

definition sql_nullable_text :: "json \<Rightarrow> string option res" where
  "sql_nullable_text v = (if v = JNull then Inr None else map_sum id Some (sql_text v))"

definition bound_pair :: "json \<Rightarrow> (string \<times> string) option res" where
  "bound_pair v =
     (case v of
        JArr [m, a] \<Rightarrow>
          bindR (sql_nullable_text m) (\<lambda>m'. bindR (sql_nullable_text a) (\<lambda>a'.
            Inr (case (m', a') of (Some x, Some y) \<Rightarrow> Some (x, y) | _ \<Rightarrow> None)))
      | JStr [c, d] \<Rightarrow> Inr (Some ([c], [d]))
      | _ \<Rightarrow> Inl TypeError)"

fun collectR :: "('a \<Rightarrow> 'b option res) \<Rightarrow> 'a list \<Rightarrow> 'b list res" where
  "collectR f [] = Inr []"
| "collectR f (x # xs) =
     bindR (f x) (\<lambda>y. bindR (collectR f xs) (\<lambda>ys. Inr (case y of None \<Rightarrow> ys | Some z \<Rightarrow> z # ys)))"

definition triple_json :: "string \<times> string \<times> string \<Rightarrow> json" where
  "triple_json t = (case t of (m, a, x) \<Rightarrow> JArr [JStr m, JStr a, JStr x])"

definition bulklookup_render_POST :: "int \<Rightarrow> request \<Rightarrow> reply handler" where
  "bulklookup_render_POST now req =
     bindM (liftR (get_args req [''threepids''] True)) (\<lambda>args.
     bindM (liftR (json_index args ''threepids'')) (\<lambda>threepids.
     case threepids of
       JArr l \<Rightarrow>
         bindM (liftR (collectR bound_pair l)) (\<lambda>tuples.
         bindM (getsM (\<lambda>s. getMxids tuples now (known (sv_identity s)))) (\<lambda>results.
         ret (ok_reply [(''threepids'', JArr (map triple_json results))])))
     | _ \<Rightarrow> raise (MatrixRestError 400 ''M_INVALID_PARAM'' ''threepids must be a list'')))"

section \<open>Hashed lookups\<close>

definition known_algorithms :: "string list" where
  "known_algorithms = [''sha256'', ''none'']"

definition hashdetails_render_GET :: "server_conf \<Rightarrow> request \<Rightarrow> reply handler" where
  "hashdetails_render_GET cf req =
     bindM (auth cf req) (\<lambda>_.
     ret (ok_reply [(''algorithms'', JArr (map JStr known_algorithms)),
       (''lookup_pepper'', JStr (cf_lookup_pepper cf))]))"

text \<open>
  \<open>str(v)\<close> of a decoded value. The text of a container begins with a bracket, so it is no
  algorithm and no pepper; it is left out (\<^const>\<open>None\<close>).
\<close>

definition py_str :: "json \<Rightarrow> string option" where
  "py_str v =
     (case v of
        JStr s \<Rightarrow> Some s | JInt i \<Rightarrow> Some (show_int i) | JFloat t \<Rightarrow> Some t
      | JBool b \<Rightarrow> Some (if b then ''True'' else ''False'') | JNull \<Rightarrow> Some ''None''
      | _ \<Rightarrow> None)"

text \<open>The loop over the addresses of a lookup without hashing: a text of exactly two words.\<close>

fun split_pairs :: "json list \<Rightarrow> (string + (string \<times> string) list) res" where
  "split_pairs [] = Inr (Inr [])"
| "split_pairs (v # vs) =
     (case v of
        JStr s \<Rightarrow>
          (case str_words s of
             [address, medium] \<Rightarrow>
               bindR (split_pairs vs) (\<lambda>r. Inr (case r of Inl bad \<Rightarrow> Inl bad | Inr ps \<Rightarrow> Inr ((medium, address) # ps)))
           | _ \<Rightarrow> Inr (Inl s))
      | _ \<Rightarrow> Inl AttributeError)"

definition lookup_none :: "json list \<Rightarrow> int \<Rightarrow> reply handler" where
  "lookup_none addresses now =
     bindM (liftR (split_pairs addresses)) (\<lambda>r.
     case r of
       Inl bad \<Rightarrow> ret (400, err_body ''M_UNKNOWN'' (''Invalid \"address medium\" pair: \"'' @ bad @ ''\"''))
     | Inr medium_address_tuples \<Rightarrow>
         bindM (getsM (\<lambda>s. getMxids medium_address_tuples now (known (sv_identity s)))) (\<lambda>rs.
         ret (ok_reply [(''mappings'',
           JObj (fold (\<lambda>(m, a, x) d. dict_set d (a @ '' '' @ m) (JStr x)) rs []))])))"

definition lookup_sha256 :: "json list \<Rightarrow> int \<Rightarrow> reply handler" where
  "lookup_sha256 addresses now =
     bindM (liftR (collectR sql_nullable_text addresses)) (\<lambda>hashes.
     bindM (getsM (\<lambda>s. retrieveMxidsForHashes hashes now (known (sv_identity s)))) (\<lambda>mappings.
     ret (ok_reply [(''mappings'', JObj (map (\<lambda>(h, x). (h, JStr x)) mappings))])))"

definition lookupv2_render_POST :: "server_conf \<Rightarrow> int \<Rightarrow> request \<Rightarrow> reply handler" where
  "lookupv2_render_POST cf now req =
     bindM (auth cf req) (\<lambda>_.
     bindM (liftR (get_args (after_token req) [''addresses'', ''algorithm'', ''pepper''] True)) (\<lambda>args.
     bindM (liftR (json_index args ''addresses'')) (\<lambda>addresses.
     case addresses of
       JArr l \<Rightarrow>
         bindM (liftR (json_index args ''algorithm'')) (\<lambda>alg.
         case py_str alg of
           Some algorithm \<Rightarrow>
             if algorithm \<notin> set known_algorithms
             then ret (400, err_body ''M_INVALID_PARAM'' ''algorithm is not supported'')
             else if length l > cf_lookup_limit cf
             then ret (400, err_body ''M_TOO_LARGE'' ''More than the maximum amount of addresses provided'')
             else
               bindM (liftR (json_index args ''pepper'')) (\<lambda>pepper.
               if py_str pepper \<noteq> Some (cf_lookup_pepper cf)
               then ret (400, JObj [(''errcode'', JStr ''M_INVALID_PEPPER''),
                   (''error'', JStr (''pepper does not match '' @ [CHR 0x27] @ cf_lookup_pepper cf @ [CHR 0x27])),
                   (''algorithm'', JStr algorithm), (''lookup_pepper'', JStr (cf_lookup_pepper cf))])
               else if algorithm = ''none'' then lookup_none l now
               else if algorithm = ''sha256'' then lookup_sha256 l now
               else ret (400, err_body ''M_INVALID_PARAM'' ''algorithm is not supported''))
         | None \<Rightarrow> ret (400, err_body ''M_INVALID_PARAM'' ''algorithm is not supported''))
     | _ \<Rightarrow> ret (400, err_body ''M_INVALID_PARAM'' ''addresses must be a list''))))"

section \<open>Keys and signatures\<close>

definition pubkey_render_GET :: "server_conf \<Rightarrow> reply handler" where
  "pubkey_render_GET cf = ret (ok_reply [(''public_key'', JStr (cf_public_key cf))])"

definition pubkey_isvalid_render_GET :: "server_conf \<Rightarrow> request \<Rightarrow> reply handler" where
  "pubkey_isvalid_render_GET cf req =
     bindM (liftR (get_args req [''public_key''] True)) (\<lambda>args.
     bindM (liftR (json_index args ''public_key'')) (\<lambda>k.
     ret (ok_reply [(''valid'', JBool (k = JStr (cf_public_key cf)))])))"

definition ephemeral_isvalid_render_GET :: "request \<Rightarrow> reply handler" where
  "ephemeral_isvalid_render_GET req =
     bindM (liftR (get_args req [''public_key''] True)) (\<lambda>args.
     bindM (liftR (bindR (json_index args ''public_key'') text_value)) (\<lambda>publicKey.
     bindM (on_identity (\<lambda>i. case validateEphemeralPublicKey publicKey (is_invites i) of
         (b, iv) \<Rightarrow> (Inr b, i\<lparr>is_invites := iv\<rparr>))) (\<lambda>valid.
     ret (ok_reply [(''valid'', JBool valid)]))))"

definition blindlysign_render_POST :: "server_conf \<Rightarrow> bool \<Rightarrow> request \<Rightarrow> reply handler" where
  "blindlysign_render_POST cf require_auth req =
     bindM (auth_if require_auth cf req) (\<lambda>_.
     bindM (liftR (get_args (after_auth require_auth req) [''private_key'', ''token'', ''mxid''] True)) (\<lambda>args.
     bindM (liftR (json_index args ''private_key'')) (\<lambda>private_key_base64.
     bindM (liftR (json_index args ''token'')) (\<lambda>token.
     bindM (liftR (json_index args ''mxid'')) (\<lambda>mxid.
     bindM (liftR (sql_nullable_text token)) (\<lambda>tok.
     bindM (getsM (\<lambda>s. case tok of None \<Rightarrow> None | Some t \<Rightarrow> getSenderForToken t (is_invites (sv_identity s)))) (\<lambda>sender.
     case sender of
       None \<Rightarrow> raise (MatrixRestError 404 ''M_UNRECOGNIZED'' (''Didn'' @ [CHR 0x27] @ ''t recognize token''))
     | Some snd' \<Rightarrow>
         (case cf_sign_with cf private_key_base64
             [(''mxid'', mxid), (''sender'', JStr snd'), (''token'', token)] of
            Inl _ \<Rightarrow> raise (MatrixRestError 500 ''M_UNKNOWN'' ''Internal Server Error'')
          | Inr signed \<Rightarrow> ret (ok_reply signed)))))))))"

definition versions_render_GET :: "reply handler" where
  "versions_render_GET = ret (ok_reply [(''versions'', JArr (map JStr
     [''r0.1.0'', ''r0.2.0'', ''r0.2.1'', ''r0.3.0'', ''v1.1'', ''v1.2'', ''v1.3'', ''v1.4'', ''v1.5'']))])"

section \<open>Lemmas\<close>

lemma collectR_map: "(\<And>x. f (g x) = Inr (Some (h x))) \<Longrightarrow> collectR f (map g xs) = Inr (map h xs)"
  by (induction xs) auto

lemma collectR_texts: "collectR sql_nullable_text (map JStr hs) = Inr hs"
  using collectR_map [of sql_nullable_text JStr "\<lambda>x. x"] by (simp add: sql_nullable_text_def sql_text_def)

lemma map_of_map_snd: "map_of (map (\<lambda>(k, v). (k, f v)) d) = map_option f \<circ> map_of d"
  by (induction d) auto

lemma bindM_liftR_Inr [simp]: "bindM (liftR (Inr x)) f s = f x s"
  by (simp add: bindM_def liftR_def)

lemma bindM_getsM [simp]: "bindM (getsM g) f s = f (g s) s"
  by (simp add: bindM_def getsM_def)

lemma bindM_auth: "authV2 (cf_terms cf) req True (sv_accounts s) = Inr a \<Longrightarrow> bindM (auth cf req) f s = f a s"
  by (simp add: bindM_def auth_def)

text \<open>None of these handlers but the one that counts verifications changes anything.\<close>

lemma reads_only_cases:
  "reads_only m \<Longrightarrow> reads_only n \<Longrightarrow> reads_only (if b then m else n)"
  "reads_only n \<Longrightarrow> (\<And>x. reads_only (f x)) \<Longrightarrow> reads_only (case v of None \<Rightarrow> n | Some x \<Rightarrow> f x)"
  "(\<And>x. reads_only (g x)) \<Longrightarrow> (\<And>x. reads_only (h x)) \<Longrightarrow> reads_only (case w of Inl x \<Rightarrow> g x | Inr x \<Rightarrow> h x)"
  by (simp_all split: option.splits sum.splits)

lemma reads_only_list_case:
  "reads_only n \<Longrightarrow> (\<And>l. reads_only (f l)) \<Longrightarrow> reads_only (case v of JArr l \<Rightarrow> f l | _ \<Rightarrow> n)"
  by (simp split: json.splits)

lemmas reads_only_rules = reads_only_bindM reads_only_cases reads_only_list_case reads_only_intros reads_only_auth_if

lemma reads_only_lookups:
  "reads_only (lookup_render_GET cf now req)" "reads_only (bulklookup_render_POST now req)"
  "reads_only (lookupv2_render_POST cf now req)" "reads_only (hashdetails_render_GET cf req)"
  "reads_only (pubkey_isvalid_render_GET cf req)" "reads_only (blindlysign_render_POST cf b req)"
  unfolding lookup_render_GET_def bulklookup_render_POST_def lookupv2_render_POST_def hashdetails_render_GET_def
    pubkey_isvalid_render_GET_def blindlysign_render_POST_def lookup_none_def lookup_sha256_def
  by (intro reads_only_rules)+

text \<open>A well-formed hashed lookup, run to its end. Its body must still be there when its access token has been
  read.\<close>

definition hashed_lookup :: "server_conf \<Rightarrow> request \<Rightarrow> string list \<Rightarrow> server_state \<Rightarrow> bool" where
  "hashed_lookup cf req hs s =
     (isr (authV2 (cf_terms cf) req True (sv_accounts s)) \<and> wants_json req \<and> length hs \<le> cf_lookup_limit cf \<and>
      (\<exists>d. rq_body (after_token req) = Some (JObj d) \<and> dict_get d ''addresses'' = Some (JArr (map JStr hs)) \<and>
        dict_get d ''algorithm'' = Some (JStr ''sha256'') \<and>
        dict_get d ''pepper'' = Some (JStr (cf_lookup_pepper cf))))"

lemma hashed_lookup_run:
  assumes "hashed_lookup cf req hs s"
  shows "lookupv2_render_POST cf now req s = (Inr (ok_reply [(''mappings'', JObj (map (\<lambda>(h, x). (h, JStr x))
     (retrieveMxidsForHashes hs now (known (sv_identity s)))))]), s)"
proof -
  obtain a d where a: "authV2 (cf_terms cf) req True (sv_accounts s) = Inr a"
    and d: "wants_json req" "rq_body (after_token req) = Some (JObj d)" "length hs \<le> cf_lookup_limit cf"
      "dict_get d ''addresses'' = Some (JArr (map JStr hs))"
      "dict_get d ''algorithm'' = Some (JStr ''sha256'')"
      "dict_get d ''pepper'' = Some (JStr (cf_lookup_pepper cf))"
    using assms unfolding hashed_lookup_def by (metis isl_def sum.exhaust)
  have args: "get_args (after_token req) [''addresses'', ''algorithm'', ''pepper''] True = Inr (JObj d)"
    by (rule get_args_present [OF _ d(2)]) (simp_all add: d(1,4-6))
  show ?thesis
    using d by (simp add: lookupv2_render_POST_def bindM_auth [OF a] args py_str_def known_algorithms_def
        lookup_sha256_def collectR_texts)
qed

section \<open>Properties\<close>

text \<open>the answer to a hashed lookup. For an authenticated request with a list of texts within the limit, the
  algorithm \<open>sha256\<close> and the current pepper, the response maps exactly those of the given
  hashes that some association in force carries, each to the greatest of the Matrix
  identifiers of such associations, and the request changes nothing.\<close>

theorem lookupv2_sha256_answer:
  assumes "hashed_lookup cf req hs s"
  shows "\<exists>m. lookupv2_render_POST cf now req s = (Inr (ok_reply [(''mappings'', JObj m)]), s) \<and>
    (\<forall>h. dict_get m h =
      (let cands = {g_mxid r | r. r \<in> set (g_rows (known (sv_identity s))) \<and> valid_at now r \<and>
                      g_lookup_hash r = Some h}
       in if h \<in> set hs \<and> cands \<noteq> {} then Some (JStr (Max cands)) else None))"
proof -
  let ?m = "map (\<lambda>(h, x). (h, JStr x)) (retrieveMxidsForHashes hs now (known (sv_identity s)))"
  have "dict_get ?m h =
      (let cands = {g_mxid r | r. r \<in> set (g_rows (known (sv_identity s))) \<and> valid_at now r \<and>
                      g_lookup_hash r = Some h}
       in if h \<in> set hs \<and> cands \<noteq> {} then Some (JStr (Max cands)) else None)" for h
    by (simp add: map_of_map_snd retrieveMxidsForHashes_spec Let_def) blast
  with hashed_lookup_run [OF assms] show ?thesis by blast
qed

abbreviation demo_lookup :: "string list \<Rightarrow> request" where
  "demo_lookup hs \<equiv> demo_post [(''addresses'', JArr (map JStr hs)), (''algorithm'', JStr ''sha256''),
     (''pepper'', JStr ''pepper'')]"

lemma demo_hashed_lookup: "hashed_lookup demo_conf (demo_lookup [''h'']) [''h''] demo_server"
proof -
  have a: "isr (authV2 (cf_terms demo_conf) (demo_lookup [''h'']) True (sv_accounts demo_server))" by code_simp
  have w: "wants_json (demo_lookup [''h''])" by code_simp
  show ?thesis unfolding hashed_lookup_def using a w by (simp add: demo_conf_def demo_post_read)
qed

theorem lookupv2_sha256_answer_witness:
  "\<exists>m. lookupv2_render_POST demo_conf 2000 (demo_lookup [''h'']) demo_server =
      (Inr (ok_reply [(''mappings'', JObj m)]), demo_server) \<and>
    (\<forall>h. dict_get m h =
      (let cands = {g_mxid r | r. r \<in> set (g_rows (known (sv_identity demo_server))) \<and> valid_at 2000 r \<and>
                      g_lookup_hash r = Some h}
       in if h \<in> set [''h''] \<and> cands \<noteq> {} then Some (JStr (Max cands)) else None))"
  by (rule lookupv2_sha256_answer [OF demo_hashed_lookup])

text \<open>After a binding, the row of the address is found by its hash.\<close>

lemma retrieve_bound:
  assumes "identity_inv e i" and "env_ok e i" and "pepper_of i = Some p"
    and "t0 < t" and "t < t0 + THREEPID_ASSOCIATION_LIFETIME_MS"
    and "hash = ev_hash e (hash_input (normalise_address address medium) medium p)"
    and "\<forall>r \<in> set (g_rows (known (snd (addBinding e medium address mxid t0 i)))).
      valid_at t r \<and> g_lookup_hash r = Some hash \<longrightarrow> g_mxid r = mxid"
    and "hash \<in> set hs"
  shows "dict_get (retrieveMxidsForHashes hs t (known (snd (addBinding e medium address mxid t0 i)))) hash = Some mxid"
proof -
  have p: "p \<noteq> []" "sign_keeps (ev_sign e)" using assms(2,3) by (auto simp: env_ok_def)
  obtain sg s' r where b: "addBinding e medium address mxid t0 i = (Inr sg, s')"
    "r \<in> set (g_rows (known s'))" "bound_row e p (new_assoc e medium address mxid p t0) r"
    by (rule addBinding_rows [OF assms(1) p(2) assms(3) p(1), where medium = medium and address = address
          and mxid = mxid and now = t0]) auto
  have r: "g_mxid r = mxid" "valid_at t r" "g_lookup_hash r = Some hash"
    using b(3) assms(4-6) by (auto simp: bound_row_def new_assoc_def Let_def valid_at_def)
  have "{g_mxid r | r. r \<in> set (g_rows (known s')) \<and> valid_at t r \<and> g_lookup_hash r = Some hash} = {mxid}"
    using r b(1,2) assms(7) by auto
  then show ?thesis
    using assms(8) by (simp only: retrieveMxidsForHashes_spec b(1) snd_conv) simp
qed

text \<open>binding is visible to hashed lookups. Once an address is bound, every well-formed hashed lookup that asks
  for the hash of the normalised address, the medium and the pepper, from the next
  millisecond on until the association expires, is answered with the bound Matrix identifier, provided
  no association in force with the same hash is for another one.\<close>

theorem bind_then_hashed_lookup:
  assumes "identity_inv (cf_env cf) i" and "env_ok (cf_env cf) i"
    and "pepper_of i = Some (cf_lookup_pepper cf)"
    and "sv_identity s = snd (addBinding (cf_env cf) medium address mxid now i)"
    and "hash = ev_hash (cf_env cf) (hash_input (normalise_address address medium) medium (cf_lookup_pepper cf))"
    and "now < t" and "t < now + THREEPID_ASSOCIATION_LIFETIME_MS"
    and "\<forall>r \<in> set (g_rows (known (sv_identity s))). valid_at t r \<and> g_lookup_hash r = Some hash \<longrightarrow> g_mxid r = mxid"
    and "hashed_lookup cf req hs s" and "hash \<in> set hs"
  shows "\<exists>m. lookupv2_render_POST cf t req s = (Inr (ok_reply [(''mappings'', JObj m)]), s) \<and>
    dict_get m hash = Some (JStr mxid)"
proof -
  have "dict_get (retrieveMxidsForHashes hs t (known (sv_identity s))) hash = Some mxid"
    unfolding assms(4) by (rule retrieve_bound [OF assms(1-3,6,7,5) _ assms(10)]) (use assms(8) in \<open>simp add: assms(4)\<close>)
  then show ?thesis by (simp add: hashed_lookup_run [OF assms(9)] map_of_map_snd)
qed

lemma demo_bound:
  "sv_identity bound_server = snd (addBinding plain_env ''email'' ''bob@example.com'' ''@bob:hs'' 1000 fresh_state)"
proof -
  have "sv_identity bound_server =
      snd (addBinding (cf_env demo_conf) (vs_medium demo_session) (vs_address demo_session) ''@bob:hs'' 1000
        (sv_identity demo_server))"
  proof -
    have a: "authV2 (cf_terms demo_conf) demo_bind True (sv_accounts demo_server) =
        Inr \<lparr>ac_userId = ''@bob:hs'', ac_creationTs = 0, ac_consentVersion = None\<rparr>" by code_simp
    have g: "get_args demo_bind [''sid'', ''client_secret'', ''mxid''] True =
        Inr (JObj [(''sid'', JInt 5), (''client_secret'', JStr ''sec''), (''mxid'', JStr ''@bob:hs'')])" by code_simp
    have v: "getValidatedSession 5 ''sec'' 1000 (sv_sessions demo_server) = Inr demo_session" by code_simp
    have c: "is_valid_client_secret ''sec''" by code_simp
    show ?thesis
      unfolding bound_server_def threepidbind_render_POST_def
      by (simp add: auth_if_def auth_def a bindM_def ret_def liftR_def g demo_post_read(1) client_secret_of_def c mapE_def
          validated_session_def sql_int_def v text_value_def on_identity_def split: prod.splits sum.splits)
  qed
  then show ?thesis by (simp add: demo_conf_def demo_session_def demo_server_def)
qed

abbreviation demo_hash :: string where
  "demo_hash \<equiv> ''bob@example.com email pepper''"

theorem bind_then_hashed_lookup_witness:
  "\<exists>m. lookupv2_render_POST demo_conf 1001 (demo_lookup [demo_hash]) bound_server =
     (Inr (ok_reply [(''mappings'', JObj m)]), bound_server) \<and> dict_get m demo_hash = Some (JStr ''@bob:hs'')"
proof (rule bind_then_hashed_lookup [where cf = demo_conf and i = fresh_state and medium = "''email''"
      and address = "''bob@example.com''" and now = 1000 and hs = "[demo_hash]"])
  show "identity_inv (cf_env demo_conf) fresh_state" "env_ok (cf_env demo_conf) fresh_state"
    using fresh_state_ok by (simp_all add: demo_conf_def)
  show "pepper_of fresh_state = Some (cf_lookup_pepper demo_conf)" by code_simp
  show "sv_identity bound_server = snd (addBinding (cf_env demo_conf) ''email'' ''bob@example.com'' ''@bob:hs'' 1000
      fresh_state)"
    using demo_bound by (simp add: demo_conf_def demo_post_read)
  show "demo_hash = ev_hash (cf_env demo_conf)
      (hash_input (normalise_address ''bob@example.com'' ''email'') ''email'' (cf_lookup_pepper demo_conf))"
    by code_simp
  have "map g_mxid (g_rows (known (sv_identity bound_server))) = [''@bob:hs'']" by code_simp
  then show "\<forall>r \<in> set (g_rows (known (sv_identity bound_server))).
      valid_at 1001 r \<and> g_lookup_hash r = Some demo_hash \<longrightarrow> g_mxid r = ''@bob:hs''"
    by (auto simp: map_eq_Cons_conv)
  have a: "isr (authV2 (cf_terms demo_conf) (demo_lookup [demo_hash]) True (sv_accounts bound_server))" by code_simp
  have w: "wants_json (demo_lookup [demo_hash])" by code_simp
  show "hashed_lookup demo_conf (demo_lookup [demo_hash]) [demo_hash] bound_server"
    unfolding hashed_lookup_def using a w by (simp add: demo_conf_def demo_post_read)
qed (simp_all add: THREEPID_ASSOCIATION_LIFETIME_MS_def)

end
