(* ===== verification/Verify_Servlets.thy ===== *)
theory Verify_Servlets
  imports Lookup_Servlets
begin

text \<open>
  The handlers with which a user proves to own an address: \<open>emailservlet.py\<close> and
  \<open>msisdnservlet.py\<close> under \<open>sydent/http/servlets/\<close>, asking for a token and submitting it. Sending
  a text message suspends the handler; it is modelled as one step.
\<close>

section \<open>Reading arguments\<close>

text \<open>\<open>int(v)\<close> of a decoded value; both exceptions are caught by the callers.\<close>

definition json_int :: "server_conf \<Rightarrow> json \<Rightarrow> int option" where
  "json_int cf v =
     (case v of
        JInt i \<Rightarrow> Some i
      | JBool b \<Rightarrow> Some (if b then 1 else 0)
      | JFloat t \<Rightarrow> Some (cf_float_int cf t)
      | JStr s \<Rightarrow> py_int s
      | _ \<Rightarrow> None)"

definition bad_attempt :: "server_conf \<Rightarrow> json \<Rightarrow> reply" where
  "bad_attempt cf v = (400, err_body ''M_INVALID_PARAM'' (''send_attempt should be an integer (got '' @
     (case py_str v of Some t \<Rightarrow> t | None \<Rightarrow> cf_repr cf v)))"

definition json_len :: "json \<Rightarrow> nat res" where
  "json_len v = (case v of JStr s \<Rightarrow> Inr (length s) | JArr l \<Rightarrow> Inr (length l) | JObj d \<Rightarrow> Inr (length d)
     | _ \<Rightarrow> Inl TypeError)"

definition json_startswith :: "json \<Rightarrow> string \<Rightarrow> bool res" where
  "json_startswith v p = (case v of JStr s \<Rightarrow> Inr (startswith s p) | _ \<Rightarrow> Inl AttributeError)"

definition limit_sender :: "string \<Rightarrow> string option \<Rightarrow> unit handler" where
  "limit_sender key error s =
     (case ratelimit key error (sv_email_rl s) of (r, rl) \<Rightarrow> (r, s\<lparr>sv_email_rl := rl\<rparr>))"

section \<open>E-mail\<close>

definition request_mail ::
    "server_conf \<Rightarrow> int \<Rightarrow> nat \<Rightarrow> (nat \<Rightarrow> nat) \<Rightarrow> string \<Rightarrow> string \<Rightarrow> int \<Rightarrow> string option \<Rightarrow> string option \<Rightarrow>
     string option \<Rightarrow> reply handler" where
  "request_mail cf now rnd r email clientSecret sendAttempt nextLink ipaddress brand s =
     (case email_requestToken (cf_email cf) email clientSecret sendAttempt nextLink ipaddress brand now rnd r
             (sv_sessions s) of
        (res, db, mails) \<Rightarrow>
          (let s' = s\<lparr>sv_sessions := db, sv_mails := sv_mails s @ mails\<rparr> in
           case res of
             Inr sid \<Rightarrow> (Inr (ok_reply [(''sid'', JStr (show_int sid))]), s')
           | Inl EmailAddressException \<Rightarrow> (Inr (400, err_body ''M_INVALID_EMAIL'' ''Invalid email address''), s')
           | Inl EmailSendException \<Rightarrow> (Inr (500, err_body ''M_EMAIL_SEND_ERROR'' ''Failed to send email''), s')
           | Inl ex \<Rightarrow> (Inl ex, s')))"

text \<open>The handler after its rate limit, and the whole handler.\<close>

definition email_request_args ::
    "server_conf \<Rightarrow> string option \<Rightarrow> int \<Rightarrow> nat \<Rightarrow> (nat \<Rightarrow> nat) \<Rightarrow> request \<Rightarrow> reply handler" where
  "email_request_args cf ipaddress now rnd r req =
     bindM (liftR (get_args req [''email'', ''client_secret'', ''send_attempt''] True)) (\<lambda>args.
     bindM (liftR (json_index args ''email'')) (\<lambda>email.
     bindM (liftR (json_index args ''client_secret'')) (\<lambda>secret.
     bindM (liftR (json_index args ''send_attempt'')) (\<lambda>attempt.
     case json_int cf attempt of
       None \<Rightarrow> ret (bad_attempt cf attempt)
     | Some sendAttempt \<Rightarrow>
         bindM (liftR (client_secret_of secret)) (\<lambda>cs.
         case cs of
           None \<Rightarrow> ret (400, err_body ''M_INVALID_PARAM'' ''Invalid client_secret provided'')
         | Some clientSecret \<Rightarrow>
             bindM (liftR (json_len email)) (\<lambda>n.
             if \<not> (0 < n \<and> n \<le> MAX_EMAIL_ADDRESS_LENGTH)
             then ret (400, err_body ''M_INVALID_PARAM'' ''Invalid email provided'')
             else
               bindM (liftR (brand_from_request req)) (\<lambda>brand.
               bindM (liftR (bindR (json_in ''next_link'' args) (\<lambda>given.
                  if \<not> given then Inr None
                  else bindR (json_index args ''next_link'') (\<lambda>l. bindR (json_startswith l ''file:///'') (\<lambda>file.
                    if file then Inr None else bindR (text_value l) (\<lambda>t. Inr (Some t))))))) (\<lambda>nextLink.
               bindM (liftR (text_value email)) (\<lambda>address.
               request_mail cf now rnd r address clientSecret sendAttempt nextLink ipaddress brand)))))))))"

definition email_request_render_POST ::
    "server_conf \<Rightarrow> bool \<Rightarrow> string option \<Rightarrow> int \<Rightarrow> nat \<Rightarrow> (nat \<Rightarrow> nat) \<Rightarrow> request \<Rightarrow> reply handler" where
  "email_request_render_POST cf require_auth client now rnd r req =
     (let ipaddress = ip_from_request (cf_obey_x_forwarded_for cf) client req in
      bindM (if require_auth then bindM (auth cf req) (\<lambda>account. limit_sender (ac_userId account) None)
             else case ipaddress of None \<Rightarrow> ret () | Some ip \<Rightarrow> if ip = [] then ret () else limit_sender ip None)
        (\<lambda>_. email_request_args cf ipaddress now rnd r (after_auth require_auth req)))"

text \<open>
  \<open>do_validate_request\<close>: the statuses of the failures differ between the two servlets. A
  token that is not text equals no stored token.
\<close>

definition validate_json_token ::
    "int \<Rightarrow> string \<Rightarrow> json \<Rightarrow> int \<Rightarrow> session_db \<Rightarrow> bool res \<times> session_db" where
  "validate_json_token sid clientSecret token now db =
     (case token of
        JStr t \<Rightarrow> validateSessionWithToken sid clientSecret t now db
      | _ \<Rightarrow> (case validateSessionWithToken sid clientSecret [] now db of
               (Inr _, _) \<Rightarrow> (Inl IncorrectSessionTokenException, db) | r \<Rightarrow> r))"

definition failure :: "string \<Rightarrow> string \<Rightarrow> json" where
  "failure code msg = JObj [(''success'', JBool False), (''errcode'', JStr code), (''error'', JStr msg)]"

definition validate_reply :: "int \<Rightarrow> int \<Rightarrow> bool res \<Rightarrow> reply res" where
  "validate_reply bad unmatched r =
     (case r of
        Inr b \<Rightarrow> Inr (ok_reply [(''success'', JBool b)])
      | Inl IncorrectClientSecretException \<Rightarrow> Inr (bad, failure ''M_INVALID_PARAM''
          ''Client secret does not match the one given when requesting the token'')
      | Inl SessionExpiredException \<Rightarrow> Inr (bad, failure ''M_SESSION_EXPIRED''
          ''This validation session has expired: call requestToken again'')
      | Inl InvalidSessionIdException \<Rightarrow> Inr (bad, failure ''M_INVALID_PARAM'' (''The token doesn'' @ [CHR 0x27] @ ''t match''))
      | Inl IncorrectSessionTokenException \<Rightarrow> Inr (unmatched, failure ''M_NO_VALID_SESSION''
          ''No session could be found with this sid'')
      | Inl ex \<Rightarrow> Inl ex)"

definition do_validate_request :: "int \<Rightarrow> int \<Rightarrow> int \<Rightarrow> request \<Rightarrow> reply handler" where
  "do_validate_request bad unmatched now req =
     bindM (liftR (get_args req [''token'', ''sid'', ''client_secret''] True)) (\<lambda>args.
     bindM (liftR (json_index args ''sid'')) (\<lambda>sid.
     bindM (liftR (json_index args ''token'')) (\<lambda>tokenString.
     bindM (liftR (json_index args ''client_secret'')) (\<lambda>secret.
     bindM (liftR (client_secret_of secret)) (\<lambda>cs.
     case cs of
       None \<Rightarrow> ret (400, err_body ''M_INVALID_PARAM'' ''Invalid client_secret provided'')
     | Some clientSecret \<Rightarrow>
         bindM (liftR (sql_int sid)) (\<lambda>i.
         on_sessions (\<lambda>db.
           case (case i of None \<Rightarrow> (Inl InvalidSessionIdException, db)
                 | Some n \<Rightarrow> validate_json_token n clientSecret tokenString now db) of
             (r, db') \<Rightarrow> (validate_reply bad unmatched r, db'))))))))"

definition email_validate_render_POST :: "server_conf \<Rightarrow> bool \<Rightarrow> int \<Rightarrow> request \<Rightarrow> reply handler" where
  "email_validate_render_POST cf require_auth now req =
     bindM (auth_if require_auth cf req) (\<lambda>_. do_validate_request 200 200 now (after_auth require_auth req))"

text \<open>Pages for a browser: the status, the redirection and the text.\<close>

record page =
  pg_status :: int
  pg_location :: "json option"
  pg_text :: string

definition succeeded :: "reply \<Rightarrow> bool" where
  "succeeded rep = (case snd rep of JObj d \<Rightarrow> dict_get d ''success'' = Some (JBool True) | _ \<Rightarrow> False)"

definition response_page :: "server_conf \<Rightarrow> request \<Rightarrow> string \<Rightarrow> string res" where
  "response_page cf req msg =
     bindR (brand_from_request req) (\<lambda>brand.
       let templateFile = (case cf_verify_response_template cf of
           None \<Rightarrow> get_branded_template (ec_general (cf_email cf)) brand ''verify_response_template.html''
         | Some t \<Rightarrow> t)
       in case me_files (ec_mail (cf_email cf)) templateFile of
            None \<Rightarrow> Inl GenericException
          | Some text \<Rightarrow> percent_format text [(''message'', msg)])"

definition email_validate_render_GET :: "server_conf \<Rightarrow> int \<Rightarrow> request \<Rightarrow> page handler" where
  "email_validate_render_GET cf now req =
     bindM (liftR (get_args req [''nextLink''] False)) (\<lambda>args. (\<lambda>s.
       case do_validate_request 200 200 now (after_args req) s of
         (resp, s') \<Rightarrow>
           (let ok = (case resp of Inr rep \<Rightarrow> succeeded rep | Inl _ \<Rightarrow> False);
                status = (case resp of Inr rep \<Rightarrow> fst rep | Inl _ \<Rightarrow> 200);
                msg = (if ok then ''Verification successful! Please return to your Matrix client to continue.''
                       else ''Verification failed: you may need to request another verification email'')
            in bindM (liftR (if ok then
                   bindR (json_in ''nextLink'' args) (\<lambda>given.
                     if \<not> given then Inr None
                     else bindR (json_index args ''nextLink'') (\<lambda>l. bindR (json_startswith l ''file:///'') (\<lambda>file.
                       Inr (if file then None else Some l))))
                 else Inr None)) (\<lambda>location.
               bindM (liftR (response_page cf req msg)) (\<lambda>text.
               ret \<lparr>pg_status = (if location \<noteq> None then 302 else status), pg_location = location, pg_text = text\<rparr>)) s')))"

section \<open>Text messages\<close>

definition limit_msisdn :: "bool \<Rightarrow> string \<Rightarrow> unit handler" where
  "limit_msisdn v msisdn s =
     (case ratelimit msisdn (Some ''Limit exceeded for this number'') (sv_msisdn_rl s v) of
        (r, rl) \<Rightarrow> (r, s\<lparr>sv_msisdn_rl := (sv_msisdn_rl s)(v := rl)\<rparr>))"

definition limit_country :: "bool \<Rightarrow> int \<Rightarrow> unit handler" where
  "limit_country v code s =
     (case ratelimit code (Some ''Limit exceeded for this country'') (sv_country_rl s v) of
        (r, rl) \<Rightarrow> (r, s\<lparr>sv_country_rl := (sv_country_rl s)(v := rl)\<rparr>))"

definition request_sms ::
    "server_conf \<Rightarrow> int \<Rightarrow> nat \<Rightarrow> (nat \<Rightarrow> nat) \<Rightarrow> phone_number \<Rightarrow> string \<Rightarrow> string \<Rightarrow> int \<Rightarrow> reply handler" where
  "request_sms cf now rnd r phone intl_fmt clientSecret sendAttempt s =
     (case msisdn_requestToken (cf_sms cf) (cf_send_sms cf) phone clientSecret sendAttempt now rnd r (sv_sessions s) of
        (res, db, smses) \<Rightarrow>
          (let s' = s\<lparr>sv_sessions := db, sv_smses := sv_smses s @ smses\<rparr> in
           case res of
             Inr sid \<Rightarrow> (Inr (ok_reply [(''success'', JBool True), (''sid'', JStr (show_int sid)),
               (''msisdn'', JStr (pn_msisdn phone)), (''intl_fmt'', JStr intl_fmt)]), s')
           | Inl DestinationRejectedException \<Rightarrow> (Inr (400, err_body ''M_DESTINATION_REJECTED''
               ''Phone numbers in this country are not currently supported''), s')
           | Inl _ \<Rightarrow> (Inr (500, err_body ''M_UNKNOWN'' ''Internal Server Error''), s')))"

definition msisdn_request_render_POST ::
    "server_conf \<Rightarrow> bool \<Rightarrow> int \<Rightarrow> nat \<Rightarrow> (nat \<Rightarrow> nat) \<Rightarrow> request \<Rightarrow> reply handler" where
  "msisdn_request_render_POST cf require_auth now rnd r req =
     bindM (auth_if require_auth cf req) (\<lambda>_.
     bindM (liftR (get_args (after_auth require_auth req) [''phone_number'', ''country'', ''client_secret'', ''send_attempt''] True)) (\<lambda>args.
     bindM (liftR (json_index args ''phone_number'')) (\<lambda>raw_phone_number.
     bindM (liftR (json_index args ''country'')) (\<lambda>country.
     bindM (liftR (json_index args ''send_attempt'')) (\<lambda>attempt.
     case json_int cf attempt of
       None \<Rightarrow> ret (bad_attempt cf attempt)
     | Some sendAttempt \<Rightarrow>
         bindM (liftR (json_index args ''client_secret'')) (\<lambda>secret.
         bindM (liftR (client_secret_of secret)) (\<lambda>cs.
         case cs of
           None \<Rightarrow> ret (400, err_body ''M_INVALID_PARAM'' ''Invalid client_secret provided'')
         | Some clientSecret \<Rightarrow>
             (case cf_parse_phone cf raw_phone_number country of
                Inl _ \<Rightarrow> ret (400, err_body ''M_INVALID_PHONE_NUMBER'' ''Invalid phone number'')
              | Inr (phone, intl_fmt) \<Rightarrow>
                  bindM (limit_msisdn require_auth (pn_msisdn phone)) (\<lambda>_.
                  bindM (limit_country require_auth (pn_country_code phone)) (\<lambda>_.
                  bindM (liftR (brand_from_request req)) (\<lambda>_.
                  request_sms cf now rnd r phone intl_fmt clientSecret sendAttempt)))))))))))"

definition msisdn_validate_render_POST :: "server_conf \<Rightarrow> bool \<Rightarrow> int \<Rightarrow> request \<Rightarrow> reply handler" where
  "msisdn_validate_render_POST cf require_auth now req =
     bindM (auth_if require_auth cf req) (\<lambda>_. do_validate_request 400 404 now (after_auth require_auth req))"

text \<open>The page for a browser, which this servlet returns as text instead of bytes.\<close>

definition msisdn_validate_render_GET :: "server_conf \<Rightarrow> int \<Rightarrow> request \<Rightarrow> page handler" where
  "msisdn_validate_render_GET cf now req =
     bindM (liftR (get_args req [''token'', ''sid'', ''client_secret''] True)) (\<lambda>args.
     bindM (do_validate_request 400 404 now (after_args req)) (\<lambda>resp.
     let ok = succeeded resp;
         msg = (if ok then ''Verification successful! Please return to your Matrix client to continue.''
                else ''Verification failed: you may need to request another verification text'')
     in bindM (liftR (if ok then bindR (json_in ''next_link'' args) (\<lambda>given.
                 if given then bindR (json_index args ''next_link'') (\<lambda>l. Inr (Some l)) else Inr None)
               else Inr None)) (\<lambda>location.
        bindM (liftR (response_page cf req msg)) (\<lambda>text.
        ret \<lparr>pg_status = (if \<not> ok then 400 else if location \<noteq> None then 302 else 200), pg_location = location,
             pg_text = text\<rparr>))))"

section \<open>Lemmas\<close>

text \<open>When a component of the state changed, the steps that keep it were passed with a value.\<close>

lemma liftR_keeps:
  assumes "bindM (liftR x) f s = (r, s')" and "p s' \<noteq> p s"
  obtains y where "x = Inr y" and "f y s = (r, s')"
proof -
  have "s' \<noteq> s" using assms(2) by auto
  from liftR_changed [OF assms(1) this] that show ?thesis .
qed

lemma limit_sender_eq:
  "limit_sender key error s =
     (if current_tokens key (sv_email_rl s) < rl_burst (sv_email_rl s)
      then (Inr (), s\<lparr>sv_email_rl := (sv_email_rl s)\<lparr>rl_buckets :=
             dict_set (rl_buckets (sv_email_rl s)) key (current_tokens key (sv_email_rl s) + 1)\<rparr>\<rparr>)
      else (Inl (LimitExceededException (Some (case error of None \<Rightarrow> ''Too many requests'' | Some e \<Rightarrow> e))), s))"
  by (simp add: limit_sender_def ratelimit_def Let_def not_less)

lemma email_requestToken_mails:
  assumes "email_requestToken ec a c n l ip brand now rnd r db = (res, db', mails)"
  shows "length mails \<le> 1" and "\<forall>m \<in> set mails. sm_to m = a"
proof -
  have "length mails' \<le> 1 \<and> (\<forall>m \<in> set mails'. sm_to m = a)"
    if "sendEmail me now t a subs = (q, mails')" for me t subs q mails'
    using that by (auto simp: sendEmail_def Let_def split: sum.splits if_splits smtp_outcome.splits)
  with assms have "length mails \<le> 1 \<and> (\<forall>m \<in> set mails. sm_to m = a)"
    by (auto simp: email_requestToken_def Let_def split: prod.splits sum.splits if_splits)
  then show "length mails \<le> 1" "\<forall>m \<in> set mails. sm_to m = a" by auto
qed

lemma request_mail_frame:
  assumes "request_mail cf now rnd r a c n l ip brand s = (q, s')"
  obtains mails where "sv_mails s' = sv_mails s @ mails" "length mails \<le> 1" "\<forall>m \<in> set mails. sm_to m = a"
    "sv_email_rl s' = sv_email_rl s" "sv_identity s' = sv_identity s" "sv_accounts s' = sv_accounts s"
proof -
  obtain res db mails where e: "email_requestToken (cf_email cf) a c n l ip brand now rnd r (sv_sessions s) = (res, db, mails)"
    by (cases "email_requestToken (cf_email cf) a c n l ip brand now rnd r (sv_sessions s)") auto
  with assms have "s' = s\<lparr>sv_sessions := db, sv_mails := sv_mails s @ mails\<rparr>"
    by (auto simp: request_mail_def Let_def split: sum.splits exn.splits)
  with email_requestToken_mails [OF e] that show ?thesis by simp
qed

lemma email_request_args_mail:
  assumes "email_request_args cf ip now rnd r req s = (q, s')" and "sv_mails s' \<noteq> sv_mails s"
  obtains args address m where "get_args req [''email'', ''client_secret'', ''send_attempt''] True = Inr args"
    "json_index args ''email'' = Inr (JStr address)" "0 < length address" "length address \<le> MAX_EMAIL_ADDRESS_LENGTH"
    "sv_mails s' = sv_mails s @ [m]" "sm_to m = address" "sv_email_rl s' = sv_email_rl s"
proof -
  have "s' \<noteq> s" using assms(2) by auto
  with assms(1) obtain args address c n l brand where a:
    "get_args req [''email'', ''client_secret'', ''send_attempt''] True = Inr args"
    "json_index args ''email'' = Inr (JStr address)" "0 < length address" "length address \<le> MAX_EMAIL_ADDRESS_LENGTH"
    "request_mail cf now rnd r address c n l ip brand s = (q, s')"
    unfolding email_request_args_def
    by (auto simp: json_len_def elim!: liftR_changed split: option.splits if_splits)
  obtain mails where m: "sv_mails s' = sv_mails s @ mails" "length mails \<le> 1" "\<forall>m \<in> set mails. sm_to m = address"
    "sv_email_rl s' = sv_email_rl s"
    by (rule request_mail_frame [OF a(5)])
  with assms(2) obtain m0 where "mails = [m0]" by (cases mails) auto
  with m a that show ?thesis by simp
qed

lemma current_tokens_set:
  "current_tokens k (rl\<lparr>rl_buckets := dict_set (rl_buckets rl) key n\<rparr>) = (if k = key then n else current_tokens k rl)"
  by (simp add: current_tokens_def)

section \<open>Properties\<close>

text \<open>Who a request for a token is counted for: the authenticated user, and on the API without
  authentication the address the request came from, if that is known and not empty.\<close>

definition limited_sender :: "server_conf \<Rightarrow> bool \<Rightarrow> string option \<Rightarrow> request \<Rightarrow> server_state \<Rightarrow> string option" where
  "limited_sender cf require_auth client req s =
     (if require_auth
      then (case authV2 (cf_terms cf) req True (sv_accounts s) of Inl _ \<Rightarrow> None | Inr a \<Rightarrow> Some (ac_userId a))
      else (case ip_from_request (cf_obey_x_forwarded_for cf) client req of
              None \<Rightarrow> None | Some ip \<Rightarrow> if ip = [] then None else Some ip))"

lemma limit_sender_run:
  assumes "bindM (limit_sender k e) f s = (q, s')" and "sv_mails s' \<noteq> sv_mails s"
  obtains s1 where "f () s1 = (q, s')" "sv_mails s1 = sv_mails s"
    "current_tokens k (sv_email_rl s) < rl_burst (sv_email_rl s)"
    "\<forall>j. current_tokens j (sv_email_rl s1) = current_tokens j (sv_email_rl s) + (if j = k then 1 else 0)"
proof -
  let ?s1 = "s\<lparr>sv_email_rl := (sv_email_rl s)\<lparr>rl_buckets :=
      dict_set (rl_buckets (sv_email_rl s)) k (current_tokens k (sv_email_rl s) + 1)\<rparr>\<rparr>"
  have "f () ?s1 = (q, s')" "current_tokens k (sv_email_rl s) < rl_burst (sv_email_rl s)"
    using assms by (auto simp: bindM_def limit_sender_eq split: if_splits)
  with that [of ?s1] show thesis by (simp add: current_tokens_set)
qed

lemma bindM_auth_run:
  assumes "bindM (bindM (auth cf req) g) f s = (q, s')" and "s' \<noteq> s"
  obtains a where "authV2 (cf_terms cf) req True (sv_accounts s) = Inr a" and "bindM (g a) f s = (q, s')"
  using assms by (cases "authV2 (cf_terms cf) req True (sv_accounts s)") (simp_all add: bindM_def auth_def)

text \<open>What the limiter has done by the time the arguments are read.\<close>

definition limited_start ::
    "server_conf \<Rightarrow> bool \<Rightarrow> string option \<Rightarrow> request \<Rightarrow> server_state \<Rightarrow> server_state \<Rightarrow> bool" where
  "limited_start cf b client req s s1 =
     (sv_mails s1 = sv_mails s \<and> (b \<longrightarrow> isr (authV2 (cf_terms cf) req True (sv_accounts s))) \<and>
      (\<forall>k. limited_sender cf b client req s = Some k \<longrightarrow> current_tokens k (sv_email_rl s) < rl_burst (sv_email_rl s)) \<and>
      (\<forall>k. current_tokens k (sv_email_rl s1) =
        current_tokens k (sv_email_rl s) + (if limited_sender cf b client req s = Some k then 1 else 0)))"

lemma sent_after_limit:
  assumes "email_request_render_POST cf b client now rnd r req s = (q, s')" and "sv_mails s' \<noteq> sv_mails s"
  obtains s1 where "email_request_args cf (ip_from_request (cf_obey_x_forwarded_for cf) client req) now rnd r
      (after_auth b req) s1 = (q, s')" and "limited_start cf b client req s s1"
proof -
  let ?ip = "ip_from_request (cf_obey_x_forwarded_for cf) client req"
  let ?f = "\<lambda>_::unit. email_request_args cf ?ip now rnd r (after_auth b req)"
  have ne: "s' \<noteq> s" using assms(2) by auto
  show thesis
  proof (cases "limited_sender cf b client req s")
    case None
    show ?thesis
    proof (cases b)
      case True
      with assms(1) ne show ?thesis
        using None by (auto simp: email_request_render_POST_def limited_sender_def elim!: bindM_auth_run split: sum.splits)
    next
      case False
      with assms(1) None have "?f () s = (q, s')"
        by (auto simp: email_request_render_POST_def limited_sender_def bindM_def ret_def split: option.splits if_splits)
      with that False None show ?thesis by (auto simp: limited_start_def)
    qed
  next
    case (Some k)
    have "bindM (limit_sender k None) ?f s = (q, s') \<and> (b \<longrightarrow> isr (authV2 (cf_terms cf) req True (sv_accounts s)))"
    proof (cases b)
      case True
      with assms(1) have "bindM (bindM (auth cf req) (\<lambda>account. limit_sender (ac_userId account) None)) ?f s = (q, s')"
        by (simp add: email_request_render_POST_def Let_def)
      then obtain a where "authV2 (cf_terms cf) req True (sv_accounts s) = Inr a"
        "bindM (limit_sender (ac_userId a) None) ?f s = (q, s')"
        using ne by (rule bindM_auth_run)
      with True Some show ?thesis by (simp add: limited_sender_def)
    next
      case False
      with assms(1) Some show ?thesis
        by (auto simp: email_request_render_POST_def limited_sender_def split: option.splits if_splits)
    qed
    then have run: "bindM (limit_sender k None) ?f s = (q, s')"
      and auth: "b \<longrightarrow> isr (authV2 (cf_terms cf) req True (sv_accounts s))" by simp_all
    obtain s1 where s1: "?f () s1 = (q, s')" "sv_mails s1 = sv_mails s"
      "current_tokens k (sv_email_rl s) < rl_burst (sv_email_rl s)"
      "\<forall>j. current_tokens j (sv_email_rl s1) = current_tokens j (sv_email_rl s) + (if j = k then 1 else 0)"
      by (rule limit_sender_run [OF run assms(2)])
    have "limited_start cf b client req s s1" using s1(2-4) auth Some by (auto simp: limited_start_def)
    with that s1(1) show ?thesis by simp
  qed
qed


text \<open>A request on the API without authentication whose address is not known, or is given as empty by a proxy that is
  trusted, goes straight to the sending: the limiter is neither asked nor changed.\<close>

lemma email_request_unlimited:
  "ip_from_request (cf_obey_x_forwarded_for cf) client req \<in> {None, Some []} \<Longrightarrow>
   email_request_render_POST cf False client now rnd r req =
     email_request_args cf (ip_from_request (cf_obey_x_forwarded_for cf) client req) now rnd r req"
  by (auto simp: email_request_render_POST_def bindM_def ret_def fun_eq_iff)

abbreviation demo_mail_req :: request where
  "demo_mail_req \<equiv> demo_post [(''email'', JStr ''bob@example.com''), (''client_secret'', JStr ''sec''),
     (''send_attempt'', JInt 1)]"

abbreviation demo_mailed :: "reply res \<times> server_state" where
  "demo_mailed \<equiv> email_request_render_POST demo_conf True None 1000 5 (\<lambda>_. 0) demo_mail_req
     (demo_server\<lparr>sv_sessions := empty_sessions\<rparr>)"

text \<open>The same request without authentication, from an address.\<close>

abbreviation demo_mailed_v1 :: "reply res \<times> server_state" where
  "demo_mailed_v1 \<equiv> email_request_render_POST demo_conf False (Some ''10.0.0.1'') 1000 5 (\<lambda>_. 0) demo_mail_req
     (demo_server\<lparr>sv_sessions := empty_sessions\<rparr>)"


lemma validate_json_token_changed:
  assumes "validate_json_token sid c tok now db = (r, db')" and "db' \<noteq> db"
  obtains v info t where "tok = JStr t" "getTokenSessionById sid db = Some (v, info)" "vs_client_secret v = c"
    "ti_token info = t" "now \<le> vs_mtime v + THREEPID_SESSION_VALIDATION_TIMEOUT_MS" "r = Inr True"
    "db' = setValidated (vs_id v) True db"
  using assms
  by (auto simp: validate_json_token_def validateSessionWithToken_def
      split: json.splits option.splits if_splits)

lemma on_sessions_changed:
  assumes "on_sessions m s = (r, s')" and "s' \<noteq> s"
  obtains db where "m (sv_sessions s) = (r, db)" and "db \<noteq> sv_sessions s" and "s' = s\<lparr>sv_sessions := db\<rparr>"
proof -
  obtain db where m: "m (sv_sessions s) = (r, db)" "s' = s\<lparr>sv_sessions := db\<rparr>"
    using assms(1) by (auto simp: on_sessions_def split: prod.splits)
  with assms(2) have "db \<noteq> sv_sessions s" by (cases s) auto
  with m that show ?thesis by blast
qed

text \<open>C30: submitting a token validates exactly its session. If a submission (of either kind, with its own statuses for
  failures) changes anything, then it named a session by its identifier, gave the
  session's client secret and its stored token in time; it reports success, and the one change is that this
  session is validated. Every other submission leaves the state as it is.\<close>

theorem submit_token_exact:
  assumes "do_validate_request bad unmatched now req s = (q, s')" and "s' \<noteq> s"
  shows "\<exists>args sid i cs v info. get_args req [''token'', ''sid'', ''client_secret''] True = Inr args \<and>
     json_index args ''sid'' = Inr sid \<and> sql_int sid = Inr (Some i) \<and>
     json_index args ''client_secret'' = Inr (JStr cs) \<and> json_index args ''token'' = Inr (JStr (ti_token info)) \<and>
     getTokenSessionById i (sv_sessions s) = Some (v, info) \<and> vs_client_secret v = cs \<and>
     now \<le> vs_mtime v + THREEPID_SESSION_VALIDATION_TIMEOUT_MS \<and>
     q = Inr (ok_reply [(''success'', JBool True)]) \<and>
     s' = s\<lparr>sv_sessions := setValidated (vs_id v) True (sv_sessions s)\<rparr>"
  using assms unfolding do_validate_request_def
  by (auto simp: client_secret_of_Some validate_reply_def elim!: liftR_changed on_sessions_changed validate_json_token_changed
      split: option.splits prod.splits)

abbreviation demo_submit :: request where
  "demo_submit \<equiv> demo_post [(''token'', JStr (replicate 32 CHR ''0'')), (''sid'', JStr ''5''), (''client_secret'', JStr ''sec'')]"

theorem submit_token_exact_witness:
  "fst (do_validate_request 200 200 2000 demo_submit (snd demo_mailed)) = Inr (ok_reply [(''success'', JBool True)])"
proof -
  have "map vs_validated (sd_sessions (sv_sessions (snd demo_mailed))) = [False]" by code_simp
  moreover have "map vs_validated (sd_sessions (sv_sessions
      (snd (do_validate_request 200 200 2000 demo_submit (snd demo_mailed))))) = [True]" by code_simp
  ultimately have "snd (do_validate_request 200 200 2000 demo_submit (snd demo_mailed)) \<noteq> snd demo_mailed"
    by (metis list.inject)
  from submit_token_exact [OF surjective_pairing this] show ?thesis by auto
qed

text \<open>the two servlets tell the causes apart the wrong way round: an unknown session is reported as a token that does
  not match, and a wrong token as a session that cannot be found.\<close>

theorem swapped_error_texts:
  "fst (do_validate_request 400 404 2000
      (demo_post [(''token'', JStr ''x''), (''sid'', JStr ''6''), (''client_secret'', JStr ''sec'')]) (snd demo_mailed)) =
     Inr (400, failure ''M_INVALID_PARAM'' (''The token doesn'' @ [CHR 0x27] @ ''t match'')) \<and>
   fst (do_validate_request 400 404 2000
      (demo_post [(''token'', JStr ''x''), (''sid'', JStr ''5''), (''client_secret'', JStr ''sec'')]) (snd demo_mailed)) =
     Inr (404, failure ''M_NO_VALID_SESSION'' ''No session could be found with this sid'')"
  by code_simp

end
