(* ===== verification/Register_Servlet.thy ===== *)
theory Register_Servlet
  imports Lookup_Servlets
begin

text \<open>
  \<open>sydent/http/servlets/registerservlet.py\<close>: obtaining an access token with an OpenID token of a homeserver.
  The handler suspends while it asks the homeserver who the user is, so it is two
  parts: \<open>register_start\<close> gives a response or the address to fetch, \<open>register_finish\<close> takes
  what the homeserver answered.
\<close>

datatype register_step = Answer reply | FetchUserinfo (fetch_server: string) (fetch_url: string)

definition register_start :: "server_conf \<Rightarrow> request \<Rightarrow> register_step res" where
  "register_start cf req =
     bindR (get_args req [''matrix_server_name'', ''access_token''] True) (\<lambda>args.
     bindR (json_index args ''matrix_server_name'') (\<lambda>name.
     bindR (case name of JStr n \<Rightarrow> Inr (str_lower n) | _ \<Rightarrow> Inl AttributeError) (\<lambda>matrix_server.
     if cf_homeserver_allow_list cf \<noteq> [] \<and> matrix_server \<notin> set (cf_homeserver_allow_list cf)
     then Inr (Answer (403, err_body ''M_UNAUTHORIZED'' ''This homeserver is not authorized to access this server.''))
     else
       bindR (is_valid_matrix_server_name (ev_isIPAddress (cf_env cf)) (ev_isIPv6Address (cf_env cf)) matrix_server) (\<lambda>valid.
       if \<not> valid
       then Inr (Answer (400, err_body ''M_INVALID_PARAM''
         ''matrix_server_name must be a valid Matrix server name (IP address or hostname)''))
       else
         bindR (json_index args ''access_token'') (\<lambda>t.
         bindR (text_value t) (\<lambda>access_token.
         Inr (FetchUserinfo matrix_server (''matrix://'' @ matrix_server @
           ''/_matrix/federation/v1/openid/userinfo?access_token='' @ quote access_token))))))))"

definition federation_request_problem :: "string \<Rightarrow> reply" where
  "federation_request_problem error = (500, err_body ''M_UNKNOWN'' error)"

text \<open>The user the answer names, if it is one of the server that was asked.\<close>

definition userinfo_sub :: "server_conf \<Rightarrow> string \<Rightarrow> json \<Rightarrow> (reply + string) res" where
  "userinfo_sub cf matrix_server result =
     bindR (json_in ''sub'' result) (\<lambda>present.
     if \<not> present
     then Inr (Inl (federation_request_problem (''The Matrix homeserver did not include '' @ [CHR 0x27] @ ''sub'' @
            [CHR 0x27] @ '' in its response'')))
     else
       bindR (json_index result ''sub'') (\<lambda>sub.
       case sub of
         JStr user_id \<Rightarrow>
           (case split_once CHR '':'' user_id of
              (_, None) \<Rightarrow> Inr (Inl (federation_request_problem ''The Matrix homeserver returned an invalid MXID''))
            | (_, Some user_id_server) \<Rightarrow>
                bindR (is_valid_matrix_server_name (ev_isIPAddress (cf_env cf)) (ev_isIPv6Address (cf_env cf)) user_id_server)
                  (\<lambda>valid.
                  if \<not> valid
                  then Inr (Inl (federation_request_problem ''The Matrix homeserver returned an invalid MXID''))
                  else if user_id_server \<noteq> matrix_server
                  then Inr (Inl (federation_request_problem
                    ''The Matrix homeserver returned a MXID belonging to another homeserver''))
                  else Inr (Inr user_id)))
       | _ \<Rightarrow> Inr (Inl (federation_request_problem ''The Matrix homeserver returned a malformed reply''))))"

definition register_finish ::
    "server_conf \<Rightarrow> string \<Rightarrow> json res \<Rightarrow> int \<Rightarrow> (nat \<Rightarrow> nat) \<Rightarrow> reply handler" where
  "register_finish cf matrix_server fetched now r =
     (case fetched of
        Inl ex \<Rightarrow>
          if ex \<in> {DNSLookupError, ConnectError, ResponseFailed}
          then ret (federation_request_problem (''Unable to contact the Matrix homeserver ('' @ exn_name ex @ '')''))
          else if ex = JSONDecodeError
          then ret (federation_request_problem ''The Matrix homeserver returned invalid JSON'')
          else raise ex
      | Inr result \<Rightarrow>
          bindM (liftR (userinfo_sub cf matrix_server result)) (\<lambda>u.
          case u of
            Inl rep \<Rightarrow> ret rep
          | Inr user_id \<Rightarrow>
              bindM (on_accounts (issueToken user_id now r)) (\<lambda>tok.
              ret (ok_reply [(''access_token'', JStr tok), (''token'', JStr tok)]))))"

section \<open>Lemmas\<close>

lemma userinfo_sub_user:
  assumes "userinfo_sub cf server result = Inr (Inr u)"
  obtains l where "json_index result ''sub'' = Inr (JStr u)" and "split_once CHR '':'' u = (l, Some server)"
proof -
  obtain sub where sub: "json_index result ''sub'' = Inr sub"
    using assms by (cases "json_index result ''sub''") (auto simp: userinfo_sub_def bindR_eq_Inr split: if_splits)
  obtain user where user: "sub = JStr user"
    using assms sub by (cases sub) (auto simp: userinfo_sub_def bindR_eq_Inr split: if_splits)
  obtain l rest where "split_once CHR '':'' user = (l, rest)" by fastforce
  with assms sub user that show ?thesis
    by (cases rest) (auto simp: userinfo_sub_def bindR_eq_Inr split: if_splits)
qed

lemma on_accounts_then_ret:
  "bindM (on_accounts m) (\<lambda>x. ret (g x)) s = (r, s') \<Longrightarrow> s' = s\<lparr>sv_accounts := snd (m (sv_accounts s))\<rparr>"
  by (auto simp: on_accounts_def bindM_def ret_def split: prod.splits sum.splits)

lemma register_finish_changed:
  assumes "register_finish cf server fetched now r s = (q, s')" and "s' \<noteq> s"
  obtains result u where "fetched = Inr result" "userinfo_sub cf server result = Inr (Inr u)"
    "s' = s\<lparr>sv_accounts := snd (issueToken u now r (sv_accounts s))\<rparr>"
  using assms unfolding register_finish_def
  by (auto elim!: liftR_changed dest!: on_accounts_then_ret intro: that split: sum.splits if_splits)

lemma register_start_fetch:
  assumes "register_start cf req = Inr (FetchUserinfo server url)"
  shows "(cf_homeserver_allow_list cf \<noteq> [] \<longrightarrow> server \<in> set (cf_homeserver_allow_list cf)) \<and>
    is_valid_matrix_server_name (ev_isIPAddress (cf_env cf)) (ev_isIPv6Address (cf_env cf)) server = Inr True \<and>
    (\<exists>tok. url = ''matrix://'' @ server @ ''/_matrix/federation/v1/openid/userinfo?access_token='' @ quote tok)"
  using assms unfolding register_start_def
  by (auto simp: bindR_eq_Inr split: if_splits json.splits)

section \<open>Properties\<close>

text \<open>C27: an account is created only on the word of the user's own homeserver. If a registration changes
  anything, then the server that was asked is a valid server name, is allowed where the administrator
  lists the allowed servers, and is the one in the address that was fetched; it answered
  with a user identifier whose server part is that very name; and the change is that a
  token is issued to that user.\<close>

theorem register_only_own_users:
  assumes "register_start cf req = Inr (FetchUserinfo server url)"
    and "register_finish cf server fetched now r s = (q, s')" and "s' \<noteq> s"
  shows "(cf_homeserver_allow_list cf \<noteq> [] \<longrightarrow> server \<in> set (cf_homeserver_allow_list cf)) \<and>
    is_valid_matrix_server_name (ev_isIPAddress (cf_env cf)) (ev_isIPv6Address (cf_env cf)) server = Inr True \<and>
    (\<exists>tok. url = ''matrix://'' @ server @ ''/_matrix/federation/v1/openid/userinfo?access_token='' @ quote tok) \<and>
    (\<exists>result localpart. fetched = Inr result \<and> CHR '':'' \<notin> set localpart \<and>
       json_index result ''sub'' = Inr (JStr (localpart @ '':'' @ server)) \<and>
       s' = s\<lparr>sv_accounts := snd (issueToken (localpart @ '':'' @ server) now r (sv_accounts s))\<rparr>)"
proof -
  obtain result u where u: "fetched = Inr result" "userinfo_sub cf server result = Inr (Inr u)"
    "s' = s\<lparr>sv_accounts := snd (issueToken u now r (sv_accounts s))\<rparr>"
    by (rule register_finish_changed [OF assms(2,3)])
  obtain localpart where sub: "json_index result ''sub'' = Inr (JStr u)"
    "split_once CHR '':'' u = (localpart, Some server)"
    by (rule userinfo_sub_user [OF u(2)])
  have "CHR '':'' \<notin> set localpart" "u = localpart @ '':'' @ server"
    using split_once_SomeD [OF sub(2)] by auto
  with u(1,3) sub(1) register_start_fetch [OF assms(1)] show ?thesis by auto
qed

abbreviation demo_register :: request where
  "demo_register \<equiv> demo_post [(''matrix_server_name'', JStr ''HS.example''), (''access_token'', JStr ''a b'')]"

lemma demo_register_start:
  "register_start demo_conf demo_register =
     Inr (FetchUserinfo ''hs.example'' ''matrix://hs.example/_matrix/federation/v1/openid/userinfo?access_token=a%20b'')"
  by code_simp

theorem register_only_own_users_witness:
  "\<exists>localpart. CHR '':'' \<notin> set localpart \<and> JStr ''@eve:hs.example'' = JStr (localpart @ '':hs.example'')"
proof -
  let ?out = "register_finish demo_conf ''hs.example'' (Inr (JObj [(''sub'', JStr ''@eve:hs.example'')])) 0 (\<lambda>_. 0) demo_server"
  have "length (ad_accounts (sv_accounts (snd ?out))) = 2" by code_simp
  then have "snd ?out \<noteq> demo_server" by (auto simp: demo_server_def)
  from register_only_own_users [OF demo_register_start surjective_pairing this] show ?thesis by auto
qed

end
