(* ===== verification/Invite_Servlet.thy ===== *)
theory Invite_Servlet
  imports Verify_Servlets
begin

text \<open>
  \<open>sydent/http/servlets/store_invite_servlet.py\<close>: storing an invitation for an address that is not bound yet,
  mailing it, and showing a redacted form of the address.
\<close>

section \<open>Redaction\<close>

text \<open>\<open>s[:n]\<close>, which counts from the end for a negative number.\<close>

definition slice_to :: "string \<Rightarrow> int \<Rightarrow> string" where
  "slice_to s n = (if 0 \<le> n then take (nat n) s else take (length s - nat (- n)) s)"

definition redact :: "string \<Rightarrow> int \<Rightarrow> string" where
  "redact s characters_to_reveal =
     (if int (length s) \<le> characters_to_reveal then
        if length s > 5 then take 3 s @ ''...''
        else if length s > 1 then take 1 s @ ''...''
        else ''...''
      else slice_to s characters_to_reveal @ ''...'')"

definition redact_email_address :: "server_conf \<Rightarrow> string \<Rightarrow> string res" where
  "redact_email_address cf address =
     (case split_once CHR ''@'' address of
        (_, None) \<Rightarrow> Inl ValueError
      | (username, Some domain) \<Rightarrow>
          Inr (redact username (cf_username_obfuscate cf) @ ''@'' @ redact domain (cf_domain_obfuscate cf)))"

section \<open>The mail\<close>

text \<open>\<open>re.sub(r"^https?://", "", value)\<close>\<close>

definition strip_scheme :: "string \<Rightarrow> string" where
  "strip_scheme v =
     (if startswith v ''http://'' then drop 7 v else if startswith v ''https://'' then drop 8 v else v)"

definition value_text :: "string \<Rightarrow> json \<Rightarrow> string res" where
  "value_text key v =
     (case v of
        JStr s \<Rightarrow> Inr (if key = ''org.matrix.web_client_location'' then strip_scheme s else s)
      | _ \<Rightarrow> Inl (if key = ''org.matrix.web_client_location'' then TypeError else AttributeError))"

fun keyword_hit :: "string \<Rightarrow> (string \<times> json) list \<Rightarrow> unit res" where
  "keyword_hit keyword [] = Inr ()"
| "keyword_hit keyword ((key, v) # kvs) =
     bindR (value_text key v) (\<lambda>s.
       if substring keyword (str_lower s) then Inl (MatrixRestError 403 ''M_UNAUTHORIZED'' ''Invite not allowed'')
       else keyword_hit keyword kvs)"

fun keyword_check :: "string list \<Rightarrow> (string \<times> json) list \<Rightarrow> unit res" where
  "keyword_check [] kvs = Inr ()"
| "keyword_check (k # ks) kvs = bindR (keyword_hit k kvs) (\<lambda>_. keyword_check ks kvs)"

definition setdefault :: "('k, 'v) dict \<Rightarrow> 'k \<Rightarrow> 'v \<Rightarrow> ('k, 'v) dict" where
  "setdefault d k v = (if dict_has d k then d else dict_set d k v)"

definition dict_str :: "(string, string) dict \<Rightarrow> string \<Rightarrow> string" where
  "dict_str d k = (case dict_get d k of Some v \<Rightarrow> v | None \<Rightarrow> [])"

text \<open>The character that ends an abbreviated text, in UTF-8.\<close>

definition ellipsis :: string where
  "ellipsis = [CHR 0xE2, CHR 0x80, CHR 0xA6]"

definition extra_substitutions :: "string list" where
  "extra_substitutions = [''sender_display_name'', ''token'', ''room_name'', ''bracketed_room_name'',
     ''room_avatar_url'', ''sender_avatar_url'', ''guest_user_id'', ''guest_access_token'', ''room_type'']"

definition text_args :: "jdict \<Rightarrow> (string, string) dict" where
  "text_args args = fold (\<lambda>(k, v) d. case v of JStr s \<Rightarrow> dict_set d k s | _ \<Rightarrow> d) args []"

definition invite_substitutions ::
    "server_conf \<Rightarrow> jdict \<Rightarrow> string \<Rightarrow> string option \<Rightarrow> string \<Rightarrow> (string, string) dict" where
  "invite_substitutions cf args token verified_sender private_key =
     (let d0 = dict_set (text_args args) ''token'' token;
          d1 = fold (\<lambda>k d. setdefault d k []) extra_substitutions d0;
          display = dict_str d1 ''sender_display_name'';
          d2 = (if length display > 20 then dict_set d1 ''sender_display_name'' (take 19 display @ ellipsis) else d1);
          d3 = dict_set d2 ''bracketed_verified_sender''
                 (case verified_sender of None \<Rightarrow> [] | Some v \<Rightarrow> if v = [] then [] else ''('' @ v @ '') '');
          d4 = dict_set d3 ''ephemeral_private_key'' private_key;
          room = dict_str d4 ''room_name'';
          d5 = (if room \<noteq> [] then
                  let d = (if length room > 30 then dict_set d4 ''room_name'' (take 25 room @ ellipsis) else d4)
                  in dict_set d ''bracketed_room_name'' (''('' @ dict_str d ''room_name'' @ '') '')
                else d4);
          d6 = dict_set d5 ''web_client_location'' (cf_default_web_client_location cf)
      in case dict_get d6 ''org.matrix.web_client_location'' of
           None \<Rightarrow> d6
         | Some l \<Rightarrow> dict_set d6 ''web_client_location'' l)"

definition invite_subject :: "server_conf \<Rightarrow> (string, string) dict \<Rightarrow> string res" where
  "invite_subject cf d =
     percent_format (if dict_str d ''room_type'' = ''m.space'' then cf_invite_subject_space cf else cf_invite_subject cf) d"

definition mail_invite ::
    "server_conf \<Rightarrow> request \<Rightarrow> int \<Rightarrow> string \<Rightarrow> (string, string) dict \<Rightarrow> unit handler" where
  "mail_invite cf req now to d =
     bindM (liftR (invite_subject cf d)) (\<lambda>subject.
     bindM (liftR (brand_from_request req)) (\<lambda>brand. (\<lambda>s.
       let templateFile = (case cf_invite_template cf of
             None \<Rightarrow> get_branded_template (ec_general (cf_email cf)) brand ''invite_template.eml''
           | Some t \<Rightarrow> t)
       in case sendEmail (ec_mail (cf_email cf)) now templateFile to
                 (dict_set d ''subject_header_value'' (cf_header_encode cf subject)) of
            (r, mails) \<Rightarrow> (r, s\<lparr>sv_mails := sv_mails s @ mails\<rparr>))))"

section \<open>The handler\<close>

definition store_invite_tables ::
    "string \<Rightarrow> string \<Rightarrow> string \<Rightarrow> string \<Rightarrow> string \<Rightarrow> string \<Rightarrow> int \<Rightarrow> (identity_state, unit) act" where
  "store_invite_tables medium address roomId sender token public_key now_s i =
     (case storeEphemeralPublicKey public_key now_s (is_invites i) of
        (Inl ex, iv) \<Rightarrow> (Inl ex, i\<lparr>is_invites := iv\<rparr>)
      | (Inr _, iv) \<Rightarrow> (Inr (), i\<lparr>is_invites := storeToken medium address roomId sender token now_s iv\<rparr>))"

definition key_entry :: "string \<Rightarrow> string \<Rightarrow> json" where
  "key_entry key url = JObj [(''public_key'', JStr key), (''key_validity_url'', JStr url)]"

definition invite_reply :: "server_conf \<Rightarrow> string \<Rightarrow> string \<Rightarrow> string \<Rightarrow> reply" where
  "invite_reply cf token public_key display_name =
     (let baseUrl = ec_base (cf_email cf) @ ''/_matrix/identity/api/v1'' in
      ok_reply [(''token'', JStr token), (''public_key'', JStr (cf_public_key cf)),
        (''public_keys'', JArr [key_entry (cf_public_key cf) (baseUrl @ ''/pubkey/isvalid''),
            key_entry public_key (baseUrl @ ''/pubkey/ephemeral/isvalid'')]),
        (''display_name'', JStr display_name)])"

text \<open>
  After the checks: the token and the ephemeral key pair (\<open>keys\<close>, private and public) are fresh random values. The
  token is stored before the keywords are looked for.
\<close>

definition create_invite ::
    "server_conf \<Rightarrow> request \<Rightarrow> int \<Rightarrow> (nat \<Rightarrow> nat) \<Rightarrow> string \<times> string \<Rightarrow> jdict \<Rightarrow> string \<Rightarrow> string \<Rightarrow> string \<Rightarrow> string \<Rightarrow>
     string option \<Rightarrow> reply handler" where
  "create_invite cf req now r keys args medium address roomId sender verified_sender =
     (let normalised_address = normalise_address address medium;
          token = map (\<lambda>i. choice r i (ascii_lowercase @ ascii_uppercase)) [0..<128]
      in bindM (on_identity (store_invite_tables medium normalised_address roomId sender token (snd keys) (now div 1000))) (\<lambda>_.
         bindM (liftR (keyword_check (cf_keyword_blocklist cf) args)) (\<lambda>_. (\<lambda>s.
           case mail_invite cf req now normalised_address
                  (invite_substitutions cf args token verified_sender (fst keys)) s of
             (Inl EmailAddressException, s') \<Rightarrow> (Inr (400, err_body ''M_INVALID_EMAIL'' ''Invalid email address''), s')
           | (Inl ex, s') \<Rightarrow> (Inl ex, s')
           | (Inr _, s') \<Rightarrow>
               bindM (liftR (redact_email_address cf address)) (\<lambda>display_name.
               ret (invite_reply cf token (snd keys) display_name)) s'))))"

text \<open>The handler from the lookup of the address on, and the whole handler.\<close>

definition invite_unbound ::
    "server_conf \<Rightarrow> bool \<Rightarrow> int \<Rightarrow> (nat \<Rightarrow> nat) \<Rightarrow> string \<times> string \<Rightarrow> request \<Rightarrow> json \<Rightarrow> string \<Rightarrow> string \<Rightarrow> string \<Rightarrow> string \<Rightarrow>
     reply handler" where
  "invite_unbound cf require_auth now r keys req args medium address roomId sender =
     bindM (getsM (\<lambda>s. getMxid medium (normalise_address address medium) now (known (sv_identity s)))) (\<lambda>mxid.
     case (if mxid = Some [] then None else mxid) of
       Some x \<Rightarrow> ret (400, JObj [(''errcode'', JStr ''M_THREEPID_IN_USE''),
           (''error'', JStr ''Binding already known''), (''mxid'', JStr x)])
     | None \<Rightarrow>
         if medium \<noteq> ''email''
         then ret (400, err_body ''M_UNRECOGNIZED''
           (''Didn'' @ [CHR 0x27] @ ''t understand medium '' @ [CHR 0x27] @ medium @ [CHR 0x27]))
         else if \<not> (0 < length address \<and> length address \<le> MAX_EMAIL_ADDRESS_LENGTH)
         then ret (400, err_body ''M_INVALID_PARAM'' ''Invalid email provided'')
         else bindM (liftR (items args)) (\<lambda>d.
           create_invite cf req now r keys d medium address roomId sender
             (if require_auth then Some sender else None)))"

definition store_invite_render_POST ::
    "server_conf \<Rightarrow> bool \<Rightarrow> int \<Rightarrow> (nat \<Rightarrow> nat) \<Rightarrow> string \<times> string \<Rightarrow> request \<Rightarrow> reply handler" where
  "store_invite_render_POST cf require_auth now r keys req =
     bindM (liftR (get_args req [''medium'', ''address'', ''room_id'', ''sender''] True)) (\<lambda>args.
     bindM (liftR (bindR (json_index args ''medium'') text_value)) (\<lambda>medium.
     bindM (liftR (bindR (json_index args ''address'') text_value)) (\<lambda>address.
     bindM (liftR (bindR (json_index args ''room_id'') text_value)) (\<lambda>roomId.
     bindM (liftR (bindR (json_index args ''sender'') text_value)) (\<lambda>sender.
     bindM (auth_if require_auth cf (after_args req)) (\<lambda>account.
     if (case account of None \<Rightarrow> False | Some a \<Rightarrow> ac_userId a \<noteq> sender)
     then raise (MatrixRestError 403 ''M_UNAUTHORIZED'' ([CHR 0x27] @ ''sender'' @ [CHR 0x27] @ '' doesn'' @ [CHR 0x27] @ ''t match''))
     else
       bindM (liftR (case split_once CHR '':'' sender of (_, None) \<Rightarrow> Inl IndexError | (_, Some h) \<Rightarrow> Inr h)) (\<lambda>sender_homeserver.
       if roomId \<in> set (cf_room_blocklist cf) \<or> sender_homeserver \<in> set (cf_homeserver_blocklist cf)
       then raise (MatrixRestError 403 ''M_UNAUTHORIZED'' ''Invite not allowed'')
       else
         bindM (limit_sender sender (Some ''Limit exceeded for this sender'')) (\<lambda>_.
         invite_unbound cf require_auth now r keys req args medium address roomId sender))))))))"

section \<open>Lemmas\<close>

definition keeps_identity :: "'a handler \<Rightarrow> bool" where
  "keeps_identity m = (\<forall>s. sv_identity (snd (m s)) = sv_identity s)"

lemma keeps_identity_bindM: "keeps_identity m \<Longrightarrow> (\<And>x. keeps_identity (f x)) \<Longrightarrow> keeps_identity (bindM m f)"
  unfolding keeps_identity_def bindM_def
  by (metis (mono_tags, lifting) case_prod_beta old.sum.simps(5,6) snd_conv sum.exhaust)

lemma keeps_identity_reads_only: "reads_only m \<Longrightarrow> keeps_identity m"
  by (simp add: reads_only_def keeps_identity_def)

lemma keeps_identity_limit: "keeps_identity (limit_sender k e)"
  by (simp add: keeps_identity_def limit_sender_eq)

lemma bindM_on_identity:
  assumes "\<And>x. keeps_identity (f x)"
  shows "sv_identity (snd (bindM (on_identity m) f s)) = snd (m (sv_identity s))"
  using assms by (auto simp: bindM_def on_identity_def keeps_identity_def split: prod.splits sum.splits)

lemma keeps_identity_mail: "keeps_identity (mail_invite cf req now to d)"
  by (simp add: keeps_identity_def mail_invite_def bindM_def liftR_def Let_def split: sum.splits prod.splits)

lemma keeps_identity_after_mail:
  assumes "keeps_identity m" and "\<And>x. keeps_identity (f x)" and "\<And>ex. keeps_identity (g ex)"
  shows "keeps_identity (\<lambda>s. case m s of (Inl ex, s') \<Rightarrow> g ex s' | (Inr x, s') \<Rightarrow> f x s')"
  unfolding keeps_identity_def
proof
  fix s
  obtain q s1 where "m s = (q, s1)" by fastforce
  with assms show "sv_identity (snd (case m s of (Inl ex, s') \<Rightarrow> g ex s' | (Inr x, s') \<Rightarrow> f x s')) = sv_identity s"
    unfolding keeps_identity_def by (cases q) (auto, metis snd_conv, metis snd_conv)
qed

abbreviation invite_token :: "(nat \<Rightarrow> nat) \<Rightarrow> string" where
  "invite_token r \<equiv> map (\<lambda>i. choice r i (ascii_lowercase @ ascii_uppercase)) [0..<128]"

lemma create_invite_identity:
  "sv_identity (snd (create_invite cf req now r keys args medium address roomId sender v s)) =
     snd (store_invite_tables medium (normalise_address address medium) roomId sender
       (invite_token r) (snd keys) (now div 1000) (sv_identity s))"
proof -
  let ?mail = "mail_invite cf req now (normalise_address address medium)
      (invite_substitutions cf args (invite_token r) v (fst keys))"
  have split: "(case ?mail s of
             (Inl EmailAddressException, s') \<Rightarrow> (Inr (400, err_body ''M_INVALID_EMAIL'' ''Invalid email address''), s')
           | (Inl ex, s') \<Rightarrow> (Inl ex, s')
           | (Inr _, s') \<Rightarrow>
               bindM (liftR (redact_email_address cf address)) (\<lambda>display_name.
               ret (invite_reply cf (invite_token r) (snd keys) display_name)) s') =
      (case ?mail s of
         (Inl ex, s') \<Rightarrow> (if ex = EmailAddressException
            then ret (400, err_body ''M_INVALID_EMAIL'' ''Invalid email address'') else raise ex) s'
       | (Inr x, s') \<Rightarrow> bindM (liftR (redact_email_address cf address)) (\<lambda>display_name.
               ret (invite_reply cf (invite_token r) (snd keys) display_name)) s')" for s
    by (auto simp: ret_def raise_def split: prod.splits sum.splits exn.splits)
  show ?thesis
    unfolding create_invite_def Let_def split
    by (intro bindM_on_identity keeps_identity_bindM keeps_identity_reads_only [OF reads_only_intros(3)]
        keeps_identity_after_mail keeps_identity_mail)
       (auto intro: keeps_identity_reads_only)
qed

lemma limit_sender_bind:
  assumes "bindM (limit_sender k e) f s = (q, s')" and "sv_identity s' \<noteq> sv_identity s"
  obtains s1 where "f () s1 = (q, s')" and "sv_identity s1 = sv_identity s"
    and "current_tokens k (sv_email_rl s) < rl_burst (sv_email_rl s)"
  using assms by (auto simp: bindM_def limit_sender_eq split: if_splits)

section \<open>Properties\<close>

text \<open>a redacted text never gives the whole away. For a number of characters that is not negative, what is shown is a
  beginning of the text followed by dots; it has at most that number of characters, and it is
  a proper beginning of every text that is not empty.\<close>

theorem redact_reveals_prefix:
  assumes "0 \<le> n"
  shows "\<exists>k. redact s n = take k s @ ''...'' \<and> int k \<le> n \<and> (s \<noteq> [] \<longrightarrow> k < length s)"
proof (cases "int (length s) \<le> n")
  case True
  let ?k = "if length s > 5 then 3 else if length s > 1 then 1 else 0 :: nat"
  have "redact s n = take ?k s @ ''...''" using True by (simp add: redact_def)
  with True show ?thesis by (intro exI [of _ ?k]) auto
next
  case False
  with assms show ?thesis by (intro exI [of _ "nat n"]) (auto simp: redact_def slice_to_def)
qed

theorem redact_reveals_prefix_witness:
  "\<exists>k. redact ''alice'' 3 = take k ''alice'' @ ''...'' \<and> int k \<le> 3 \<and> (''alice'' \<noteq> [] \<longrightarrow> k < length ''alice'')"
  by (rule redact_reveals_prefix) simp

lemma invite_unbound_stores:
  assumes "invite_unbound cf b now r keys req args medium address roomId sender s = (q, s')"
    and "sv_identity s' \<noteq> sv_identity s"
  shows "medium = ''email''"
    and "getMxid ''email'' (normalise_address address ''email'') now (known (sv_identity s)) \<in> {None, Some []}"
    and "0 < length address" and "length address \<le> MAX_EMAIL_ADDRESS_LENGTH"
    and "sv_identity s' = snd (store_invite_tables ''email'' (normalise_address address ''email'') roomId sender
        (invite_token r) (snd keys) (now div 1000) (sv_identity s))"
proof -
  have "s' \<noteq> s" using assms(2) by auto
  with assms(1) obtain d v where c:
    "getMxid medium (normalise_address address medium) now (known (sv_identity s)) \<in> {None, Some []}"
    "medium = ''email''" "0 < length address" "length address \<le> MAX_EMAIL_ADDRESS_LENGTH"
    "create_invite cf req now r keys d medium address roomId sender v s = (q, s')"
    unfolding invite_unbound_def by (auto split: if_splits option.splits elim!: liftR_changed)
  with create_invite_identity [of cf req now r keys d medium address roomId sender v s]
  show "medium = ''email''"
    "getMxid ''email'' (normalise_address address ''email'') now (known (sv_identity s)) \<in> {None, Some []}"
    "0 < length address" "length address \<le> MAX_EMAIL_ADDRESS_LENGTH"
    "sv_identity s' = snd (store_invite_tables ''email'' (normalise_address address ''email'') roomId sender
        (invite_token r) (snd keys) (now div 1000) (sv_identity s))"
    by simp_all
qed


abbreviation demo_invite :: request where
  "demo_invite \<equiv> demo_post [(''medium'', JStr ''email''), (''address'', JStr ''Al@x.org''), (''room_id'', JStr ''!r:hs''),
     (''sender'', JStr ''@bob:hs'')]"

definition demo_strict :: server_conf where
  "demo_strict = demo_conf\<lparr>cf_keyword_blocklist := [''x.org'']\<rparr>"

abbreviation demo_refused :: "reply res \<times> server_state" where
  "demo_refused \<equiv> store_invite_render_POST demo_strict True 5000 (\<lambda>_. 0) (''priv'', ''pub'') demo_invite demo_server"

text \<open>The same request without any access token, on the API without authentication.\<close>

abbreviation demo_anonymous :: request where
  "demo_anonymous \<equiv> demo_invite\<lparr>rq_headers := []\<rparr>"

abbreviation demo_anonymous_invite :: "reply res \<times> server_state" where
  "demo_anonymous_invite \<equiv>
     store_invite_render_POST demo_strict False 5000 (\<lambda>_. 0) (''priv'', ''pub'') demo_anonymous demo_server"

lemma demo_invite_auth:
  "authV2 (cf_terms demo_strict) (after_args demo_invite) True (sv_accounts demo_server) =
     Inr \<lparr>ac_userId = ''@bob:hs'', ac_creationTs = 0, ac_consentVersion = None\<rparr>"
  by code_simp

lemma demo_refused_eq:
  "fst demo_refused = Inl (MatrixRestError 403 ''M_UNAUTHORIZED'' ''Invite not allowed'')"
  "map i_address (iv_tokens (is_invites (sv_identity (snd demo_refused)))) = [''al@x.org'']"
  "map i_address (iv_tokens (is_invites (sv_identity (snd demo_anonymous_invite)))) = [''al@x.org'']"
proof -
  let ?d = "[(''medium'', JStr ''email''), (''address'', JStr ''Al@x.org''), (''room_id'', JStr ''!r:hs''),
     (''sender'', JStr ''@bob:hs'')]"
  have args: "get_args demo_invite [''medium'', ''address'', ''room_id'', ''sender''] True = Inr (JObj ?d)"
    "get_args demo_anonymous [''medium'', ''address'', ''room_id'', ''sender''] True = Inr (JObj ?d)" by code_simp+
  have kw: "keyword_check (cf_keyword_blocklist demo_strict) ?d =
      Inl (MatrixRestError 403 ''M_UNAUTHORIZED'' ''Invite not allowed'')" by code_simp
  have norm: "normalise_address ''Al@x.org'' ''email'' = ''al@x.org''" by code_simp
  have lim: "current_tokens ''@bob:hs'' (sv_email_rl demo_server) < rl_burst (sv_email_rl demo_server)" by code_simp
  have nobody: "getMxid ''email'' ''al@x.org'' 5000 (known (sv_identity demo_server)) = None" by code_simp
  have inv: "iv_tokens (is_invites (sv_identity demo_server)) = []" "iv_keys (is_invites (sv_identity demo_server)) = []"
    by (simp_all add: demo_server_def fresh_state_def empty_invites_def)
  have conf: "cf_room_blocklist demo_strict = []" "cf_homeserver_blocklist demo_strict = []" by (simp_all add: demo_strict_def demo_conf_def)
  note run = store_invite_render_POST_def text_value_def items.simps invite_unbound_def create_invite_def args auth_if_def auth_def demo_invite_auth
    bindM_def liftR_def getsM_def ret_def raise_def limit_sender_eq lim conf norm nobody kw Let_def MAX_EMAIL_ADDRESS_LENGTH_def
    on_identity_def store_invite_tables_def storeEphemeralPublicKey_def storeToken_def inv
  show "fst demo_refused = Inl (MatrixRestError 403 ''M_UNAUTHORIZED'' ''Invite not allowed'')" by (simp add: run)
  show "map i_address (iv_tokens (is_invites (sv_identity (snd demo_refused)))) = [''al@x.org'']" by (simp add: run)
  show "map i_address (iv_tokens (is_invites (sv_identity (snd demo_anonymous_invite)))) = [''al@x.org'']" by (simp add: run)
qed


text \<open>an invitation refused for a blocked keyword is nevertheless stored: the keywords are looked for after
  the token was written, so binding the address delivers it.\<close>

theorem blocked_keyword_still_stored:
  "fst demo_refused = Inl (MatrixRestError 403 ''M_UNAUTHORIZED'' ''Invite not allowed'') \<and>
   map i_address (iv_tokens (is_invites (sv_identity (snd demo_refused)))) = [''al@x.org'']"
  using demo_refused_eq(1,2) by (rule conjI)

end
