(* ===== verification/Http_Common.thy ===== *)
theory Http_Common
  imports Json
begin

text \<open>
  \<open>sydent/http/httpcommon.py\<close> and \<open>sydent/http/httpclient.py\<close>: reading the body of a response with a limit on its
  size, the limit on the size of requests, and decoding a response as JSON. The protocol objects are
  state machines driven by the events of the connection.
\<close>

section \<open>Reading a response\<close>

text \<open>
  \<open>rd_result\<close> is what the deferred was called with; it is called at most once. \<open>rd_aborted\<close> says that the connection was
  closed by the protocol.
\<close>

record reader =
  rd_stream :: string
  rd_result :: "string res option"
  rd_aborted :: bool

datatype close_reason = ResponseDone | PotentialDataLoss | OtherReason

datatype conn_event = Data string | Lost close_reason

definition new_reader :: reader where
  "new_reader = \<lparr>rd_stream = [], rd_result = None, rd_aborted = False\<rparr>"

definition ReadBody_dataReceived :: "nat option \<Rightarrow> string \<Rightarrow> reader \<Rightarrow> reader" where
  "ReadBody_dataReceived max_size data rd =
     (if rd_result rd \<noteq> None then rd
      else
        let rd' = rd\<lparr>rd_stream := rd_stream rd @ data\<rparr> in
        case max_size of
          None \<Rightarrow> rd'
        | Some m \<Rightarrow> if length (rd_stream rd') \<ge> m
                   then rd'\<lparr>rd_result := Some (Inl BodyExceededMaxSize), rd_aborted := True\<rparr> else rd')"

definition ReadBody_connectionLost :: "close_reason \<Rightarrow> reader \<Rightarrow> reader" where
  "ReadBody_connectionLost reason rd =
     (if rd_result rd \<noteq> None then rd
      else case reason of
          ResponseDone \<Rightarrow> rd\<lparr>rd_result := Some (Inr (rd_stream rd))\<rparr>
        | PotentialDataLoss \<Rightarrow> rd\<lparr>rd_result := Some (Inr (rd_stream rd))\<rparr>
        | OtherReason \<Rightarrow> rd\<lparr>rd_result := Some (Inl ResponseFailed)\<rparr>)"

text \<open>The protocol for a body that is announced as too long: any event makes it fail.\<close>

definition DiscardBody_event :: "reader \<Rightarrow> reader" where
  "DiscardBody_event rd =
     (if rd_result rd = None then rd\<lparr>rd_result := Some (Inl BodyExceededMaxSize), rd_aborted := True\<rparr> else rd)"

text \<open>\<open>read_body_with_max_size\<close>, given the announced length (\<^const>\<open>None\<close> if unknown) and the events that follow.\<close>

definition read_body_event :: "nat option \<Rightarrow> bool \<Rightarrow> conn_event \<Rightarrow> reader \<Rightarrow> reader" where
  "read_body_event max_size discard ev rd =
     (if discard then DiscardBody_event rd
      else case ev of Data d \<Rightarrow> ReadBody_dataReceived max_size d rd | Lost reason \<Rightarrow> ReadBody_connectionLost reason rd)"

definition announced_too_long :: "nat option \<Rightarrow> nat option \<Rightarrow> bool" where
  "announced_too_long len max_size =
     (case (len, max_size) of (Some l, Some m) \<Rightarrow> l > m | _ \<Rightarrow> False)"

definition read_body_with_max_size :: "nat option \<Rightarrow> nat option \<Rightarrow> conn_event list \<Rightarrow> reader" where
  "read_body_with_max_size len max_size evs =
     fold (read_body_event max_size (announced_too_long len max_size)) evs new_reader"

section \<open>Receiving a request\<close>

definition MAX_REQUEST_SIZE :: nat where
  "MAX_REQUEST_SIZE = 512 * 1024"

text \<open>\<open>handleContentChunk\<close>: the content so far, or that the connection was aborted.\<close>

definition handleContentChunk :: "string \<Rightarrow> string \<Rightarrow> string option" where
  "handleContentChunk content data =
     (if length content + length data > MAX_REQUEST_SIZE then None else Some (content @ data))"

fun receive_chunks :: "string list \<Rightarrow> string \<Rightarrow> string option" where
  "receive_chunks [] content = Some content"
| "receive_chunks (d # ds) content =
     (case handleContentChunk content d of None \<Rightarrow> None | Some c \<Rightarrow> receive_chunks ds c)"

section \<open>The client\<close>

text \<open>
  \<open>get_json\<close> once the request was answered: the body that was read, decoded by \<open>decode\<close> (UTF-8 and
  JSON), has to be an object.
\<close>

definition get_json :: "(string \<Rightarrow> json res) \<Rightarrow> string res \<Rightarrow> jdict res" where
  "get_json decode body =
     bindR body (\<lambda>b. bindR (decode b) (\<lambda>v. case v of JObj d \<Rightarrow> Inr d | _ \<Rightarrow> Inl TypeError))"

definition post_json_maybe_get_json ::
    "(string \<Rightarrow> json res) \<Rightarrow> int res \<Rightarrow> string res \<Rightarrow> (int \<times> json option) res" where
  "post_json_maybe_get_json decode response body =
     bindR response (\<lambda>code. Inr (code, case bindR body decode of Inl _ \<Rightarrow> None | Inr v \<Rightarrow> Some v))"

definition post_json_get_nothing :: "(string \<Rightarrow> json res) \<Rightarrow> int res \<Rightarrow> string res \<Rightarrow> int res" where
  "post_json_get_nothing decode response body =
     bindR (post_json_maybe_get_json decode response body) (\<lambda>(code, _). Inr code)"

section \<open>Lemmas\<close>

lemma read_body_event_done:
  "rd_result rd \<noteq> None \<Longrightarrow> read_body_event max_size b ev rd = rd"
  by (auto simp: read_body_event_def DiscardBody_event_def ReadBody_dataReceived_def
      ReadBody_connectionLost_def split: conn_event.splits)

lemma fold_read_body_done:
  "rd_result rd \<noteq> None \<Longrightarrow> fold (read_body_event max_size b) evs rd = rd"
  by (induction evs) (simp_all add: read_body_event_done)

lemma fold_read_data:
  assumes "rd_result rd = None" and "\<forall>m. max_size = Some m \<longrightarrow> length (rd_stream rd @ concat ds) < m"
  shows "fold (read_body_event max_size False) (map Data ds) rd = rd\<lparr>rd_stream := rd_stream rd @ concat ds\<rparr>"
  using assms
proof (induction ds arbitrary: rd)
  case (Cons d ds)
  have "length (rd_stream rd @ d) < m" if "max_size = Some m" for m
    using Cons.prems(2) that by simp
  then have "read_body_event max_size False (Data d) rd = rd\<lparr>rd_stream := rd_stream rd @ d\<rparr>"
    using Cons.prems(1) by (auto simp: read_body_event_def ReadBody_dataReceived_def Let_def split: option.splits)
  moreover have "fold (read_body_event max_size False) (map Data ds) (rd\<lparr>rd_stream := rd_stream rd @ d\<rparr>) =
      rd\<lparr>rd_stream := rd_stream rd @ d @ concat ds\<rparr>"
    using Cons.IH [of "rd\<lparr>rd_stream := rd_stream rd @ d\<rparr>"] Cons.prems by simp
  ultimately show ?case by simp
qed simp

lemma fold_read_over:
  assumes "rd_result rd = None" and "length (rd_stream rd) < m" and "length (rd_stream rd @ concat ds) \<ge> m"
  shows "rd_result (fold (read_body_event (Some m) False) (map Data ds) rd) = Some (Inl BodyExceededMaxSize) \<and>
    rd_aborted (fold (read_body_event (Some m) False) (map Data ds) rd)"
  using assms
proof (induction ds arbitrary: rd)
  case (Cons d ds)
  show ?case
  proof (cases "length (rd_stream rd @ d) < m")
    case True
    then have "read_body_event (Some m) False (Data d) rd = rd\<lparr>rd_stream := rd_stream rd @ d\<rparr>"
      using Cons.prems(1) by (simp add: read_body_event_def ReadBody_dataReceived_def Let_def)
    with Cons True show ?thesis by simp
  next
    case False
    then have "rd_result (read_body_event (Some m) False (Data d) rd) = Some (Inl BodyExceededMaxSize)"
      "rd_aborted (read_body_event (Some m) False (Data d) rd)"
      using Cons.prems(1) by (simp_all add: read_body_event_def ReadBody_dataReceived_def Let_def)
    then show ?thesis by (simp add: fold_read_body_done)
  qed
qed simp

section \<open>Properties\<close>

text \<open>C31: reading a body with a limit. However a body arrives in pieces, whatever length was announced and however the
  connection ends, a body as long as the limit or longer, or announced as longer than it, makes the read
  fail with \<open>BodyExceededMaxSize\<close>, and then and only then the reader closes the connection. Every other
  body is returned as it was sent, unless the connection was lost before its end, which is a failure of its own; where
  only the end of the connection could show the end of the body (\<open>PotentialDataLoss\<close>), what has arrived counts as the
  body. Once the read has ended no event changes the result.\<close>

theorem read_body_limit:
  assumes "0 < m"
  shows "let over = (\<not> (length (concat ds) < m \<and> (\<forall>l. len = Some l \<longrightarrow> l \<le> m)));
             rd = read_body_with_max_size len (Some m) (map Data ds @ [Lost reason] @ later)
         in rd_result rd = Some (if over then Inl BodyExceededMaxSize
                                 else if reason = OtherReason then Inl ResponseFailed else Inr (concat ds)) \<and>
            rd_aborted rd = over"
proof (cases "announced_too_long len (Some m)")
  case True
  then obtain l where l: "len = Some l" "\<not> l \<le> m" by (auto simp: announced_too_long_def split: option.splits)
  have "rd_result (fold (read_body_event (Some m) True) (e # es) new_reader) = Some (Inl BodyExceededMaxSize) \<and>
      rd_aborted (fold (read_body_event (Some m) True) (e # es) new_reader)" for e es
    by (simp add: fold_read_body_done read_body_event_def DiscardBody_event_def new_reader_def)
  from this [of "hd (map Data ds @ [Lost reason] @ later)" "tl (map Data ds @ [Lost reason] @ later)"] True l
  show ?thesis by (simp add: read_body_with_max_size_def)
next
  case False
  then have l: "len = Some l \<Longrightarrow> l \<le> m" for l by (simp add: announced_too_long_def)
  let ?rd = "fold (read_body_event (Some m) False) (map Data ds) new_reader"
  show ?thesis
  proof (cases "length (concat ds) < m")
    case True
    then have "?rd = new_reader\<lparr>rd_stream := concat ds\<rparr>"
      using fold_read_data [of new_reader "Some m" ds] by (simp add: new_reader_def)
    then have "read_body_event (Some m) False (Lost reason) ?rd = new_reader\<lparr>rd_stream := concat ds,
        rd_result := Some (if reason = OtherReason then Inl ResponseFailed else Inr (concat ds))\<rparr>"
      by (cases reason) (simp_all add: read_body_event_def ReadBody_connectionLost_def new_reader_def)
    with True False l show ?thesis
      by (simp add: read_body_with_max_size_def fold_read_body_done new_reader_def)
  next
    case over: False
    then have r: "rd_result ?rd = Some (Inl BodyExceededMaxSize) \<and> rd_aborted ?rd"
      using fold_read_over [of new_reader m ds] assms by (simp add: new_reader_def)
    with over False show ?thesis by (simp add: read_body_with_max_size_def fold_read_body_done read_body_event_done)
  qed
qed

theorem read_body_limit_witness:
  "read_body_with_max_size None (Some 4) (map Data [''ab'', ''c''] @ [Lost ResponseDone] @ [Data ''zz'']) =
     \<lparr>rd_stream = ''abc'', rd_result = Some (Inr ''abc''), rd_aborted = False\<rparr> \<and>
   rd_result (read_body_with_max_size (Some 4) (Some 4) (map Data [''ab'', ''cd''] @ [Lost ResponseDone] @ [])) =
     Some (Inl BodyExceededMaxSize) \<and>
   rd_aborted (read_body_with_max_size (Some 4) (Some 4) (map Data [''ab'', ''cd''] @ [Lost ResponseDone] @ [])) \<and>
   rd_result (read_body_with_max_size (Some 4) (Some 4) (map Data [''ab''] @ [Lost OtherReason] @ [])) =
     Some (Inl ResponseFailed)"
proof -
  have "rd_stream (read_body_with_max_size None (Some 4) (map Data [''ab'', ''c''] @ [Lost ResponseDone] @ [Data ''zz''])) = ''abc''"
    by code_simp
  then show ?thesis
    using read_body_limit [of 4 "[''ab'', ''c'']" None ResponseDone "[Data ''zz'']"]
      read_body_limit [of 4 "[''ab'', ''cd'']" "Some 4" ResponseDone "[]"]
      read_body_limit [of 4 "[''ab'']" "Some 4" OtherReason "[]"] by (simp add: Let_def)
qed

text \<open>a request is accepted exactly up to the maximal size, in whatever pieces it arrives, and its content is
  what was sent.\<close>

theorem receive_chunks_limit:
  "receive_chunks ds [] = (if length (concat ds) \<le> MAX_REQUEST_SIZE then Some (concat ds) else None)"
proof -
  have "receive_chunks ds c =
      (if length (c @ concat ds) \<le> MAX_REQUEST_SIZE then Some (c @ concat ds) else None)"
    if "length c \<le> MAX_REQUEST_SIZE" for c
    using that by (induction ds arbitrary: c) (auto simp: handleContentChunk_def)
  from this [of "[]"] show ?thesis by simp
qed

end
