(* ===== verification/Verifier.thy ===== *)
theory Verifier
  imports Server_State Bind_Lookup
begin

text \<open>
  \<open>sydent/hs_federation/verifier.py\<close>: authenticating a request of a homeserver by the signature in its
  \<open>Authorization\<close> headers, with the keys the homeserver publishes, which are cached while they are valid.
  What fetching the keys of a server returns is an argument; a check that has to wait for it is
  modelled as one step.
\<close>

section \<open>Headers\<close>

text \<open>\<open>value[1:-1]\<close> when it begins with a quotation mark\<close>

definition strip_quotes :: "string \<Rightarrow> string" where
  "strip_quotes value = (if startswith value [CHR 0x22] then butlast (tl value) else value)"

fun param_dict :: "string list \<Rightarrow> (string, string) dict \<Rightarrow> (string, string) dict option" where
  "param_dict [] d = Some d"
| "param_dict (kv # kvs) d =
     (case split_once CHR ''='' kv of
        (_, None) \<Rightarrow> None
      | (k, Some v) \<Rightarrow> param_dict kvs (dict_set d k v))"

definition parse_auth_header :: "string \<Rightarrow> (string \<times> string \<times> string) res" where
  "parse_auth_header header_str =
     (case split_on CHR '' '' header_str of
        _ # p # _ \<Rightarrow>
          (case param_dict (split_on CHR '','' p) [] of
             None \<Rightarrow> Inl SignatureVerifyException
           | Some d \<Rightarrow>
              (case (dict_get d ''origin'', dict_get d ''key'', dict_get d ''sig'') of
                 (Some origin, Some key, Some sig) \<Rightarrow> Inr (strip_quotes origin, strip_quotes key, strip_quotes sig)
               | _ \<Rightarrow> Inl SignatureVerifyException))
      | _ \<Rightarrow> Inl SignatureVerifyException)"

type_synonym signatures = "(string, (string, string) dict) dict"

definition add_signature :: "signatures \<Rightarrow> string \<Rightarrow> string \<Rightarrow> string \<Rightarrow> signatures" where
  "add_signature sigs origin key sig =
     dict_set sigs origin (dict_set (case dict_get sigs origin of None \<Rightarrow> [] | Some d \<Rightarrow> d) key sig)"

fun collect_signatures :: "string list \<Rightarrow> string option \<times> signatures \<Rightarrow> (string option \<times> signatures) res" where
  "collect_signatures [] st = Inr st"
| "collect_signatures (hdr # auths) (origin, sigs) =
     (if startswith hdr ''X-Matrix'' then
        bindR (parse_auth_header hdr) (\<lambda>(o', key, sig). collect_signatures auths (Some o', add_signature sigs o' key sig))
      else collect_signatures auths (origin, sigs))"

section \<open>Keys\<close>

record cached_keys =
  ck_verify_keys :: "(string, string) dict"
  ck_valid_until_ts :: int

type_synonym key_cache = "(string, cached_keys) dict"

text \<open>The loop over \<open>verify_keys\<close>: entries without \<open>key\<close> are dropped; of the others only that member is used.\<close>

fun check_keys :: "(string \<times> json) list \<Rightarrow> (string, string) dict res" where
  "check_keys [] = Inr []"
| "check_keys ((key_name, kd) # ks) =
     bindR (json_in ''key'' kd) (\<lambda>present.
       if \<not> present then check_keys ks
       else bindR (json_index kd ''key'') (\<lambda>k.
         case k of
           JStr key \<Rightarrow> bindR (check_keys ks) (\<lambda>r. Inr ((key_name, key) # r))
         | _ \<Rightarrow> Inl SignatureVerifyException))"

definition read_keys :: "jdict \<Rightarrow> ((string, string) dict \<times> int option) res" where
  "read_keys result =
     (case dict_get result ''verify_keys'' of
        None \<Rightarrow> Inl SignatureVerifyException
      | Some (JObj ks) \<Rightarrow>
          bindR (check_keys ks) (\<lambda>verify_keys.
            case dict_get result ''valid_until_ts'' of
              None \<Rightarrow> Inr (verify_keys, None)
            | Some (JInt i) \<Rightarrow> Inr (verify_keys, Some i)
            | Some (JBool b) \<Rightarrow> Inr (verify_keys, Some (if b then 1 else 0))
            | Some _ \<Rightarrow> Inl SignatureVerifyException)
      | Some _ \<Rightarrow> Inl SignatureVerifyException)"

definition fetch_keys :: "(string \<Rightarrow> jdict res) \<Rightarrow> string \<Rightarrow> (key_cache, (string, string) dict) act" where
  "fetch_keys fetch server_name cache =
     (case bindR (fetch server_name) read_keys of
        Inl ex \<Rightarrow> (Inl ex, cache)
      | Inr (verify_keys, None) \<Rightarrow> (Inr verify_keys, cache)
      | Inr (verify_keys, Some ts) \<Rightarrow>
          (Inr verify_keys,
           dict_set cache server_name \<lparr>ck_verify_keys = verify_keys, ck_valid_until_ts = ts\<rparr>))"

definition getKeysForServer ::
    "(string \<Rightarrow> jdict res) \<Rightarrow> int \<Rightarrow> string \<Rightarrow> (key_cache, (string, string) dict) act" where
  "getKeysForServer fetch now server_name cache =
     (case dict_get cache server_name of
        Some cached \<Rightarrow>
          if ck_valid_until_ts cached > now then (Inr (ck_verify_keys cached), cache)
          else fetch_keys fetch server_name cache
      | None \<Rightarrow> fetch_keys fetch server_name cache)"

section \<open>Signatures\<close>

record signed_request =
  sr_method :: string
  sr_uri :: string
  sr_destination_is :: string
  sr_signatures :: signatures
  sr_origin :: string
  sr_content :: json

text \<open>
  \<open>attr.asdict(signed_json)\<close>. The members \<open>method\<close> and \<open>uri\<close> are bytes; \<open>simplejson\<close>, which \<open>canonicaljson\<close> uses, renders
  them as text.
\<close>

definition payload :: "signed_request \<Rightarrow> jdict" where
  "payload sr = [(''method'', JStr (sr_method sr)), (''uri'', JStr (sr_uri sr)),
     (''destination_is'', JStr (sr_destination_is sr)),
     (''signatures'', JObj (map (\<lambda>(srv, d). (srv, JObj (map (\<lambda>(k, v). (k, JStr v)) d))) (sr_signatures sr))),
     (''origin'', JStr (sr_origin sr)), (''content'', sr_content sr)]"

text \<open>The first signature whose key the server publishes decides.\<close>

fun try_signatures ::
    "sig_env \<Rightarrow> signed_request \<Rightarrow> string \<Rightarrow> (string, string) dict \<Rightarrow> (string \<times> string) list \<Rightarrow> string option res" where
  "try_signatures se sr server_name server_keys [] = Inr None"
| "try_signatures se sr server_name server_keys ((key_name, sig) # sigs) =
     (case dict_get server_keys key_name of
        None \<Rightarrow> try_signatures se sr server_name server_keys sigs
      | Some key \<Rightarrow>
          bindR (sv_decode_base64 se key) (\<lambda>key_bytes.
          bindR (sv_decode_verify_key_bytes se key_name key_bytes) (\<lambda>verify_key.
          bindR (sv_verify_signed_json se (payload sr) server_name verify_key) (\<lambda>_. Inr (Some key_name)))))"

fun verify_loop ::
    "sig_env \<Rightarrow> (string \<Rightarrow> jdict res) \<Rightarrow> int \<Rightarrow> string list option \<Rightarrow> signed_request \<Rightarrow>
     (string \<times> (string, string) dict) list \<Rightarrow> (key_cache, string \<times> string) act" where
  "verify_loop se fetch now acceptable sr [] cache = (Inl SignatureVerifyException, cache)"
| "verify_loop se fetch now acceptable sr ((server_name, sigs) # rest) cache =
     (if (case acceptable of None \<Rightarrow> False | Some names \<Rightarrow> server_name \<notin> set names)
      then verify_loop se fetch now acceptable sr rest cache
      else
        (case getKeysForServer fetch now server_name cache of
           (Inl ex, cache') \<Rightarrow> (Inl ex, cache')
         | (Inr server_keys, cache') \<Rightarrow>
             (case try_signatures se sr server_name server_keys sigs of
                Inl ex \<Rightarrow> (Inl ex, cache')
              | Inr (Some key_name) \<Rightarrow> (Inr (server_name, key_name), cache')
              | Inr None \<Rightarrow> verify_loop se fetch now acceptable sr rest cache')))"

definition verifyServerSignedJson ::
    "sig_env \<Rightarrow> (string \<Rightarrow> jdict res) \<Rightarrow> int \<Rightarrow> signed_request \<Rightarrow> string list option \<Rightarrow> (key_cache, string \<times> string) act" where
  "verifyServerSignedJson se fetch now sr acceptable = verify_loop se fetch now acceptable sr (sr_signatures sr)"

section \<open>Requests\<close>

definition authenticate_request ::
    "env \<Rightarrow> sig_env \<Rightarrow> (string \<Rightarrow> jdict res) \<Rightarrow> int \<Rightarrow> string \<Rightarrow> request \<Rightarrow> json \<Rightarrow> (key_cache, string) act" where
  "authenticate_request e se fetch now uri req content =
     (case getRawHeaders req ''Authorization'' of
        None \<Rightarrow> raise NoAuthenticationError
      | Some auth_headers \<Rightarrow>
          if auth_headers = [] then raise NoAuthenticationError
          else
            bindM (liftR (collect_signatures auth_headers (None, []))) (\<lambda>(origin, sigs).
            case origin of
              None \<Rightarrow> raise NoAuthenticationError
            | Some o' \<Rightarrow>
                bindM (liftR (is_valid_matrix_server_name (ev_isIPAddress e) (ev_isIPv6Address e) o')) (\<lambda>valid.
                if \<not> valid then raise InvalidServerName
                else
                  bindM (verifyServerSignedJson se fetch now
                    \<lparr>sr_method = rq_method req, sr_uri = uri, sr_destination_is = ev_server_name e,
                     sr_signatures = sigs, sr_origin = o', sr_content = content\<rparr> (Some [o'])) (\<lambda>_.
                  ret o'))))"

section \<open>Lemmas\<close>

lemma strip_quotes_quoted [simp]: "strip_quotes (CHR 0x22 # v @ [CHR 0x22]) = v"
  by (simp add: strip_quotes_def startswith_def)

lemma strip_quotes_plain: "hd v \<noteq> CHR 0x22 \<Longrightarrow> strip_quotes v = v"
  by (cases v) (simp_all add: strip_quotes_def startswith_def)

text \<open>Where the keys of a server come from: what is cached and still valid, or what it answers.\<close>

definition keys_from :: "(string \<Rightarrow> jdict res) \<Rightarrow> int \<Rightarrow> string \<Rightarrow> key_cache \<Rightarrow> (string, string) dict \<Rightarrow> bool" where
  "keys_from fetch now server cache keys =
     ((\<exists>ck. dict_get cache server = Some ck \<and> now < ck_valid_until_ts ck \<and> ck_verify_keys ck = keys) \<or>
      (\<exists>res ts. fetch server = Inr res \<and> read_keys res = Inr (keys, ts)))"

lemma getKeysForServer_from:
  "getKeysForServer fetch now server cache = (Inr keys, cache') \<Longrightarrow> keys_from fetch now server cache keys"
  by (auto simp: getKeysForServer_def fetch_keys_def keys_from_def bindR_eq_Inr
      split: option.splits if_splits sum.splits prod.splits)

lemma getKeysForServer_other:
  "getKeysForServer fetch now server cache = (r, cache') \<Longrightarrow> other \<noteq> server \<Longrightarrow>
   dict_get cache' other = dict_get cache other"
  by (auto simp: getKeysForServer_def fetch_keys_def split: option.splits if_splits sum.splits prod.splits)

lemma try_signatures_Some:
  assumes "try_signatures se sr server keys sigs = Inr (Some k)"
  shows "\<exists>sig key bs vk. (k, sig) \<in> set sigs \<and> dict_get keys k = Some key \<and> sv_decode_base64 se key = Inr bs \<and>
    sv_decode_verify_key_bytes se k bs = Inr vk \<and> sv_verify_signed_json se (payload sr) server vk = Inr ()"
  using assms
proof (induction sigs)
  case (Cons p sigs)
  obtain kn sg where p: "p = (kn, sg)" by fastforce
  show ?case
  proof (cases "dict_get keys kn")
    case None
    with Cons p show ?thesis by fastforce
  next
    case (Some key)
    with Cons.prems p show ?thesis by (auto simp: bindR_eq_Inr)
  qed
qed simp

lemma keys_from_step:
  assumes "getKeysForServer fetch now server cache = (r, cache')" and "keys_from fetch now server' cache' keys"
  shows "keys_from fetch now server' cache keys"
proof (cases "server' = server")
  case False
  with assms getKeysForServer_other [OF assms(1) False] show ?thesis by (simp add: keys_from_def)
next
  case True
  with assms show ?thesis
    by (auto simp: keys_from_def getKeysForServer_def fetch_keys_def bindR_eq_Inr
        split: option.splits if_splits sum.splits prod.splits)
qed

lemma verify_loop_sound:
  assumes "verify_loop se fetch now (Some [o']) sr sigs cache = (Inr (server, k), cache')"
  shows "\<exists>d sig keys key bs vk. (o', d) \<in> set sigs \<and> (k, sig) \<in> set d \<and> keys_from fetch now o' cache keys \<and>
    dict_get keys k = Some key \<and> sv_decode_base64 se key = Inr bs \<and> sv_decode_verify_key_bytes se k bs = Inr vk \<and>
    sv_verify_signed_json se (payload sr) o' vk = Inr ()"
  using assms
proof (induction sigs arbitrary: cache)
  case (Cons p sigs)
  obtain srv d where p: "p = (srv, d)" by fastforce
  show ?case
  proof (cases "srv = o'")
    case False
    with Cons p show ?thesis by fastforce
  next
    case True
    obtain r c1 where g: "getKeysForServer fetch now o' cache = (r, c1)" by fastforce
    with Cons.prems p True obtain keys where r: "r = Inr keys" by (cases r) auto
    show ?thesis
    proof (cases "try_signatures se sr o' keys d")
      case (Inl ex)
      with Cons.prems p True g r show ?thesis by simp
    next
      case (Inr m)
      show ?thesis
      proof (cases m)
        case None
        with Cons.prems p True g r Inr have "verify_loop se fetch now (Some [o']) sr sigs c1 = (Inr (server, k), cache')"
          by simp
        from Cons.IH [OF this] keys_from_step [OF g] show ?thesis by (metis list.set_intros(2))
      next
        case (Some kn)
        with Cons.prems p True g r Inr have "kn = k" by simp
        with try_signatures_Some Inr Some have "\<exists>sig key bs vk. (k, sig) \<in> set d \<and> dict_get keys k = Some key \<and>
            sv_decode_base64 se key = Inr bs \<and> sv_decode_verify_key_bytes se k bs = Inr vk \<and>
            sv_verify_signed_json se (payload sr) o' vk = Inr ()"
          by blast
        moreover have "keys_from fetch now o' cache keys" using getKeysForServer_from g r by blast
        ultimately show ?thesis using p True by (metis list.set_intros(1))
      qed
    qed
  qed
qed simp

text \<open>Every signature that is collected comes from a header.\<close>

lemma add_signature_mem:
  assumes "(srv, d) \<in> set (add_signature sigs o' key sig)" and "(k, v) \<in> set d"
  shows "(srv = o' \<and> k = key \<and> v = sig) \<or> (\<exists>d'. (srv, d') \<in> set sigs \<and> (k, v) \<in> set d')"
  using assms
  by (fastforce simp: add_signature_def dest!: dict_set_mem dest: map_of_SomeD split: option.splits)

definition in_header :: "string list \<Rightarrow> string \<Rightarrow> string \<Rightarrow> string \<Rightarrow> bool" where
  "in_header auths srv k v =
     (\<exists>a \<in> set auths. startswith a ''X-Matrix'' \<and> parse_auth_header a = Inr (srv, k, v))"

lemma collect_signatures_mem:
  assumes "collect_signatures auths (og, sigs) = Inr (og', sigs')" and "(srv, d) \<in> set sigs'" and "(k, v) \<in> set d"
  shows "in_header auths srv k v \<or> (\<exists>d'. (srv, d') \<in> set sigs \<and> (k, v) \<in> set d')"
  using assms
proof (induction auths arbitrary: og sigs)
  case (Cons a auths)
  show ?case
  proof (cases "startswith a ''X-Matrix''")
    case False
    with Cons show ?thesis by (fastforce simp: in_header_def)
  next
    case True
    with Cons.prems(1) obtain o1 k1 v1 where p: "parse_auth_header a = Inr (o1, k1, v1)"
      and c: "collect_signatures auths (Some o1, add_signature sigs o1 k1 v1) = Inr (og', sigs')"
      by (auto simp: bindR_eq_Inr)
    from Cons.IH [OF c Cons.prems(2,3)] consider
        "in_header auths srv k v" | d' where "(srv, d') \<in> set (add_signature sigs o1 k1 v1)" "(k, v) \<in> set d'"
      by blast
    then show ?thesis
    proof cases
      case 1
      then show ?thesis by (auto simp: in_header_def)
    next
      case 2
      from add_signature_mem [OF this] p True show ?thesis by (auto simp: in_header_def)
    qed
  qed
qed auto

section \<open>Properties\<close>

text \<open>C26: a request is only taken to come from a homeserver \<open>o\<close> when \<open>o\<close> is a valid server name, an
  \<open>X-Matrix\<close> header names \<open>o\<close>, a key and a signature, \<open>o\<close> publishes that key (it was cached and its validity
  has not ended, or \<open>o\<close> just returned it), and \<open>signedjson\<close> accepts the signature of exactly this request:
  its method, URI and content, with this server as the destination.
\<close>

theorem authenticate_request_sound:
  assumes "authenticate_request e se fetch now uri req content cache = (Inr srv, cache')"
  shows "is_valid_matrix_server_name (ev_isIPAddress e) (ev_isIPv6Address e) srv = Inr True \<and>
    (\<exists>hs k sig sigs keys key bs vk.
       getRawHeaders req ''Authorization'' = Some hs \<and> in_header hs srv k sig \<and>
       keys_from fetch now srv cache keys \<and> dict_get keys k = Some key \<and>
       sv_decode_base64 se key = Inr bs \<and> sv_decode_verify_key_bytes se k bs = Inr vk \<and>
       sv_verify_signed_json se
         (payload \<lparr>sr_method = rq_method req, sr_uri = uri, sr_destination_is = ev_server_name e,
           sr_signatures = sigs, sr_origin = srv, sr_content = content\<rparr>) srv vk = Inr ())"
proof -
  from assms obtain hs sigs where hs: "getRawHeaders req ''Authorization'' = Some hs"
    and c: "collect_signatures hs (None, []) = Inr (Some srv, sigs)"
    and v: "is_valid_matrix_server_name (ev_isIPAddress e) (ev_isIPv6Address e) srv = Inr True"
    and l: "\<exists>s k. verify_loop se fetch now (Some [srv])
      \<lparr>sr_method = rq_method req, sr_uri = uri, sr_destination_is = ev_server_name e,
       sr_signatures = sigs, sr_origin = srv, sr_content = content\<rparr> sigs cache = (Inr (s, k), cache')"
    by (auto simp: authenticate_request_def verifyServerSignedJson_def bindM_Inr liftR_def split: option.splits if_splits)
  from l verify_loop_sound obtain d k sig keys key bs vk where
    m: "(srv, d) \<in> set sigs" "(k, sig) \<in> set d"
    and r: "keys_from fetch now srv cache keys" "dict_get keys k = Some key" "sv_decode_base64 se key = Inr bs"
      "sv_decode_verify_key_bytes se k bs = Inr vk"
      "sv_verify_signed_json se
         (payload \<lparr>sr_method = rq_method req, sr_uri = uri, sr_destination_is = ev_server_name e,
           sr_signatures = sigs, sr_origin = srv, sr_content = content\<rparr>) srv vk = Inr ()"
    by metis
  from collect_signatures_mem [OF c m] have "in_header hs srv k sig" by simp
  with hs v r show ?thesis by blast
qed

definition x_matrix :: "string \<Rightarrow> string \<Rightarrow> string \<Rightarrow> string" where
  "x_matrix origin key sig = ''X-Matrix origin='' @ origin @ '',key='' @ [CHR 0x22] @ key @ [CHR 0x22] @ '',sig='' @
     [CHR 0x22] @ sig @ [CHR 0x22]"

text \<open>the header a homeserver sends, \<open>X-Matrix origin=O,key="K",sig="S"\<close>, is read back as \<open>O\<close>, \<open>K\<close> and \<open>S\<close>
  whenever none of the three holds a space or a comma and \<open>O\<close> does not begin with a quotation mark.
\<close>

theorem parse_auth_header_roundtrip:
  assumes "set (origin @ key @ sig) \<inter> {CHR '' '', CHR '',''} = {}" and "\<not> startswith origin [CHR 0x22]"
  shows "parse_auth_header (x_matrix origin key sig) = Inr (origin, key, sig)"
proof -
  let ?q = "CHR 0x22"
  let ?p = "''origin='' @ origin" and ?k = "''key='' @ ?q # key @ [?q]" and ?s = "''sig='' @ ?q # sig @ [?q]"
  have "split_on CHR '' '' (x_matrix origin key sig) = [''X-Matrix'', ?p @ CHR '','' # ?k @ CHR '','' # ?s]"
    using assms split_on_append [of "CHR '' ''" "''X-Matrix''" "?p @ CHR '','' # ?k @ CHR '','' # ?s"]
      split_on_no_sep [of "CHR '' ''" "?p @ CHR '','' # ?k @ CHR '','' # ?s"]
    by (auto simp: x_matrix_def)
  moreover have "split_on CHR '','' (?p @ CHR '','' # ?k @ CHR '','' # ?s) = [?p, ?k, ?s]"
    using assms split_on_append [of "CHR '',''" ?p "?k @ CHR '','' # ?s"] split_on_append [of "CHR '',''" ?k ?s]
      split_on_no_sep [of "CHR '',''" ?s]
    by auto
  moreover have "split_once CHR ''='' ?p = (''origin'', Some origin)" and "split_once CHR ''='' ?k = (''key'', Some (?q # key @ [?q]))"
    and "split_once CHR ''='' ?s = (''sig'', Some (?q # sig @ [?q]))"
    by (simp_all add: split_once_eq)
  moreover have "strip_quotes origin = origin" using assms(2) by (simp add: strip_quotes_def)
  ultimately show ?thesis by (simp add: parse_auth_header_def)
qed

text \<open>A key server, a signature check and a signed request on which the theorems apply.\<close>

definition demo_sig_env :: sig_env where
  "demo_sig_env = \<lparr>sv_signature_ids = \<lambda>_ _. [], sv_verify_signed_json = \<lambda>d srv k.
       if dict_get d ''origin'' = Some (JStr srv) \<and> k = ''K'' then Inr () else Inl SignatureVerifyException,
     sv_decode_base64 = \<lambda>s. Inr s, sv_decode_verify_key_bytes = \<lambda>_ bs. Inr bs, sv_base_replication_urls = []\<rparr>"

definition demo_keys :: "string \<Rightarrow> jdict res" where
  "demo_keys srv = Inr [(''verify_keys'', JObj [(''ed25519:old'', JObj []), (''ed25519:a'', JObj [(''key'', JStr ''K'')])]),
     (''valid_until_ts'', JInt 9000)]"

definition demo_signed :: request where
  "demo_signed = \<lparr>rq_method = ''POST'', rq_path = ''/_matrix/identity/v2/3pid/unbind'',
     rq_headers = [(''authorization'', [x_matrix ''hs.example'' ''ed25519:a'' ''c2ln''])], rq_args = [], rq_body = None\<rparr>"

lemma demo_signed_authenticates:
  "fst (authenticate_request plain_env demo_sig_env demo_keys 1000 ''/u'' demo_signed JNull []) = Inr ''hs.example''"
  by code_simp

theorem authenticate_request_sound_witness:
  "is_valid_matrix_server_name (ev_isIPAddress plain_env) (ev_isIPv6Address plain_env) ''hs.example'' = Inr True"
  using authenticate_request_sound [of plain_env demo_sig_env demo_keys 1000 "''/u''" demo_signed JNull "[]" "''hs.example''"]
    demo_signed_authenticates
  by (metis prod.collapse)

theorem parse_auth_header_roundtrip_witness:
  "parse_auth_header (x_matrix ''hs.example'' ''ed25519:a'' ''c2ln'') = Inr (''hs.example'', ''ed25519:a'', ''c2ln'')"
  using parse_auth_header_roundtrip [of "''hs.example''" "''ed25519:a''" "''c2ln''"] by (simp add: startswith_def)

end
