(* ===== verification/Srv_Resolver.thy ===== *)
theory Srv_Resolver
  imports Prelude
begin

text \<open>
  \<open>sydent/http/srvresolver.py\<close>: looking up the SRV records of a service with a cache, and choosing one of the servers
  by priority and weight. The answer of the DNS is an argument; ports, priorities and weights are the unsigned
  numbers of a record.
\<close>

section \<open>Definitions\<close>

record srv_server =
  srv_host :: string
  srv_port :: nat
  srv_priority :: nat
  srv_weight :: nat
  srv_expires :: int

text \<open>The loop that spends \<open>target_weight\<close> on the servers; running off its end is a \<open>RuntimeError\<close>.\<close>

fun pick_loop :: "int \<Rightarrow> srv_server list \<Rightarrow> (string \<times> nat) res" where
  "pick_loop target_weight [] = Inl RuntimeError"
| "pick_loop target_weight (s # ss) =
     (let t = target_weight - int (srv_weight s) in
      if t \<le> 0 then Inr (srv_host s, srv_port s) else pick_loop t ss)"

definition eligible_servers :: "srv_server list \<Rightarrow> srv_server list" where
  "eligible_servers server_list =
     (let min_priority = Min (srv_priority ` set server_list)
      in filter (\<lambda>s. srv_priority s = min_priority) server_list)"

definition total_weight :: "srv_server list \<Rightarrow> int" where
  "total_weight ss = (\<Sum>s\<leftarrow>ss. int (srv_weight s))"

definition pick_server_from_list :: "nat \<Rightarrow> srv_server list \<Rightarrow> (string \<times> nat) res" where
  "pick_server_from_list rnd server_list =
     (if server_list = [] then Inl RuntimeError
      else pick_loop (randint 0 (total_weight (eligible_servers server_list)) rnd) (eligible_servers server_list))"

record srv_payload =
  sp_target :: string
  sp_port :: nat
  sp_priority :: nat
  sp_weight :: nat

record srv_answer =
  sa_is_srv :: bool
  sa_payload :: "srv_payload option"
  sa_ttl :: int

datatype dns_result = Answers "srv_answer list" | DNSNameError | OtherDomainError

type_synonym srv_cache = "(string, srv_server list) dict"

definition service_unavailable :: "srv_answer list \<Rightarrow> bool" where
  "service_unavailable answers =
     (case answers of
        [a] \<Rightarrow> sa_is_srv a \<and> (case sa_payload a of None \<Rightarrow> False | Some p \<Rightarrow> sp_target p = ''.'')
      | _ \<Rightarrow> False)"

definition answer_server :: "int \<Rightarrow> srv_answer \<Rightarrow> srv_server option" where
  "answer_server now a =
     (case (sa_is_srv a, sa_payload a) of
        (True, Some p) \<Rightarrow> Some \<lparr>srv_host = sp_target p, srv_port = sp_port p, srv_priority = sp_priority p,
          srv_weight = sp_weight p, srv_expires = now + sa_ttl a\<rparr>
      | _ \<Rightarrow> None)"

definition fresh_entry :: "int \<Rightarrow> srv_server list option \<Rightarrow> bool" where
  "fresh_entry now entry =
     (case entry of None \<Rightarrow> False | Some ss \<Rightarrow> ss \<noteq> [] \<and> list_all (\<lambda>s. srv_expires s > now) ss)"

definition resolve_service :: "(string \<Rightarrow> dns_result) \<Rightarrow> int \<Rightarrow> string \<Rightarrow> (srv_cache, srv_server list) act" where
  "resolve_service lookup now service_name cache =
     (let cache_entry = dict_get cache service_name in
      if fresh_entry now cache_entry then (Inr (the cache_entry), cache)
      else case lookup service_name of
          DNSNameError \<Rightarrow> (Inr [], cache)
        | OtherDomainError \<Rightarrow>
            (case cache_entry of
               Some (s # ss) \<Rightarrow> (Inr (s # ss), cache)
             | _ \<Rightarrow> (Inl DomainError, cache))
        | Answers answers \<Rightarrow>
            if service_unavailable answers then (Inl ConnectError, cache)
            else let servers = List.map_filter (answer_server now) answers
                 in (Inr servers, dict_set cache service_name servers))"

section \<open>Lemmas\<close>

lemma total_weight_nonneg: "0 \<le> total_weight ss"
  unfolding total_weight_def by (induction ss) auto

lemma total_weight_Cons [simp]: "total_weight (s # ss) = int (srv_weight s) + total_weight ss"
  by (simp add: total_weight_def)

lemma eligible_servers_nonempty: "ss \<noteq> [] \<Longrightarrow> eligible_servers ss \<noteq> []"
proof -
  assume "ss \<noteq> []"
  then have "Min (srv_priority ` set ss) \<in> srv_priority ` set ss" by (intro Min_in) auto
  then show ?thesis by (auto simp: eligible_servers_def filter_empty_conv)
qed

lemma eligible_servers_iff:
  "s \<in> set (eligible_servers ss) \<longleftrightarrow> s \<in> set ss \<and> (\<forall>q \<in> set ss. srv_priority s \<le> srv_priority q)"
proof (cases "ss = []")
  case False
  then show ?thesis
    by (auto simp: eligible_servers_def Min_le intro!: Min_eqI [symmetric])
qed (simp add: eligible_servers_def)

text \<open>Which server a target selects: the first one whose weight, added to those before it, reaches the target.\<close>

lemma pick_loop_split:
  assumes "0 \<le> t" and "t \<le> total_weight ss" and "ss \<noteq> []"
  shows "\<exists>us s vs. ss = us @ s # vs \<and> pick_loop t ss = Inr (srv_host s, srv_port s) \<and>
    t \<le> total_weight us + int (srv_weight s) \<and> (us = [] \<or> total_weight us < t)"
  using assms
proof (induction ss arbitrary: t)
  case (Cons s ss)
  show ?case
  proof (cases "t \<le> int (srv_weight s)")
    case True
    then have "pick_loop t (s # ss) = Inr (srv_host s, srv_port s)" by simp
    with True show ?thesis by (intro exI [of _ "[]"]) (auto simp: total_weight_def)
  next
    case False
    let ?t = "t - int (srv_weight s)"
    have "0 < ?t" "?t \<le> total_weight ss" using False Cons.prems by simp_all
    moreover from this have "ss \<noteq> []" by (auto simp: total_weight_def)
    ultimately obtain us q vs where *: "ss = us @ q # vs" "pick_loop ?t ss = Inr (srv_host q, srv_port q)"
      "?t \<le> total_weight us + int (srv_weight q)" "us = [] \<or> total_weight us < ?t"
      using Cons.IH [of ?t] by auto
    with False have "pick_loop t (s # ss) = Inr (srv_host q, srv_port q)" by simp
    with * False \<open>0 < ?t\<close> show ?thesis
      by (intro exI [of _ "s # us"] exI [of _ q] exI [of _ vs]) (auto simp: total_weight_def)
  qed
qed simp

lemma pick_loop_hits:
  assumes "ss = us @ s # vs" and "total_weight us < t" and "t \<le> total_weight us + int (srv_weight s)"
  shows "pick_loop t ss = Inr (srv_host s, srv_port s)"
  using assms
proof (induction us arbitrary: t ss)
  case (Cons u us)
  then show ?case using total_weight_nonneg [of us] by (simp add: Let_def)
qed (simp add: total_weight_def)

section \<open>Properties\<close>

text \<open>C35: choosing a server of a list that is not empty always succeeds, whatever the random number: the
  \<open>RuntimeError\<close> at the end of the loop cannot occur. The choice is a server of the lowest priority number, and every such
  server with a positive weight is chosen for as many of the targets as its weight says.
\<close>

theorem pick_server_from_list_total:
  assumes "ss \<noteq> []"
  shows "(\<exists>s \<in> set ss. pick_server_from_list rnd ss = Inr (srv_host s, srv_port s) \<and>
      (\<forall>q \<in> set ss. srv_priority s \<le> srv_priority q)) \<and>
    (\<forall>us s vs t. eligible_servers ss = us @ s # vs \<and> total_weight us < t \<and> t \<le> total_weight us + int (srv_weight s)
      \<longrightarrow> pick_server_from_list (nat t) ss = Inr (srv_host s, srv_port s))"
proof (intro conjI allI impI)
  let ?e = "eligible_servers ss"
  have "?e \<noteq> []" using assms by (rule eligible_servers_nonempty)
  then obtain us s vs where "?e = us @ s # vs"
    "pick_loop (randint 0 (total_weight ?e) rnd) ?e = Inr (srv_host s, srv_port s)"
    using pick_loop_split [of "randint 0 (total_weight ?e) rnd" ?e] randint_range [of 0 "total_weight ?e" rnd]
      total_weight_nonneg [of ?e] by blast
  moreover from this(1) have "s \<in> set ?e" by simp
  then have "s \<in> set ss \<and> (\<forall>q \<in> set ss. srv_priority s \<le> srv_priority q)" using eligible_servers_iff by blast
  ultimately show "\<exists>s \<in> set ss. pick_server_from_list rnd ss = Inr (srv_host s, srv_port s) \<and>
      (\<forall>q \<in> set ss. srv_priority s \<le> srv_priority q)"
    using assms unfolding pick_server_from_list_def by auto
next
  fix us s vs t
  let ?e = "eligible_servers ss"
  assume a: "?e = us @ s # vs \<and> total_weight us < t \<and> t \<le> total_weight us + int (srv_weight s)"
  then have "0 < t" "t \<le> total_weight ?e"
    using total_weight_nonneg [of us] total_weight_nonneg [of vs] by (auto simp: total_weight_def)
  then have "randint 0 (total_weight ?e) (nat t) = t" by (simp add: randint_def)
  with pick_loop_hits a assms show "pick_server_from_list (nat t) ss = Inr (srv_host s, srv_port s)"
    by (simp add: pick_server_from_list_def)
qed

theorem pick_server_from_list_total_witness:
  "pick_server_from_list 3 [\<lparr>srv_host = ''a'', srv_port = 1, srv_priority = 5, srv_weight = 9, srv_expires = 0\<rparr>,
     \<lparr>srv_host = ''b'', srv_port = 2, srv_priority = 1, srv_weight = 2, srv_expires = 0\<rparr>,
     \<lparr>srv_host = ''c'', srv_port = 3, srv_priority = 1, srv_weight = 4, srv_expires = 0\<rparr>] = Inr (''c'', 3)"
proof -
  let ?b = "\<lparr>srv_host = ''b'', srv_port = 2, srv_priority = 1, srv_weight = 2, srv_expires = 0\<rparr>"
    and ?c = "\<lparr>srv_host = ''c'', srv_port = 3, srv_priority = 1, srv_weight = 4, srv_expires = 0\<rparr>"
  let ?ss = "[\<lparr>srv_host = ''a'', srv_port = 1, srv_priority = 5, srv_weight = 9, srv_expires = 0\<rparr>, ?b, ?c]"
  have "eligible_servers ?ss = [?b] @ ?c # []" by (simp add: eligible_servers_def)
  moreover have "total_weight [?b] < 3" "3 \<le> total_weight [?b] + int (srv_weight ?c)" by (simp_all add: total_weight_def)
  ultimately have "pick_server_from_list (nat 3) ?ss = Inr (srv_host ?c, srv_port ?c)"
    using pick_server_from_list_total [of ?ss 0] by blast
  then show ?thesis by simp
qed

end
