(* ===== verification/Federation_Agent.thy ===== *)
theory Federation_Agent
  imports Http_Common Srv_Resolver TTL_Cache "HOL-Library.Option_ord"
begin

text \<open>
  \<open>sydent/http/matrixfederationagent.py\<close>: from the name of a homeserver to the address of the connection, by IP
  literal, explicit port, \<open>.well-known\<close> delegation (cached), SRV records (cached) and the default port; and the
  request that is sent there.

  Arguments of the definitions are what the packages and the network return: \<open>netaddr\<close>'s reading of an
  address (its numeric value), Twisted's parsing of URIs and dates, the responses to the \<open>.well-known\<close>
  request (with the events of the connection up to its end) and to DNS queries, random numbers, and the operations
  of the cache's sorted list. Routing one request is one step of the model: two requests that wait for the network
  at the same time are taken one after the other.
\<close>

section \<open>Definitions\<close>

definition WELL_KNOWN_DEFAULT_CACHE_PERIOD :: rat where
  "WELL_KNOWN_DEFAULT_CACHE_PERIOD = 24 * 3600"

definition WELL_KNOWN_DEFAULT_CACHE_PERIOD_JITTER :: rat where
  "WELL_KNOWN_DEFAULT_CACHE_PERIOD_JITTER = 10 * 60"

definition WELL_KNOWN_INVALID_CACHE_PERIOD :: rat where
  "WELL_KNOWN_INVALID_CACHE_PERIOD = 1 * 3600"

definition WELL_KNOWN_MAX_CACHE_PERIOD :: rat where
  "WELL_KNOWN_MAX_CACHE_PERIOD = 48 * 3600"

definition WELL_KNOWN_MAX_SIZE :: nat where
  "WELL_KNOWN_MAX_SIZE = 50 * 1024"

type_synonym headers = "(string, string list) dict"

text \<open>\<open>bytes.strip\<close> and \<open>int\<close> of bytes: the white space of ASCII only.\<close>

definition bytes_space :: "char \<Rightarrow> bool" where
  "bytes_space c = (c \<in> set [CHR '' '', CHR 0x09, CHR 0x0A, CHR 0x0B, CHR 0x0C, CHR 0x0D])"

definition bytes_strip :: "string \<Rightarrow> string" where
  "bytes_strip s = rev (dropWhile bytes_space (rev (dropWhile bytes_space s)))"

definition bytes_int :: "string \<Rightarrow> int option" where
  "bytes_int s = (if bytes_strip s = str_strip s then py_int s else None)"

definition directive :: "string \<Rightarrow> string \<times> string option" where
  "directive d = (case split_once CHR ''='' d of
     (k, v) \<Rightarrow> (str_lower (bytes_strip k), map_option bytes_strip v))"

definition parse_cache_control :: "headers \<Rightarrow> (string, string option) dict" where
  "parse_cache_control hs =
     fold (\<lambda>d cc. case directive d of (k, v) \<Rightarrow> dict_set cc k v)
       (concat (map (split_on CHR '','') (case dict_get hs ''cache-control'' of None \<Rightarrow> [] | Some vs \<Rightarrow> vs))) []"

record fed_env =
  fe_IPAddress :: "string \<Rightarrow> nat option"
  fe_stringToDatetime :: "string \<Rightarrow> int res"
  fe_decode :: "string \<Rightarrow> json res"
  fe_fetch :: "string \<Rightarrow> (int \<times> headers \<times> nat option \<times> conn_event list) res"
  fe_lookup :: "string \<Rightarrow> dns_result"
  fe_random :: nat
  fe_jitter :: rat
  fe_add :: "(string, string option) cache_entry \<Rightarrow> (string, string option) cache_entry list \<Rightarrow>
    (string, string option) cache_entry list"
  fe_remove :: "(string, string option) cache_entry \<Rightarrow> (string, string option) cache_entry list \<Rightarrow>
    (string, string option) cache_entry list option"

definition cache_period_from_headers :: "(string \<Rightarrow> int res) \<Rightarrow> rat \<Rightarrow> headers \<Rightarrow> rat option res" where
  "cache_period_from_headers stringToDatetime time_now hs =
     (let cache_controls = parse_cache_control hs in
      if dict_has cache_controls ''no-store'' then Inr (Some 0)
      else case (case dict_get cache_controls ''max-age'' of Some (Some m) \<Rightarrow> bytes_int m | _ \<Rightarrow> None) of
          Some age \<Rightarrow> Inr (Some (of_int age))
        | None \<Rightarrow>
            (case dict_get hs ''expires'' of
               None \<Rightarrow> Inr None
             | Some vs \<Rightarrow>
                 if vs = [] then Inl IndexError
                 else (case stringToDatetime (last vs) of
                    Inr date \<Rightarrow> Inr (Some (of_int date - time_now))
                  | Inl ex \<Rightarrow> if ex = ValueError then Inr (Some 0) else Inl ex)))"

text \<open>The \<open>try\<close> block of \<open>_do_get_well_known\<close>: every exception in it has the same effect.\<close>

definition well_known_server :: "fed_env \<Rightarrow> string \<Rightarrow> (string \<times> headers) option" where
  "well_known_server fe server_name =
     (case fe_fetch fe (''https://'' @ server_name @ ''/.well-known/matrix/server'') of
        Inl _ \<Rightarrow> None
      | Inr (code, hs, len, evs) \<Rightarrow>
          (case rd_result (read_body_with_max_size len (Some WELL_KNOWN_MAX_SIZE) evs) of
             Some (Inr body) \<Rightarrow>
               if code \<noteq> 200 then None
               else (case fe_decode fe body of
                   Inr (JObj d) \<Rightarrow> (case dict_get d ''m.server'' of Some (JStr s) \<Rightarrow> Some (s, hs) | _ \<Rightarrow> None)
                 | _ \<Rightarrow> None)
           | _ \<Rightarrow> None))"

definition is_ascii :: "string \<Rightarrow> bool" where
  "is_ascii s = list_all (\<lambda>c. (of_char c :: nat) < 128) s"

definition do_get_well_known :: "fed_env \<Rightarrow> rat \<Rightarrow> string \<Rightarrow> (string option \<times> rat) res" where
  "do_get_well_known fe now server_name =
     (case well_known_server fe server_name of
        None \<Rightarrow> Inr (None, WELL_KNOWN_INVALID_CACHE_PERIOD + fe_jitter fe)
      | Some (m_server, hs) \<Rightarrow>
          if \<not> is_ascii m_server then Inl ValueError
          else bindR (cache_period_from_headers (fe_stringToDatetime fe) now hs) (\<lambda>p.
            Inr (Some m_server,
              case p of
                None \<Rightarrow> WELL_KNOWN_DEFAULT_CACHE_PERIOD + fe_jitter fe
              | Some period \<Rightarrow> min period WELL_KNOWN_MAX_CACHE_PERIOD)))"

record agent_state =
  ag_well_known :: "(string, string option) ttl_cache"
  ag_srv :: srv_cache

definition on_well_known ::
    "((string, string option) ttl_cache \<Rightarrow> 'a res \<times> (string, string option) ttl_cache) \<Rightarrow> (agent_state, 'a) act" where
  "on_well_known m st = (case m (ag_well_known st) of (r, c) \<Rightarrow> (r, st\<lparr>ag_well_known := c\<rparr>))"

definition on_srv :: "(srv_cache, 'a) act \<Rightarrow> (agent_state, 'a) act" where
  "on_srv m st = (case m (ag_srv st) of (r, c) \<Rightarrow> (r, st\<lparr>ag_srv := c\<rparr>))"

definition fetch_well_known :: "fed_env \<Rightarrow> rat \<Rightarrow> string \<Rightarrow> (agent_state, string option) act" where
  "fetch_well_known fe now server_name =
     bindM (liftR (do_get_well_known fe now server_name)) (\<lambda>(result, cache_period).
     if cache_period > 0
     then bindM (on_well_known (cache_set (fe_add fe) (fe_remove fe) now server_name result cache_period)) (\<lambda>_. ret result)
     else ret result)"

definition get_well_known :: "fed_env \<Rightarrow> rat \<Rightarrow> string \<Rightarrow> (agent_state, string option) act" where
  "get_well_known fe now server_name st =
     (case on_well_known (cache_getitem now server_name) st of
        (Inl ex, st') \<Rightarrow> if ex = KeyError then fetch_well_known fe now server_name st' else (Inl ex, st')
      | (Inr result, st') \<Rightarrow> (Inr result, st'))"

record parsed_uri =
  uri_scheme :: string
  uri_netloc :: string
  uri_host :: string
  uri_port :: int
  uri_rest :: "string list"

record routing_result =
  rr_host_header :: string
  rr_tls_server_name :: string
  rr_target_host :: string
  rr_target_port :: int

definition route_to :: "parsed_uri \<Rightarrow> string \<Rightarrow> int \<Rightarrow> routing_result" where
  "route_to u target_host port =
     \<lparr>rr_host_header = uri_netloc u, rr_tls_server_name = uri_host u, rr_target_host = target_host, rr_target_port = port\<rparr>"

text \<open>The part of \<open>_route_matrix_uri\<close> that splits the delegated name into a host and a port.\<close>

definition delegated_host_port :: "string \<Rightarrow> string \<times> int" where
  "delegated_host_port name =
     (case rsplit_once CHR '':'' name of
        (host, Some port_raw) \<Rightarrow> (case bytes_int port_raw of Some p \<Rightarrow> (host, p) | None \<Rightarrow> (name, - 1))
      | (_, None) \<Rightarrow> (name, - 1))"

definition delegated_uri :: "parsed_uri \<Rightarrow> string \<Rightarrow> parsed_uri" where
  "delegated_uri u name = (case delegated_host_port name of
     (host, port) \<Rightarrow> u\<lparr>uri_netloc := name, uri_host := host, uri_port := port\<rparr>)"

definition picked_route :: "fed_env \<Rightarrow> parsed_uri \<Rightarrow> srv_server list \<Rightarrow> (agent_state, routing_result) act" where
  "picked_route fe u server_list =
     bindM (liftR (pick_server_from_list (fe_random fe) server_list)) (\<lambda>(host, port). ret (route_to u host (int port)))"

definition route_by_srv :: "fed_env \<Rightarrow> rat \<Rightarrow> parsed_uri \<Rightarrow> (agent_state, routing_result) act" where
  "route_by_srv fe now u =
     bindM (on_srv (resolve_service (fe_lookup fe) \<lfloor>now\<rfloor> (''_matrix-fed._tcp.'' @ uri_host u))) (\<lambda>server_list.
     if server_list \<noteq> [] then picked_route fe u server_list
     else
       bindM (on_srv (resolve_service (fe_lookup fe) \<lfloor>now\<rfloor> (''_matrix._tcp.'' @ uri_host u))) (\<lambda>server_list.
       if server_list = [] then ret (route_to u (uri_host u) 8448)
       else picked_route fe u server_list))"

text \<open>
  \<open>if ip_address:\<close> asks for the truth value of the address, which is that of its number. The function calls itself
  for a delegated name with the flag off.
\<close>

definition is_ip_literal :: "fed_env \<Rightarrow> string \<Rightarrow> bool" where
  "is_ip_literal fe host = (case fe_IPAddress fe host of None \<Rightarrow> False | Some n \<Rightarrow> n \<noteq> 0)"

function route_matrix_uri :: "fed_env \<Rightarrow> rat \<Rightarrow> parsed_uri \<Rightarrow> bool \<Rightarrow> (agent_state, routing_result) act" where
  "route_matrix_uri fe now u lookup_well_known =
     (if is_ip_literal fe (uri_host u)
      then ret (route_to u (uri_host u) (if uri_port u = - 1 then 8448 else uri_port u))
      else if uri_port u \<noteq> - 1 then ret (route_to u (uri_host u) (uri_port u))
      else if lookup_well_known then
        bindM (get_well_known fe now (uri_host u)) (\<lambda>name.
        case name of
          None \<Rightarrow> route_by_srv fe now u
        | Some n \<Rightarrow> if n = [] then route_by_srv fe now u else route_matrix_uri fe now (delegated_uri u n) False)
      else route_by_srv fe now u)"
  by pat_completeness auto
termination
  by (relation "measure (\<lambda>(_, _, _, lookup_well_known). if lookup_well_known then 1 else 0)") simp_all

declare route_matrix_uri.simps [simp del]

text \<open>What \<open>request\<close> opens and sends: the endpoint, the name for TLS (none without TLS) and the headers.\<close>

record connection =
  co_host :: string
  co_port :: int
  co_tls_name :: "string option"
  co_method :: string
  co_uri :: string
  co_headers :: headers

definition add_host :: "headers \<Rightarrow> string \<Rightarrow> headers" where
  "add_host hs host = (if dict_has hs ''host'' then hs else dict_set hs ''host'' [host])"

definition agent_request ::
    "fed_env \<Rightarrow> bool \<Rightarrow> rat \<Rightarrow> (string \<Rightarrow> parsed_uri) \<Rightarrow> string \<Rightarrow> string \<Rightarrow> headers option \<Rightarrow> (agent_state, connection) act" where
  "agent_request fe use_tls now fromBytes meth uri hs =
     bindM (route_matrix_uri fe now (fromBytes uri) True) (\<lambda>routing.
     ret \<lparr>co_host = rr_target_host routing, co_port = rr_target_port routing,
       co_tls_name = (if use_tls then Some (rr_tls_server_name routing) else None), co_method = meth, co_uri = uri,
       co_headers = add_host (case hs of None \<Rightarrow> [] | Some h \<Rightarrow> h) (rr_host_header routing)\<rparr>)"

section \<open>What the caches return\<close>

abbreviation list_ops :: "fed_env \<Rightarrow> bool" where
  "list_ops fe \<equiv> sorted_list_ops (fe_add fe) (fe_remove fe)"

text \<open>The delegated name of a host: the cached one while it lasts, otherwise the one that is fetched.\<close>

definition delegation :: "fed_env \<Rightarrow> rat \<Rightarrow> agent_state \<Rightarrow> string \<Rightarrow> string option res" where
  "delegation fe now st host =
     (case prune now (cache_view (ag_well_known st)) host of
        Some (v, _) \<Rightarrow> Inr v
      | None \<Rightarrow> bindR (do_get_well_known fe now host) (\<lambda>(v, _). Inr v))"

lemma fetch_well_known_spec:
  assumes "list_ops fe" and "cache_inv (ag_well_known st)"
  obtains c where "fetch_well_known fe now host st =
      (bindR (do_get_well_known fe now host) (\<lambda>(v, _). Inr v), st\<lparr>ag_well_known := c\<rparr>)"
    and "cache_inv c"
    and "cache_view c = (case do_get_well_known fe now host of
        Inr (v, period) \<Rightarrow> if 0 < period then (prune now (cache_view (ag_well_known st)))(host \<mapsto> (v, now + period))
          else cache_view (ag_well_known st)
      | Inl _ \<Rightarrow> cache_view (ag_well_known st))"
proof (cases "do_get_well_known fe now host")
  case (Inl ex)
  with assms(2) show ?thesis
    by (intro that [of "ag_well_known st"]) (simp_all add: fetch_well_known_def act_simps)
next
  case (Inr p)
  obtain v period where p: "p = (v, period)" by fastforce
  show ?thesis
  proof (cases "0 < period")
    case False
    with assms(2) Inr p show ?thesis
      by (intro that [of "ag_well_known st"]) (simp_all add: fetch_well_known_def act_simps)
  next
    case True
    obtain c where "cache_set (fe_add fe) (fe_remove fe) now host v period (ag_well_known st) = (Inr (), c)"
      "cache_inv c" "cache_view c = (prune now (cache_view (ag_well_known st)))(host \<mapsto> (v, now + period))"
      by (rule cache_set_spec [OF assms, of now host v period])
    with True Inr p show ?thesis
      by (intro that [of c]) (simp_all add: fetch_well_known_def on_well_known_def act_simps)
  qed
qed

lemma prune_prune: "prune now (prune now m) = prune now m"
  by (auto simp: prune_def fun_eq_iff split: option.splits)

text \<open>What the cache maps after a delegation was asked for.\<close>

definition delegation_view ::
    "fed_env \<Rightarrow> rat \<Rightarrow> (string \<Rightarrow> (string option \<times> rat) option) \<Rightarrow> string \<Rightarrow> string \<Rightarrow> (string option \<times> rat) option" where
  "delegation_view fe now m host =
     (case prune now m host of
        Some _ \<Rightarrow> prune now m
      | None \<Rightarrow> (case do_get_well_known fe now host of
           Inr (v, period) \<Rightarrow> if 0 < period then (prune now m)(host \<mapsto> (v, now + period)) else prune now m
         | Inl _ \<Rightarrow> prune now m))"

lemma get_well_known_spec:
  assumes "list_ops fe" and "cache_inv (ag_well_known st)"
  obtains c where "get_well_known fe now host st = (delegation fe now st host, st\<lparr>ag_well_known := c\<rparr>)"
    and "cache_inv c" and "cache_view c = delegation_view fe now (cache_view (ag_well_known st)) host"
proof -
  let ?c = "ag_well_known st" and ?m = "prune now (cache_view (ag_well_known st))"
  obtain c1 where c1: "cache_get now host None ?c = (case ?m host of Some (v, x) \<Rightarrow> Inr v | None \<Rightarrow> Inl KeyError, c1)"
    "cache_inv c1" "cache_view c1 = ?m"
    by (rule cache_get_spec [OF assms(2), of now host None]) (auto split: option.splits)
  show ?thesis
  proof (cases "?m host")
    case (Some p)
    with c1 show ?thesis
      by (intro that [of c1])
        (auto simp: get_well_known_def on_well_known_def cache_getitem_def delegation_def delegation_view_def split: prod.splits)
  next
    case None
    let ?st = "st\<lparr>ag_well_known := c1\<rparr>"
    have inv1: "cache_inv (ag_well_known ?st)" using c1(2) by simp
    obtain c where
      f: "fetch_well_known fe now host ?st = (bindR (do_get_well_known fe now host) (\<lambda>(v, _). Inr v), ?st\<lparr>ag_well_known := c\<rparr>)"
      and c: "cache_inv c" and v': "cache_view c = (case do_get_well_known fe now host of
        Inr (v, period) \<Rightarrow> if 0 < period then (prune now (cache_view (ag_well_known ?st)))(host \<mapsto> (v, now + period))
          else cache_view (ag_well_known ?st)
      | Inl _ \<Rightarrow> cache_view (ag_well_known ?st))"
      by (rule fetch_well_known_spec [OF assms(1) inv1, of now host])
    have c1': "cache_view (ag_well_known ?st) = ?m" using c1(3) by simp
    from v' None have v: "cache_view c = delegation_view fe now (cache_view ?c) host"
      by (simp only: c1' prune_prune delegation_view_def option.case)
    from None c1(1) have "get_well_known fe now host st = fetch_well_known fe now host ?st"
      by (simp add: get_well_known_def on_well_known_def cache_getitem_def)
    with f None have "get_well_known fe now host st = (delegation fe now st host, st\<lparr>ag_well_known := c\<rparr>)"
      by (simp add: delegation_def)
    with c v that show ?thesis by blast
  qed
qed

text \<open>The two caches do not interfere, and the two names of the SRV lookups differ.\<close>

definition srv_servers :: "fed_env \<Rightarrow> rat \<Rightarrow> srv_cache \<Rightarrow> string \<Rightarrow> srv_server list res" where
  "srv_servers fe now cache host =
     bindR (fst (resolve_service (fe_lookup fe) \<lfloor>now\<rfloor> (''_matrix-fed._tcp.'' @ host) cache)) (\<lambda>ss.
     if ss \<noteq> [] then Inr ss
     else fst (resolve_service (fe_lookup fe) \<lfloor>now\<rfloor> (''_matrix._tcp.'' @ host) cache))"

lemma resolve_service_other:
  "n \<noteq> n' \<Longrightarrow> dict_get (snd (resolve_service lookup now n cache)) n' = dict_get cache n'"
  by (auto simp: resolve_service_def Let_def split: dns_result.splits option.splits list.splits)

lemma resolve_service_local:
  "dict_get cache n = dict_get cache' n \<Longrightarrow>
   fst (resolve_service lookup now n cache) = fst (resolve_service lookup now n cache')"
  by (auto simp: resolve_service_def Let_def split: dns_result.splits option.splits list.splits)

lemma picked_route_eq:
  "fst (picked_route fe u ss st) =
     bindR (pick_server_from_list (fe_random fe) ss) (\<lambda>(host, port). Inr (route_to u host (int port)))"
  by (auto simp: picked_route_def act_simps split: sum.splits)

definition srv_route :: "fed_env \<Rightarrow> parsed_uri \<Rightarrow> srv_server list \<Rightarrow> routing_result res" where
  "srv_route fe u ss =
     (if ss = [] then Inr (route_to u (uri_host u) 8448)
      else bindR (pick_server_from_list (fe_random fe) ss) (\<lambda>(host, port). Inr (route_to u host (int port))))"

lemma route_by_srv_eq:
  "fst (route_by_srv fe now u st) = bindR (srv_servers fe now (ag_srv st) (uri_host u)) (srv_route fe u)"
proof -
  let ?n = "''_matrix-fed._tcp.'' @ uri_host u" and ?n' = "''_matrix._tcp.'' @ uri_host u"
  obtain r c where rc: "resolve_service (fe_lookup fe) \<lfloor>now\<rfloor> ?n (ag_srv st) = (r, c)" by fastforce
  obtain r' c' where rc': "resolve_service (fe_lookup fe) \<lfloor>now\<rfloor> ?n' c = (r', c')" by fastforce
  have "dict_get c ?n' = dict_get (ag_srv st) ?n'"
    using resolve_service_other [of ?n ?n' "fe_lookup fe" "\<lfloor>now\<rfloor>" "ag_srv st"] rc by simp
  from resolve_service_local [OF this, of "fe_lookup fe" "\<lfloor>now\<rfloor>"] rc'
  have "fst (resolve_service (fe_lookup fe) \<lfloor>now\<rfloor> ?n' (ag_srv st)) = r'" by simp
  with rc rc' show ?thesis
    by (cases r; cases r')
      (simp_all add: route_by_srv_def srv_servers_def srv_route_def on_srv_def bindM_def ret_def picked_route_eq)
qed

section \<open>Properties\<close>

text \<open>The URI that is routed: the given one, or the one of the delegated name.\<close>

definition direct :: "fed_env \<Rightarrow> parsed_uri \<Rightarrow> bool" where
  "direct fe u = (is_ip_literal fe (uri_host u) \<or> uri_port u \<noteq> - 1)"

definition destination :: "fed_env \<Rightarrow> rat \<Rightarrow> agent_state \<Rightarrow> parsed_uri \<Rightarrow> parsed_uri res" where
  "destination fe now st u =
     (if direct fe u then Inr u
      else bindR (delegation fe now st (uri_host u)) (\<lambda>name.
        Inr (case name of None \<Rightarrow> u | Some n \<Rightarrow> if n = [] then u else delegated_uri u n)))"

definition endpoint :: "fed_env \<Rightarrow> rat \<Rightarrow> srv_cache \<Rightarrow> parsed_uri \<Rightarrow> routing_result res" where
  "endpoint fe now cache u =
     (if direct fe u then Inr (route_to u (uri_host u) (if uri_port u = - 1 then 8448 else uri_port u))
      else bindR (srv_servers fe now cache (uri_host u)) (srv_route fe u))"

lemma route_without_delegation:
  "fst (route_matrix_uri fe now u False st) = endpoint fe now (ag_srv st) u"
  by (simp add: route_matrix_uri.simps [of fe now u False] endpoint_def direct_def ret_def route_by_srv_eq)

text \<open>C32: routing a request is a two-step decision on what the two caches and the network hold, whatever is cached in them:
  first the delegation (none for an IP literal or an explicit port; otherwise the cached or fetched
  \<open>.well-known\<close> name, if there is one), then the endpoint for the resulting name (the name itself for an IP literal or an explicit
  port, with 8448 as the default; otherwise a server of its SRV records, with port 8448 of the host when there
  are none). The \<open>Host\<close> header and the name for TLS are those of the resulting name, never of an SRV target.
\<close>

theorem route_matrix_uri_refines:
  assumes "list_ops fe" and "cache_inv (ag_well_known st)"
  shows "fst (route_matrix_uri fe now u True st) =
    bindR (destination fe now st u) (endpoint fe now (ag_srv st))"
proof (cases "direct fe u")
  case True
  then show ?thesis
    by (auto simp: route_matrix_uri.simps [of fe now u True] destination_def endpoint_def direct_def ret_def)
next
  case False
  obtain c where c: "get_well_known fe now (uri_host u) st = (delegation fe now st (uri_host u), st\<lparr>ag_well_known := c\<rparr>)"
    by (rule get_well_known_spec [OF assms, of now "uri_host u"])
  have e: "endpoint fe now cache u = bindR (srv_servers fe now cache (uri_host u)) (srv_route fe u)" for cache
    using False by (simp add: endpoint_def)
  from False c show ?thesis
    by (cases "delegation fe now st (uri_host u)")
      (auto simp: route_matrix_uri.simps [of fe now u True] destination_def direct_def bindM_def route_by_srv_eq
        route_without_delegation e split: option.splits)
qed

text \<open>The times up to which the cached delegations are used.\<close>

definition well_known_bounded :: "rat \<Rightarrow> agent_state \<Rightarrow> bool" where
  "well_known_bounded now st = (cache_inv (ag_well_known st) \<and>
     (\<forall>k v x. cache_view (ag_well_known st) k = Some (v, x) \<longrightarrow> x \<le> now + WELL_KNOWN_MAX_CACHE_PERIOD))"

lemma do_get_well_known_period:
  assumes "fe_jitter fe \<le> WELL_KNOWN_DEFAULT_CACHE_PERIOD_JITTER" and "do_get_well_known fe now host = Inr (v, period)"
  shows "period \<le> WELL_KNOWN_MAX_CACHE_PERIOD"
  using assms
  by (auto simp: do_get_well_known_def bindR_eq_Inr WELL_KNOWN_MAX_CACHE_PERIOD_def WELL_KNOWN_DEFAULT_CACHE_PERIOD_def
      WELL_KNOWN_DEFAULT_CACHE_PERIOD_JITTER_def WELL_KNOWN_INVALID_CACHE_PERIOD_def split: option.splits if_splits)

lemma route_by_srv_well_known [simp]: "ag_well_known (snd (route_by_srv fe now u st)) = ag_well_known st"
  by (auto simp: route_by_srv_def picked_route_def on_srv_def act_simps split: prod.splits sum.splits)

lemma route_without_delegation_well_known [simp]:
  "ag_well_known (snd (route_matrix_uri fe now u False st)) = ag_well_known st"
  by (simp add: route_matrix_uri.simps [of fe now u False] ret_def)

lemma route_well_known:
  "ag_well_known (snd (route_matrix_uri fe now u True st)) =
     (if direct fe u then ag_well_known st else ag_well_known (snd (get_well_known fe now (uri_host u) st)))"
  by (auto simp: route_matrix_uri.simps [of fe now u True] direct_def ret_def bindM_def
      split: prod.splits sum.splits option.splits)

text \<open>
  How long an answer is meant to be kept: the delegation, the least and the greatest period in seconds. The absence of a valid
  delegation is kept for an hour, a delegation without caching headers for a day, both up to ten minutes longer; one with
  such headers for the time they say, but at most two days; and not at all when that time is over, when the headers cannot be
  read, or when the name is not ASCII.
\<close>

definition kept_for :: "fed_env \<Rightarrow> rat \<Rightarrow> string \<Rightarrow> (string option \<times> rat \<times> rat) option" where
  "kept_for fe now host =
     (case well_known_server fe host of
        None \<Rightarrow> Some (None, 3600, 3600 + 600)
      | Some (m_server, hs) \<Rightarrow>
          if \<not> is_ascii m_server then None
          else (case cache_period_from_headers (fe_stringToDatetime fe) now hs of
                  Inl _ \<Rightarrow> None
                | Inr None \<Rightarrow> Some (Some m_server, 86400, 86400 + 600)
                | Inr (Some p) \<Rightarrow> if p \<le> 0 then None
                    else if p \<le> 172800 then Some (Some m_server, p, p) else Some (Some m_server, 172800, 172800)))"

lemma do_get_well_known_kept:
  assumes "0 \<le> fe_jitter fe" and "fe_jitter fe \<le> WELL_KNOWN_DEFAULT_CACHE_PERIOD_JITTER"
  shows "case kept_for fe now host of
      None \<Rightarrow> (case do_get_well_known fe now host of Inl _ \<Rightarrow> True | Inr (v, period) \<Rightarrow> \<not> 0 < period)
    | Some (v, lo, hi) \<Rightarrow> \<exists>period. do_get_well_known fe now host = Inr (v, period) \<and> 0 < period \<and> lo \<le> period \<and> period \<le> hi"
proof (cases "well_known_server fe host")
  case None
  with assms show ?thesis
    by (simp add: kept_for_def do_get_well_known_def WELL_KNOWN_INVALID_CACHE_PERIOD_def WELL_KNOWN_DEFAULT_CACHE_PERIOD_JITTER_def)
next
  case (Some p)
  obtain m hs where p: "p = (m, hs)" by fastforce
  show ?thesis
  proof (cases "cache_period_from_headers (fe_stringToDatetime fe) now hs")
    case (Inl ex)
    with Some p show ?thesis by (simp add: kept_for_def do_get_well_known_def)
  next
    case (Inr q)
    with Some p assms show ?thesis
      by (cases q) (auto simp: kept_for_def do_get_well_known_def WELL_KNOWN_DEFAULT_CACHE_PERIOD_def
          WELL_KNOWN_DEFAULT_CACHE_PERIOD_JITTER_def WELL_KNOWN_MAX_CACHE_PERIOD_def)
  qed
qed

text \<open>C33: how long delegations are kept. Routing a name that is not cached asks for its delegation and keeps the answer in
  the cache for as long as it is meant to be kept, neither shorter nor longer than the periods of \<open>kept_for\<close>, or not at all; a
  delegation that is cached is used and keeps its time; for a literal or an explicit port nothing is asked and the cache
  stays as it is. The entries of other hosts stay until they expire. At no time is there an entry that will be used for
  more than 48 hours from then on, whatever periods the responses ask for.
\<close>

theorem well_known_bounded_kept:
  assumes "list_ops fe" and "0 \<le> fe_jitter fe" and "fe_jitter fe \<le> WELL_KNOWN_DEFAULT_CACHE_PERIOD_JITTER"
    and "well_known_bounded before st" and "before \<le> now"
  shows "let st' = snd (route_matrix_uri fe now u True st);
             view = cache_view (ag_well_known st); view' = cache_view (ag_well_known st'); host = uri_host u
    in well_known_bounded now st' \<and>
       (direct fe u \<longrightarrow> view' = view) \<and>
       (\<not> direct fe u \<longrightarrow> (\<forall>k. k \<noteq> host \<longrightarrow> view' k = prune now view k)) \<and>
       (\<not> direct fe u \<and> prune now view host \<noteq> None \<longrightarrow> view' host = view host) \<and>
       (\<not> direct fe u \<and> prune now view host = None \<longrightarrow>
          (case kept_for fe now host of
             None \<Rightarrow> view' host = None
           | Some (v, lo, hi) \<Rightarrow> \<exists>x. view' host = Some (v, x) \<and> now + lo \<le> x \<and> x \<le> now + hi))"
proof -
  let ?host = "uri_host u" and ?view = "cache_view (ag_well_known st)"
  have inv: "cache_inv (ag_well_known st)" using assms(4) by (simp add: well_known_bounded_def)
  have old: "x \<le> now + WELL_KNOWN_MAX_CACHE_PERIOD" if "?view k = Some (v, x)" for k v x
    using assms(4,5) that by (fastforce simp: well_known_bounded_def)
  have pruned: "?view k = Some p" if "prune now ?view k = Some p" for k p
    using that by (auto simp: prune_def split: option.splits if_splits)
  obtain c where c: "get_well_known fe now ?host st = (delegation fe now st ?host, st\<lparr>ag_well_known := c\<rparr>)"
      "cache_inv c" "cache_view c = delegation_view fe now ?view ?host"
    by (rule get_well_known_spec [OF assms(1) inv, of now "?host"])
  note kept = do_get_well_known_kept [OF assms(2,3), of now ?host]
  have other: "k \<noteq> ?host \<Longrightarrow> delegation_view fe now ?view ?host k = prune now ?view k" for k
    by (auto simp: delegation_view_def split: option.splits sum.splits)
  have bound: "x \<le> now + WELL_KNOWN_MAX_CACHE_PERIOD" if "cache_view c k = Some (v, x)" for k v x
    using that do_get_well_known_period [OF assms(3), of now ?host] old pruned unfolding c(3) delegation_view_def
    by (fastforce split: option.splits sum.splits prod.splits if_splits)
  show ?thesis
  proof (cases "direct fe u")
    case True
    with inv old show ?thesis by (simp add: Let_def well_known_bounded_def route_well_known)
  next
    case False
    have view': "cache_view (ag_well_known (snd (route_matrix_uri fe now u True st))) = delegation_view fe now ?view ?host"
      using False c by (simp add: route_well_known)
    have "well_known_bounded now (snd (route_matrix_uri fe now u True st))"
      using False c bound by (simp add: well_known_bounded_def route_well_known)
    moreover have "delegation_view fe now ?view ?host ?host = ?view ?host" if "prune now ?view ?host \<noteq> None"
      using that pruned [of ?host] by (auto simp: delegation_view_def)
    moreover have "case kept_for fe now ?host of
         None \<Rightarrow> delegation_view fe now ?view ?host ?host = None
       | Some (v, lo, hi) \<Rightarrow> \<exists>x. delegation_view fe now ?view ?host ?host = Some (v, x) \<and> now + lo \<le> x \<and> x \<le> now + hi"
      if "prune now ?view ?host = None"
      using that kept by (auto simp: delegation_view_def split: option.splits sum.splits prod.splits)
    ultimately show ?thesis unfolding Let_def view' using False other by blast
  qed
qed

text \<open>C34: a chain of delegations is followed once: the route depends on no \<open>.well-known\<close> response but that of the
  host of the request, so two servers that delegate to each other cannot make routing run on.
\<close>

theorem route_fetches_once:
  assumes "f (''https://'' @ uri_host u @ ''/.well-known/matrix/server'') =
    fe_fetch fe (''https://'' @ uri_host u @ ''/.well-known/matrix/server'')"
  shows "route_matrix_uri (fe\<lparr>fe_fetch := f\<rparr>) now u True st = route_matrix_uri fe now u True st"
proof -
  let ?fe = "fe\<lparr>fe_fetch := f\<rparr>"
  have l: "fe_lookup ?fe = fe_lookup fe" by simp
  have sel: "fe_fetch ?fe = f" "fe_decode ?fe = fe_decode fe" "fe_jitter ?fe = fe_jitter fe"
    "fe_stringToDatetime ?fe = fe_stringToDatetime fe" "fe_add ?fe = fe_add fe" "fe_remove ?fe = fe_remove fe"
    by simp_all
  have p: "picked_route ?fe = picked_route fe" by (simp add: picked_route_def fun_eq_iff)
  have srv: "route_by_srv ?fe now w = route_by_srv fe now w" for w
    unfolding route_by_srv_def l p ..
  have ip: "is_ip_literal ?fe = is_ip_literal fe" by (simp add: is_ip_literal_def fun_eq_iff)
  have off: "route_matrix_uri ?fe now w False = route_matrix_uri fe now w False" for w
    by (simp only: route_matrix_uri.simps [of _ now w False] srv ip if_False)
  have "do_get_well_known ?fe now (uri_host u) = do_get_well_known fe now (uri_host u)"
    unfolding do_get_well_known_def well_known_server_def sel assms ..
  then have "fetch_well_known ?fe now (uri_host u) = fetch_well_known fe now (uri_host u)"
    by (simp only: fetch_well_known_def sel)
  then have "get_well_known ?fe now (uri_host u) = get_well_known fe now (uri_host u)"
    by (intro ext) (simp only: get_well_known_def)
  then show ?thesis by (simp only: route_matrix_uri.simps [of _ now u True] srv ip off if_True)
qed

text \<open>A network in which \<open>a.example\<close> delegates to \<open>b.example\<close>, which has one SRV record.\<close>

definition demo_fed :: fed_env where
  "demo_fed = \<lparr>fe_IPAddress = \<lambda>h. None, fe_stringToDatetime = \<lambda>_. Inl ValueError,
     fe_decode = \<lambda>b. Inr (JObj [(''m.server'', JStr b)]),
     fe_fetch = \<lambda>url. if url = ''https://a.example/.well-known/matrix/server''
       then Inr (200, [(''cache-control'', [''max-age=90''])], None, [Data ''b.example'', Lost ResponseDone])
       else Inl ConnectError,
     fe_lookup = \<lambda>n. if n = ''_matrix._tcp.b.example''
       then Answers [\<lparr>sa_is_srv = True, sa_payload = Some \<lparr>sp_target = ''host.example'', sp_port = 443, sp_priority = 0, sp_weight = 5\<rparr>, sa_ttl = 60\<rparr>]
       else DNSNameError,
     fe_random = 3, fe_jitter = 7, fe_add = insort, fe_remove = list_remove\<rparr>"

definition demo_uri :: parsed_uri where
  "demo_uri = \<lparr>uri_scheme = ''matrix'', uri_netloc = ''a.example'', uri_host = ''a.example'', uri_port = - 1, uri_rest = []\<rparr>"

definition fresh_agent :: agent_state where
  "fresh_agent = \<lparr>ag_well_known = empty_cache, ag_srv = []\<rparr>"

lemma cache_view_empty: "cache_view empty_cache k = None"
  by (simp add: cache_view_def empty_cache_def)

lemma small_body:
  "length b < 51200 \<Longrightarrow>
   rd_result (read_body_with_max_size None (Some WELL_KNOWN_MAX_SIZE) [Data b, Lost ResponseDone]) = Some (Inr b)"
  by (simp add: WELL_KNOWN_MAX_SIZE_def read_body_with_max_size_def announced_too_long_def read_body_event_def
      new_reader_def ReadBody_dataReceived_def ReadBody_connectionLost_def)

lemma demo_fed_ok:
  "list_ops demo_fed" "cache_inv (ag_well_known fresh_agent)" "well_known_bounded 0 fresh_agent"
  "0 \<le> fe_jitter demo_fed" "fe_jitter demo_fed \<le> WELL_KNOWN_DEFAULT_CACHE_PERIOD_JITTER"
  by (simp_all add: demo_fed_def sorted_list_ops_reference fresh_agent_def cache_inv_empty well_known_bounded_def
      cache_view_empty WELL_KNOWN_DEFAULT_CACHE_PERIOD_JITTER_def)

lemma demo_destination: "destination demo_fed 10 fresh_agent demo_uri = Inr (delegated_uri demo_uri ''b.example'')"
proof -
  have "well_known_server demo_fed ''a.example'' = Some (''b.example'', [(''cache-control'', [''max-age=90''])])"
    by (simp add: well_known_server_def demo_fed_def small_body)
  moreover have "cache_period_from_headers d 10 [(''cache-control'', [''max-age=90''])] = Inr (Some 90)" for d
    by code_simp
  moreover have "is_ascii ''b.example''" by code_simp
  ultimately show ?thesis
    by (simp add: destination_def direct_def is_ip_literal_def delegation_def prune_def fresh_agent_def cache_view_empty
        demo_uri_def do_get_well_known_def) (simp add: demo_fed_def)
qed

lemma demo_endpoint: "endpoint demo_fed 10 [] (delegated_uri demo_uri ''b.example'') =
    Inr \<lparr>rr_host_header = ''b.example'', rr_tls_server_name = ''b.example'', rr_target_host = ''host.example'', rr_target_port = 443\<rparr>"
  by code_simp

theorem route_matrix_uri_refines_witness:
  "fst (route_matrix_uri demo_fed 10 demo_uri True fresh_agent) =
    Inr \<lparr>rr_host_header = ''b.example'', rr_tls_server_name = ''b.example'', rr_target_host = ''host.example'', rr_target_port = 443\<rparr>"
  using route_matrix_uri_refines [OF demo_fed_ok(1,2), of 10 demo_uri] demo_destination demo_endpoint
  by (simp add: fresh_agent_def)

theorem well_known_bounded_kept_witness:
  "well_known_bounded 10 (snd (route_matrix_uri demo_fed 10 demo_uri True fresh_agent)) \<and>
   cache_view (ag_well_known (snd (route_matrix_uri demo_fed 10 demo_uri True fresh_agent))) ''a.example'' =
     Some (Some ''b.example'', 100)"
proof -
  have "well_known_server demo_fed ''a.example'' = Some (''b.example'', [(''cache-control'', [''max-age=90''])])"
    by (simp add: well_known_server_def demo_fed_def small_body)
  moreover have "cache_period_from_headers d 10 [(''cache-control'', [''max-age=90''])] = Inr (Some 90)" for d
    by code_simp
  moreover have "is_ascii ''b.example''" by code_simp
  ultimately have k: "kept_for demo_fed 10 ''a.example'' = Some (Some ''b.example'', 90, 90)" by (simp add: kept_for_def)
  have d: "\<not> direct demo_fed demo_uri" by (simp add: direct_def is_ip_literal_def demo_uri_def demo_fed_def)
  have h: "uri_host demo_uri = ''a.example''" by (simp add: demo_uri_def)
  have v: "prune 10 (cache_view (ag_well_known fresh_agent)) k = None" for k
    by (simp add: prune_def fresh_agent_def cache_view_empty)
  show ?thesis
    using well_known_bounded_kept [OF demo_fed_ok(1,4,5,3), of 10 demo_uri] d v k unfolding Let_def h by auto
qed

theorem route_fetches_once_witness:
  "route_matrix_uri (demo_fed\<lparr>fe_fetch := \<lambda>_. fe_fetch demo_fed ''https://a.example/.well-known/matrix/server''\<rparr>)
     10 demo_uri True fresh_agent = route_matrix_uri demo_fed 10 demo_uri True fresh_agent"
  by (rule route_fetches_once) (simp add: demo_uri_def)

text \<open>
  A delegated name that is not ASCII is not treated as an invalid \<open>.well-known\<close>: encoding it raises outside of the
  \<open>try\<close> block, the request fails and nothing is cached.
\<close>

theorem non_ascii_delegation_raises:
  "do_get_well_known (demo_fed\<lparr>fe_decode := \<lambda>_. Inr (JObj [(''m.server'', JStr [CHR 0xE9])])\<rparr>) 10 ''a.example'' = Inl ValueError"
  by (simp add: do_get_well_known_def well_known_server_def demo_fed_def small_body is_ascii_def)

end
