(* ===== verification/Ip_Blacklist.thy ===== *)
theory Ip_Blacklist
  imports Prelude
begin

text \<open>
  \<open>sydent/util/ip_range.py\<close> and \<open>sydent/http/blacklisting_reactor.py\<close>: the set of forbidden addresses, with the IPv6
  forms of the IPv4 networks in it, and the name resolver that withholds them.

  The package \<open>netaddr\<close> is an argument, the record \<open>netaddr\<close>: how it reads networks and addresses and how it embeds an IPv4
  network into IPv6. An address is its version and number, a network its version, its first address and its prefix length. An
  \<open>IPSet\<close> is the list of the networks that were added to it; an address is in the set when it is in one of them.
\<close>

section \<open>Definitions\<close>

record network =
  nw_v6 :: bool
  nw_first :: nat
  nw_prefixlen :: nat

datatype ip_address = IPAddress (ip_v6: bool) (ip_value: nat)

definition ip_width :: "bool \<Rightarrow> nat" where
  "ip_width v6 = (if v6 then 128 else 32)"

definition in_network :: "ip_address \<Rightarrow> network \<Rightarrow> bool" where
  "in_network a n =
     (let k = 2 ^ (ip_width (nw_v6 n) - nw_prefixlen n)
      in ip_v6 a = nw_v6 n \<and> ip_value a div k = nw_first n div k)"

type_synonym ip_set = "network list"

definition in_ip_set :: "ip_address \<Rightarrow> ip_set \<Rightarrow> bool" where
  "in_ip_set a s = list_ex (in_network a) s"

record netaddr =
  na_IPNetwork :: "string \<Rightarrow> network option"
  na_ipv6 :: "network \<Rightarrow> bool \<Rightarrow> network"
  na_IPAddress :: "string \<Rightarrow> ip_address option"

definition DEFAULT_IP_RANGE_BLACKLIST :: "string list" where
  "DEFAULT_IP_RANGE_BLACKLIST =
     [''127.0.0.0/8'', ''10.0.0.0/8'', ''172.16.0.0/12'', ''192.168.0.0/16'', ''100.64.0.0/10'', ''192.0.0.0/24'',
      ''169.254.0.0/16'', ''192.88.99.0/24'', ''198.18.0.0/15'', ''192.0.2.0/24'', ''198.51.100.0/24'', ''203.0.113.0/24'',
      ''224.0.0.0/4'', ''::1/128'', ''fe80::/10'', ''fc00::/7'', ''2001:db8::/32'', ''ff00::/8'', ''fec0::/10'']"

text \<open>\<open>hex(n)[2:]\<close>, filled up with zeros to eight digits\<close>

definition hex_char :: "nat \<Rightarrow> char" where
  "hex_char d = char_of (if d < 10 then 48 + d else 87 + d)"

fun hex_nat :: "nat \<Rightarrow> string" where
  "hex_nat n = (if n < 16 then [hex_char n] else hex_nat (n div 16) @ [hex_char (n mod 16)])"

declare hex_nat.simps [simp del]

definition hex_network :: "nat \<Rightarrow> string" where
  "hex_network n = replicate (8 - length (hex_nat n)) CHR ''0'' @ hex_nat n"

definition six_to_four_text :: "network \<Rightarrow> string" where
  "six_to_four_text n =
     ''2002:'' @ take 4 (hex_network (nw_first n)) @ '':'' @ drop 4 (hex_network (nw_first n)) @ ''::/'' @
     show_nat (16 + nw_prefixlen n)"

definition six_to_four :: "netaddr \<Rightarrow> network \<Rightarrow> network res" where
  "six_to_four na n = (case na_IPNetwork na (six_to_four_text n) of None \<Rightarrow> Inl GenericException | Some m \<Rightarrow> Inr m)"

definition networks_of :: "netaddr \<Rightarrow> string \<Rightarrow> network list res" where
  "networks_of na ip =
     (case na_IPNetwork na ip of
        None \<Rightarrow> Inl GenericException
      | Some n \<Rightarrow>
          if nw_v6 n then Inr [n]
          else bindR (six_to_four na n) (\<lambda>m. Inr [n, na_ipv6 na n True, na_ipv6 na n False, m]))"

fun add_networks :: "netaddr \<Rightarrow> string list \<Rightarrow> ip_set \<Rightarrow> ip_set res" where
  "add_networks na [] result = Inr result"
| "add_networks na (ip # ips) result = bindR (networks_of na ip) (\<lambda>ns. add_networks na ips (result @ ns))"

definition generate_ip_set :: "netaddr \<Rightarrow> string list option \<Rightarrow> string list option \<Rightarrow> ip_set res" where
  "generate_ip_set na ip_addresses extra_addresses =
     add_networks na ((case ip_addresses of None \<Rightarrow> [] | Some l \<Rightarrow> l) @ (case extra_addresses of None \<Rightarrow> [] | Some l \<Rightarrow> l)) []"

definition check_against_blacklist :: "ip_address \<Rightarrow> ip_set option \<Rightarrow> ip_set \<Rightarrow> bool" where
  "check_against_blacklist a ip_whitelist ip_blacklist =
     (in_ip_set a ip_blacklist \<and> (case ip_whitelist of None \<Rightarrow> True | Some w \<Rightarrow> \<not> in_ip_set a w))"

text \<open>The resolver: what the underlying resolver reports, and what is passed on to the receiver.\<close>

datatype address = InetAddress string | OtherAddress

datatype resolution_event = ResolutionBegan | AddressResolved address | ResolutionComplete

fun has_bad_ip :: "netaddr \<Rightarrow> ip_set option \<Rightarrow> ip_set \<Rightarrow> address list \<Rightarrow> bool res" where
  "has_bad_ip na w b [] = Inr False"
| "has_bad_ip na w b (OtherAddress # as) = has_bad_ip na w b as"
| "has_bad_ip na w b (InetAddress host # as) =
     (case na_IPAddress na host of
        None \<Rightarrow> Inl GenericException
      | Some a \<Rightarrow> bindR (has_bad_ip na w b as) (\<lambda>bad. Inr (check_against_blacklist a w b \<or> bad)))"

definition resolver_callback :: "netaddr \<Rightarrow> ip_set option \<Rightarrow> ip_set \<Rightarrow> address list \<Rightarrow> resolution_event list" where
  "resolver_callback na w b addresses =
     (case has_bad_ip na w b addresses of
        Inl _ \<Rightarrow> []
      | Inr bad \<Rightarrow> (if bad then [] else map AddressResolved addresses) @ [ResolutionComplete])"

fun resolve_events ::
    "netaddr \<Rightarrow> ip_set option \<Rightarrow> ip_set \<Rightarrow> address list \<Rightarrow> resolution_event list \<Rightarrow> resolution_event list" where
  "resolve_events na w b addresses [] = []"
| "resolve_events na w b addresses (ResolutionBegan # evs) = ResolutionBegan # resolve_events na w b addresses evs"
| "resolve_events na w b addresses (AddressResolved a # evs) = resolve_events na w b (addresses @ [a]) evs"
| "resolve_events na w b addresses (ResolutionComplete # evs) =
     resolver_callback na w b addresses @ resolve_events na w b addresses evs"

definition resolveHostName :: "netaddr \<Rightarrow> ip_set option \<Rightarrow> ip_set \<Rightarrow> resolution_event list \<Rightarrow> resolution_event list" where
  "resolveHostName na ip_whitelist ip_blacklist evs = resolve_events na ip_whitelist ip_blacklist [] evs"

section \<open>What is relied on\<close>

definition hex_char_val :: "char \<Rightarrow> nat" where
  "hex_char_val c = (if is_digit c then digit_val c else of_char c - 87)"

definition hex_number :: "string \<Rightarrow> nat" where
  "hex_number s = foldl (\<lambda>a c. 16 * a + hex_char_val c) 0 s"

definition is_hex :: "char \<Rightarrow> bool" where
  "is_hex c = (is_digit c \<or> (97 \<le> (of_char c :: nat) \<and> (of_char c :: nat) \<le> 102))"

text \<open>
  The documented behaviour of \<open>netaddr\<close>: the first address of a network has no bits below its prefix; an IPv4 network has
  at most 32 bits, and its IPv4-compatible and IPv4-mapped networks (RFC 4291) have its number in the last 32 bits; and the
  text of an IPv6 network of two groups after \<open>2002\<close> is read as the network of that prefix which holds that address.
\<close>

definition network_start :: "nat \<Rightarrow> nat \<Rightarrow> nat" where
  "network_start w v = v div 2 ^ w * 2 ^ w"

definition netaddr_ok :: "netaddr \<Rightarrow> bool" where
  "netaddr_ok na =
     ((\<forall>t n. na_IPNetwork na t = Some n \<longrightarrow> \<not> nw_v6 n \<longrightarrow>
         nw_first n < 2 ^ 32 \<and> nw_prefixlen n \<le> 32 \<and> network_start (32 - nw_prefixlen n) (nw_first n) = nw_first n) \<and>
      (\<forall>n. \<not> nw_v6 n \<and> nw_prefixlen n \<le> 32 \<and> network_start (32 - nw_prefixlen n) (nw_first n) = nw_first n \<longrightarrow>
         na_ipv6 na n True = \<lparr>nw_v6 = True, nw_first = nw_first n, nw_prefixlen = 96 + nw_prefixlen n\<rparr> \<and>
         na_ipv6 na n False = \<lparr>nw_v6 = True, nw_first = 0xFFFF * 2 ^ 32 + nw_first n, nw_prefixlen = 96 + nw_prefixlen n\<rparr>) \<and>
      (\<forall>g h k. length g = 4 \<and> length h = 4 \<and> list_all is_hex (g @ h) \<and> k \<le> 128 \<longrightarrow>
         na_IPNetwork na (''2002:'' @ g @ '':'' @ h @ ''::/'' @ show_nat k) =
           Some \<lparr>nw_v6 = True, nw_first = network_start (128 - k) (0x2002 * 2 ^ 112 + hex_number (g @ h) * 2 ^ 80), nw_prefixlen = k\<rparr>))"

section \<open>Lemmas\<close>

lemma hex_char_ok [simp]: "d < 16 \<Longrightarrow> hex_char_val (hex_char d) = d" "d < 16 \<Longrightarrow> is_hex (hex_char d)"
  by (auto simp: hex_char_val_def hex_char_def is_digit_def digit_val_def is_hex_def)

lemma hex_nat_is_hex: "list_all is_hex (hex_nat n)"
proof (induction n rule: hex_nat.induct)
  case (1 n)
  then show ?case by (cases "n < 16") (simp_all add: hex_nat.simps [of n])
qed

lemma hex_number_hex_nat: "hex_number (hex_nat n) = n"
proof (induction n rule: hex_nat.induct)
  case (1 n)
  then show ?case by (cases "n < 16") (simp_all add: hex_nat.simps [of n] hex_number_def)
qed

lemma length_hex_nat: "0 < k \<Longrightarrow> n < 16 ^ k \<Longrightarrow> length (hex_nat n) \<le> k"
proof (induction n arbitrary: k rule: hex_nat.induct)
  case (1 n)
  show ?case
  proof (cases "n < 16")
    case True
    with "1.prems" show ?thesis by (simp add: hex_nat.simps [of n])
  next
    case False
    from "1.prems" obtain j where k: "k = Suc j" by (cases k) auto
    have "0 < j" using "1.prems"(2) False k by (cases j) auto
    with k have j: "k = Suc j" "0 < j" by simp_all
    with "1.prems" have "n div 16 < 16 ^ j" by (simp add: less_mult_imp_div_less mult.commute)
    with "1.IH" [OF False j(2)] False j show ?thesis by (simp add: hex_nat.simps [of n])
  qed
qed

lemma hex_number_zeros: "hex_number (replicate k CHR ''0'' @ s) = hex_number s"
  by (induction k) (simp_all add: hex_number_def hex_char_val_def is_digit_def digit_val_def)

lemma hex_network:
  assumes "n < 2 ^ 32"
  shows "length (hex_network n) = 8" and "list_all is_hex (hex_network n)" and "hex_number (hex_network n) = n"
proof -
  have "length (hex_nat n) \<le> 8" using assms length_hex_nat [of 8 n] by simp
  then show "length (hex_network n) = 8" by (simp add: hex_network_def)
  have "is_hex CHR ''0''" by (simp add: is_hex_def is_digit_def)
  then show "list_all is_hex (hex_network n)"
    using hex_nat_is_hex [of n] by (auto simp: hex_network_def list_all_iff)
  show "hex_number (hex_network n) = n" by (simp add: hex_network_def hex_number_zeros hex_number_hex_nat)
qed

lemma network_start_dvd: "network_start w v = v \<longleftrightarrow> 2 ^ w dvd v"
  by (metis dvd_div_mult_self dvd_triv_right network_start_def)

lemma network_start_six_to_four:
  assumes "p \<le> 32" and "network_start (32 - p) v = v"
  shows "network_start (128 - (16 + p)) (0x2002 * 2 ^ 112 + v * 2 ^ 80) = 0x2002 * 2 ^ 112 + v * 2 ^ 80"
proof -
  have e: "128 - (16 + p) = (32 - p) + 80" using assms(1) by simp
  have "(2 ^ (32 - p) * 2 ^ 80 :: nat) dvd v * 2 ^ 80"
    using assms(2) by (simp add: network_start_dvd)
  moreover have "(2 ^ ((32 - p) + 80) :: nat) dvd 2 ^ 112" by (rule le_imp_power_dvd) simp
  then have "(2 ^ ((32 - p) + 80) :: nat) dvd 0x2002 * 2 ^ 112" by (rule dvd_mult)
  ultimately show ?thesis unfolding network_start_dvd e by (simp only: power_add dvd_add)
qed

lemma six_to_four_eq:
  assumes "netaddr_ok na" and "nw_first n < 2 ^ 32" and "nw_prefixlen n \<le> 32"
    and "network_start (32 - nw_prefixlen n) (nw_first n) = nw_first n"
  shows "six_to_four na n =
    Inr \<lparr>nw_v6 = True, nw_first = 0x2002 * 2 ^ 112 + nw_first n * 2 ^ 80, nw_prefixlen = 16 + nw_prefixlen n\<rparr>"
proof -
  let ?h = "hex_network (nw_first n)"
  note h = hex_network [OF assms(2)]
  have "length (take 4 ?h) = 4 \<and> length (drop 4 ?h) = 4 \<and> list_all is_hex (take 4 ?h @ drop 4 ?h) \<and> 16 + nw_prefixlen n \<le> 128"
    using h assms(3) by simp
  with assms(1) have "na_IPNetwork na (''2002:'' @ take 4 ?h @ '':'' @ drop 4 ?h @ ''::/'' @ show_nat (16 + nw_prefixlen n)) =
      Some \<lparr>nw_v6 = True,
        nw_first = network_start (128 - (16 + nw_prefixlen n)) (0x2002 * 2 ^ 112 + hex_number (take 4 ?h @ drop 4 ?h) * 2 ^ 80),
        nw_prefixlen = 16 + nw_prefixlen n\<rparr>"
    unfolding netaddr_ok_def by blast
  then show ?thesis
    by (simp only: six_to_four_def six_to_four_text_def append_take_drop_id h(3) option.case
        network_start_six_to_four [OF assms(3,4)])
qed

text \<open>The IPv6 addresses that stand for an IPv4 address.\<close>

definition ipv6_forms :: "nat \<Rightarrow> nat set" where
  "ipv6_forms a = {a, 0xFFFF * 2 ^ 32 + a} \<union> {0x2002 * 2 ^ 112 + a * 2 ^ 80 + r | r. r < 2 ^ 80}"

lemma shift_div:
  fixes c a p :: nat
  assumes "p \<le> 32"
  shows "(c * 2 ^ 32 + a) div 2 ^ (32 - p) = c * 2 ^ p + a div 2 ^ (32 - p)"
proof -
  have "(2 :: nat) ^ 32 = 2 ^ p * 2 ^ (32 - p)" using assms by (simp flip: power_add)
  then have "c * 2 ^ 32 + a = a + (c * 2 ^ p) * 2 ^ (32 - p)" by (simp add: mult.assoc)
  then show ?thesis by (simp only: div_mult_self1 add.commute) simp
qed

lemma six_to_four_div:
  fixes a r p :: nat
  assumes "p \<le> 32" and "r < 2 ^ 80"
  shows "(0x2002 * 2 ^ 112 + a * 2 ^ 80 + r) div 2 ^ (112 - p) = 0x2002 * 2 ^ p + a div 2 ^ (32 - p)"
proof -
  have "112 - p = 80 + (32 - p)" using assms(1) by simp
  then have e: "(2 :: nat) ^ (112 - p) = 2 ^ 80 * 2 ^ (32 - p)" by (simp only: power_add)
  have "0x2002 * 2 ^ 112 + a * 2 ^ 80 + r = r + (0x2002 * 2 ^ 32 + a) * 2 ^ 80" by simp
  then have "(0x2002 * 2 ^ 112 + a * 2 ^ 80 + r) div 2 ^ 80 = 0x2002 * 2 ^ 32 + a"
    using assms(2) by (simp only: div_mult_self1) simp
  then show ?thesis by (simp only: e div_mult2_eq shift_div [OF assms(1)])
qed

lemma networks_of_v4:
  assumes "netaddr_ok na" and "na_IPNetwork na t = Some n" and "\<not> nw_v6 n"
  shows "networks_of na t = Inr [n,
    \<lparr>nw_v6 = True, nw_first = nw_first n, nw_prefixlen = 96 + nw_prefixlen n\<rparr>,
    \<lparr>nw_v6 = True, nw_first = 0xFFFF * 2 ^ 32 + nw_first n, nw_prefixlen = 96 + nw_prefixlen n\<rparr>,
    \<lparr>nw_v6 = True, nw_first = 0x2002 * 2 ^ 112 + nw_first n * 2 ^ 80, nw_prefixlen = 16 + nw_prefixlen n\<rparr>]"
proof -
  from assms have n: "nw_first n < 2 ^ 32" "nw_prefixlen n \<le> 32"
    "network_start (32 - nw_prefixlen n) (nw_first n) = nw_first n" unfolding netaddr_ok_def by blast+
  note f = six_to_four_eq [OF assms(1) n]
  from assms(1,3) n have "na_ipv6 na n True = \<lparr>nw_v6 = True, nw_first = nw_first n, nw_prefixlen = 96 + nw_prefixlen n\<rparr> \<and>
      na_ipv6 na n False = \<lparr>nw_v6 = True, nw_first = 0xFFFF * 2 ^ 32 + nw_first n, nw_prefixlen = 96 + nw_prefixlen n\<rparr>"
    unfolding netaddr_ok_def by blast
  with f assms(2,3) show ?thesis by (simp add: networks_of_def)
qed

lemma networks_of_forms:
  assumes "netaddr_ok na" and "na_IPNetwork na t = Some n" and "\<not> nw_v6 n" and "networks_of na t = Inr ns"
    and "in_network (IPAddress False a) n" and "b \<in> ipv6_forms a"
  shows "in_ip_set (IPAddress True b) ns"
proof -
  let ?p = "nw_prefixlen n"
  have p: "?p \<le> 32" using assms(1-3) unfolding netaddr_ok_def by blast
  have d: "a div 2 ^ (32 - ?p) = nw_first n div 2 ^ (32 - ?p)"
    using assms(3,5) by (simp add: in_network_def ip_width_def Let_def)
  from assms(6) consider "b = a" | "b = 0xFFFF * 2 ^ 32 + a"
    | r where "r < 2 ^ 80" "b = 0x2002 * 2 ^ 112 + a * 2 ^ 80 + r"
    unfolding ipv6_forms_def by blast
  then show ?thesis
  proof cases
    case 1
    with assms(4) networks_of_v4 [OF assms(1-3)] d show ?thesis
      by (auto simp: in_ip_set_def in_network_def ip_width_def Let_def)
  next
    case 2
    have "b div 2 ^ (32 - ?p) = (0xFFFF * 2 ^ 32 + nw_first n) div 2 ^ (32 - ?p)"
      unfolding 2 shift_div [OF p] d ..
    with assms(4) networks_of_v4 [OF assms(1-3)] show ?thesis
      by (auto simp: in_ip_set_def in_network_def ip_width_def Let_def)
  next
    case 3
    have "b div 2 ^ (112 - ?p) = (0x2002 * 2 ^ 112 + nw_first n * 2 ^ 80 + 0) div 2 ^ (112 - ?p)"
      unfolding 3(2) six_to_four_div [OF p 3(1)] d by (rule six_to_four_div [OF p, of 0, symmetric]) simp
    with assms(4) networks_of_v4 [OF assms(1-3)] show ?thesis
      by (auto simp: in_ip_set_def in_network_def ip_width_def Let_def)
  qed
qed

lemma networks_of_mem:
  assumes "netaddr_ok na" and "networks_of na t = Inr ns"
  obtains n where "na_IPNetwork na t = Some n" and "n \<in> set ns"
    and "\<And>m. m \<in> set ns \<Longrightarrow> \<not> nw_v6 m \<Longrightarrow> m = n"
proof (cases "na_IPNetwork na t")
  case None
  with assms show ?thesis by (simp add: networks_of_def)
next
  case (Some n)
  show ?thesis
  proof (cases "nw_v6 n")
    case True
    with Some assms(2) that [of n] show ?thesis by (auto simp: networks_of_def)
  next
    case False
    then obtain x y z where ns: "ns = [n, x, y, z]" and v6: "nw_v6 x" "nw_v6 y" "nw_v6 z"
      using networks_of_v4 [OF assms(1) Some] assms(2) by (metis network.select_convs(1) sum.inject(2))
    have "m = n" if "m \<in> set ns" "\<not> nw_v6 m" for m using that ns v6 by auto
    moreover have "n \<in> set ns" using ns by simp
    ultimately show ?thesis using that [OF Some] by blast
  qed
qed

lemma list_all2_mem:
  "list_all2 P xs ys \<Longrightarrow> x \<in> set xs \<Longrightarrow> \<exists>y \<in> set ys. P x y"
  "list_all2 P xs ys \<Longrightarrow> y \<in> set ys \<Longrightarrow> \<exists>x \<in> set xs. P x y"
  by (induction xs ys rule: list_all2_induct) auto

lemma add_networks_eq:
  "add_networks na ts acc = Inr s \<longleftrightarrow>
     (\<exists>nss. list_all2 (\<lambda>t ns. networks_of na t = Inr ns) ts nss \<and> s = acc @ concat nss)"
proof (induction ts arbitrary: acc)
  case Nil
  then show ?case by auto
next
  case (Cons t ts)
  show ?case
    by (cases "networks_of na t") (auto simp: Cons.IH list_all2_Cons1)
qed

section \<open>Properties\<close>

definition listed :: "string list option \<Rightarrow> string list option \<Rightarrow> string set" where
  "listed l l' = set (case l of None \<Rightarrow> [] | Some x \<Rightarrow> x) \<union> set (case l' of None \<Rightarrow> [] | Some x \<Rightarrow> x)"

text \<open>C36: the generated set holds every address of the listed networks and, for an IPv4 network, all IPv6 addresses that
  stand for one of its addresses (IPv4-compatible, IPv4-mapped and 6to4), and the only IPv4 addresses in it
  are those of the listed networks.
\<close>

theorem generate_ip_set_covers:
  assumes "netaddr_ok na" and "generate_ip_set na l l' = Inr s"
  shows "(\<forall>t n a. t \<in> listed l l' \<and>
        na_IPNetwork na t = Some n \<and> in_network a n \<longrightarrow>
        in_ip_set a s \<and> (\<not> ip_v6 a \<longrightarrow> (\<forall>b \<in> ipv6_forms (ip_value a). in_ip_set (IPAddress True b) s))) \<and>
    (\<forall>a. in_ip_set (IPAddress False a) s \<longrightarrow>
        (\<exists>t n. t \<in> listed l l' \<and>
          na_IPNetwork na t = Some n \<and> in_network (IPAddress False a) n))"
proof -
  let ?ts = "(case l of None \<Rightarrow> [] | Some x \<Rightarrow> x) @ (case l' of None \<Rightarrow> [] | Some x \<Rightarrow> x)"
  have ts: "listed l l' = set ?ts"
    by (simp add: listed_def)
  from assms(2) obtain nss where nss: "list_all2 (\<lambda>t ns. networks_of na t = Inr ns) ?ts nss" and s: "s = concat nss"
    by (auto simp: generate_ip_set_def add_networks_eq)
  have "in_ip_set a s \<and> (\<not> ip_v6 a \<longrightarrow> (\<forall>b \<in> ipv6_forms (ip_value a). in_ip_set (IPAddress True b) s))"
    if t: "t \<in> set ?ts" and n: "na_IPNetwork na t = Some n" and a: "in_network a n" for t n a
  proof -
    from list_all2_mem(1) [OF nss t] obtain ns where ns: "ns \<in> set nss" "networks_of na t = Inr ns" by blast
    then have sub: "in_ip_set x ns \<Longrightarrow> in_ip_set x s" for x by (auto simp: in_ip_set_def s list_ex_iff)
    obtain n' where "na_IPNetwork na t = Some n'" "n' \<in> set ns" by (rule networks_of_mem [OF assms(1) ns(2)])
    with n have "n \<in> set ns" by simp
    with a have "in_ip_set a ns" by (auto simp: in_ip_set_def list_ex_iff)
    moreover have "in_ip_set (IPAddress True b) ns" if v4: "\<not> ip_v6 a" and b: "b \<in> ipv6_forms (ip_value a)" for b
    proof -
      have "\<not> nw_v6 n" using a v4 by (simp add: in_network_def Let_def)
      moreover obtain v where v: "a = IPAddress False v" using v4 by (cases a) auto
      moreover from b v have "b \<in> ipv6_forms v" by simp
      ultimately show ?thesis using networks_of_forms [OF assms(1) n _ ns(2)] a by blast
    qed
    ultimately show ?thesis using sub by blast
  qed
  moreover have "\<exists>t n. t \<in> set ?ts \<and> na_IPNetwork na t = Some n \<and> in_network (IPAddress False a) n"
    if "in_ip_set (IPAddress False a) s" for a
  proof -
    from that s obtain ns m where m: "ns \<in> set nss" "m \<in> set ns" "in_network (IPAddress False a) m"
      by (auto simp: in_ip_set_def list_ex_iff)
    from list_all2_mem(2) [OF nss m(1)] obtain t where t: "t \<in> set ?ts" "networks_of na t = Inr ns" by blast
    have "\<not> nw_v6 m" using m(3) by (simp add: in_network_def Let_def)
    with m t show ?thesis by (metis networks_of_mem [OF assms(1) t(2)])
  qed
  ultimately show ?thesis unfolding ts by blast
qed

text \<open>A reading of networks that knows one IPv4 network and the 6to4 texts.\<close>

definition demo_netaddr :: netaddr where
  "demo_netaddr = \<lparr>na_IPNetwork = \<lambda>t.
       if t = ''10.0.0.0/8'' then Some \<lparr>nw_v6 = False, nw_first = 10 * 2 ^ 24, nw_prefixlen = 8\<rparr>
       else if startswith t ''2002:'' then
         (let k = the (digits_val 0 (drop 17 t))
          in Some \<lparr>nw_v6 = True,
               nw_first = network_start (128 - k) (0x2002 * 2 ^ 112 + hex_number (take 4 (drop 5 t) @ take 4 (drop 10 t)) * 2 ^ 80),
               nw_prefixlen = k\<rparr>)
       else None,
     na_ipv6 = \<lambda>n c. \<lparr>nw_v6 = True, nw_first = (if c then 0 else 0xFFFF * 2 ^ 32) + nw_first n,
       nw_prefixlen = 96 + nw_prefixlen n\<rparr>,
     na_IPAddress = \<lambda>h. None\<rparr>"

lemma demo_netaddr_ok: "netaddr_ok demo_netaddr"
  by (auto simp: netaddr_ok_def demo_netaddr_def startswith_def Let_def network_start_def split: if_splits)

theorem generate_ip_set_covers_witness:
  "\<exists>s. generate_ip_set demo_netaddr None (Some [''10.0.0.0/8'']) = Inr s \<and>
     in_ip_set (IPAddress True (0xFFFF * 2 ^ 32 + (10 * 2 ^ 24 + 1))) s"
proof -
  let ?n = "\<lparr>nw_v6 = False, nw_first = 10 * 2 ^ 24, nw_prefixlen = 8\<rparr>" and ?v = "10 * 2 ^ 24 + 1"
  have n: "na_IPNetwork demo_netaddr ''10.0.0.0/8'' = Some ?n" by (simp add: demo_netaddr_def)
  obtain ns where "networks_of demo_netaddr ''10.0.0.0/8'' = Inr ns"
    using networks_of_v4 [OF demo_netaddr_ok n] by simp
  then have s: "generate_ip_set demo_netaddr None (Some [''10.0.0.0/8'']) = Inr ns" by (simp add: generate_ip_set_def)
  have "in_network (IPAddress False ?v) ?n" by (simp add: in_network_def ip_width_def)
  moreover have "''10.0.0.0/8'' \<in> listed None (Some [''10.0.0.0/8''])" by (simp add: listed_def)
  moreover have "0xFFFF * 2 ^ 32 + ?v \<in> ipv6_forms ?v" by (simp add: ipv6_forms_def)
  ultimately have "in_ip_set (IPAddress True (0xFFFF * 2 ^ 32 + ?v)) ns"
    using generate_ip_set_covers [OF demo_netaddr_ok s] n by (metis ip_address.sel)
  with s show ?thesis by blast
qed

lemma has_bad_ip_False:
  "Inr False = has_bad_ip na w b as \<Longrightarrow> InetAddress host \<in> set as \<Longrightarrow>
   \<exists>a. na_IPAddress na host = Some a \<and> \<not> check_against_blacklist a w b"
  by (induction na w b as rule: has_bad_ip.induct) (auto simp: bindR_def split: option.splits sum.splits)

text \<open>C37: whatever the underlying resolver reports, and in whatever order, the only network addresses that reach the
  receiver are ones outside the blacklist or on the whitelist; and the answer to a name none of whose addresses is forbidden
  passes through unchanged.
\<close>

theorem resolver_withholds:
  "(AddressResolved (InetAddress host) \<in> set (resolveHostName na w b evs) \<longrightarrow>
      (\<exists>a. na_IPAddress na host = Some a \<and> \<not> check_against_blacklist a w b)) \<and>
   (has_bad_ip na w b as = Inr False \<longrightarrow>
      resolveHostName na w b (ResolutionBegan # map AddressResolved as @ [ResolutionComplete]) =
        ResolutionBegan # map AddressResolved as @ [ResolutionComplete])"
proof -
  have "\<exists>a. na_IPAddress na host = Some a \<and> \<not> check_against_blacklist a w b"
    if "AddressResolved (InetAddress host) \<in> set (resolve_events na w b as evs)" for as
    using that
    by (induction na w b as evs rule: resolve_events.induct)
      (auto simp: resolver_callback_def split: sum.splits if_splits intro: has_bad_ip_False)
  moreover have "resolve_events na w b xs (map AddressResolved as @ [ResolutionComplete]) =
      resolver_callback na w b (xs @ as)" for xs
    by (induction as arbitrary: xs) simp_all
  ultimately show ?thesis by (auto simp: resolveHostName_def resolver_callback_def)
qed

theorem resolver_withholds_witness:
  "resolveHostName (demo_netaddr\<lparr>na_IPAddress := \<lambda>h. Some (IPAddress False (length h))\<rparr>) None
     [\<lparr>nw_v6 = False, nw_first = 2, nw_prefixlen = 32\<rparr>]
     (ResolutionBegan # map AddressResolved [InetAddress ''a'', InetAddress ''bcd''] @ [ResolutionComplete]) =
   ResolutionBegan # map AddressResolved [InetAddress ''a'', InetAddress ''bcd''] @ [ResolutionComplete]"
proof -
  have "has_bad_ip (demo_netaddr\<lparr>na_IPAddress := \<lambda>h. Some (IPAddress False (length h))\<rparr>) None
      [\<lparr>nw_v6 = False, nw_first = 2, nw_prefixlen = 32\<rparr>] [InetAddress ''a'', InetAddress ''bcd''] = Inr False"
    by (simp add: check_against_blacklist_def in_ip_set_def in_network_def ip_width_def)
  then show ?thesis using resolver_withholds by blast
qed

end
