(* ===== verification/Http_Server.thy ===== *)
theory Http_Server
  imports Invite_Servlet Register_Servlet Replication_Servlet
begin

text \<open>
  \<open>sydent/http/httpserver.py\<close> and \<open>sydent/http/servlets/cors_servlet.py\<close>: the trees of resources of the client API, the
  internal API and the replication server, how a path finds its servlet, and how a servlet with the method of the
  request selects its handler. The walk through the tree is Twisted's: it stops at a leaf, and a missing child is
  \<open>404\<close>. The bytes of a path are given as its unquoted segments.
\<close>

section \<open>The trees\<close>

datatype servlet =
    CorsServlet | VersionsServlet | PubkeyIsValidServlet | Ed25519Servlet | EphemeralPubkeyIsValidServlet
  | LookupServlet | BulkLookupServlet | ThreePidUnbindServlet
  | GetValidated3pidServlet bool | ThreePidBindServlet bool
  | EmailRequestCodeServlet bool | EmailValidateCodeServlet bool
  | MsisdnRequestCodeServlet bool | MsisdnValidateCodeServlet bool
  | StoreInviteServlet bool | BlindlySignStuffServlet bool
  | TermsServlet | AccountServlet | RegisterServlet | LogoutServlet | LookupV2Servlet | HashDetailsServlet
  | AuthenticatedBindThreePidServlet | AuthenticatedUnbindThreePidServlet

text \<open>A plain \<open>Resource()\<close> has no servlet. The flag \<open>isLeaf\<close> is off unless the class sets it.\<close>

datatype resource = Resource (res_servlet: "servlet option") (res_children: "(string \<times> resource) list")

fun isLeaf :: "servlet \<Rightarrow> bool" where
  "isLeaf CorsServlet = False"
| "isLeaf AccountServlet = False"
| "isLeaf ThreePidUnbindServlet = False"
| "isLeaf (ThreePidBindServlet _) = False"
| "isLeaf (StoreInviteServlet _) = False"
| "isLeaf AuthenticatedBindThreePidServlet = False"
| "isLeaf AuthenticatedUnbindThreePidServlet = False"
| "isLeaf _ = True"

definition dir :: "(string \<times> resource) list \<Rightarrow> resource" where
  "dir cs = Resource None cs"

definition node :: "servlet \<Rightarrow> resource" where
  "node sv = Resource (Some sv) []"

definition pubkey_tree :: resource where
  "pubkey_tree = dir [(''isvalid'', node PubkeyIsValidServlet), (''ed25519:0'', node Ed25519Servlet),
     (''ephemeral'', dir [(''isvalid'', node EphemeralPubkeyIsValidServlet)])]"

definition validate_tree :: "bool \<Rightarrow> resource" where
  "validate_tree require_auth = dir
     [(''email'', dir [(''requestToken'', node (EmailRequestCodeServlet require_auth)),
         (''submitToken'', node (EmailValidateCodeServlet require_auth))]),
      (''msisdn'', dir [(''requestToken'', node (MsisdnRequestCodeServlet require_auth)),
         (''submitToken'', node (MsisdnValidateCodeServlet require_auth))])]"

definition v1_tree :: "bool \<Rightarrow> resource" where
  "v1_tree enable_v1_associations = Resource (Some CorsServlet)
     [(''validate'', validate_tree False), (''lookup'', node LookupServlet), (''bulk_lookup'', node BulkLookupServlet),
      (''pubkey'', pubkey_tree),
      (''3pid'', dir ([(''getValidated3pid'', node (GetValidated3pidServlet False)), (''unbind'', node ThreePidUnbindServlet)] @
         (if enable_v1_associations then [(''bind'', node (ThreePidBindServlet False))] else []))),
      (''store-invite'', node (StoreInviteServlet False)), (''sign-ed25519'', node (BlindlySignStuffServlet False))]"

definition v2_tree :: resource where
  "v2_tree = Resource (Some CorsServlet)
     [(''terms'', node TermsServlet),
      (''account'', Resource (Some AccountServlet) [(''register'', node RegisterServlet), (''logout'', node LogoutServlet)]),
      (''validate'', validate_tree True), (''pubkey'', pubkey_tree),
      (''3pid'', dir [(''getValidated3pid'', node (GetValidated3pidServlet True)), (''bind'', node (ThreePidBindServlet True)),
         (''unbind'', node ThreePidUnbindServlet)]),
      (''store-invite'', node (StoreInviteServlet True)), (''sign-ed25519'', node (BlindlySignStuffServlet True)),
      (''lookup'', node LookupV2Servlet), (''hash_details'', node HashDetailsServlet)]"

definition client_api :: "bool \<Rightarrow> bool \<Rightarrow> resource" where
  "client_api enable_v1_access enable_v1_associations =
     dir [(''_matrix'', dir [(''identity'', dir
       [(''api'', dir (if enable_v1_access then [(''v1'', v1_tree enable_v1_associations)] else [])),
        (''v2'', v2_tree), (''versions'', node VersionsServlet)])])]"

definition internal_api :: resource where
  "internal_api = dir [(''_matrix'', dir [(''identity'', dir [(''internal'', dir
     [(''bind'', node AuthenticatedBindThreePidServlet), (''unbind'', node AuthenticatedUnbindThreePidServlet)])])])]"

fun find_resource :: "resource \<Rightarrow> string list \<Rightarrow> resource option" where
  "find_resource r [] = Some r"
| "find_resource r (p # ps) =
     (if (case res_servlet r of None \<Rightarrow> False | Some sv \<Rightarrow> isLeaf sv) then Some r
      else case dict_get (res_children r) p of None \<Rightarrow> None | Some c \<Rightarrow> find_resource c ps)"

section \<open>Handlers\<close>

text \<open>
  A request with what its handling draws from outside: the time, random numbers, a fresh pair of keys, the address of
  the client and the texts of exceptions.
\<close>

record incoming =
  in_request :: request
  in_path :: "string list"
  in_now :: int
  in_rnd :: nat
  in_random :: "nat \<Rightarrow> nat"
  in_keys :: "string \<times> string"
  in_client :: "string option"
  in_str_exn :: "exn \<Rightarrow> string"

text \<open>
  What a request leads to: an answer, or for two handlers that the server now waits for another server. An
  exception out of a handler of pages is an internal server error.
\<close>

datatype outcome =
    JsonReply reply
  | HtmlPage page
  | ServerError
  | CorsHeaders
  | NoSuchResource
  | UnsupportedMethod
  | UnbindStep unbind_step
  | FetchUser string string

definition run_json :: "reply handler \<Rightarrow> server_state \<Rightarrow> outcome \<times> server_state" where
  "run_json m s = (case jsonwrap (m s) of (rep, s') \<Rightarrow> (JsonReply rep, s'))"

definition run_page :: "page handler \<Rightarrow> server_state \<Rightarrow> outcome \<times> server_state" where
  "run_page m s = (case m s of (Inr p, s') \<Rightarrow> (HtmlPage p, s') | (Inl _, s') \<Rightarrow> (ServerError, s'))"

definition run_register :: "server_conf \<Rightarrow> request \<Rightarrow> server_state \<Rightarrow> outcome \<times> server_state" where
  "run_register cf req s =
     (case register_start cf req of
        Inr (FetchUserinfo server url) \<Rightarrow> (FetchUser server url, s)
      | Inr (Answer rep) \<Rightarrow> (JsonReply rep, s)
      | Inl ex \<Rightarrow> run_json (raise ex) s)"

fun render_GET :: "server_conf \<Rightarrow> incoming \<Rightarrow> servlet \<Rightarrow> (server_state \<Rightarrow> outcome \<times> server_state) option" where
  "render_GET cf i CorsServlet = Some (run_json (ret (ok_reply [])))"
| "render_GET cf i VersionsServlet = Some (run_json versions_render_GET)"
| "render_GET cf i PubkeyIsValidServlet = Some (run_json (pubkey_isvalid_render_GET cf (in_request i)))"
| "render_GET cf i Ed25519Servlet = Some (run_json (pubkey_render_GET cf))"
| "render_GET cf i EphemeralPubkeyIsValidServlet = Some (run_json (ephemeral_isvalid_render_GET (in_request i)))"
| "render_GET cf i LookupServlet = Some (run_json (lookup_render_GET cf (in_now i) (in_request i)))"
| "render_GET cf i (GetValidated3pidServlet a) =
     Some (run_json (getvalidated3pid_render_GET cf a (in_now i) (in_request i)))"
| "render_GET cf i (EmailValidateCodeServlet a) = Some (run_page (email_validate_render_GET cf (in_now i) (in_request i)))"
| "render_GET cf i (MsisdnValidateCodeServlet a) = Some (run_page (msisdn_validate_render_GET cf (in_now i) (in_request i)))"
| "render_GET cf i TermsServlet = Some (run_json (liftR (terms_render_GET (cf_terms cf))))"
| "render_GET cf i AccountServlet = Some (run_json (on_accounts (account_render_GET (cf_terms cf) (in_request i))))"
| "render_GET cf i HashDetailsServlet = Some (run_json (hashdetails_render_GET cf (in_request i)))"
| "render_GET cf i _ = None"

fun render_POST :: "server_conf \<Rightarrow> incoming \<Rightarrow> servlet \<Rightarrow> (server_state \<Rightarrow> outcome \<times> server_state) option" where
  "render_POST cf i BulkLookupServlet = Some (run_json (bulklookup_render_POST (in_now i) (in_request i)))"
| "render_POST cf i ThreePidUnbindServlet =
     Some (\<lambda>s. case unbind_start (in_str_exn i) cf (in_now i) (in_request i) s of (u, s') \<Rightarrow> (UnbindStep u, s'))"
| "render_POST cf i (ThreePidBindServlet a) = Some (run_json (threepidbind_render_POST cf a (in_now i) (in_request i)))"
| "render_POST cf i (EmailRequestCodeServlet a) = Some (run_json
     (email_request_render_POST cf a (in_client i) (in_now i) (in_rnd i) (in_random i) (in_request i)))"
| "render_POST cf i (EmailValidateCodeServlet a) =
     Some (run_json (email_validate_render_POST cf a (in_now i) (in_request i)))"
| "render_POST cf i (MsisdnRequestCodeServlet a) = Some (run_json
     (msisdn_request_render_POST cf a (in_now i) (in_rnd i) (in_random i) (in_request i)))"
| "render_POST cf i (MsisdnValidateCodeServlet a) =
     Some (run_json (msisdn_validate_render_POST cf a (in_now i) (in_request i)))"
| "render_POST cf i (StoreInviteServlet a) = Some (run_json
     (store_invite_render_POST cf a (in_now i) (in_random i) (in_keys i) (in_request i)))"
| "render_POST cf i (BlindlySignStuffServlet a) = Some (run_json (blindlysign_render_POST cf a (in_request i)))"
| "render_POST cf i TermsServlet = Some (run_json (on_accounts (terms_render_POST (cf_terms cf) (in_request i))))"
| "render_POST cf i RegisterServlet = Some (run_register cf (in_request i))"
| "render_POST cf i LogoutServlet = Some (run_json (on_accounts (logout_render_POST (cf_terms cf) (in_request i))))"
| "render_POST cf i LookupV2Servlet = Some (run_json (lookupv2_render_POST cf (in_now i) (in_request i)))"
| "render_POST cf i AuthenticatedBindThreePidServlet =
     Some (run_json (authenticated_bind_render_POST cf (in_now i) (in_request i)))"
| "render_POST cf i AuthenticatedUnbindThreePidServlet =
     Some (run_json (authenticated_unbind_render_POST cf (in_now i) (in_request i)))"
| "render_POST cf i _ = None"

fun has_OPTIONS :: "servlet \<Rightarrow> bool" where
  "has_OPTIONS PubkeyIsValidServlet = False"
| "has_OPTIONS Ed25519Servlet = False"
| "has_OPTIONS EphemeralPubkeyIsValidServlet = False"
| "has_OPTIONS (StoreInviteServlet _) = False"
| "has_OPTIONS ThreePidUnbindServlet = False"
| "has_OPTIONS _ = True"

text \<open>\<open>Resource.render_HEAD\<close> calls \<open>render_GET\<close>, which need not exist.\<close>

definition render :: "server_conf \<Rightarrow> incoming \<Rightarrow> servlet \<Rightarrow> server_state \<Rightarrow> outcome \<times> server_state" where
  "render cf i sv s =
     (let m = rq_method (in_request i) in
      if m = ''OPTIONS'' then (if has_OPTIONS sv then CorsHeaders else UnsupportedMethod, s)
      else if m = ''GET'' \<or> m = ''HEAD'' then
        (case render_GET cf i sv of
           None \<Rightarrow> (if m = ''HEAD'' then ServerError else UnsupportedMethod, s)
         | Some h \<Rightarrow> h s)
      else if m = ''POST'' then (case render_POST cf i sv of None \<Rightarrow> (UnsupportedMethod, s) | Some h \<Rightarrow> h s)
      else (UnsupportedMethod, s))"

definition serve :: "resource \<Rightarrow> server_conf \<Rightarrow> incoming \<Rightarrow> server_state \<Rightarrow> outcome \<times> server_state" where
  "serve tree cf i s =
     (case find_resource tree (in_path i) of
        None \<Rightarrow> (NoSuchResource, s)
      | Some r \<Rightarrow> (case res_servlet r of None \<Rightarrow> (if rq_method (in_request i) = ''HEAD'' then ServerError else UnsupportedMethod, s)
         | Some sv \<Rightarrow> render cf i sv s))"

end
