(* ===== verification/Server_Runs.thy ===== *)
theory Server_Runs
  imports Http_Server
begin

text \<open>
  The running server: the steps that requests, the answers of other servers, retries, the periodic jobs and
  pushes of peers make on its state, and the invariant of every state it can reach. The handlers are composed from
  few kinds of actions; what each keeps is shown once and carried through them by introduction rules.
\<close>

section \<open>The invariant\<close>

definition server_inv :: "server_conf \<Rightarrow> server_state \<Rightarrow> bool" where
  "server_inv cf s =
     (identity_inv (cf_env cf) (sv_identity s) \<and> env_ok (cf_env cf) (sv_identity s) \<and> session_inv (sv_sessions s) \<and>
      account_inv (sv_accounts s) \<and> rl_inv (sv_email_rl s) \<and> (\<forall>b. rl_inv (sv_msisdn_rl s b)) \<and> (\<forall>b. rl_inv (sv_country_rl s b)))"

text \<open>An action that keeps a predicate on the states it works on.\<close>

definition keeps :: "('s \<Rightarrow> bool) \<Rightarrow> ('s, 'a) act \<Rightarrow> bool" where
  "keeps P m = (\<forall>s. P s \<longrightarrow> P (snd (m s)))"

lemma keepsD: "keeps P m \<Longrightarrow> P s \<Longrightarrow> P (snd (m s))"
  by (simp add: keeps_def)

named_theorems keeps_intros \<open>rules for the actions that keep an invariant\<close>

lemma keeps_bindM [keeps_intros]: "keeps P m \<Longrightarrow> (\<And>x. keeps P (f x)) \<Longrightarrow> keeps P (bindM m f)"
  unfolding keeps_def bindM_def by (metis (mono_tags, lifting) case_prod_beta old.sum.simps(5,6) snd_conv sum.exhaust)

lemma keeps_reads [keeps_intros]:
  "keeps P (ret x)" "keeps P (raise ex)" "keeps P (liftR r)" "keeps P (getsM g)"
  by (simp_all add: keeps_def ret_def raise_def liftR_def getsM_def)

lemma keeps_reads_only: "reads_only m \<Longrightarrow> keeps P m"
  by (simp add: keeps_def reads_only_def)

lemma keeps_cases [keeps_intros]:
  "keeps P m \<Longrightarrow> keeps P n \<Longrightarrow> keeps P (if b then m else n)"
  "keeps P n \<Longrightarrow> (\<And>x. keeps P (f x)) \<Longrightarrow> keeps P (case v of None \<Rightarrow> n | Some x \<Rightarrow> f x)"
  "(\<And>x. keeps P (g x)) \<Longrightarrow> (\<And>x. keeps P (h x)) \<Longrightarrow> keeps P (case w of Inl x \<Rightarrow> g x | Inr x \<Rightarrow> h x)"
  "(\<And>x y. keeps P (k x y)) \<Longrightarrow> keeps P (case p of (x, y) \<Rightarrow> k x y)"
  by (simp_all split: option.splits sum.splits prod.splits)

lemma keeps_auth [keeps_intros]: "keeps P (auth cf req)" "keeps P (auth_if b cf req)" "keeps P (validated_session sid sec now)"
  by (simp_all add: keeps_reads_only)

section \<open>What the handlers keep\<close>

lemma keeps_on_identity [keeps_intros]:
  assumes "\<And>i. identity_inv (cf_env cf) i \<Longrightarrow> env_ok (cf_env cf) i \<Longrightarrow>
    identity_inv (cf_env cf) (snd (m i)) \<and> env_ok (cf_env cf) (snd (m i))"
  shows "keeps (server_inv cf) (on_identity m)"
proof (unfold keeps_def, intro allI impI)
  fix s
  assume "server_inv cf s"
  with assms [of "sv_identity s"] show "server_inv cf (snd (on_identity m s))"
    by (auto simp: server_inv_def on_identity_def split: prod.splits)
qed

lemma keeps_on_sessions [keeps_intros]:
  "keeps session_inv m \<Longrightarrow> keeps (server_inv cf) (on_sessions m)"
  by (auto simp: keeps_def server_inv_def on_sessions_def split: prod.splits)

lemma keeps_on_accounts [keeps_intros]:
  "keeps account_inv m \<Longrightarrow> keeps (server_inv cf) (on_accounts m)"
  by (auto simp: keeps_def server_inv_def on_accounts_def split: prod.splits)

lemma keeps_mapE [keeps_intros]: "keeps P m \<Longrightarrow> keeps P (mapE f m)"
  by (simp add: keeps_def)

lemma rl_inv_step: "ratelimit k e rl = (r, rl') \<Longrightarrow> rl_inv rl \<Longrightarrow> rl_inv rl'"
  using rl_inv_request [of rl k e] by simp

lemma keeps_limits [keeps_intros]:
  "keeps (server_inv cf) (limit_sender k e)" "keeps (server_inv cf) (limit_msisdn b num)"
  "keeps (server_inv cf) (limit_country b code)"
  by (auto simp: keeps_def server_inv_def limit_sender_def limit_msisdn_def limit_country_def split: prod.splits
      dest: rl_inv_step)

lemma keeps_requests [keeps_intros]:
  "keeps (server_inv cf) (request_mail cf now rnd r a c n l ip brand)"
  "keeps (server_inv cf) (request_sms cf now rnd r phone intl c n)"
proof -
  have "server_inv cf (snd (request_mail cf now rnd r a c n l ip brand s))" if "server_inv cf s" for s
    using that session_inv_email_requestToken [of "sv_sessions s" "cf_email cf" a c n l ip brand now rnd r]
    by (auto simp: request_mail_def server_inv_def Let_def split: prod.splits sum.splits exn.splits)
  then show "keeps (server_inv cf) (request_mail cf now rnd r a c n l ip brand)" by (simp add: keeps_def)
  have "server_inv cf (snd (request_sms cf now rnd r phone intl c n s))" if "server_inv cf s" for s
    using that session_inv_msisdn_requestToken [of "sv_sessions s" "cf_sms cf" "cf_send_sms cf" phone c n now rnd r]
    by (auto simp: request_sms_def server_inv_def Let_def split: prod.splits sum.splits exn.splits)
  then show "keeps (server_inv cf) (request_sms cf now rnd r phone intl c n)" by (simp add: keeps_def)
qed

lemma keeps_sessions [keeps_intros]:
  "keeps session_inv (\<lambda>db. case (case i of None \<Rightarrow> (Inl InvalidSessionIdException, db)
     | Some n \<Rightarrow> validate_json_token n c t now db) of (r, db') \<Rightarrow> (validate_reply bad unmatched r, db'))"
proof -
  have "session_inv (snd (validate_json_token n c t now db))" if "session_inv db" for n db
    using that session_inv_validate [OF that, of n c _ now]
    by (auto simp: validate_json_token_def split: json.splits prod.splits sum.splits) (metis snd_conv)+
  then show ?thesis by (auto simp: keeps_def split: option.splits prod.splits) (metis snd_conv)
qed

lemma snd_issueToken: "snd (issueToken u now r db) = grant_token now u (generateAlphanumericTokenOfLength r 64) db"
  by (auto simp: issueToken_def grant_token_def act_simps Let_def split: prod.splits sum.splits)

lemma keeps_accounts [keeps_intros]:
  "keeps account_inv (issueToken u now r)" "keeps account_inv (account_render_GET ts req)"
  "keeps account_inv (\<lambda>db. (g db, db))" "keeps account_inv (modifyM (\<lambda>db. snd (delToken tok db)))"
  "keeps account_inv (modifyM (addAgreedUrls u urls))" "keeps account_inv (modifyM (setConsentVersion u v))"
  by (simp_all add: keeps_def account_render_GET_def modifyM_def account_inv_delToken account_inv_addAgreedUrls
      account_inv_setConsentVersion snd_issueToken account_inv_grant)

lemma keeps_account_handlers [keeps_intros]:
  "keeps account_inv (logout_render_POST ts req)" "keeps account_inv (terms_render_POST ts req)"
  unfolding logout_render_POST_def terms_render_POST_def Let_def by (intro keeps_intros)+

lemma keeps_bindings [keeps_intros]:
  "keeps (server_inv cf) (on_identity (addBinding (cf_env cf) medium address mxid now))"
  "keeps (server_inv cf) (on_identity (removeBinding (cf_env cf) medium address mxid now))"
  by (rule keeps_on_identity, simp add: addBinding_inv removeBinding_inv)+

lemma keeps_invites [keeps_intros]:
  "keeps (server_inv cf) (on_identity (store_invite_tables medium address room sender token key now))"
  "keeps (server_inv cf) (on_identity (\<lambda>i. case validateEphemeralPublicKey k (is_invites i) of
     (b, iv) \<Rightarrow> (Inr b, i\<lparr>is_invites := iv\<rparr>)))"
  by (rule keeps_on_identity, auto simp: store_invite_tables_def identity_inv_def env_ok_def pepper_of_def
      split: prod.splits sum.splits)+

text \<open>The state after an action whose result is examined is the state of the action.\<close>

lemma keeps_case_act [keeps_intros]:
  assumes "keeps P m" and "\<And>r. keeps P (f r)"
  shows "keeps P (\<lambda>s. case m s of (r, s') \<Rightarrow> f r s')"
proof (unfold keeps_def, intro allI impI)
  fix s
  assume "P s"
  obtain r s1 where r: "m s = (r, s1)" by fastforce
  from keepsD [OF assms(1) \<open>P s\<close>] r have "P s1" by simp
  with keepsD [OF assms(2)] r show "P (snd (case m s of (r, s') \<Rightarrow> f r s'))" by simp
qed

lemma keeps_mail [keeps_intros]: "keeps (server_inv cf) (mail_invite cf' req now to d)"
  by (auto simp: keeps_def server_inv_def mail_invite_def bindM_def liftR_def Let_def split: sum.splits prod.splits)

lemma keeps_create_invite [keeps_intros]:
  "keeps (server_inv cf) (create_invite cf req now r keys args medium address room sender verified)"
proof -
  let ?after = "\<lambda>token res. case res of
      Inl ex \<Rightarrow> if ex = EmailAddressException then ret (400, err_body ''M_INVALID_EMAIL'' ''Invalid email address'') else raise ex
    | Inr _ \<Rightarrow> bindM (liftR (redact_email_address cf address)) (\<lambda>display_name.
        ret (invite_reply cf token (snd keys) display_name))"
  have "(\<lambda>s. case mail_invite cf req now to d s of
      (Inl EmailAddressException, s') \<Rightarrow> (Inr (400, err_body ''M_INVALID_EMAIL'' ''Invalid email address''), s')
    | (Inl ex, s') \<Rightarrow> (Inl ex, s')
    | (Inr _, s') \<Rightarrow> bindM (liftR (redact_email_address cf address)) (\<lambda>display_name.
        ret (invite_reply cf token (snd keys) display_name)) s') =
    (\<lambda>s. case mail_invite cf req now to d s of (r, s') \<Rightarrow> ?after token r s')" for to d token
    by (auto simp: ret_def raise_def fun_eq_iff split: prod.splits sum.splits exn.splits)
  then show ?thesis
    unfolding create_invite_def Let_def by (simp only:) (intro keeps_intros)
qed

lemma keeps_store_invite [keeps_intros]: "keeps (server_inv cf) (store_invite_render_POST cf b now r keys req)"
  unfolding store_invite_render_POST_def invite_unbound_def by (intro keeps_intros)

lemma keeps_validate [keeps_intros]:
  "keeps (server_inv cf) (do_validate_request bad unmatched now req)"
  "keeps (server_inv cf) (email_validate_render_POST cf b now req)"
  "keeps (server_inv cf) (msisdn_validate_render_POST cf b now req)"
  unfolding email_validate_render_POST_def msisdn_validate_render_POST_def do_validate_request_def
  by (intro keeps_intros)+

lemma keeps_requests_handlers [keeps_intros]:
  "keeps (server_inv cf) (email_request_render_POST cf b client now rnd r req)"
  "keeps (server_inv cf) (msisdn_request_render_POST cf b now rnd r req)"
  unfolding email_request_render_POST_def email_request_args_def msisdn_request_render_POST_def Let_def
  by (intro keeps_intros)+

lemma keeps_pages [keeps_intros]:
  "keeps (server_inv cf) (email_validate_render_GET cf now req)"
  "keeps (server_inv cf) (msisdn_validate_render_GET cf now req)"
  unfolding email_validate_render_GET_def msisdn_validate_render_GET_def Let_def
  by (intro keeps_intros)+

lemma keeps_bind_handlers [keeps_intros]:
  "keeps (server_inv cf) (threepidbind_render_POST cf b now req)"
  "keeps (server_inv cf) (authenticated_bind_render_POST cf now req)"
  "keeps (server_inv cf) (authenticated_unbind_render_POST cf now req)"
  "keeps (server_inv cf) (do_unbind cf now t m)"
  "keeps (server_inv cf) (register_finish cf server fetched now r)"
  "keeps (server_inv cf) (ephemeral_isvalid_render_GET req)"
  unfolding threepidbind_render_POST_def authenticated_bind_render_POST_def authenticated_unbind_render_POST_def
    do_unbind_def register_finish_def ephemeral_isvalid_render_GET_def
  by (intro keeps_intros)+

lemma keeps_getvalidated3pid [keeps_intros]: "keeps P (getvalidated3pid_render_GET cf b now req)"
  unfolding getvalidated3pid_render_GET_def
  by (intro keeps_intros) (auto simp: keeps_def split: sum.splits exn.splits)

lemma keeps_unbind [keeps_intros]: "keeps (server_inv cf) (unbind_body cf now body)"
proof -
  have "server_inv cf (snd (unbind_by_session cf now sid secret t m s))" if "server_inv cf s" for sid secret t m s
    using that keeps_bind_handlers(4) [of cf now t m]
    by (auto simp: unbind_by_session_def validated_session_def keeps_def act_simps
        split: sum.splits option.splits exn.splits if_splits)
  then have "keeps (server_inv cf) (unbind_by_session cf now sid secret t m)" for sid secret t m
    by (simp add: keeps_def)
  then show ?thesis unfolding unbind_body_def by (intro keeps_intros)
qed

lemma server_inv_unbind:
  assumes "server_inv cf s"
  shows "server_inv cf (snd (unbind_start str cf now req s))"
    and "server_inv cf (snd (unbind_resume str cf now body r s))"
proof -
  have o: "server_inv cf (snd (outer_except str m s))" if "keeps (server_inv cf) m" for m
    using keepsD [OF that assms] by (auto simp: outer_except_def split: prod.splits sum.splits)
  show "server_inv cf (snd (unbind_start str cf now req s))"
    using assms by (auto simp: unbind_start_def o keeps_unbind split: option.splits)
  show "server_inv cf (snd (unbind_resume str cf now body r s))"
    unfolding unbind_resume_def
    by (rule o) (auto intro!: keeps_intros simp: keeps_reads split: sum.splits exn.splits)
qed

section \<open>Steps\<close>

text \<open>
  The steps of the server, each with arbitrary input from outside. The continuation of a request that waited for
  another server is a step of its own and may come at any time. The name of a peer is never that of the server
  itself.
\<close>

inductive server_step :: "server_conf \<Rightarrow> sig_env \<Rightarrow> peer_db \<Rightarrow> server_state \<Rightarrow> server_state \<Rightarrow> bool"
  for cf se pdb where
  client_request: "server_step cf se pdb s (snd (serve (client_api v1 v1_assoc) cf i s))"
| internal_request: "server_step cf se pdb s (snd (serve internal_api cf i s))"
| registered: "server_step cf se pdb s (snd (register_finish cf server fetched now r s))"
| authenticated: "server_step cf se pdb s (snd (unbind_resume str cf now body result s))"
| pushed: "server_step cf se pdb s (snd (on_identity (replication_render_POST (cf_env cf) se pdb cn req) s))"
| notified: "server_step cf se pdb s (s\<lparr>sv_identity := notify_response (cf_env cf) assoc attempt result (sv_identity s)\<rparr>)"
| notify_again: "server_step cf se pdb s (s\<lparr>sv_identity := notify (cf_env cf) assoc attempt (sv_identity s)\<rparr>)"
| clean_up: "server_step cf se pdb s (s\<lparr>sv_sessions := deleteOldSessions now (sv_sessions s)\<rparr>)"
| tick_email: "server_step cf se pdb s (s\<lparr>sv_email_rl := periodic_call (sv_email_rl s)\<rparr>)"
| tick_msisdn: "server_step cf se pdb s (s\<lparr>sv_msisdn_rl := (sv_msisdn_rl s)(b := periodic_call (sv_msisdn_rl s b))\<rparr>)"
| tick_country: "server_step cf se pdb s (s\<lparr>sv_country_rl := (sv_country_rl s)(b := periodic_call (sv_country_rl s b))\<rparr>)"

inductive reachable :: "server_conf \<Rightarrow> sig_env \<Rightarrow> peer_db \<Rightarrow> server_state \<Rightarrow> server_state \<Rightarrow> bool" for cf se pdb s where
  start: "reachable cf se pdb s s"
| step: "reachable cf se pdb s t \<Longrightarrow> server_step cf se pdb t u \<Longrightarrow> reachable cf se pdb s u"

lemma render_inv:
  assumes "server_inv cf s"
  shows "server_inv cf (snd (render cf i sv s))"
proof -
  note [simp] = versions_render_GET_def pubkey_render_GET_def
  have j: "server_inv cf (snd (run_json m s))" if "keeps (server_inv cf) m" for m
    using keepsD [OF that assms] by (auto simp: run_json_def jsonwrap_def split: prod.splits sum.splits exn.splits)
  have p: "server_inv cf (snd (run_page m s))" if "keeps (server_inv cf) m" for m
    using keepsD [OF that assms] by (auto simp: run_page_def split: prod.splits sum.splits)
  note rules = j p keeps_intros reads_only_lookups [THEN keeps_reads_only]
  have "server_inv cf (snd (h s))" if "render_GET cf i sv = Some h" for h
    using that by (cases sv) (auto intro!: rules)
  moreover have "server_inv cf (snd (h s))" if "render_POST cf i sv = Some h" for h
  proof -
    have "server_inv cf (snd (run_register cf req s))" for req
      using assms by (auto simp: run_register_def intro!: rules split: sum.splits register_step.splits)
    with that show ?thesis
      by (cases sv) (auto intro!: rules simp: server_inv_unbind(1) assms split: prod.splits, metis assms server_inv_unbind(1) snd_conv)
  qed
  ultimately show ?thesis using assms by (auto simp: render_def Let_def split: option.splits)
qed

lemma serve_inv: "server_inv cf s \<Longrightarrow> server_inv cf (snd (serve tree cf i s))"
  by (auto simp: serve_def render_inv split: option.splits)

definition foreign_peers :: "server_conf \<Rightarrow> peer_db \<Rightarrow> bool" where
  "foreign_peers cf pdb = (\<forall>p \<in> set (pd_peers pdb). pr_name p \<noteq> ev_server_name (cf_env cf))"

lemma getPeerByName_foreign:
  assumes "foreign_peers cf pdb" and "getPeerByName se cn pdb = Inr (Some peer)"
  shows "rp_servername peer \<noteq> ev_server_name (cf_env cf)"
proof
  assume "rp_servername peer = ev_server_name (cf_env cf)"
  then have "cn = ev_server_name (cf_env cf)" using getPeerByName_name [OF assms(2)] by simp
  with assms(1) have "peer_rows (\<lambda>p. pr_name p = cn) pdb = []" by (auto simp: peer_rows_def foreign_peers_def)
  with assms(2) show False by (simp add: getPeerByName_def)
qed

lemma keeps_replication:
  assumes "foreign_peers cf pdb"
  shows "keeps (server_inv cf) (on_identity (replication_render_POST (cf_env cf) se pdb cn req))"
proof (rule keeps_on_identity)
  fix i
  assume i: "identity_inv (cf_env cf) i" "env_ok (cf_env cf) i"
  have p: "identity_inv (cf_env cf) (snd (push_all (cf_env cf) se peer items i)) \<and>
      env_ok (cf_env cf) (snd (push_all (cf_env cf) se peer items i))"
    if "getPeerByName se cn pdb = Inr (Some peer)" for peer items
    using push_all_inv [OF i(1) getPeerByName_foreign [OF assms that]] env_ok_cong [OF i(2)]
    by (auto simp: push_all_def Let_def split: prod.splits)
  show "identity_inv (cf_env cf) (snd (replication_render_POST (cf_env cf) se pdb cn req i)) \<and>
      env_ok (cf_env cf) (snd (replication_render_POST (cf_env cf) se pdb cn req i))"
    using i p by (auto simp: replication_render_POST_def bindM_def liftR_def raise_def split: sum.splits option.splits)
qed

lemma notify_response_frame [simp]:
  "is_local (notify_response e a n r i) = is_local i" "is_global (notify_response e a n r i) = is_global i"
  "is_extra (notify_response e a n r i) = is_extra i" "is_hashing (notify_response e a n r i) = is_hashing i"
  by (simp_all add: notify_response_def notifyErrback_def split: sum.splits)

lemma notify_response_inv: "identity_inv e i \<Longrightarrow> identity_inv e (notify_response e a n r i)"
  by (rule identity_inv_cong) (simp_all add: identity_inv_def)

lemma server_step_inv:
  assumes "server_step cf se pdb s t" and "foreign_peers cf pdb" and "server_inv cf s"
  shows "server_inv cf t"
  using assms
proof cases
  case (registered server fetched now r)
  with assms(3) keepsD [OF keeps_bind_handlers(5)] show ?thesis by simp
next
  case (pushed cn req)
  with assms(2,3) keepsD [OF keeps_replication] show ?thesis by simp
next
  case (notified assoc attempt result)
  with assms(3) show ?thesis
    by (simp add: server_inv_def notify_response_inv env_ok_cong [of _ "sv_identity s"])
next
  case (notify_again assoc attempt)
  with assms(3) show ?thesis by (auto simp: server_inv_def identity_inv_notify env_ok_cong [of _ "sv_identity s"])
qed (use assms(3) in \<open>auto simp: server_inv_unbind serve_inv, auto simp: server_inv_def session_inv_reap rl_inv_tick\<close>)

section \<open>Properties\<close>

text \<open>the invariant holds in every state the server can reach from a state in which it holds, whatever requests
  come in, in whatever order, and however other servers answer: the tables of associations, sessions and accounts keep
  their keys, addresses stay normalised, every session has exactly one token, every access token belongs to an account, no
  transaction is left open, and no rate limiter admits more than its burst.
\<close>

lemma reachable_keeps_inv:
  assumes "reachable cf se pdb s t" and "foreign_peers cf pdb" and "server_inv cf s"
  shows "server_inv cf t"
  using assms(1)
proof induction
  case start
  show ?case by (rule assms(3))
next
  case (step t u)
  show ?case by (rule server_step_inv [OF step.hyps(2) assms(2) step.IH])
qed

definition demo_running :: server_state where
  "demo_running = demo_server\<lparr>sv_sessions := empty_sessions\<rparr>"

definition demo_in :: "string list \<Rightarrow> request \<Rightarrow> incoming" where
  "demo_in path req = \<lparr>in_request = req, in_path = path, in_now = 1000, in_rnd = 0, in_random = \<lambda>_. 0,
     in_keys = (''priv'', ''pub''), in_client = None, in_str_exn = \<lambda>_. []\<rparr>"

abbreviation v2_path :: "string list" where
  "v2_path \<equiv> [''_matrix'', ''identity'', ''v2'']"

lemma demo_running_inv: "server_inv demo_conf demo_running"
  using fresh_state_ok
  by (simp add: server_inv_def demo_running_def demo_server_def demo_conf_def session_inv_empty account_inv_def rl_inv_init)

end
