(* ===== verification/Http_Access.thy ===== *)
theory Http_Access
  imports Server_Runs
begin

text \<open>
  What a client can rely on, and what it cannot get: the second version of the API answers no request without a valid access
  token, apart from a short list of endpoints, and every answer in JSON is an object.
\<close>

section \<open>Access without a token\<close>

text \<open>The endpoints of the second version of the API that do not ask for an access token.\<close>

definition open_endpoint :: "string \<Rightarrow> servlet \<Rightarrow> bool" where
  "open_endpoint m sv =
     (m \<in> {''GET'', ''HEAD''} \<and> sv \<in> {CorsServlet, TermsServlet, PubkeyIsValidServlet, Ed25519Servlet,
        EphemeralPubkeyIsValidServlet, EmailValidateCodeServlet True, MsisdnValidateCodeServlet True} \<or>
      m = ''POST'' \<and> sv \<in> {RegisterServlet, ThreePidUnbindServlet})"

definition fails_at :: "'s \<Rightarrow> ('s, 'a) act \<Rightarrow> bool" where
  "fails_at s m = (\<exists>ex. m s = (Inl ex, s))"

lemma fails_at_rules:
  "fails_at s m \<Longrightarrow> fails_at s (bindM m f)" "(\<And>x. fails_at s (g x)) \<Longrightarrow> fails_at s (bindM (liftR r) g)"
  by (auto simp: fails_at_def bindM_def liftR_def split: sum.splits)

lemma authV2_fails: "authV2 ts req False db = Inl ex \<Longrightarrow> authV2 ts req True db = Inl ex"
  by (auto simp: authV2_def bindR_def split: sum.splits option.splits)

lemma fails_at_auth:
  assumes "authV2 (cf_terms cf) req False (sv_accounts s) = Inl ex"
  shows "fails_at s (auth cf req)" "fails_at s (auth_if True cf req)"
    "fails_at s (on_accounts (account_render_GET (cf_terms cf) req))"
    "fails_at s (on_accounts (logout_render_POST (cf_terms cf) req))"
    "fails_at s (on_accounts (terms_render_POST (cf_terms cf) req))"
  using assms authV2_fails [OF assms]
  by (simp_all add: fails_at_def auth_def auth_if_def bindM_def on_accounts_def account_render_GET_def
      logout_render_POST_def terms_render_POST_def)

lemma run_json_fails:
  assumes "fails_at s m"
  shows "\<exists>st c e. run_json m s = (JsonReply (st, err_body c e), s)"
  using assms by (auto simp: fails_at_def run_json_def jsonwrap_def err_body_def split: exn.splits)

lemma find_node: "find_resource (node sv) ps = Some r \<Longrightarrow> r = node sv"
  by (cases ps) (auto simp: node_def split: if_splits option.splits)

lemma find_in_dir:
  "find_resource (Resource None cs) ps = Some r \<Longrightarrow>
   r = Resource None cs \<or> (\<exists>p c qs. (p, c) \<in> set cs \<and> find_resource c qs = Some r)"
  by (cases ps) (auto split: option.splits dest: map_of_SomeD)

definition v2_endpoints :: "servlet set" where
  "v2_endpoints = {CorsServlet, TermsServlet, AccountServlet, RegisterServlet, LogoutServlet, LookupV2Servlet, HashDetailsServlet,
    ThreePidUnbindServlet, PubkeyIsValidServlet, Ed25519Servlet, EphemeralPubkeyIsValidServlet} \<union>
    {GetValidated3pidServlet True, ThreePidBindServlet True, EmailRequestCodeServlet True, EmailValidateCodeServlet True,
     MsisdnRequestCodeServlet True, MsisdnValidateCodeServlet True, StoreInviteServlet True, BlindlySignStuffServlet True}"

lemma v2_servlets:
  assumes "find_resource v2_tree ps = Some r" and "res_servlet r = Some sv"
  shows "sv \<in> v2_endpoints"
proof (cases ps)
  case Nil
  with assms show ?thesis by (auto simp: v2_tree_def v2_endpoints_def)
next
  case (Cons p qs)
  with assms(1) obtain c where c: "(p, c) \<in> set (res_children v2_tree)" "find_resource c qs = Some r"
    by (auto simp: v2_tree_def split: if_splits option.splits)
  from c(1) consider sv' where "c = node sv'" "sv' \<in> {TermsServlet, StoreInviteServlet True, BlindlySignStuffServlet True,
      LookupV2Servlet, HashDetailsServlet}"
    | "c = Resource (Some AccountServlet) [(''register'', node RegisterServlet), (''logout'', node LogoutServlet)]"
    | "c = validate_tree True" | "c = pubkey_tree"
    | "c = dir [(''getValidated3pid'', node (GetValidated3pidServlet True)), (''bind'', node (ThreePidBindServlet True)),
         (''unbind'', node ThreePidUnbindServlet)]"
    by (auto simp: v2_tree_def)
  then show ?thesis
  proof cases
    case 1
    with c(2) assms(2) show ?thesis by (auto dest!: find_node simp: v2_endpoints_def, auto simp: node_def)
  next
    case 2
    with c(2) assms(2) show ?thesis
      by (cases qs) (auto dest!: find_node split: if_splits option.splits, auto simp: node_def v2_endpoints_def)
  next
    case 3
    with c(2) assms(2) show ?thesis
      by (auto simp: validate_tree_def dir_def dest!: find_in_dir find_node, auto simp: node_def v2_endpoints_def)
  next
    case 4
    with c(2) assms(2) show ?thesis
      by (auto simp: pubkey_tree_def dir_def dest!: find_in_dir find_node, auto simp: node_def v2_endpoints_def)
  next
    case 5
    with c(2) assms(2) show ?thesis
      by (auto simp: dir_def dest!: find_in_dir find_node, auto simp: node_def v2_endpoints_def)
  qed
qed

lemma serve_v2:
  assumes "in_path i = v2_path @ ps"
  shows "serve (client_api a b) cf i s =
    (case find_resource v2_tree ps of
       None \<Rightarrow> (NoSuchResource, s)
     | Some r \<Rightarrow> (case res_servlet r of None \<Rightarrow> (if rq_method (in_request i) = ''HEAD'' then ServerError else UnsupportedMethod, s)
        | Some sv \<Rightarrow> render cf i sv s))"
  using assms by (simp add: serve_def client_api_def dir_def)

lemma guarded_handlers_fail:
  assumes "authV2 (cf_terms cf) req False (sv_accounts s) = Inl ex"
  shows "fails_at s (hashdetails_render_GET cf req)" "fails_at s (lookupv2_render_POST cf now req)"
    "fails_at s (getvalidated3pid_render_GET cf True now req)" "fails_at s (threepidbind_render_POST cf True now req)"
    "fails_at s (email_request_render_POST cf True client now rnd r req)"
    "fails_at s (email_validate_render_POST cf True now req)"
    "fails_at s (msisdn_request_render_POST cf True now rnd r req)"
    "fails_at s (msisdn_validate_render_POST cf True now req)"
    "fails_at s (store_invite_render_POST cf True now r keys req)" "fails_at s (blindlysign_render_POST cf True req)"
proof -
  obtain ex' where "authV2 (cf_terms cf) (after_args req) False (sv_accounts s) = Inl ex'"
    using assms authV2_after_args [of "cf_terms cf" req False "sv_accounts s"]
    by (cases "authV2 (cf_terms cf) (after_args req) False (sv_accounts s)") auto
  note late = fails_at_auth(2) [OF this]
  show "fails_at s (hashdetails_render_GET cf req)" "fails_at s (lookupv2_render_POST cf now req)"
    "fails_at s (getvalidated3pid_render_GET cf True now req)" "fails_at s (threepidbind_render_POST cf True now req)"
    "fails_at s (email_request_render_POST cf True client now rnd r req)"
    "fails_at s (email_validate_render_POST cf True now req)"
    "fails_at s (msisdn_request_render_POST cf True now rnd r req)"
    "fails_at s (msisdn_validate_render_POST cf True now req)"
    "fails_at s (store_invite_render_POST cf True now r keys req)" "fails_at s (blindlysign_render_POST cf True req)"
    using fails_at_auth(1,2) [OF assms] late
    by (simp_all add: hashdetails_render_GET_def lookupv2_render_POST_def getvalidated3pid_render_GET_def
      threepidbind_render_POST_def email_request_render_POST_def email_validate_render_POST_def msisdn_request_render_POST_def
      msisdn_validate_render_POST_def store_invite_render_POST_def blindlysign_render_POST_def Let_def fails_at_rules)
qed

text \<open>A result that leaves the state alone and gives no data.\<close>

definition refused :: "server_state \<Rightarrow> outcome \<times> server_state \<Rightarrow> bool" where
  "refused s r = (snd r = s \<and> (fst r \<in> {NoSuchResource, UnsupportedMethod, ServerError, CorsHeaders} \<or>
     (\<exists>st c m. fst r = JsonReply (st, err_body c m))))"

lemma refused_fails: "fails_at s m \<Longrightarrow> refused s (run_json m s)"
  unfolding refused_def by (metis fst_conv run_json_fails snd_conv)

lemma refused_simps [simp]:
  "refused s (NoSuchResource, s)" "refused s (UnsupportedMethod, s)" "refused s (ServerError, s)" "refused s (CorsHeaders, s)"
  by (simp_all add: refused_def)

lemma render_refused:
  assumes "authV2 (cf_terms cf) (in_request i) False (sv_accounts s) = Inl ex"
    and "\<not> open_endpoint (rq_method (in_request i)) sv" and "sv \<in> v2_endpoints"
  shows "refused s (render cf i sv s)"
proof -
  note f = guarded_handlers_fail [OF assms(1), THEN refused_fails] fails_at_auth(3-5) [OF assms(1), THEN refused_fails]
  have "rq_method (in_request i) \<in> {''GET'', ''HEAD''} \<Longrightarrow> render_GET cf i sv = Some h \<Longrightarrow> refused s (h s)" for h
    using assms(2,3) by (cases sv) (auto simp: open_endpoint_def v2_endpoints_def f)
  moreover have "rq_method (in_request i) = ''POST'' \<Longrightarrow> render_POST cf i sv = Some h \<Longrightarrow> refused s (h s)" for h
    using assms(2,3) by (cases sv) (auto simp: open_endpoint_def v2_endpoints_def f)
  ultimately show ?thesis by (auto simp: render_def Let_def split: option.splits)
qed

section \<open>The form of the answers\<close>

text \<open>
  What a client may expect of an answer in JSON: an object, and unless the status is \<open>200\<close> the texts \<open>errcode\<close> and
  \<open>error\<close> are members of it.
\<close>

definition well_formed_reply :: "reply \<Rightarrow> bool" where
  "well_formed_reply rep =
     (case rep of (status, JObj d) \<Rightarrow> status = 200 \<or>
          (case (dict_get d ''errcode'', dict_get d ''error'') of (Some (JStr _), Some (JStr _)) \<Rightarrow> True | _ \<Rightarrow> False)
      | _ \<Rightarrow> False)"

definition yields :: "('a \<Rightarrow> bool) \<Rightarrow> ('s, 'a) act \<Rightarrow> bool" where
  "yields Q m = (\<forall>s x s'. m s = (Inr x, s') \<longrightarrow> Q x)"

named_theorems yields_intros \<open>rules for the results of actions\<close>

lemma yields_bindM [yields_intros]: "(\<And>x. yields Q (f x)) \<Longrightarrow> yields Q (bindM m f)"
  unfolding yields_def bindM_def by (auto split: prod.splits sum.splits)

lemma yields_basic [yields_intros]:
  "Q x \<Longrightarrow> yields Q (ret x)" "yields Q (raise ex)" "(\<And>x. r = Inr x \<Longrightarrow> Q x) \<Longrightarrow> yields Q (liftR r)"
  by (simp_all add: yields_def ret_def raise_def liftR_def)

lemma yields_cases [yields_intros]:
  "yields Q m \<Longrightarrow> yields Q n \<Longrightarrow> yields Q (if b then m else n)"
  "yields Q n \<Longrightarrow> (\<And>x. yields Q (f x)) \<Longrightarrow> yields Q (case v of None \<Rightarrow> n | Some x \<Rightarrow> f x)"
  "(\<And>x. yields Q (g x)) \<Longrightarrow> (\<And>x. yields Q (h x)) \<Longrightarrow> yields Q (case w of Inl x \<Rightarrow> g x | Inr x \<Rightarrow> h x)"
  "(\<And>x y. yields Q (k x y)) \<Longrightarrow> yields Q (case p of (x, y) \<Rightarrow> k x y)"
  by (simp_all split: option.splits sum.splits prod.splits)

lemma yields_on [yields_intros]:
  "yields Q m \<Longrightarrow> yields Q (on_accounts m)" "yields Q n \<Longrightarrow> yields Q (on_sessions n)"
  by (auto simp: yields_def on_accounts_def on_sessions_def split: prod.splits)

lemma well_formed_simps [simp, yields_intros]:
  "well_formed_reply (ok_reply d)" "well_formed_reply (status, err_body c m)" "well_formed_reply (status, failure c m)"
  "well_formed_reply (bad_attempt cf v)" "well_formed_reply (federation_request_problem e)"
  by (simp_all add: well_formed_reply_def err_body_def failure_def bad_attempt_def federation_request_problem_def)

lemma validate_reply_well_formed: "validate_reply bad unmatched r = Inr rep \<Longrightarrow> well_formed_reply rep"
  by (auto simp: validate_reply_def split: sum.splits exn.splits)

lemma yields_requests [yields_intros]:
  "yields well_formed_reply (request_mail cf now rnd r a c n l ip brand)"
  "yields well_formed_reply (request_sms cf now rnd r phone intl c n)"
  by (auto simp: yields_def request_mail_def request_sms_def Let_def split: prod.splits sum.splits exn.splits)

lemma yields_validate [yields_intros]: "yields well_formed_reply (do_validate_request bad unmatched now req)"
  unfolding do_validate_request_def
  by (intro yields_intros) (auto simp: yields_def validate_reply_well_formed split: prod.splits)

lemma yields_create_invite [yields_intros]:
  "yields well_formed_reply (create_invite cf req now r keys args medium address room sender verified)"
  unfolding create_invite_def Let_def
  by (intro yields_intros)
    (auto simp: yields_def act_simps invite_reply_def split: prod.splits sum.splits exn.splits)

lemma yields_store_invite [yields_intros]: "yields well_formed_reply (store_invite_render_POST cf b now r keys req)"
  unfolding store_invite_render_POST_def invite_unbound_def
  by (intro yields_intros) (simp_all add: well_formed_reply_def)

lemma yields_lookups [yields_intros]:
  "yields well_formed_reply (lookup_render_GET cf now req)" "yields well_formed_reply (bulklookup_render_POST now req)"
  "yields well_formed_reply (hashdetails_render_GET cf req)" "yields well_formed_reply (lookupv2_render_POST cf now req)"
  "yields well_formed_reply (pubkey_render_GET cf)" "yields well_formed_reply (pubkey_isvalid_render_GET cf req)"
  "yields well_formed_reply (ephemeral_isvalid_render_GET req)" "yields well_formed_reply (blindlysign_render_POST cf b req)"
  "yields well_formed_reply versions_render_GET"
  unfolding lookup_render_GET_def bulklookup_render_POST_def hashdetails_render_GET_def lookupv2_render_POST_def
    lookup_none_def lookup_sha256_def pubkey_render_GET_def pubkey_isvalid_render_GET_def ephemeral_isvalid_render_GET_def
    blindlysign_render_POST_def versions_render_GET_def
  by (auto intro!: yields_intros split: json.split simp: well_formed_reply_def)

lemma yields_sessions [yields_intros]:
  "yields well_formed_reply (email_request_render_POST cf b client now rnd r req)"
  "yields well_formed_reply (msisdn_request_render_POST cf b now rnd r req)"
  "yields well_formed_reply (email_validate_render_POST cf b now req)"
  "yields well_formed_reply (msisdn_validate_render_POST cf b now req)"
  "yields well_formed_reply (threepidbind_render_POST cf b now req)"
  "yields well_formed_reply (authenticated_bind_render_POST cf now req)"
  "yields well_formed_reply (authenticated_unbind_render_POST cf now req)"
  unfolding email_request_render_POST_def email_request_args_def msisdn_request_render_POST_def email_validate_render_POST_def
    msisdn_validate_render_POST_def threepidbind_render_POST_def authenticated_bind_render_POST_def
    authenticated_unbind_render_POST_def Let_def
  by (intro yields_intros)+

lemma yields_getvalidated3pid [yields_intros]: "yields well_formed_reply (getvalidated3pid_render_GET cf b now req)"
  unfolding getvalidated3pid_render_GET_def
  by (intro yields_intros) (auto simp: yields_def split: prod.splits sum.splits exn.splits)

lemma yields_accounts [yields_intros]:
  "yields well_formed_reply (account_render_GET ts req)" "yields well_formed_reply (logout_render_POST ts req)"
  "yields well_formed_reply (terms_render_POST ts req)" "yields well_formed_reply (liftR (terms_render_GET ts))"
proof -
  show "yields well_formed_reply (account_render_GET ts req)" "yields well_formed_reply (liftR (terms_render_GET ts))"
    by (auto simp: yields_def account_render_GET_def bindR_eq_Inr terms_render_GET_def liftR_def)
  show "yields well_formed_reply (logout_render_POST ts req)" "yields well_formed_reply (terms_render_POST ts req)"
    unfolding logout_render_POST_def terms_render_POST_def Let_def by (intro yields_intros)+
qed

lemma run_json_well_formed:
  assumes "yields well_formed_reply m" and "run_json m s = (JsonReply rep, s')"
  shows "well_formed_reply rep"
  using assms by (auto simp: yields_def run_json_def jsonwrap_def split: prod.splits sum.splits exn.splits)

lemma run_json_json: "\<exists>rep s'. run_json m s = (JsonReply rep, s')"
  by (auto simp: run_json_def split: prod.splits)

lemma run_page_no_json [simp]: "run_page m s \<noteq> (JsonReply rep, s')"
  by (auto simp: run_page_def split: prod.splits sum.splits)

lemma register_start_answer: "register_start cf req = Inr (Answer rep) \<Longrightarrow> well_formed_reply rep"
  unfolding register_start_def by (auto simp: bindR_eq_Inr split: if_splits json.splits)

lemma run_register_well_formed: "run_register cf req s = (JsonReply rep, s') \<Longrightarrow> well_formed_reply rep"
  using run_json_well_formed [OF yields_basic(2)]
  by (auto simp: run_register_def register_start_answer split: sum.splits register_step.splits)

lemma render_well_formed:
  assumes "render cf i sv s = (JsonReply rep, s')"
  shows "well_formed_reply rep"
proof -
  have "well_formed_reply rep" if "render_GET cf i sv = Some h" "h s = (JsonReply rep, s')" for h
    using that by (cases sv) (auto intro: run_json_well_formed [rotated] intro!: yields_intros)
  moreover have "well_formed_reply rep" if "render_POST cf i sv = Some h" "h s = (JsonReply rep, s')" for h
    using that by (cases sv) (auto intro: run_json_well_formed [rotated] run_register_well_formed intro!: yields_intros
        split: prod.splits)
  ultimately show ?thesis using assms by (auto simp: render_def Let_def split: option.splits if_splits)
qed

text \<open>The answers that are not written by the wrapper, or written later: those of unbinding, of a registration when the homeserver
  has answered, and of a push from another server.\<close>

definition well_formed_step :: "unbind_step \<Rightarrow> bool" where
  "well_formed_step u = (case u of Responded status body finished \<Rightarrow> well_formed_reply (status, body) | Authenticate _ \<Rightarrow> True)"

lemma well_formed_step_simps [simp, yields_intros]:
  "well_formed_step (fail_with status c m)" "well_formed_step (Responded 200 (JObj d) f)"
  "well_formed_step (Responded status (err_body c m) f)" "well_formed_step (Authenticate v)"
  by (simp_all add: well_formed_step_def fail_with_def well_formed_reply_def err_body_def)

lemma yields_unbind [yields_intros]:
  "yields well_formed_step (do_unbind cf now threepid mxid)"
  "yields well_formed_step (unbind_by_session cf now sid secret threepid mxid)"
proof -
  show u: "yields well_formed_step (do_unbind cf now threepid mxid)" for threepid mxid
    unfolding do_unbind_def by (intro yields_intros)
  have s: "yields well_formed_step (\<lambda>st.
         case validated_session sid cs now st of
           (Inl InvalidSessionIdException, st') \<Rightarrow> (Inr (fail_with 401 ''M_NO_VALID_SESSION''
              ''No valid session was found matching that sid and client secret''), st')
         | (Inl IncorrectClientSecretException, st') \<Rightarrow> (Inr (fail_with 401 ''M_NO_VALID_SESSION''
              ''No valid session was found matching that sid and client secret''), st')
         | (Inl SessionNotValidatedException, st') \<Rightarrow> (Inr (Responded 403 (err_body ''M_SESSION_NOT_VALIDATED''
              ''This validation session has not yet been completed'') False), st')
         | (Inl ex, st') \<Rightarrow> (Inl ex, st')
         | (Inr s, st') \<Rightarrow> f s st')" if "\<And>s. yields well_formed_step (f s)" for cs f
    using that by (auto simp: yields_def split: prod.splits sum.splits exn.splits)
  show "yields well_formed_step (unbind_by_session cf now sid secret threepid mxid)"
    unfolding unbind_by_session_def by (intro yields_intros s u)
qed

lemma yields_unbind_body [yields_intros]: "yields well_formed_step (unbind_body cf now body)"
  unfolding unbind_body_def by (intro yields_intros)

lemma outer_except_well_formed:
  assumes "yields well_formed_step m"
  shows "well_formed_step (fst (outer_except str_exn m s))"
proof -
  obtain q s' where "m s = (q, s')" by fastforce
  with assms show ?thesis by (cases q) (auto simp: outer_except_def yields_def)
qed

lemma unbind_start_well_formed: "well_formed_step (fst (unbind_start str_exn cf now req s))"
  unfolding unbind_start_def
  by (auto intro!: outer_except_well_formed yields_intros split: option.splits)

lemma unbind_resume_well_formed: "well_formed_step (fst (unbind_resume str_exn cf now body authd s))"
  unfolding unbind_resume_def
  apply (rule outer_except_well_formed, cases authd)
  subgoal for ex by (cases ex) (simp_all add: yields_basic(1))
  subgoal for origin by (simp only: sum.simps) (intro yields_intros)
  done

lemma userinfo_sub_answer:
  assumes "userinfo_sub cf server result = Inr (Inl rep)"
  shows "\<exists>e. rep = federation_request_problem e"
proof (cases "json_in ''sub'' result")
  case (Inl ex)
  with assms show ?thesis by (simp add: userinfo_sub_def)
next
  case (Inr present)
  show ?thesis
  proof (cases present)
    case False
    with assms Inr show ?thesis by (auto simp: userinfo_sub_def)
  next
    case True
    then obtain sub where sub: "json_index result ''sub'' = Inr sub"
      using assms Inr by (cases "json_index result ''sub''") (simp_all add: userinfo_sub_def)
    obtain l d where sp: "\<And>u. sub = JStr u \<Longrightarrow> split_once CHR '':'' u = (l, d)" by (cases sub) fastforce+
    show ?thesis
      using assms Inr True sub sp
      by (cases sub; cases d; cases "is_valid_matrix_server_name (ev_isIPAddress (cf_env cf)) (ev_isIPv6Address (cf_env cf)) (the d)")
        (auto simp: userinfo_sub_def split: if_splits)
  qed
qed

lemma yields_liftR_case: "(\<And>x. r = Inr x \<Longrightarrow> yields Q (f x)) \<Longrightarrow> yields Q (bindM (liftR r) f)"
  by (cases r) (simp_all add: yields_def bindM_def liftR_def)

lemma yields_register_finish: "yields well_formed_reply (register_finish cf server fetched now r)"
proof (cases fetched)
  case (Inl ex)
  then show ?thesis unfolding register_finish_def by (auto intro!: yields_intros)
next
  case (Inr result)
  have "yields well_formed_reply (case u of Inl rep \<Rightarrow> ret rep
      | Inr user_id \<Rightarrow> bindM (on_accounts (issueToken user_id now r)) (\<lambda>tok.
          ret (ok_reply [(''access_token'', JStr tok), (''token'', JStr tok)])))"
    if "userinfo_sub cf server result = Inr u" for u
    using that by (cases u) (auto intro!: yields_intros dest!: userinfo_sub_answer)
  with Inr show ?thesis by (auto simp: register_finish_def intro!: yields_liftR_case)
qed

lemma yields_replication: "yields well_formed_reply (replication_render_POST e se pdb cn req)"
proof -
  have "yields well_formed_reply (push_all e se peer items)" for peer items
    by (auto simp: yields_def push_all_def Let_def well_formed_reply_def split: prod.splits if_splits)
  then show ?thesis unfolding replication_render_POST_def by (intro yields_intros)
qed

lemma jsonwrap_well_formed:
  assumes "yields well_formed_reply m"
  shows "well_formed_reply (fst (jsonwrap (m s)))"
  using assms by (auto simp: yields_def jsonwrap_def split: prod.splits sum.splits exn.splits)

text \<open>The answers in JSON that a step of the server writes: at most one.\<close>

definition json_answers :: "outcome \<Rightarrow> reply set" where
  "json_answers out = (case out of JsonReply rep \<Rightarrow> {rep} | UnbindStep (Responded status body _) \<Rightarrow> {(status, body)} | _ \<Rightarrow> {})"

lemma run_json_outcome: "run_json m s = (out, s') \<Longrightarrow> \<exists>rep. out = JsonReply rep"
  by (auto simp: run_json_def split: prod.splits)

lemma render_unbind:
  assumes "render cf i sv s = (UnbindStep u, s')"
  shows "u = fst (unbind_start (in_str_exn i) cf (in_now i) (in_request i) s)"
proof -
  have "u = fst (unbind_start (in_str_exn i) cf (in_now i) (in_request i) s)"
    if "render_POST cf i sv = Some h" "h s = (UnbindStep u, s')" for h
    using that by (cases sv) (auto simp: run_register_def dest!: run_json_outcome
        split: prod.splits sum.splits register_step.splits)
  moreover have "render_GET cf i sv = Some h \<Longrightarrow> h s \<noteq> (UnbindStep u, s')" for h
    by (cases sv) (auto simp: run_page_def dest!: run_json_outcome split: prod.splits sum.splits)
  ultimately show ?thesis using assms by (auto simp: render_def Let_def split: option.splits if_splits)
qed

lemma serve_well_formed: "\<forall>rep \<in> json_answers (fst (serve tree cf i s)). well_formed_reply rep"
proof -
  obtain out s' where o: "serve tree cf i s = (out, s')" by fastforce
  have "well_formed_reply rep" if "out = JsonReply rep" for rep
    using o that by (auto simp: serve_def dest: render_well_formed split: option.splits if_splits)
  moreover have "well_formed_step u" if "out = UnbindStep u" for u
    using o that unbind_start_well_formed by (auto simp: serve_def dest!: render_unbind split: option.splits if_splits)
  ultimately show ?thesis using o by (auto simp: json_answers_def well_formed_step_def split: outcome.splits unbind_step.splits)
qed

section \<open>Properties\<close>

text \<open>C2: a request to the second version of the API without a valid access token changes nothing and gets no data:
  the answer is an error or there is no such resource or method. The only endpoints for which this does not hold are the ones of
  \<open>open_endpoint\<close>: the terms, the public keys, registration, the links in mails and messages, and unbinding, which
  is authenticated in another way.
\<close>

theorem v2_needs_token:
  assumes "authV2 (cf_terms cf) (in_request i) False (sv_accounts s) = Inl ex" and "in_path i = v2_path @ ps"
    and "\<forall>r sv. find_resource v2_tree ps = Some r \<and> res_servlet r = Some sv \<longrightarrow> \<not> open_endpoint (rq_method (in_request i)) sv"
  shows "snd (serve (client_api a b) cf i s) = s \<and>
    (fst (serve (client_api a b) cf i s) \<in> {NoSuchResource, UnsupportedMethod, ServerError, CorsHeaders} \<or>
     (\<exists>st c m. fst (serve (client_api a b) cf i s) = JsonReply (st, err_body c m)))"
proof -
  have "refused s (render cf i sv s)" if r: "find_resource v2_tree ps = Some r" and sv: "res_servlet r = Some sv" for r sv
    using v2_servlets [OF r sv] render_refused [OF assms(1)] assms(3) r sv by blast
  then have "refused s (serve (client_api a b) cf i s)"
    using assms(2) by (auto simp: serve_v2 refused_def split: option.splits)
  then show ?thesis by (simp add: refused_def)
qed

abbreviation demo_stranger :: request where
  "demo_stranger \<equiv> demo_bind\<lparr>rq_headers := [(''authorization'', [''Bearer guess''])]\<rparr>"

lemma find_bind: "find_resource v2_tree [''3pid'', ''bind''] = Some (node (ThreePidBindServlet True))"
  by (simp add: v2_tree_def dir_def)

lemma serve_demo_bind:
  assumes "rq_method req = ''POST''"
  shows "serve (client_api a b) cf (demo_in (v2_path @ [''3pid'', ''bind'']) req) s =
    run_json (threepidbind_render_POST cf True 1000 req) s"
proof -
  have "in_path (demo_in (v2_path @ [''3pid'', ''bind'']) req) = v2_path @ [''3pid'', ''bind'']" by (simp add: demo_in_def)
  from serve_v2 [OF this, of a b cf s, unfolded find_bind] assms show ?thesis
    by (simp add: node_def render_def demo_in_def)
qed

lemma snd_run_json: "snd (run_json m s) = snd (m s)"
  by (auto simp: run_json_def jsonwrap_def split: prod.splits sum.splits exn.splits)

theorem v2_needs_token_witness:
  "authV2 (cf_terms demo_conf) demo_stranger False (sv_accounts demo_server) = Inl unauthorized \<and>
   authV2 (cf_terms demo_conf) demo_bind False (sv_accounts demo_server) \<noteq> Inl unauthorized \<and>
   snd (serve (client_api True True) demo_conf (demo_in (v2_path @ [''3pid'', ''bind'']) demo_stranger) demo_server) = demo_server \<and>
   snd (serve (client_api True True) demo_conf (demo_in (v2_path @ [''3pid'', ''bind'']) demo_bind) demo_server) \<noteq> demo_server"
proof -
  let ?i = "\<lambda>req. demo_in (v2_path @ [''3pid'', ''bind'']) req"
  have u: "authV2 (cf_terms demo_conf) demo_stranger False (sv_accounts demo_server) = Inl unauthorized" by code_simp
  have ok: "authV2 (cf_terms demo_conf) demo_bind False (sv_accounts demo_server) \<noteq> Inl unauthorized" by code_simp
  have "snd (serve (client_api True True) demo_conf (?i demo_stranger) demo_server) = demo_server"
    by (rule v2_needs_token [THEN conjunct1, OF _ _ allI [OF allI]])
      (use u in \<open>auto simp: v2_tree_def dir_def demo_in_def open_endpoint_def node_def demo_post_def\<close>)
  moreover have "snd (serve (client_api True True) demo_conf (?i demo_bind) demo_server) =
      snd (threepidbind_render_POST demo_conf True 1000 demo_bind demo_server)"
    by (subst serve_demo_bind) (simp_all add: demo_post_def snd_run_json)
  ultimately show ?thesis using demo_bind_changes u ok by (metis (no_types, lifting))
qed

text \<open>C3: every answer in JSON is an object, and unless its status is \<open>200\<close> it has
  the members \<open>errcode\<close> and \<open>error\<close> of a Matrix error, both of them texts. This is so for the answer to every request to the
  client API and the internal API, for the answers that come after another server was asked (unbinding without a
  session, and registration), and for the answer to a push of another server. No exception of a handler
  gets through to the client in another form.
\<close>

theorem answers_well_formed:
  "(\<forall>rep \<in> json_answers (fst (serve tree cf i s)). well_formed_reply rep) \<and>
   (\<forall>rep \<in> json_answers (UnbindStep (fst (unbind_resume str_exn cf now body authenticated s))). well_formed_reply rep) \<and>
   well_formed_reply (fst (jsonwrap (register_finish cf server fetched now r s))) \<and>
   well_formed_reply (fst (jsonwrap (replication_render_POST e se pdb peerCertCn req ids)))"
proof -
  have "well_formed_step (fst (unbind_resume str_exn cf now body authenticated s))" by (rule unbind_resume_well_formed)
  then have "\<forall>rep \<in> json_answers (UnbindStep (fst (unbind_resume str_exn cf now body authenticated s))). well_formed_reply rep"
    by (auto simp: json_answers_def well_formed_step_def split: unbind_step.splits)
  then show ?thesis
    using serve_well_formed jsonwrap_well_formed [OF yields_register_finish] jsonwrap_well_formed [OF yields_replication]
    by blast
qed

text \<open>Binding with a bad token, and unbinding with a session that is not there, answered over the same tree.\<close>

lemma serve_demo_unbind:
  assumes "rq_method req = ''POST''"
  shows "serve (client_api a b) cf (demo_in (v2_path @ [''3pid'', ''unbind'']) req) s =
    (case unbind_start (in_str_exn (demo_in (v2_path @ [''3pid'', ''unbind'']) req)) cf 1000 req s of (u, s') \<Rightarrow> (UnbindStep u, s'))"
proof -
  have find: "find_resource v2_tree [''3pid'', ''unbind''] = Some (node ThreePidUnbindServlet)" by (simp add: v2_tree_def dir_def)
  have "in_path (demo_in (v2_path @ [''3pid'', ''unbind'']) req) = v2_path @ [''3pid'', ''unbind'']" by (simp add: demo_in_def)
  from serve_v2 [OF this, of a b cf s, unfolded find] assms show ?thesis
    by (simp add: node_def render_def demo_in_def)
qed

abbreviation demo_unbind_nothing :: request where
  "demo_unbind_nothing \<equiv> demo_post [(''threepid'', JObj [(''medium'', JStr ''email''), (''address'', JStr ''bob@example.com'')]),
     (''mxid'', JStr ''@bob:hs''), (''sid'', JInt 6), (''client_secret'', JStr ''sec'')]"

theorem answers_well_formed_witness:
  "(\<exists>rep. fst (serve (client_api True True) demo_conf (demo_in (v2_path @ [''3pid'', ''bind'']) demo_stranger) demo_server) =
     JsonReply rep \<and> fst rep = 401 \<and> well_formed_reply rep) \<and>
   (\<exists>status body. fst (serve (client_api True True) demo_conf (demo_in (v2_path @ [''3pid'', ''unbind'']) demo_unbind_nothing)
       demo_server) = UnbindStep (Responded status body True) \<and> status = 401 \<and> well_formed_reply (status, body))"
proof -
  let ?i = "demo_in (v2_path @ [''3pid'', ''bind'']) demo_stranger"
  let ?u = "demo_in (v2_path @ [''3pid'', ''unbind'']) demo_unbind_nothing"
  have u: "authV2 (cf_terms demo_conf) demo_stranger False (sv_accounts demo_server) = Inl unauthorized" by code_simp
  have "serve (client_api True True) demo_conf ?i demo_server =
      run_json (threepidbind_render_POST demo_conf True 1000 demo_stranger) demo_server"
    by (rule serve_demo_bind) (simp add: demo_post_def)
  moreover have "fst (run_json (threepidbind_render_POST demo_conf True 1000 demo_stranger) demo_server) =
      JsonReply (401, err_body ''M_UNAUTHORIZED'' ''Unauthorized'')"
    using authV2_fails [OF u]
    by (simp add: threepidbind_render_POST_def auth_if_def auth_def bindM_def run_json_def jsonwrap_def unauthorized_def)
  ultimately have f: "fst (serve (client_api True True) demo_conf ?i demo_server) =
      JsonReply (401, err_body ''M_UNAUTHORIZED'' ''Unauthorized'')" by simp
  have start: "fst (unbind_start (in_str_exn ?u) demo_conf 1000 demo_unbind_nothing demo_server) =
      Responded 401 (err_body ''M_NO_VALID_SESSION''
        ''No valid session was found matching that sid and client secret'') True" by code_simp
  have "serve (client_api True True) demo_conf ?u demo_server =
      (case unbind_start (in_str_exn ?u) demo_conf 1000 demo_unbind_nothing demo_server of (u, s') \<Rightarrow> (UnbindStep u, s'))"
    by (rule serve_demo_unbind) (simp add: demo_post_def)
  then have g: "fst (serve (client_api True True) demo_conf ?u demo_server) = UnbindStep (Responded 401 (err_body
      ''M_NO_VALID_SESSION'' ''No valid session was found matching that sid and client secret'') True)"
    using start by (auto split: prod.splits)
  show ?thesis
    using answers_well_formed [where tree = "client_api True True" and cf = demo_conf and i = ?i and s = demo_server, THEN conjunct1]
      answers_well_formed [where tree = "client_api True True" and cf = demo_conf and i = ?u and s = demo_server, THEN conjunct1]
    unfolding f g by (simp add: json_answers_def)
qed

end
