(* ===== verification/Casefold_Script.thy ===== *)
theory Casefold_Script
  imports Validators Hashing_Store
begin

text \<open>
  \<open>scripts/casefold_db.py\<close>: the migration of a database to case-insensitive e-mail addresses. The state is what the script
  changes: the two tables, the mails the server took, how many it was offered and how long the script slept. A mail is sent
  in an environment of its own, so that an attempt may fail and the next succeed.
\<close>

section \<open>State\<close>

record script_env =
  sc_hash :: "string \<Rightarrow> string"
  sc_pepper :: "string option"
  sc_general :: general_config
  sc_mail :: "nat \<Rightarrow> mail_env"
  sc_now :: "nat \<Rightarrow> int"
  sc_server_name :: string
  sc_sign :: "jdict \<Rightarrow> jdict"

record script_state =
  st_local :: local_table
  st_global :: global_table
  st_mails :: "smtp_mail list"
  st_tries :: nat
  st_slept :: "int list"

record update_delta =
  ud_address :: string
  ud_mxid :: "string option"
  ud_lookup_hash :: string

record delete_delta =
  dd_address :: string
  dd_mxid :: "string option"

record delta =
  dl_to_update :: update_delta
  dl_to_delete :: "delete_delta list option"

definition MAX_ATTEMPTS_FOR_EMAIL :: nat where
  "MAX_ATTEMPTS_FOR_EMAIL = 5"

definition calculate_lookup_hash :: "script_env \<Rightarrow> string \<Rightarrow> string res" where
  "calculate_lookup_hash se address =
     (case sc_pepper se of
        None \<Rightarrow> Inl RuntimeError
      | Some pepper \<Rightarrow> Inr (sc_hash se (hash_input address ''email'' pepper)))"

section \<open>Sending mails\<close>

text \<open>
  One call of \<open>sendEmail\<close>. The association of a deleted binding has no user: a template in
  Jinja's format shows \<open>None\<close>, the other format fails to escape it.
\<close>

definition send_once :: "script_env \<Rightarrow> string \<Rightarrow> string option \<Rightarrow> (script_state, unit) act" where
  "send_once se address mxid s =
     (let n = st_tries s;
          template_file = get_branded_template (sc_general se) None ''migration_template.eml'';
          send = (\<lambda>x. sendEmail (sc_mail se n) (sc_now se n) template_file address [(''mxid'', x)]);
          (r, mails) = (case mxid of
              Some x \<Rightarrow> send x
            | None \<Rightarrow> if endswith template_file ''.j2'' then send ''None'' else (Inl AttributeError, []))
      in (r, s\<lparr>st_tries := n + 1, st_mails := st_mails s @ mails\<rparr>))"

fun send_loop :: "script_env \<Rightarrow> string \<Rightarrow> string option \<Rightarrow> nat \<Rightarrow> int \<Rightarrow> (script_state, unit) act" where
  "send_loop se address mxid 0 backoff s = (Inl CantSendEmailException, s)"
| "send_loop se address mxid (Suc n) backoff s =
     (case send_once se address mxid s of
        (r, s') \<Rightarrow>
          if r = Inl EmailSendException
          then send_loop se address mxid n (backoff * 2) (s'\<lparr>st_slept := st_slept s' @ [backoff]\<rparr>)
          else (r, s'))"

definition sendEmailWithBackoff :: "script_env \<Rightarrow> string \<Rightarrow> string option \<Rightarrow> bool \<Rightarrow> (script_state, unit) act" where
  "sendEmailWithBackoff se address mxid test =
     send_loop se address mxid MAX_ATTEMPTS_FOR_EMAIL (if test then 0 else 1)"

section \<open>The local table\<close>

text \<open>
  \<open>ORDER BY ts DESC\<close>: rows without a time come last. Rows of the same time are taken in the order of the table, which
  the query does not promise.
\<close>

definition ts_desc :: "('r \<Rightarrow> int option) \<Rightarrow> 'r list \<Rightarrow> 'r list" where
  "ts_desc ts rows =
     sort_key (\<lambda>r. - the (ts r)) (filter (\<lambda>r. ts r \<noteq> None) rows) @ filter (\<lambda>r. ts r = None) rows"

definition email_row :: "local_row \<Rightarrow> bool" where
  "email_row r = (ta_medium (l_assoc r) = ''email'')"

definition select_local :: "local_table \<Rightarrow> local_row list" where
  "select_local t = ts_desc (ta_ts \<circ> l_assoc) (filter email_row (l_rows t))"

text \<open>\<open>if k in d: d[k].append(v) else: d[k] = [v]\<close>\<close>

definition dict_append :: "('k, 'v list) dict \<Rightarrow> 'k \<Rightarrow> 'v \<Rightarrow> ('k, 'v list) dict" where
  "dict_append d k v = dict_set d k (case dict_get d k of None \<Rightarrow> [v] | Some l \<Rightarrow> l @ [v])"

type_synonym local_tuple = "string \<times> string option \<times> string"

fun collect_local :: "script_env \<Rightarrow> local_row list \<Rightarrow> (string, local_tuple list) dict \<Rightarrow> (string, local_tuple list) dict res" where
  "collect_local se [] associations = Inr associations"
| "collect_local se (r # rs) associations =
     (let address = ta_address (l_assoc r); casefold_address = str_lower address in
      bindR (calculate_lookup_hash se casefold_address) (\<lambda>lookup_hash.
      collect_local se rs (dict_append associations casefold_address (address, ta_mxid (l_assoc r), lookup_hash))))"

definition local_delta :: "string \<Rightarrow> local_tuple list \<Rightarrow> delta option" where
  "local_delta casefold_address assoc_tuples =
     (case assoc_tuples of
        [] \<Rightarrow> None
      | (address, mxid, lookup_hash) # rest \<Rightarrow>
          if rest = [] \<and> address = casefold_address then None
          else Some \<lparr>dl_to_update = \<lparr>ud_address = address, ud_mxid = mxid, ud_lookup_hash = lookup_hash\<rparr>,
                 dl_to_delete = (if rest = [] then None
                   else Some (map (\<lambda>(a, m, _). \<lparr>dd_address = a, dd_mxid = m\<rparr>) rest))\<rparr>)"

definition local_deltas :: "(string, local_tuple list) dict \<Rightarrow> (string \<times> delta) list" where
  "local_deltas associations = List.map_filter (\<lambda>(c, l). map_option (Pair c) (local_delta c l)) associations"

definition delete_local :: "string \<Rightarrow> local_table \<Rightarrow> local_table" where
  "delete_local address t = t\<lparr>l_rows := filter (\<lambda>r. \<not> (email_row r \<and> ta_address (l_assoc r) = address)) (l_rows t)\<rparr>"

definition set_address :: "string \<Rightarrow> string \<Rightarrow> local_row \<Rightarrow> local_row" where
  "set_address address lookup_hash r =
     r\<lparr>l_assoc := (l_assoc r)\<lparr>ta_address := address, ta_lookup_hash := Some lookup_hash\<rparr>\<rparr>"

text \<open>A comparison with a missing user is not true of any row. The unique index admits no second row of the new address.\<close>

definition update_local :: "string \<Rightarrow> update_delta \<Rightarrow> (local_table, unit) act" where
  "update_local address u t =
     (let hit = (\<lambda>r. email_row r \<and> ta_address (l_assoc r) = ud_address u \<and> ud_mxid u \<noteq> None \<and> ta_mxid (l_assoc r) = ud_mxid u)
      in if \<exists>r \<in> set (l_rows t). hit r \<and> (\<exists>q \<in> set (l_rows t). l_id q \<noteq> l_id r \<and> row_3pid q = (''email'', address))
         then (Inl IntegrityError, t)
         else (Inr (), t\<lparr>l_rows := map (\<lambda>r. if hit r then set_address address (ud_lookup_hash u) r else r) (l_rows t)\<rparr>))"

definition on_local :: "(local_table, 'a) act \<Rightarrow> (script_state, 'a) act" where
  "on_local m s = (case m (st_local s) of (r, t) \<Rightarrow> (r, s\<lparr>st_local := t\<rparr>))"

fun delete_warned ::
    "script_env \<Rightarrow> bool \<Rightarrow> bool \<Rightarrow> string option \<Rightarrow> delete_delta list \<Rightarrow> (script_state, unit) act" where
  "delete_warned se send_email test kept [] = ret ()"
| "delete_warned se send_email test kept (d # ds) =
     bindM (if send_email \<and> dd_mxid d \<noteq> kept then sendEmailWithBackoff se (dd_address d) (dd_mxid d) test else ret ()) (\<lambda>_.
     bindM (on_local (modifyM (delete_local (dd_address d)))) (\<lambda>_.
     delete_warned se send_email test kept ds))"

definition apply_delta :: "script_env \<Rightarrow> bool \<Rightarrow> bool \<Rightarrow> bool \<Rightarrow> string \<Rightarrow> delta \<Rightarrow> (script_state, unit) act" where
  "apply_delta se send_email dry_run test casefolded_address dl s =
     (if dry_run then (Inr (), s)
      else case bindM (case dl_to_delete dl of None \<Rightarrow> ret ()
               | Some ds \<Rightarrow> delete_warned se send_email test (ud_mxid (dl_to_update dl)) ds)
             (\<lambda>_. on_local (update_local casefolded_address (dl_to_update dl))) s of
        (r, s') \<Rightarrow> (if r = Inl CantSendEmailException then (Inr (), s') else (r, s')))"

fun apply_deltas ::
    "script_env \<Rightarrow> bool \<Rightarrow> bool \<Rightarrow> bool \<Rightarrow> (string \<times> delta) list \<Rightarrow> (script_state, unit) act" where
  "apply_deltas se send_email dry_run test [] = ret ()"
| "apply_deltas se send_email dry_run test ((c, dl) # ds) =
     bindM (apply_delta se send_email dry_run test c dl) (\<lambda>_. apply_deltas se send_email dry_run test ds)"

definition update_local_associations :: "script_env \<Rightarrow> bool \<Rightarrow> bool \<Rightarrow> bool \<Rightarrow> (script_state, unit) act" where
  "update_local_associations se send_email dry_run test =
     bindM (getsM (\<lambda>s. select_local (st_local s))) (\<lambda>rows.
     bindM (liftR (collect_local se rows [])) (\<lambda>associations.
     apply_deltas se send_email dry_run test (local_deltas associations)))"

section \<open>The global table\<close>

type_synonym global_tuple = "string \<times> string \<times> string \<times> jdict"

definition select_global :: "string \<Rightarrow> global_table \<Rightarrow> global_row list" where
  "select_global origin_server t =
     ts_desc (Some \<circ> g_ts) (filter (\<lambda>r. g_medium r = ''email'' \<and> g_originServer r = origin_server) (g_rows t))"

fun collect_global ::
    "script_env \<Rightarrow> global_row list \<Rightarrow> (string, global_tuple list) dict \<Rightarrow> (string, global_tuple list) dict res" where
  "collect_global se [] associations = Inr associations"
| "collect_global se (r # rs) associations =
     (let casefold_address = str_lower (g_address r) in
      bindR (calculate_lookup_hash se casefold_address) (\<lambda>lookup_hash.
      let sg_assoc = sc_sign se (dict_set (g_sgAssoc r) ''address'' (JStr casefold_address)) in
      collect_global se rs (dict_append associations casefold_address (g_address r, g_mxid r, lookup_hash, sg_assoc))))"

definition global_changed :: "string \<Rightarrow> global_tuple list \<Rightarrow> bool" where
  "global_changed casefold_address assoc_tuples =
     (\<not> (length assoc_tuples = 1 \<and> fst (hd assoc_tuples) = casefold_address))"

text \<open>The addresses to delete, and the updates: new address, hash, association, old address and user.\<close>

definition global_to_delete :: "(string, global_tuple list) dict \<Rightarrow> string list" where
  "global_to_delete associations =
     concat (map (\<lambda>(c, l). if global_changed c l then map fst (tl l) else []) associations)"

definition db_update_args :: "(string, global_tuple list) dict \<Rightarrow> (string \<times> string \<times> jdict \<times> string \<times> string) list" where
  "db_update_args associations =
     map (\<lambda>(c, l). case hd l of (address, mxid, lookup_hash, sg) \<Rightarrow> (c, lookup_hash, sg, address, mxid))
       (filter (\<lambda>(c, l). global_changed c l) associations)"

definition update_global :: "string \<times> string \<times> jdict \<times> string \<times> string \<Rightarrow> global_table \<Rightarrow> global_table" where
  "update_global a t =
     (case a of (new, lookup_hash, sg, address, mxid) \<Rightarrow>
        t\<lparr>g_rows := map (\<lambda>r. if g_medium r = ''email'' \<and> g_address r = address \<and> g_mxid r = mxid
            then r\<lparr>g_address := new, g_lookup_hash := Some lookup_hash, g_sgAssoc := sg\<rparr> else r) (g_rows t)\<rparr>)"

definition update_global_associations :: "script_env \<Rightarrow> bool \<Rightarrow> (script_state, unit) act" where
  "update_global_associations se dry_run =
     bindM (getsM (\<lambda>s. select_global (sc_server_name se) (st_global s))) (\<lambda>rows.
     bindM (liftR (collect_global se rows [])) (\<lambda>associations.
     if dry_run then ret ()
     else modifyM (\<lambda>s. s\<lparr>st_global :=
       fold update_global (db_update_args associations)
         (fold (delete_3pid ''email'') (global_to_delete associations) (st_global s))\<rparr>)))"

text \<open>The script: \<open>--no-email\<close> and \<open>--dry-run\<close>.\<close>

definition casefold_db :: "script_env \<Rightarrow> bool \<Rightarrow> bool \<Rightarrow> (script_state, unit) act" where
  "casefold_db se no_email dry_run =
     bindM (update_global_associations se dry_run) (\<lambda>_.
     update_local_associations se (\<not> no_email) dry_run False)"

section \<open>The groups of rows\<close>

lemma dict_append_fold:
  "dict_wf d \<Longrightarrow> dict_wf (fold (\<lambda>x d. dict_append d (f x) (g x)) xs d)"
  "dict_get (fold (\<lambda>x d. dict_append d (f x) (g x)) xs d) k =
     (let l = map g (filter (\<lambda>x. f x = k) xs) in
      case dict_get d k of None \<Rightarrow> if l = [] then None else Some l | Some l' \<Rightarrow> Some (l' @ l))"
  by (induction xs arbitrary: d) (auto simp: dict_append_def Let_def split: option.splits)

lemma set_ts_desc [simp]: "set (ts_desc ts rows) = set rows"
  by (auto simp: ts_desc_def)

lemma distinct_ts_desc: "distinct rows \<Longrightarrow> distinct (ts_desc ts rows)"
  by (auto simp: ts_desc_def)

lemma set_select_local: "set (select_local t) = {r \<in> set (l_rows t). email_row r}"
  by (auto simp: select_local_def)

lemma distinct_select_local: "local_inv t \<Longrightarrow> distinct (select_local t)"
  by (simp add: select_local_def local_inv_def distinct_ts_desc distinct_map)

text \<open>The lowered address of a row, the rows that share one, most recent first, and the hash that goes with it.\<close>

abbreviation row_key :: "local_row \<Rightarrow> string" where
  "row_key r \<equiv> str_lower (ta_address (l_assoc r))"

definition row_group :: "local_table \<Rightarrow> string \<Rightarrow> local_row list" where
  "row_group t c = filter (\<lambda>r. row_key r = c) (select_local t)"

definition email_hash :: "script_env \<Rightarrow> string \<Rightarrow> string \<Rightarrow> string" where
  "email_hash se pepper c = sc_hash se (hash_input c ''email'' pepper)"

definition local_tuple_of :: "(string \<Rightarrow> string) \<Rightarrow> local_row \<Rightarrow> local_tuple" where
  "local_tuple_of h r = (ta_address (l_assoc r), ta_mxid (l_assoc r), h (row_key r))"

lemma set_row_group: "set (row_group t c) = {r \<in> set (l_rows t). email_row r \<and> row_key r = c}"
  by (auto simp: row_group_def set_select_local)

lemma email_row_unique:
  assumes "local_inv t" and "r \<in> set (l_rows t)" "q \<in> set (l_rows t)" "email_row r" "email_row q"
    and "ta_address (l_assoc r) = ta_address (l_assoc q)"
  shows "r = q"
proof -
  have "row_3pid r = row_3pid q" using assms by (simp add: row_3pid_def email_row_def)
  moreover have "distinct (map row_3pid (l_rows t))" using assms(1) by (simp add: local_inv_def)
  ultimately show ?thesis using assms(2,3) by (auto simp: distinct_map dest: inj_onD)
qed

lemma collect_local_eq:
  "sc_pepper se = Some p \<Longrightarrow>
   collect_local se rs d = Inr (fold (\<lambda>r d. dict_append d (row_key r) (local_tuple_of (email_hash se p) r)) rs d)"
  by (induction rs arbitrary: d)
    (simp_all add: calculate_lookup_hash_def bindR_def Let_def local_tuple_of_def email_hash_def)

lemma associations_eq:
  assumes "sc_pepper se = Some p"
  obtains d where "collect_local se (select_local t) [] = Inr d" "dict_wf d"
    "\<And>c. dict_get d c = (if row_group t c = [] then None else Some (map (local_tuple_of (email_hash se p)) (row_group t c)))"
proof
  let ?d = "fold (\<lambda>r d. dict_append d (row_key r) (local_tuple_of (email_hash se p) r)) (select_local t) []"
  show "collect_local se (select_local t) [] = Inr ?d" by (rule collect_local_eq [OF assms])
  show "dict_wf ?d" by (rule dict_append_fold) simp
  show "dict_get ?d c = (if row_group t c = [] then None else Some (map (local_tuple_of (email_hash se p)) (row_group t c)))" for c
    by (simp add: dict_append_fold(2) row_group_def Let_def)
qed

text \<open>What the deltas are.\<close>

lemma local_deltas_mem:
  "(c, dl) \<in> set (local_deltas d) \<Longrightarrow> \<exists>l. (c, l) \<in> set d \<and> local_delta c l = Some dl"
  by (auto simp: local_deltas_def map_filter_def)

lemma local_deltas_keys: "fst ` set (local_deltas d) = {c. \<exists>l. (c, l) \<in> set d \<and> local_delta c l \<noteq> None}"
  by (force simp: local_deltas_def map_filter_def image_iff)

lemma local_deltas_distinct: "dict_wf d \<Longrightarrow> distinct (map fst (local_deltas d))"
proof (induction d)
  case (Cons x d)
  have "fst ` set (local_deltas d) \<subseteq> fst ` set d" unfolding local_deltas_keys by force
  with Cons show ?case by (cases x) (auto simp: local_deltas_def map_filter_simps split: option.splits)
qed (simp add: local_deltas_def map_filter_simps)

section \<open>What the migration does to a row\<close>

text \<open>
  The specification: of the rows whose addresses differ in case only, the most recent one stays. It gets the lowered address and
  the hash of it, unless it is alone and in the right form, or is the trace of a deleted binding.
\<close>

definition migrated :: "(string \<Rightarrow> string) \<Rightarrow> local_table \<Rightarrow> local_row \<Rightarrow> local_row option" where
  "migrated h t r =
     (if \<not> email_row r then Some r
      else let c = row_key r; g = row_group t c in
        if hd g \<noteq> r then None
        else if g = [r] \<and> ta_address (l_assoc r) = c \<or> ta_mxid (l_assoc r) = None then Some r
        else Some (set_address c (h c) r))"

text \<open>
  How far the rows of an address have got: \<^const>\<open>None\<close> when they are migrated, \<open>Some j\<close> when the first \<open>j\<close> of the rows to
  delete are gone and nothing else has changed. Every address starts at \<open>Some 0\<close>.
\<close>

type_synonym progress = "string \<Rightarrow> nat option"

definition stage :: "(string \<Rightarrow> string) \<Rightarrow> local_table \<Rightarrow> progress \<Rightarrow> local_row \<Rightarrow> local_row option" where
  "stage h t K r =
     (if \<not> email_row r then Some r
      else case K (row_key r) of
        None \<Rightarrow> migrated h t r
      | Some j \<Rightarrow> if r \<in> set (take j (tl (row_group t (row_key r)))) then None else Some r)"

lemma set_address_simps [simp]:
  "l_id (set_address a k r) = l_id r" "email_row (set_address a k r) = email_row r"
  "ta_address (l_assoc (set_address a k r)) = a" "ta_mxid (l_assoc (set_address a k r)) = ta_mxid (l_assoc r)"
  by (simp_all add: set_address_def email_row_def)

lemma migrated_key: "migrated h t r = Some q \<Longrightarrow> row_key q = row_key r \<and> email_row q = email_row r \<and> l_id q = l_id r"
  by (auto simp: migrated_def Let_def split: if_splits)

lemma stage_key: "stage h t K r = Some q \<Longrightarrow> row_key q = row_key r \<and> email_row q = email_row r \<and> l_id q = l_id r"
  by (auto simp: stage_def split: if_splits option.splits dest: migrated_key)

lemma map_filter_step:
  "map f (filter P (List.map_filter g xs)) =
   List.map_filter (\<lambda>x. case g x of None \<Rightarrow> None | Some y \<Rightarrow> if P y then Some (f y) else None) xs"
  by (induction xs) (auto simp: map_filter_simps split: option.splits)

lemma map_filter_cong: "(\<And>x. x \<in> set xs \<Longrightarrow> f x = g x) \<Longrightarrow> List.map_filter f xs = List.map_filter g xs"
  by (induction xs) (auto simp: map_filter_simps split: option.splits)

lemma set_map_filter: "set (List.map_filter f xs) = {y. \<exists>x \<in> set xs. f x = Some y}"
  by (induction xs) (auto simp: map_filter_simps split: option.splits)

text \<open>A mail that the script has to send before it deletes the row, and that fails with an exception.\<close>

definition mail_fails :: "script_env \<Rightarrow> bool \<Rightarrow> bool \<Rightarrow> local_table \<Rightarrow> local_row \<Rightarrow> exn \<Rightarrow> bool" where
  "mail_fails se send_email test t r ex =
     (send_email \<and> ta_mxid (l_assoc r) \<noteq> ta_mxid (l_assoc (hd (row_group t (row_key r)))) \<and>
      (\<exists>s s'. sendEmailWithBackoff se (ta_address (l_assoc r)) (ta_mxid (l_assoc r)) test s = (Inl ex, s')))"

definition without :: "string set \<Rightarrow> local_row list \<Rightarrow> local_row list" where
  "without A rows = filter (\<lambda>r. \<not> (email_row r \<and> ta_address (l_assoc r) \<in> A)) rows"

lemma send_once_tables: "send_once se a x s = (r, s') \<Longrightarrow> st_local s' = st_local s \<and> st_global s' = st_global s"
  by (auto simp: send_once_def Let_def split: prod.splits)

lemma send_loop_tables: "send_loop se a x n b s = (r, s') \<Longrightarrow> st_local s' = st_local s \<and> st_global s' = st_global s"
  by (induction se a x n b s rule: send_loop.induct) (auto dest: send_once_tables split: prod.splits if_splits)

lemma delete_warned_run:
  "delete_warned se send_email test kept ds s = (res, s') \<Longrightarrow>
   \<exists>j \<le> length ds. st_local s' = (st_local s)\<lparr>l_rows := without (dd_address ` set (take j ds)) (l_rows (st_local s))\<rparr> \<and>
     st_global s' = st_global s \<and>
     (case res of
        Inr _ \<Rightarrow> j = length ds
      | Inl ex \<Rightarrow> j < length ds \<and> send_email \<and> dd_mxid (ds ! j) \<noteq> kept \<and>
          (\<exists>s1 s2. sendEmailWithBackoff se (dd_address (ds ! j)) (dd_mxid (ds ! j)) test s1 = (Inl ex, s2)))"
proof (induction ds arbitrary: s)
  case Nil
  then show ?case by (auto simp: ret_def without_def)
next
  case (Cons d ds)
  obtain q s1 where send: "(if send_email \<and> dd_mxid d \<noteq> kept then sendEmailWithBackoff se (dd_address d) (dd_mxid d) test
      else ret ()) s = (q, s1)" by fastforce
  then have s1: "st_local s1 = st_local s \<and> st_global s1 = st_global s"
    by (auto simp: sendEmailWithBackoff_def ret_def dest: send_loop_tables split: if_splits)
  show ?case
  proof (cases q)
    case (Inl ex)
    have "res = Inl ex" "s' = s1" using Cons.prems send Inl by (simp_all add: bindM_def)
    moreover have "send_email" "dd_mxid d \<noteq> kept" "sendEmailWithBackoff se (dd_address d) (dd_mxid d) test s = (Inl ex, s1)"
      using send Inl by (auto simp: ret_def split: if_splits)
    ultimately show ?thesis using s1 by (intro exI [of _ 0]) (auto simp: without_def)
  next
    case (Inr x)
    let ?s2 = "s1\<lparr>st_local := delete_local (dd_address d) (st_local s1)\<rparr>"
    have "delete_warned se send_email test kept ds ?s2 = (res, s')"
      using Cons.prems send Inr by (simp add: bindM_def on_local_def modifyM_def)
    from Cons.IH [OF this] obtain j where j: "j \<le> length ds"
      "st_local s' = (st_local ?s2)\<lparr>l_rows := without (dd_address ` set (take j ds)) (l_rows (st_local ?s2))\<rparr>"
      "st_global s' = st_global s1"
      "case res of Inr _ \<Rightarrow> j = length ds | Inl ex \<Rightarrow> j < length ds \<and> send_email \<and> dd_mxid (ds ! j) \<noteq> kept \<and>
          (\<exists>s1 s2. sendEmailWithBackoff se (dd_address (ds ! j)) (dd_mxid (ds ! j)) test s1 = (Inl ex, s2))" by auto
    have "without A (l_rows (st_local ?s2)) = without (insert (dd_address d) A) (l_rows (st_local s))" for A
      using s1 by (auto simp: without_def delete_local_def intro: filter_cong)
    then have "st_local s' = (st_local s)\<lparr>l_rows := without (dd_address ` set (take (Suc j) (d # ds))) (l_rows (st_local s))\<rparr>"
      using j(2) s1 by (simp add: delete_local_def)
    then show ?thesis using j s1 by (intro exI [of _ "Suc j"]) (auto split: sum.splits)
  qed
qed

lemma local_delta_eq:
  assumes "local_delta c (map (local_tuple_of h) g) = Some dl"
  obtains k rest where "g = k # rest" "\<not> (rest = [] \<and> ta_address (l_assoc k) = c)"
    "dl_to_update dl = \<lparr>ud_address = ta_address (l_assoc k), ud_mxid = ta_mxid (l_assoc k), ud_lookup_hash = h (row_key k)\<rparr>"
    "dl_to_delete dl = (if rest = [] then None
       else Some (map (\<lambda>r. \<lparr>dd_address = ta_address (l_assoc r), dd_mxid = ta_mxid (l_assoc r)\<rparr>) rest))"
  using assms by (cases g) (auto simp: local_delta_def local_tuple_of_def split: if_splits)

text \<open>The deletions and the update of one group, on a table where other groups have been dealt with.\<close>

lemma group_step:
  assumes inv: "local_inv t" and g: "row_group t c = k # rest" and c: "K c = Some 0"
    and rows: "rows = List.map_filter (stage h t K) (l_rows t)"
    and nontrivial: "\<not> (rest = [] \<and> ta_address (l_assoc k) = c)"
    and u: "u = \<lparr>ud_address = ta_address (l_assoc k), ud_mxid = ta_mxid (l_assoc k), ud_lookup_hash = h (row_key k)\<rparr>"
  shows "update_local c u (t'\<lparr>l_rows := without ((\<lambda>r. ta_address (l_assoc r)) ` set rest) rows\<rparr>) =
    (Inr (), t'\<lparr>l_rows := List.map_filter (stage h t (K(c := None))) (l_rows t)\<rparr>)"
proof -
  let ?A = "(\<lambda>r. ta_address (l_assoc r)) ` set rest"
  let ?P = "\<lambda>r. \<not> (email_row r \<and> ta_address (l_assoc r) \<in> ?A)"
  let ?hit = "\<lambda>r. email_row r \<and> ta_address (l_assoc r) = ud_address u \<and> ud_mxid u \<noteq> None \<and> ta_mxid (l_assoc r) = ud_mxid u"
  have dist: "distinct (k # rest)" using distinct_select_local [OF inv] g by (metis distinct_filter row_group_def)
  note unique = email_row_unique [OF inv]
  have mem: "q \<in> set (k # rest) \<longleftrightarrow> q \<in> set (l_rows t) \<and> email_row q \<and> row_key q = c" for q
    using set_row_group [of t c] g by (metis (mono_tags, lifting) mem_Collect_eq)
  have k: "k \<in> set (l_rows t)" "email_row k" "row_key k = c" using mem [of k] by simp_all
  have rest: "q \<in> set (l_rows t)" "email_row q" "row_key q = c" if "q \<in> set rest" for q using mem [of q] that by simp_all
  have A: "row_key q = c" if a: "ta_address (l_assoc q) \<in> ?A" for q
  proof -
    obtain q' where "q' \<in> set rest" "ta_address (l_assoc q) = ta_address (l_assoc q')" using a by blast
    with rest(3) show ?thesis by simp
  qed
  have in_rest: "r0 \<in> set rest" if a: "r0 \<in> set (l_rows t)" "email_row r0" "ta_address (l_assoc r0) \<in> ?A" for r0
  proof -
    obtain q where q: "q \<in> set rest" "ta_address (l_assoc r0) = ta_address (l_assoc q)" using a(3) by blast
    with unique [OF a(1) rest(1) a(2) rest(2)] show ?thesis by simp
  qed
  have survivor: "q = k" if "q \<in> set (filter ?P rows)" "email_row q" "row_key q = c" for q
  proof -
    obtain r0 where r0: "r0 \<in> set (l_rows t)" "stage h t K r0 = Some q" "?P q"
      using \<open>q \<in> set (filter ?P rows)\<close> by (auto simp: rows set_map_filter)
    have "row_key r0 = c" using stage_key [OF r0(2)] \<open>row_key q = c\<close> by metis
    then have "stage h t K r0 = Some r0" using c by (simp add: stage_def)
    then have "q = r0" using r0(2) by simp
    with r0(1) that mem have "q \<in> set (k # rest)" by simp
    moreover have "q \<notin> set rest" using r0(3) that(2) by blast
    ultimately show "q = k" by simp
  qed
  have "\<not> (\<exists>r \<in> set (filter ?P rows). ?hit r \<and> (\<exists>q \<in> set (filter ?P rows). l_id q \<noteq> l_id r \<and> row_3pid q = (''email'', c)))"
  proof (intro notI, elim bexE conjE)
    fix r q
    assume r: "r \<in> set (filter ?P rows)" "email_row r" "ta_address (l_assoc r) = ud_address u"
      and q: "q \<in> set (filter ?P rows)" "row_3pid q = (''email'', c)" and ne: "l_id q \<noteq> l_id r"
    have "row_key r = c" using r(3) k(3) u by simp
    with survivor [OF r(1,2)] have "r = k" by simp
    moreover have "row_key q = c" "email_row q" using q(2) k(3) by (auto simp: row_3pid_def email_row_def)
    with survivor [OF q(1)] have "q = k" by simp
    ultimately show False using ne by simp
  qed
  moreover have "map (\<lambda>r. if ?hit r then set_address c (ud_lookup_hash u) r else r) (filter ?P rows) =
      List.map_filter (stage h t (K(c := None))) (l_rows t)"
    unfolding rows map_filter_step
  proof (rule map_filter_cong)
    fix r0
    assume r0: "r0 \<in> set (l_rows t)"
    show "(case stage h t K r0 of None \<Rightarrow> None
        | Some y \<Rightarrow> if ?P y then Some (if ?hit y then set_address c (ud_lookup_hash u) y else y) else None) =
      stage h t (K(c := None)) r0"
    proof (cases "email_row r0 \<and> row_key r0 = c")
      case True
      then have s: "stage h t K r0 = Some r0" using c by (simp add: stage_def)
      show ?thesis
      proof (cases "r0 = k")
        case True
        then have "ta_address (l_assoc r0) \<notin> ?A" using in_rest [OF r0] dist \<open>email_row r0 \<and> _\<close> by auto
        with True s k g nontrivial u show ?thesis by (auto simp: stage_def migrated_def Let_def)
      next
        case False
        with True mem [of r0] r0 have "r0 \<in> set rest" by simp
        with True False s g show ?thesis by (auto simp: stage_def migrated_def Let_def)
      qed
    next
      case False
      then have "stage h t (K(c := None)) r0 = stage h t K r0" by (auto simp: stage_def)
      moreover have "?P y \<and> \<not> ?hit y" if "stage h t K r0 = Some y" for y
        using stage_key [OF that] False A k(3) u by auto
      ultimately show ?thesis by (auto split: option.splits)
    qed
  qed
  ultimately show ?thesis by (simp add: update_local_def without_def Let_def)
qed

text \<open>If the deletions of a group stop before the end, the rows deleted so far are gone and nothing else changes.\<close>

lemma group_stop:
  assumes inv: "local_inv t" and g: "row_group t c = k # rest" and c: "K c = Some 0"
  shows "without ((\<lambda>r. ta_address (l_assoc r)) ` set (take j rest)) (List.map_filter (stage h t K) (l_rows t)) =
    List.map_filter (stage h t (K(c := Some j))) (l_rows t)"
proof -
  let ?A = "(\<lambda>r. ta_address (l_assoc r)) ` set (take j rest)"
  have mem: "q \<in> set (l_rows t) \<and> email_row q \<and> row_key q = c" if "q \<in> set (take j rest)" for q
  proof -
    have "q \<in> set (row_group t c)" using set_take_subset [of j rest] that g by auto
    then show ?thesis by (simp add: set_row_group)
  qed
  have A: "row_key q = c" if "ta_address (l_assoc q) \<in> ?A" for q using that mem by auto
  have in_A: "ta_address (l_assoc r) \<in> ?A \<longleftrightarrow> r \<in> set (take j rest)" if r: "r \<in> set (l_rows t)" "email_row r" for r
    using email_row_unique [OF inv r(1) _ r(2)] mem by (auto simp: image_iff)
  have "(case stage h t K r of None \<Rightarrow> None
      | Some y \<Rightarrow> if \<not> (email_row y \<and> ta_address (l_assoc y) \<in> ?A) then Some y else None) = stage h t (K(c := Some j)) r"
    if r: "r \<in> set (l_rows t)" for r
  proof (cases "email_row r \<and> row_key r = c")
    case True
    then have "stage h t K r = Some r" using c by (simp add: stage_def)
    with True in_A [OF r] g show ?thesis by (simp add: stage_def)
  next
    case False
    then have "stage h t (K(c := Some j)) r = stage h t K r" by (auto simp: stage_def)
    moreover have "\<not> (email_row y \<and> ta_address (l_assoc y) \<in> ?A)" if "stage h t K r = Some y" for y
      using stage_key [OF that] False A by auto
    ultimately show ?thesis by (auto split: option.splits)
  qed
  then show ?thesis unfolding without_def map_filter_step [of "\<lambda>x. x", unfolded list.map_ident]
    by (intro map_filter_cong) simp
qed

text \<open>What is left of a group when the script goes on: nothing to do, or a mail that could not be sent.\<close>

definition settled :: "script_env \<Rightarrow> bool \<Rightarrow> bool \<Rightarrow> local_table \<Rightarrow> progress \<Rightarrow> string \<Rightarrow> bool" where
  "settled se send_email test t K c =
     (case K c of
        None \<Rightarrow> True
      | Some j \<Rightarrow> j < length (tl (row_group t c)) \<and>
          mail_fails se send_email test t (tl (row_group t c) ! j) CantSendEmailException)"

lemma apply_delta_run:
  assumes inv: "local_inv t" and K: "K c = Some 0"
    and dl: "local_delta c (map (local_tuple_of h) (row_group t c)) = Some dl"
    and rows: "l_rows (st_local s) = List.map_filter (stage h t K) (l_rows t)"
    and run: "apply_delta se send_email False test c dl s = (res, s')"
  shows "st_global s' = st_global s \<and>
    (case res of
       Inr _ \<Rightarrow> \<exists>x. settled se send_email test t (K(c := x)) c \<and>
          st_local s' = (st_local s)\<lparr>l_rows := List.map_filter (stage h t (K(c := x))) (l_rows t)\<rparr>
     | Inl ex \<Rightarrow> \<exists>r \<in> set (l_rows t). email_row r \<and> mail_fails se send_email test t r ex)"
proof -
  obtain k rest where k: "row_group t c = k # rest" "\<not> (rest = [] \<and> ta_address (l_assoc k) = c)"
    "dl_to_update dl = \<lparr>ud_address = ta_address (l_assoc k), ud_mxid = ta_mxid (l_assoc k), ud_lookup_hash = h (row_key k)\<rparr>"
    "dl_to_delete dl = (if rest = [] then None
       else Some (map (\<lambda>r. \<lparr>dd_address = ta_address (l_assoc r), dd_mxid = ta_mxid (l_assoc r)\<rparr>) rest))"
    by (rule local_delta_eq [OF dl])
  let ?ds = "map (\<lambda>r. \<lparr>dd_address = ta_address (l_assoc r), dd_mxid = ta_mxid (l_assoc r)\<rparr>) rest"
  obtain q s1 where q: "delete_warned se send_email test (ta_mxid (l_assoc k)) ?ds s = (q, s1)" by fastforce
  have run': "apply_delta se send_email False test c dl s =
      (case (case q of Inl ex \<Rightarrow> (Inl ex, s1) | Inr _ \<Rightarrow> on_local (update_local c (dl_to_update dl)) s1) of
         (r, s') \<Rightarrow> if r = Inl CantSendEmailException then (Inr (), s') else (r, s'))"
    using q k(3,4) by (auto simp: apply_delta_def bindM_def ret_def split: sum.splits prod.splits)
  from delete_warned_run [OF q] obtain j where j: "j \<le> length rest"
    "st_local s1 = (st_local s)\<lparr>l_rows := without (dd_address ` set (take j ?ds)) (l_rows (st_local s))\<rparr>"
    "st_global s1 = st_global s"
    "case q of Inr _ \<Rightarrow> j = length rest | Inl ex \<Rightarrow> j < length rest \<and> send_email \<and> dd_mxid (?ds ! j) \<noteq> ta_mxid (l_assoc k) \<and>
        (\<exists>s1 s2. sendEmailWithBackoff se (dd_address (?ds ! j)) (dd_mxid (?ds ! j)) test s1 = (Inl ex, s2))"
    unfolding length_map by blast
  have img: "dd_address ` set (take i ?ds) = (\<lambda>r. ta_address (l_assoc r)) ` set (take i rest)" for i
    by (simp add: take_map image_image)
  show ?thesis
  proof (cases q)
    case (Inl ex)
    with j(4) have lt: "j < length rest" by simp
    then have "rest ! j \<in> set (row_group t c)" using k(1) by simp
    then have mem: "rest ! j \<in> set (l_rows t)" "email_row (rest ! j)" "row_key (rest ! j) = c" by (simp_all add: set_row_group)
    have fails: "mail_fails se send_email test t (rest ! j) ex"
      using j(4) Inl lt mem(3) k(1) by (simp add: mail_fails_def)
    show ?thesis
    proof (cases "ex = CantSendEmailException")
      case True
      then have r: "res = Inr ()" "s' = s1" using run run' Inl by simp_all
      have "st_local s1 = (st_local s)\<lparr>l_rows := List.map_filter (stage h t (K(c := Some j))) (l_rows t)\<rparr>"
        using j(2) group_stop [where c = c and K = K, OF inv k(1) K, of j h] unfolding img rows by simp
      moreover have "settled se send_email test t (K(c := Some j)) c" using fails True lt k(1) by (simp add: settled_def)
      ultimately show ?thesis using r j(3) by auto
    next
      case False
      then have "res = Inl ex" "s' = s1" using run run' Inl by simp_all
      with fails mem j(3) show ?thesis by auto
    qed
  next
    case (Inr x)
    with j(1,4) have "take j rest = rest" by simp
    then have "st_local s1 = (st_local s)\<lparr>l_rows := without ((\<lambda>r. ta_address (l_assoc r)) ` set rest) (l_rows (st_local s))\<rparr>"
      using j(2) unfolding img by simp
    then have "on_local (update_local c (dl_to_update dl)) s1 =
        (Inr (), s1\<lparr>st_local := (st_local s)\<lparr>l_rows := List.map_filter (stage h t (K(c := None))) (l_rows t)\<rparr>\<rparr>)"
      using group_step [OF inv k(1) K rows k(2,3), of "st_local s"] by (simp add: on_local_def)
    with run run' Inr have "res = Inr ()"
      "s' = s1\<lparr>st_local := (st_local s)\<lparr>l_rows := List.map_filter (stage h t (K(c := None))) (l_rows t)\<rparr>\<rparr>" by simp_all
    moreover have "settled se send_email test t (K(c := None)) c" by (simp add: settled_def)
    ultimately show ?thesis using j(3) by auto
  qed
qed

lemma apply_deltas_run:
  assumes "local_inv t"
  shows "distinct (map fst ds) \<Longrightarrow> (\<And>c. c \<in> fst ` set ds \<Longrightarrow> K c = Some 0) \<Longrightarrow>
    (\<And>c dl. (c, dl) \<in> set ds \<Longrightarrow> local_delta c (map (local_tuple_of h) (row_group t c)) = Some dl) \<Longrightarrow>
    l_rows (st_local s) = List.map_filter (stage h t K) (l_rows t) \<Longrightarrow>
    apply_deltas se send_email False test ds s = (res, s') \<Longrightarrow>
    st_global s' = st_global s \<and>
    (case res of
       Inr _ \<Rightarrow> \<exists>K'. (\<forall>c. c \<notin> fst ` set ds \<longrightarrow> K' c = K c) \<and> (\<forall>c \<in> fst ` set ds. settled se send_email test t K' c) \<and>
          st_local s' = (st_local s)\<lparr>l_rows := List.map_filter (stage h t K') (l_rows t)\<rparr>
     | Inl ex \<Rightarrow> \<exists>r \<in> set (l_rows t). email_row r \<and> mail_fails se send_email test t r ex)"
proof (induction ds arbitrary: s K)
  case Nil
  then have "res = Inr ()" "s' = s" by (simp_all add: ret_def)
  with Nil.prems(4) show ?case by auto
next
  case (Cons x ds)
  obtain c dl where x: "x = (c, dl)" by fastforce
  have K: "K c = Some 0" and dl: "local_delta c (map (local_tuple_of h) (row_group t c)) = Some dl"
    using Cons.prems(2,3) x by simp_all
  obtain q s1 where q: "apply_delta se send_email False test c dl s = (q, s1)" by fastforce
  note step = apply_delta_run [OF assms K dl Cons.prems(4) q]
  show ?case
  proof (cases q)
    case (Inl ex)
    with Cons.prems(5) q x have "res = Inl ex" "s' = s1" by (simp_all add: bindM_def)
    with step Inl show ?thesis by simp
  next
    case (Inr y)
    then obtain z where z: "settled se send_email test t (K(c := z)) c" "st_global s1 = st_global s"
      "st_local s1 = (st_local s)\<lparr>l_rows := List.map_filter (stage h t (K(c := z))) (l_rows t)\<rparr>" using step by auto
    have run: "apply_deltas se send_email False test ds s1 = (res, s')"
      using Cons.prems(5) q x Inr by (simp add: bindM_def)
    have fresh: "c \<notin> fst ` set ds" "distinct (map fst ds)" using Cons.prems(1) x by auto
    have later: "st_global s' = st_global s1 \<and>
      (case res of
         Inr _ \<Rightarrow> \<exists>K'. (\<forall>d. d \<notin> fst ` set ds \<longrightarrow> K' d = (K(c := z)) d) \<and> (\<forall>d \<in> fst ` set ds. settled se send_email test t K' d) \<and>
            st_local s' = (st_local s1)\<lparr>l_rows := List.map_filter (stage h t K') (l_rows t)\<rparr>
       | Inl ex \<Rightarrow> \<exists>r \<in> set (l_rows t). email_row r \<and> mail_fails se send_email test t r ex)"
      by (rule Cons.IH [where K = "K(c := z)", OF fresh(2) _ _ _ run]) (use Cons.prems(2,3) x fresh z(3) in \<open>auto simp: fun_upd_def\<close>)
    show ?thesis
    proof (cases res)
      case (Inr y')
      with later obtain K' where K': "\<forall>d. d \<notin> fst ` set ds \<longrightarrow> K' d = (K(c := z)) d"
        "\<forall>d \<in> fst ` set ds. settled se send_email test t K' d" "st_global s' = st_global s1"
        "st_local s' = (st_local s1)\<lparr>l_rows := List.map_filter (stage h t K') (l_rows t)\<rparr>" by auto
      have "settled se send_email test t K' c" using K'(1) fresh(1) z(1) by (simp add: settled_def)
      with K' z(2,3) Inr x show ?thesis by (intro conjI) (auto intro!: exI [of _ K'])
    qed (use later z(2) in auto)
  qed
qed

section \<open>The most recent row\<close>

definition not_newer :: "int option \<Rightarrow> int option \<Rightarrow> bool" where
  "not_newer y x = (case y of None \<Rightarrow> True | Some j \<Rightarrow> (case x of None \<Rightarrow> False | Some i \<Rightarrow> j \<le> i))"

lemma not_newer_trans: "not_newer z y \<Longrightarrow> not_newer y x \<Longrightarrow> not_newer z x"
  by (auto simp: not_newer_def split: option.splits)

lemma ts_desc_sorted: "sorted_wrt (\<lambda>a b. not_newer (ts b) (ts a)) (ts_desc ts rows)"
proof -
  let ?l = "sort_key (\<lambda>r. - the (ts r)) (filter (\<lambda>r. ts r \<noteq> None) rows)"
  have "sorted_wrt (\<lambda>a b. - the (ts a) \<le> - the (ts b)) ?l" by (metis sorted_sort_key sorted_wrt_map)
  then have "sorted_wrt (\<lambda>a b. not_newer (ts b) (ts a)) ?l"
    by (rule sorted_wrt_mono_rel [rotated]) (auto simp: not_newer_def)
  moreover have "sorted_wrt (\<lambda>a b. not_newer (ts b) (ts a)) (filter (\<lambda>r. ts r = None) rows)"
    by (induction rows) (auto simp: not_newer_def)
  ultimately show ?thesis by (auto simp: ts_desc_def sorted_wrt_append not_newer_def)
qed

lemma hd_row_group_newest:
  assumes "q \<in> set (row_group t c)"
  shows "not_newer (ta_ts (l_assoc q)) (ta_ts (l_assoc (hd (row_group t c))))"
proof -
  have "sorted_wrt (\<lambda>a b. not_newer (ta_ts (l_assoc b)) (ta_ts (l_assoc a))) (row_group t c)"
    using ts_desc_sorted [of "ta_ts \<circ> l_assoc" "filter email_row (l_rows t)"]
    unfolding row_group_def select_local_def by (simp add: sorted_wrt_filter)
  with assms show ?thesis
    by (cases "row_group t c") (auto simp: not_newer_def split: option.splits)
qed

lemma migrated_newest:
  assumes "migrated h t r \<noteq> None" and "email_row r" "q \<in> set (l_rows t)" "email_row q" "row_key q = row_key r"
  shows "not_newer (ta_ts (l_assoc q)) (ta_ts (l_assoc r))"
proof -
  have "hd (row_group t (row_key r)) = r" using assms(1,2) by (auto simp: migrated_def Let_def split: if_splits)
  with hd_row_group_newest [of q t "row_key r"] assms(3-5) show ?thesis by (simp add: set_row_group)
qed

text \<open>A group without a delta is a single row in the right form.\<close>

lemma local_delta_None:
  assumes "local_delta c (map (local_tuple_of h) g) = None" and "g \<noteq> []"
  obtains r where "g = [r]" "ta_address (l_assoc r) = c"
  using assms by (cases g) (auto simp: local_delta_def local_tuple_of_def split: if_splits)

lemma stage_start: "List.map_filter (stage h t (\<lambda>_. Some 0)) rows = rows"
  by (induction rows) (auto simp: map_filter_simps stage_def)

lemma stage_single:
  assumes "row_group t (row_key r) = [r]" and "ta_address (l_assoc r) = row_key r"
  shows "migrated h t r = Some r"
  using assms(2) unfolding migrated_def Let_def assms(1) by (metis list.sel(1))

lemma update_local_run:
  assumes "local_inv (st_local s)" and "sc_pepper se = Some p"
    and "update_local_associations se send_email False test s = (res, s')"
  shows "st_global s' = st_global s \<and>
    (case res of
       Inr _ \<Rightarrow> \<exists>K. (\<forall>c. settled se send_email test (st_local s) K c) \<and>
          st_local s' = (st_local s)\<lparr>l_rows := List.map_filter (stage (email_hash se p) (st_local s) K) (l_rows (st_local s))\<rparr>
     | Inl ex \<Rightarrow> \<exists>r \<in> set (l_rows (st_local s)). email_row r \<and> mail_fails se send_email test (st_local s) r ex)"
proof -
  let ?t = "st_local s" and ?h = "email_hash se p"
  obtain d where d: "collect_local se (select_local ?t) [] = Inr d" "dict_wf d"
    "\<And>c. dict_get d c = (if row_group ?t c = [] then None else Some (map (local_tuple_of ?h) (row_group ?t c)))"
    using associations_eq [OF assms(2), of "st_local s"] by blast
  let ?ds = "local_deltas d"
  have mem: "l = map (local_tuple_of ?h) (row_group ?t c) \<and> row_group ?t c \<noteq> []" if "(c, l) \<in> set d" for c l
    using that d(2) d(3) [of c] by (metis (mono_tags, lifting) map_of_is_SomeI option.distinct(1) option.inject)
  have run: "apply_deltas se send_email False test ?ds s = (res, s')"
    using assms(3) d(1) by (simp add: update_local_associations_def bindM_def getsM_def liftR_def)
  have all: "st_global s' = st_global s \<and>
    (case res of
       Inr _ \<Rightarrow> \<exists>K'. (\<forall>c. c \<notin> fst ` set ?ds \<longrightarrow> K' c = Some 0) \<and> (\<forall>c \<in> fst ` set ?ds. settled se send_email test ?t K' c) \<and>
          st_local s' = ?t\<lparr>l_rows := List.map_filter (stage ?h ?t K') (l_rows ?t)\<rparr>
     | Inl ex \<Rightarrow> \<exists>r \<in> set (l_rows ?t). email_row r \<and> mail_fails se send_email test ?t r ex)"
  proof (rule apply_deltas_run [OF assms(1) _ _ _ _ run])
    show "distinct (map fst ?ds)" by (rule local_deltas_distinct [OF d(2)])
    show "local_delta c (map (local_tuple_of ?h) (row_group ?t c)) = Some dl" if "(c, dl) \<in> set ?ds" for c dl
      using local_deltas_mem [OF that] mem by blast
  qed (simp_all add: stage_start)
  show ?thesis
  proof (cases res)
    case (Inl ex)
    with all show ?thesis by simp
  next
    case (Inr y)
    with all obtain K where K: "\<forall>c. c \<notin> fst ` set ?ds \<longrightarrow> K c = Some 0" "\<forall>c \<in> fst ` set ?ds. settled se send_email test ?t K c"
      "st_local s' = ?t\<lparr>l_rows := List.map_filter (stage ?h ?t K) (l_rows ?t)\<rparr>" by auto
    define K' where "K' c = (if c \<in> fst ` set ?ds then K c else None)" for c
    have "stage ?h ?t K r = stage ?h ?t K' r" if r: "r \<in> set (l_rows ?t)" for r
    proof (cases "email_row r \<and> row_key r \<notin> fst ` set ?ds")
      case True
      let ?g = "row_group ?t (row_key r)"
      have rg: "r \<in> set ?g" using r True by (simp add: set_row_group)
      then have "?g \<noteq> []" by auto
      then have "(row_key r, map (local_tuple_of ?h) ?g) \<in> set d" using d(3) [of "row_key r"] by (simp add: map_of_SomeD)
      with True have "local_delta (row_key r) (map (local_tuple_of ?h) ?g) = None" by (auto simp: local_deltas_keys)
      then obtain q where "?g = [q]" "ta_address (l_assoc q) = row_key r" using \<open>?g \<noteq> []\<close> by (rule local_delta_None)
      with rg have "?g = [r]" "ta_address (l_assoc r) = row_key r" by (metis empty_iff list.set(1) set_ConsD)+
      from stage_single [OF this] True K(1) show ?thesis by (simp add: stage_def K'_def)
    qed (auto simp: stage_def K'_def)
    then have "List.map_filter (stage ?h ?t K) (l_rows ?t) = List.map_filter (stage ?h ?t K') (l_rows ?t)"
      by (rule map_filter_cong)
    moreover have "settled se send_email test ?t K' c" for c using K(2) by (auto simp: settled_def K'_def)
    ultimately show ?thesis using all Inr K(3) by auto
  qed
qed

text \<open>When no mail fails, every group is migrated.\<close>

lemma stage_done: "stage h t (\<lambda>_. None) r = migrated h t r"
  by (simp add: stage_def migrated_def)

lemma settled_done:
  assumes "\<forall>r \<in> set (l_rows t). \<forall>ex. email_row r \<longrightarrow> \<not> mail_fails se send_email test t r ex"
    and "settled se send_email test t K c"
  shows "K c = None"
proof (rule ccontr)
  assume "K c \<noteq> None"
  then obtain j where j: "j < length (tl (row_group t c))"
    "mail_fails se send_email test t (tl (row_group t c) ! j) CantSendEmailException" using assms(2) by (auto simp: settled_def)
  then have "tl (row_group t c) ! j \<in> set (row_group t c)" by (metis list.set_sel(2) nth_mem list.size(3) not_less_zero list.sel(2))
  with assms(1) j(2) show False by (auto simp: set_row_group)
qed

section \<open>No deletion without a warning\<close>

lemma sendEmail_sent:
  assumes "sendEmail me now f to d = (r, mails)"
  shows "length mails \<le> 1 \<and> (\<forall>m \<in> set mails. sm_to m = to) \<and> (isr r \<longrightarrow> mails \<noteq> [])"
  using assms by (cases r) (auto simp: sendEmail_def Let_def split: sum.splits if_splits smtp_outcome.splits)

lemma send_once_cases:
  assumes "send_once se a x s = (r, s')"
  shows "st_local s' = st_local s \<and> st_global s' = st_global s \<and> st_slept s' = st_slept s \<and> st_tries s' = st_tries s + 1 \<and>
    (\<exists>ms. st_mails s' = st_mails s @ ms \<and> length ms \<le> 1 \<and> (\<forall>m \<in> set ms. sm_to m = a) \<and> (isr r \<longrightarrow> ms \<noteq> []))"
  using assms
  by (auto simp: send_once_def Let_def split: prod.splits option.splits if_splits dest: sendEmail_sent)

lemma send_loop_cases:
  assumes "send_loop se a x n b s = (r, s')"
  shows "st_local s' = st_local s \<and> st_global s' = st_global s \<and> st_tries s \<le> st_tries s' \<and> st_tries s' \<le> st_tries s + n \<and>
    (\<exists>ms. st_mails s' = st_mails s @ ms \<and> length ms \<le> n \<and> (\<forall>m \<in> set ms. sm_to m = a) \<and> (isr r \<longrightarrow> ms \<noteq> []))"
  using assms
proof (induction n arbitrary: b s)
  case (Suc n)
  obtain q s1 where q: "send_once se a x s = (q, s1)" by fastforce
  note step = send_once_cases [OF q]
  show ?case
  proof (cases "q = Inl EmailSendException")
    case True
    with Suc.prems q have "send_loop se a x n (b * 2) (s1\<lparr>st_slept := st_slept s1 @ [b]\<rparr>) = (r, s')" by simp
    note later = Suc.IH [OF this]
    obtain ms1 where ms1: "st_mails s1 = st_mails s @ ms1" "length ms1 \<le> 1" "\<forall>m \<in> set ms1. sm_to m = a" using step by blast
    obtain ms2 where ms2: "st_mails s' = st_mails s1 @ ms2" "length ms2 \<le> n" "\<forall>m \<in> set ms2. sm_to m = a"
      "isr r \<longrightarrow> ms2 \<noteq> []" using later by auto
    have "\<exists>ms. st_mails s' = st_mails s @ ms \<and> length ms \<le> Suc n \<and> (\<forall>m \<in> set ms. sm_to m = a) \<and> (isr r \<longrightarrow> ms \<noteq> [])"
      by (rule exI [of _ "ms1 @ ms2"]) (use ms1 ms2 in auto)
    with later step show ?thesis by auto
  next
    case False
    with Suc.prems q step show ?thesis by auto
  qed
qed auto

lemma send_loop_sleeps:
  assumes "send_loop se a x n b s = (r, s')"
  shows "\<exists>k \<le> n. st_slept s' = st_slept s @ map (\<lambda>i. b * 2 ^ i) [0..<k] \<and> st_tries s' = st_tries s + min (k + 1) n \<and>
    (k = n \<longrightarrow> r = Inl CantSendEmailException)"
  using assms
proof (induction n arbitrary: b s)
  case (Suc n)
  obtain q s1 where q: "send_once se a x s = (q, s1)" by fastforce
  note step = send_once_cases [OF q]
  show ?case
  proof (cases "q = Inl EmailSendException")
    case True
    with Suc.prems q have "send_loop se a x n (b * 2) (s1\<lparr>st_slept := st_slept s1 @ [b]\<rparr>) = (r, s')" by simp
    from Suc.IH [OF this] obtain k where k: "k \<le> n" "st_slept s' = st_slept s1 @ [b] @ map (\<lambda>i. b * 2 * 2 ^ i) [0..<k]"
      "st_tries s' = st_tries s1 + min (k + 1) n" "k = n \<longrightarrow> r = Inl CantSendEmailException" by auto
    have "map (\<lambda>i. b * 2 ^ i) [0..<Suc k] = [b] @ map (\<lambda>i. b * 2 * 2 ^ i) [0..<k]"
      unfolding upt_conv_Cons [OF zero_less_Suc] map_Suc_upt [symmetric] list.map map_map comp_def by (simp add: mult.assoc)
    with k step show ?thesis by (intro exI [of _ "Suc k"]) (simp del: upt_Suc)
  next
    case False
    with Suc.prems q step show ?thesis by (intro exI [of _ 0]) simp
  qed
qed auto

text \<open>
  A row of the table \<open>t\<close> is accounted for if it is still there, if a mail went to its address, or if its user is the one that the
  address keeps. Rows are recognised by their identifiers; those whose group is not dealt with are unchanged.
\<close>

definition accounted :: "local_table \<Rightarrow> script_state \<Rightarrow> local_row \<Rightarrow> bool" where
  "accounted t s r =
     ((\<exists>q \<in> set (l_rows (st_local s)). l_id q = l_id r) \<or> (\<exists>m \<in> set (st_mails s). sm_to m = ta_address (l_assoc r)) \<or>
      ta_mxid (l_assoc (hd (row_group t (row_key r)))) = ta_mxid (l_assoc r))"

definition from_table :: "local_table \<Rightarrow> string set \<Rightarrow> script_state \<Rightarrow> bool" where
  "from_table t K s =
     (\<forall>q \<in> set (l_rows (st_local s)). \<exists>r \<in> set (l_rows t). l_id q = l_id r \<and> email_row q = email_row r \<and>
        row_key q = row_key r \<and> (row_key q \<notin> K \<longrightarrow> q = r))"

definition warned :: "local_table \<Rightarrow> string set \<Rightarrow> script_state \<Rightarrow> bool" where
  "warned t K s = (from_table t K s \<and> (\<forall>r \<in> set (l_rows t). accounted t s r))"

lemma warned_mono: "warned t K s \<Longrightarrow> K \<subseteq> K' \<Longrightarrow> warned t K' s"
  unfolding warned_def from_table_def by blast

lemma warned_more_mails:
  "warned t K s \<Longrightarrow> st_local s' = st_local s \<Longrightarrow> set (st_mails s) \<subseteq> set (st_mails s') \<Longrightarrow> warned t K s'"
  unfolding warned_def from_table_def accounted_def by (simp add: subset_iff) blast

lemma warned_delete:
  assumes inv: "local_inv t" and w: "warned t K s" and c: "c \<notin> K"
    and r: "r \<in> set (l_rows t)" "email_row r" "row_key r = c"
    and safe: "(\<exists>m \<in> set (st_mails s). sm_to m = ta_address (l_assoc r)) \<or>
      ta_mxid (l_assoc (hd (row_group t c))) = ta_mxid (l_assoc r)"
  shows "warned t K (s\<lparr>st_local := delete_local (ta_address (l_assoc r)) (st_local s)\<rparr>)"
proof -
  let ?s' = "s\<lparr>st_local := delete_local (ta_address (l_assoc r)) (st_local s)\<rparr>"
  have sub: "set (l_rows (st_local ?s')) \<subseteq> set (l_rows (st_local s))" by (auto simp: delete_local_def)
  have "from_table t K ?s'" using w sub unfolding warned_def from_table_def by (meson subsetD)
  moreover have "accounted t ?s' p" if p: "p \<in> set (l_rows t)" for p
  proof (cases "\<exists>q \<in> set (l_rows (st_local s)). l_id q = l_id p \<and> email_row q \<and> ta_address (l_assoc q) = ta_address (l_assoc r)")
    case True
    then obtain q where q: "q \<in> set (l_rows (st_local s))" "l_id q = l_id p" "email_row q"
      "ta_address (l_assoc q) = ta_address (l_assoc r)" by blast
    moreover have "row_key q \<notin> K" using q(4) r(3) c by simp
    ultimately have "q \<in> set (l_rows t)" using w unfolding warned_def from_table_def by blast
    then have "q = r" using email_row_unique [OF inv _ r(1) q(3) r(2) q(4)] by simp
    moreover have "q = p"
    proof -
      have "distinct (map l_id (l_rows t))" using inv by (auto simp: local_inv_def strict_sorted_iff)
      with \<open>q \<in> set (l_rows t)\<close> p q(2) show ?thesis by (auto simp: distinct_map dest: inj_onD)
    qed
    ultimately show ?thesis using safe r(3) by (auto simp: accounted_def)
  next
    case False
    have "q \<in> set (l_rows (st_local ?s'))" if "q \<in> set (l_rows (st_local s))" "l_id q = l_id p" for q
      using False that by (auto simp: delete_local_def)
    moreover have "accounted t s p" using w p by (simp add: warned_def)
    ultimately show ?thesis unfolding accounted_def by auto
  qed
  ultimately show ?thesis by (simp add: warned_def)
qed

lemma send_warned:
  assumes "sendEmailWithBackoff se a x test s = (q, s1)"
  shows "st_local s1 = st_local s \<and> set (st_mails s) \<subseteq> set (st_mails s1) \<and> (isr q \<longrightarrow> (\<exists>m \<in> set (st_mails s1). sm_to m = a))"
proof -
  obtain ms where "st_mails s1 = st_mails s @ ms" "\<forall>m \<in> set ms. sm_to m = a" "isr q \<longrightarrow> ms \<noteq> []"
    using send_loop_cases [OF assms [unfolded sendEmailWithBackoff_def]] by blast
  moreover have "st_local s1 = st_local s" using send_loop_cases [OF assms [unfolded sendEmailWithBackoff_def]] by blast
  ultimately show ?thesis by (cases ms) auto
qed

lemma warned_delete_loop:
  assumes "local_inv t" and "c \<notin> K"
  shows "warned t K s \<Longrightarrow>
    (\<And>d. d \<in> set ds \<Longrightarrow> \<exists>r \<in> set (l_rows t). email_row r \<and> row_key r = c \<and> dd_address d = ta_address (l_assoc r) \<and>
       dd_mxid d = ta_mxid (l_assoc r)) \<Longrightarrow>
    delete_warned se True test (ta_mxid (l_assoc (hd (row_group t c)))) ds s = (res, s') \<Longrightarrow> warned t K s'"
proof (induction ds arbitrary: s)
  case Nil
  then show ?case by (simp add: ret_def)
next
  case (Cons d ds)
  let ?kept = "ta_mxid (l_assoc (hd (row_group t c)))"
  obtain r where r: "r \<in> set (l_rows t)" "email_row r" "row_key r = c" "dd_address d = ta_address (l_assoc r)"
    "dd_mxid d = ta_mxid (l_assoc r)" using Cons.prems(2) by fastforce
  obtain q s1 where send: "(if dd_mxid d \<noteq> ?kept then sendEmailWithBackoff se (dd_address d) (dd_mxid d) test else ret ()) s = (q, s1)"
    by fastforce
  have s1: "st_local s1 = st_local s" "set (st_mails s) \<subseteq> set (st_mails s1)"
    "isr q \<Longrightarrow> (\<exists>m \<in> set (st_mails s1). sm_to m = ta_address (l_assoc r)) \<or> ?kept = ta_mxid (l_assoc r)"
  proof -
    show "st_local s1 = st_local s" "set (st_mails s) \<subseteq> set (st_mails s1)"
      "isr q \<Longrightarrow> (\<exists>m \<in> set (st_mails s1). sm_to m = ta_address (l_assoc r)) \<or> ?kept = ta_mxid (l_assoc r)"
      using send r(4,5) send_warned [of se "dd_address d" "dd_mxid d" test s q s1] by (auto simp: ret_def split: if_splits)
  qed
  have w1: "warned t K s1" by (rule warned_more_mails [OF Cons.prems(1) s1(1,2)])
  show ?case
  proof (cases q)
    case (Inl ex)
    with Cons.prems(3) send w1 show ?thesis by (auto simp: bindM_def)
  next
    case (Inr x)
    let ?s2 = "s1\<lparr>st_local := delete_local (ta_address (l_assoc r)) (st_local s1)\<rparr>"
    have "warned t K ?s2" using s1(3) Inr by (intro warned_delete [OF assms(1) w1 assms(2) r(1-3)]) simp
    moreover have "delete_warned se True test ?kept ds ?s2 = (res, s')"
      using Cons.prems(3) send Inr r(4) by (simp add: bindM_def on_local_def modifyM_def)
    ultimately show ?thesis using Cons.IH Cons.prems(2) by simp
  qed
qed

lemma warned_update:
  assumes "warned t K s" and "str_lower (ud_address u) = c" and "str_lower c = c"
    and "on_local (update_local c u) s = (res, s')"
  shows "warned t (insert c K) s'"
proof -
  have w: "warned t (insert c K) s" by (rule warned_mono [OF assms(1)]) auto
  let ?hit = "\<lambda>r. email_row r \<and> ta_address (l_assoc r) = ud_address u \<and> ud_mxid u \<noteq> None \<and> ta_mxid (l_assoc r) = ud_mxid u"
  define F where "F r = (if ?hit r then set_address c (ud_lookup_hash u) r else r)" for r
  have f: "l_id (F r) = l_id r" "email_row (F r) = email_row r" "row_key (F r) = row_key r"
    "row_key r \<noteq> c \<Longrightarrow> F r = r" for r using assms(2,3) by (auto simp: F_def)
  from assms(4) consider "s' = s" | "s' = s\<lparr>st_local := (st_local s)\<lparr>l_rows := map F (l_rows (st_local s))\<rparr>\<rparr>"
    by (auto simp: on_local_def update_local_def Let_def F_def split: if_splits)
  then show ?thesis
  proof cases
    case 1
    with w show ?thesis by simp
  next
    case 2
    have "from_table t (insert c K) s'"
      unfolding from_table_def
    proof
      fix q'
      assume "q' \<in> set (l_rows (st_local s'))"
      then obtain q where q: "q \<in> set (l_rows (st_local s))" "q' = F q" using 2 by auto
      then obtain r where r: "r \<in> set (l_rows t)" "l_id q = l_id r" "email_row q = email_row r" "row_key q = row_key r"
        "row_key q \<notin> insert c K \<longrightarrow> q = r" using w unfolding warned_def from_table_def by blast
      have "row_key q' \<notin> insert c K \<longrightarrow> q' = r"
      proof
        assume a: "row_key q' \<notin> insert c K"
        then have "row_key q \<notin> insert c K" unfolding q(2) f(3) .
        with r(5) f(4) [of q] q(2) show "q' = r" by (metis insertI1)
      qed
      moreover have "l_id q' = l_id r" "email_row q' = email_row r" "row_key q' = row_key r" using r(2-4) q(2) f(1-3) by metis+
      ultimately show "\<exists>r \<in> set (l_rows t). l_id q' = l_id r \<and> email_row q' = email_row r \<and> row_key q' = row_key r \<and>
          (row_key q' \<notin> insert c K \<longrightarrow> q' = r)" using r(1) by blast
    qed
    moreover have "accounted t s' p" if "accounted t s p" for p
      using that 2 f(1) unfolding accounted_def by auto
    ultimately show ?thesis using w by (simp add: warned_def)
  qed
qed

lemma warned_delta:
  assumes inv: "local_inv t" and w: "warned t K s" and c: "c \<notin> K" "str_lower c = c"
    and dl: "local_delta c (map (local_tuple_of h) (row_group t c)) = Some dl"
    and run: "apply_delta se True dry_run test c dl s = (res, s')"
  shows "warned t (insert c K) s'"
proof (cases dry_run)
  case True
  with run warned_mono [OF w] show ?thesis by (auto simp: apply_delta_def)
next
  case False
  obtain k rest where k: "row_group t c = k # rest"
    "dl_to_update dl = \<lparr>ud_address = ta_address (l_assoc k), ud_mxid = ta_mxid (l_assoc k), ud_lookup_hash = h (row_key k)\<rparr>"
    "dl_to_delete dl = (if rest = [] then None
       else Some (map (\<lambda>r. \<lparr>dd_address = ta_address (l_assoc r), dd_mxid = ta_mxid (l_assoc r)\<rparr>) rest))"
    by (rule local_delta_eq [OF dl])
  have mem: "q \<in> set (l_rows t) \<and> email_row q \<and> row_key q = c" if "q \<in> set (k # rest)" for q
    using that set_row_group [of t c] k(1) by (metis (mono_tags, lifting) mem_Collect_eq)
  let ?del = "case dl_to_delete dl of None \<Rightarrow> ret () | Some ds \<Rightarrow> delete_warned se True test (ud_mxid (dl_to_update dl)) ds"
  obtain q s1 where q: "?del s = (q, s1)" by fastforce
  have w1: "warned t K s1"
  proof (cases "rest = []")
    case True
    with q k(3) w show ?thesis by (simp add: ret_def)
  next
    case False
    let ?ds = "map (\<lambda>r. \<lparr>dd_address = ta_address (l_assoc r), dd_mxid = ta_mxid (l_assoc r)\<rparr>) rest"
    have "delete_warned se True test (ta_mxid (l_assoc (hd (row_group t c)))) ?ds s = (q, s1)" using q k False by simp
    moreover have "\<exists>r \<in> set (l_rows t). email_row r \<and> row_key r = c \<and> dd_address d = ta_address (l_assoc r) \<and>
        dd_mxid d = ta_mxid (l_assoc r)" if d: "d \<in> set ?ds" for d
    proof -
      obtain r where "r \<in> set rest" "d = \<lparr>dd_address = ta_address (l_assoc r), dd_mxid = ta_mxid (l_assoc r)\<rparr>" using d by auto
      with mem [of r] show ?thesis by (intro bexI [of _ r]) auto
    qed
    ultimately show ?thesis by (intro warned_delete_loop [OF inv c(1) w, of ?ds]) auto
  qed
  have "row_key k = c" using mem by simp
  then have u: "str_lower (ud_address (dl_to_update dl)) = c" using k(2) by simp
  show ?thesis
  proof (cases q)
    case (Inl ex)
    with run q False have "s' = s1" by (auto simp: apply_delta_def bindM_def split: if_splits)
    with warned_mono [OF w1] show ?thesis by auto
  next
    case (Inr x)
    obtain res2 s2 where 2: "on_local (update_local c (dl_to_update dl)) s1 = (res2, s2)" by fastforce
    with run q Inr False have "s' = s2" by (auto simp: apply_delta_def bindM_def split: if_splits)
    with warned_update [OF w1 u c(2) 2] show ?thesis by simp
  qed
qed

lemma warned_deltas:
  assumes "local_inv t"
  shows "warned t K s \<Longrightarrow> distinct (map fst ds) \<Longrightarrow> fst ` set ds \<inter> K = {} \<Longrightarrow>
    (\<And>c dl. (c, dl) \<in> set ds \<Longrightarrow> str_lower c = c \<and> local_delta c (map (local_tuple_of h) (row_group t c)) = Some dl) \<Longrightarrow>
    apply_deltas se True dry_run test ds s = (res, s') \<Longrightarrow> \<exists>K'. warned t K' s'"
proof (induction ds arbitrary: K s)
  case Nil
  then show ?case by (auto simp: ret_def)
next
  case (Cons x ds)
  obtain c dl where x: "x = (c, dl)" by fastforce
  obtain q s1 where q: "apply_delta se True dry_run test c dl s = (q, s1)" by fastforce
  have w1: "warned t (insert c K) s1"
    using Cons.prems(2-4) x by (intro warned_delta [OF assms Cons.prems(1) _ _ _ q]) auto
  show ?case
  proof (cases q)
    case (Inl ex)
    with Cons.prems(5) q x w1 show ?thesis by (auto simp: bindM_def)
  next
    case (Inr y)
    with Cons.prems(5) q x have "apply_deltas se True dry_run test ds s1 = (res, s')" by (simp add: bindM_def)
    with Cons.prems(2-4) x show ?thesis by (intro Cons.IH [OF w1]) auto
  qed
qed

section \<open>The global table\<close>

definition global_tuple_of :: "script_env \<Rightarrow> string \<Rightarrow> global_row \<Rightarrow> global_tuple" where
  "global_tuple_of se p r = (g_address r, g_mxid r, email_hash se p (str_lower (g_address r)),
     sc_sign se (dict_set (g_sgAssoc r) ''address'' (JStr (str_lower (g_address r)))))"

lemma collect_global_eq:
  "sc_pepper se = Some p \<Longrightarrow> collect_global se rs d =
     Inr (fold (\<lambda>r d. dict_append d (str_lower (g_address r)) (global_tuple_of se p r)) rs d)"
  by (induction rs arbitrary: d)
    (simp_all add: calculate_lookup_hash_def bindR_def Let_def global_tuple_of_def email_hash_def)

lemma fold_delete_3pid:
  "g_rows (fold (delete_3pid m) as t) = filter (\<lambda>r. \<not> (g_medium r = m \<and> g_address r \<in> set as)) (g_rows t)"
proof (induction as arbitrary: t)
  case (Cons a as)
  then show ?case by (auto simp: delete_3pid_def intro: filter_cong)
qed simp

lemma fold_update_ids: "map g_id (g_rows (fold update_global us t)) = map g_id (g_rows t)"
proof (induction us arbitrary: t)
  case (Cons u us)
  have "map g_id (g_rows (update_global u t)) = map g_id (g_rows t)"
    by (auto simp: update_global_def split: prod.splits)
  with Cons show ?case by simp
qed simp

lemma tl_member: "x \<in> set xs \<Longrightarrow> y \<in> set xs \<Longrightarrow> x \<noteq> y \<Longrightarrow> f x = f y \<Longrightarrow> f x \<in> f ` set (tl xs)"
  by (cases xs) (auto, metis image_eqI)

text \<open>
  The script means to keep the most recent row of every address. For an address that was bound twice to different users, which
  leaves two rows in this table, the deletion of the older row takes the newer one with it, and the update finds nothing: no row is
  left, whatever users and times the rows have.
\<close>

lemma global_migration_loses_rebound:
  assumes "global_inv (st_global s)" and "sc_pepper se = Some p"
    and "r \<in> set (select_global (sc_server_name se) (st_global s))" "q \<in> set (select_global (sc_server_name se) (st_global s))"
    and "g_address r = g_address q" and "g_id r \<noteq> g_id q"
  shows "\<forall>x \<in> set (g_rows (st_global (snd (update_global_associations se False s)))). g_id x \<noteq> g_id r \<and> g_id x \<noteq> g_id q"
proof -
  let ?rows = "select_global (sc_server_name se) (st_global s)" and ?key = "\<lambda>r. str_lower (g_address r)"
  let ?d = "fold (\<lambda>r d. dict_append d (?key r) (global_tuple_of se p r)) ?rows []"
  let ?g = "filter (\<lambda>x. ?key x = ?key r) ?rows"
  have g: "r \<in> set ?g" "q \<in> set ?g" using assms(3-5) by auto
  then have ne: "?g \<noteq> []" by (metis empty_iff list.set(1))
  then have "dict_get ?d (?key r) = Some (map (global_tuple_of se p) ?g)"
    by (simp add: dict_append_fold(2) Let_def)
  then have d: "(?key r, map (global_tuple_of se p) ?g) \<in> set ?d" by (rule map_of_SomeD)
  have in_tl: "g_address r \<in> g_address ` set (tl ?g)" using tl_member [OF g _ assms(5)] assms(6) by auto
  then have "length ?g \<noteq> 1" by (cases ?g) auto
  then have "global_changed (?key r) (map (global_tuple_of se p) ?g)" by (simp add: global_changed_def)
  moreover have "fst ` set (tl (map (global_tuple_of se p) ?g)) = g_address ` set (tl ?g)"
    by (simp add: map_tl [symmetric] image_image global_tuple_of_def)
  ultimately have "g_address r \<in> set (global_to_delete ?d)"
    using d in_tl unfolding global_to_delete_def by force
  then have gone: "x \<notin> set (g_rows (fold (delete_3pid ''email'') (global_to_delete ?d) (st_global s)))"
    if "g_address x = g_address r" "g_medium x = ''email''" for x
    using that by (auto simp: fold_delete_3pid)
  have res: "st_global (snd (update_global_associations se False s)) =
      fold update_global (db_update_args ?d) (fold (delete_3pid ''email'') (global_to_delete ?d) (st_global s))"
    using assms(2) by (simp add: update_global_associations_def collect_global_eq bindM_def getsM_def liftR_def modifyM_def)
  have rq: "r \<in> set (g_rows (st_global s))" "q \<in> set (g_rows (st_global s))" "g_medium r = ''email''" "g_medium q = ''email''"
    using assms(3,4) by (auto simp: select_global_def)
  have ids: "distinct (map g_id (g_rows (st_global s)))" using assms(1) by (auto simp: global_inv_def strict_sorted_iff)
  have "g_id y \<noteq> g_id r \<and> g_id y \<noteq> g_id q"
    if y: "y \<in> set (g_rows (fold (delete_3pid ''email'') (global_to_delete ?d) (st_global s)))" for y
  proof -
    have "y \<in> set (g_rows (st_global s))" using y by (simp add: fold_delete_3pid)
    moreover have "y \<noteq> r" "y \<noteq> q" using gone [of y] y rq(3,4) assms(5) by auto
    ultimately show ?thesis using ids rq(1,2) by (auto simp: distinct_map dest: inj_onD)
  qed
  then have "g_id ` set (g_rows (fold (delete_3pid ''email'') (global_to_delete ?d) (st_global s))) \<inter> {g_id r, g_id q} = {}" by blast
  then have "g_id ` set (g_rows (st_global (snd (update_global_associations se False s)))) \<inter> {g_id r, g_id q} = {}"
    unfolding res using fold_update_ids [of "db_update_args ?d"] by (metis list.set_map)
  then show ?thesis by blast
qed

section \<open>Properties\<close>

text \<open>C38: the migration of the local table does what its specification says, on every table that satisfies the invariant,
  with mails and without. If none of the mails that have to be sent fails (none has to be with \<open>--no-email\<close>), the script
  returns normally and
  the rows of other media are as they were; of the rows of e-mail addresses that differ in case only, the one that
  stays is one with the most recent time; it has the lowered address and the hash of that address with the current pepper. (The
  rows that keep their form are those already in the right one and the traces of deleted bindings.) If a mail cannot be sent in
  five attempts, the rows of that address before the one it was for are deleted and the others stay as they are, and every other
  address is migrated all the same. The script stops with an exception only if a mail raises that exception: the
  update never violates the unique index. The global table is not touched.
\<close>

theorem casefold_local_migrates:
  assumes "local_inv (st_local s)" and "sc_pepper se = Some p"
    and "update_local_associations se send_email False test s = (res, s')"
  shows "((\<forall>r \<in> set (l_rows (st_local s)). \<forall>ex. email_row r \<longrightarrow> \<not> mail_fails se send_email test (st_local s) r ex) \<longrightarrow>
      res = Inr () \<and> st_local s' = (st_local s)\<lparr>l_rows :=
         List.map_filter (migrated (email_hash se p) (st_local s)) (l_rows (st_local s))\<rparr>) \<and>
    (case res of
       Inr _ \<Rightarrow> \<exists>K. (\<forall>c. settled se send_email test (st_local s) K c) \<and>
          st_local s' = (st_local s)\<lparr>l_rows := List.map_filter (stage (email_hash se p) (st_local s) K) (l_rows (st_local s))\<rparr>
     | Inl ex \<Rightarrow> \<exists>r \<in> set (l_rows (st_local s)). email_row r \<and> mail_fails se send_email test (st_local s) r ex) \<and>
    st_global s' = st_global s \<and>
    (\<forall>r \<in> set (l_rows (st_local s)). \<forall>q \<in> set (l_rows (st_local s)).
       email_row r \<and> email_row q \<and> row_key q = row_key r \<and> migrated (email_hash se p) (st_local s) r \<noteq> None \<longrightarrow>
       not_newer (ta_ts (l_assoc q)) (ta_ts (l_assoc r)))"
proof -
  note run = update_local_run [OF assms]
  have "res = Inr () \<and> st_local s' = (st_local s)\<lparr>l_rows :=
         List.map_filter (migrated (email_hash se p) (st_local s)) (l_rows (st_local s))\<rparr>"
    if sent: "\<forall>r \<in> set (l_rows (st_local s)). \<forall>ex. email_row r \<longrightarrow> \<not> mail_fails se send_email test (st_local s) r ex"
  proof (cases res)
    case (Inl ex)
    with run sent show ?thesis by auto
  next
    case (Inr y)
    with run obtain K where K: "\<forall>c. settled se send_email test (st_local s) K c"
      "st_local s' = (st_local s)\<lparr>l_rows := List.map_filter (stage (email_hash se p) (st_local s) K) (l_rows (st_local s))\<rparr>"
      by auto
    have "K = (\<lambda>_. None)" using settled_done [OF sent] K(1) by blast
    with K(2) Inr show ?thesis by (simp add: stage_done [abs_def])
  qed
  with run migrated_newest show ?thesis by blast
qed

definition demo_local_row :: "int \<Rightarrow> string \<Rightarrow> string \<Rightarrow> local_row" where
  "demo_local_row i address mxid = \<lparr>l_id = i, l_assoc = \<lparr>ta_medium = ''email'', ta_address = address, ta_lookup_hash = None,
     ta_mxid = Some mxid, ta_ts = Some i, ta_not_before = Some i, ta_not_after = Some 9\<rparr>\<rparr>"

definition demo_script_env :: script_env where
  "demo_script_env = \<lparr>sc_hash = id, sc_pepper = Some ''p'', sc_general = ec_general demo_email_config,
     sc_mail = (\<lambda>n. echo_mail_env\<lparr>me_smtp := (\<lambda>_. if 0 < n then MailTaken else MailRefused), me_files := (\<lambda>_. Some ''gone'')\<rparr>), sc_now = (\<lambda>_. 7),
     sc_server_name = ''is'', sc_sign = id\<rparr>"

definition demo_script :: script_state where
  "demo_script = \<lparr>st_local = \<lparr>l_rows = [demo_local_row 1 ''A@x'' ''@a:h'', demo_local_row 2 ''a@x'' ''@b:h'',
     demo_local_row 3 ''C@x'' ''@c:h''], l_seq = 3\<rparr>, st_global = empty_global, st_mails = [], st_tries = 0, st_slept = []\<rparr>"

lemma demo_script_inv: "local_inv (st_local demo_script)" by code_simp

theorem casefold_local_migrates_witness:
  "map (\<lambda>r. (l_id r, ta_address (l_assoc r))) (l_rows (st_local (snd (update_local_associations demo_script_env False False False
     demo_script)))) = [(2, ''a@x''), (3, ''c@x'')]"
proof -
  have p: "sc_pepper demo_script_env = Some ''p''" by (simp add: demo_script_env_def)
  have "\<not> mail_fails demo_script_env False False (st_local demo_script) r ex" for r ex by (simp add: mail_fails_def)
  then have m: "st_local (snd (update_local_associations demo_script_env False False False demo_script)) =
      (st_local demo_script)\<lparr>l_rows := List.map_filter (migrated (email_hash demo_script_env ''p'') (st_local demo_script))
        (l_rows (st_local demo_script))\<rparr>"
    using casefold_local_migrates [OF demo_script_inv p prod.collapse [symmetric], THEN conjunct1, of False False] by blast
  have "map (\<lambda>r. (l_id r, ta_address (l_assoc r))) (List.map_filter (migrated (email_hash demo_script_env ''p'')
      (st_local demo_script)) (l_rows (st_local demo_script))) = [(2, ''a@x''), (3, ''c@x'')]" by code_simp
  then show ?thesis by (simp add: m)
qed

text \<open>With mails the same table comes out here, after a second attempt; when the server takes no mail, the rows of the
  address that two users share stay as they are.\<close>

lemma casefold_with_mails:
  "map (\<lambda>r. (l_id r, ta_address (l_assoc r))) (l_rows (st_local (snd (update_local_associations demo_script_env True False False
     demo_script)))) = [(2, ''a@x''), (3, ''c@x'')] \<and>
   map (\<lambda>r. (l_id r, ta_address (l_assoc r))) (l_rows (st_local (snd (update_local_associations
     (demo_script_env\<lparr>sc_mail := (\<lambda>_. echo_mail_env\<lparr>me_smtp := (\<lambda>_. MailRefused), me_files := (\<lambda>_. Some ''gone'')\<rparr>)\<rparr>)
     True False False demo_script)))) = [(1, ''A@x''), (2, ''a@x''), (3, ''c@x'')]"
  by (intro conjI; code_simp)

text \<open>C39: no binding goes without a word. Whatever mails fail, and even if the script stops with an exception, every row that
  was in the local table is still there, or a mail was sent to its address, or its user is the one to whom the most recent row
  of the address belongs.
\<close>

theorem casefold_warns:
  assumes "local_inv (st_local s)" and "update_local_associations se True dry_run test s = (res, s')"
    and "r \<in> set (l_rows (st_local s))"
  shows "(\<exists>q \<in> set (l_rows (st_local s')). l_id q = l_id r) \<or> (\<exists>m \<in> set (st_mails s'). sm_to m = ta_address (l_assoc r)) \<or>
    ta_mxid (l_assoc (hd (row_group (st_local s) (row_key r)))) = ta_mxid (l_assoc r)"
proof -
  let ?t = "st_local s"
  have w: "warned ?t {} s" by (auto simp: warned_def from_table_def accounted_def)
  have "\<exists>K. warned ?t K s'"
  proof (cases "collect_local se (select_local ?t) []")
    case (Inl ex)
    with assms(2) w show ?thesis by (auto simp: update_local_associations_def bindM_def getsM_def liftR_def)
  next
    case (Inr d)
    then have run: "apply_deltas se True dry_run test (local_deltas d) s = (res, s')"
      using assms(2) by (simp add: update_local_associations_def bindM_def getsM_def liftR_def)
    show ?thesis
    proof (cases "sc_pepper se")
      case None
      with Inr have "d = []" by (cases "select_local ?t") (auto simp: calculate_lookup_hash_def bindR_def Let_def)
      with run w show ?thesis by (auto simp: local_deltas_def map_filter_simps ret_def)
    next
      case (Some p)
      let ?h = "email_hash se p"
      obtain d' where d': "collect_local se (select_local ?t) [] = Inr d'" "dict_wf d'"
        "\<And>c. dict_get d' c = (if row_group ?t c = [] then None else Some (map (local_tuple_of ?h) (row_group ?t c)))"
        using associations_eq [OF Some, of "st_local s"] by blast
      have "d' = d" using Inr d'(1) by simp
      note wf = d'(2) [unfolded \<open>d' = d\<close>] and get = d'(3) [unfolded \<open>d' = d\<close>]
      have "str_lower c = c \<and> local_delta c (map (local_tuple_of ?h) (row_group ?t c)) = Some dl"
        if m: "(c, dl) \<in> set (local_deltas d)" for c dl
      proof -
        obtain l where l: "(c, l) \<in> set d" "local_delta c l = Some dl" using local_deltas_mem [OF m] by blast
        with wf get [of c] have g: "row_group ?t c \<noteq> []" "l = map (local_tuple_of ?h) (row_group ?t c)"
          by (auto split: if_splits)
        then obtain q where "q \<in> set (row_group ?t c)" by (cases "row_group ?t c") auto
        then have "row_key q = c" by (simp add: set_row_group)
        with g l show ?thesis by auto
      qed
      then show ?thesis using local_deltas_distinct [OF wf] by (intro warned_deltas [OF assms(1) w _ _ _ run]) auto
    qed
  qed
  with assms(3) show ?thesis by (auto simp: warned_def accounted_def)
qed

lemma not_in_image: "f ` A = {2, 3} \<Longrightarrow> f r = (1 :: int) \<Longrightarrow> \<not> (\<exists>q \<in> A. f q = f r)"
proof
  assume "f ` A = {2, 3}" "f r = (1 :: int)" "\<exists>q \<in> A. f q = f r"
  then have "(1 :: int) \<in> {2, 3}" by (metis imageI)
  then show False by simp
qed

theorem casefold_warns_witness:
  "\<exists>m \<in> set (st_mails (snd (update_local_associations demo_script_env True False False demo_script))). sm_to m = ''A@x''"
proof -
  let ?run = "update_local_associations demo_script_env True False False demo_script"
  let ?r = "demo_local_row 1 ''A@x'' ''@a:h''"
  have "?r \<in> set (l_rows (st_local demo_script))" by (simp add: demo_script_def)
  note w = casefold_warns [OF demo_script_inv prod.collapse [symmetric] this, of demo_script_env False False]
  have "map l_id (l_rows (st_local (snd ?run))) = [2, 3]" by code_simp
  then have "l_id ` set (l_rows (st_local (snd ?run))) = {2, 3}" by (metis list.set_map list.simps(15) list.set(1))
  moreover have "l_id ?r = 1" by (simp add: demo_local_row_def)
  ultimately have gone: "\<not> (\<exists>q \<in> set (l_rows (st_local (snd ?run))). l_id q = l_id ?r)" by (rule not_in_image)
  have other: "ta_mxid (l_assoc (hd (row_group (st_local demo_script) (row_key ?r)))) \<noteq> ta_mxid (l_assoc ?r)" by code_simp
  have "ta_address (l_assoc ?r) = ''A@x''" by (simp add: demo_local_row_def)
  with w gone other show ?thesis by metis
qed

text \<open>the retries end. A mail is tried at most five times and handed over at least once if the call returns
  normally (more than once only if the server took it and an attempt failed all the same); before each further attempt the
  script waits twice as long, 31 seconds altogether when it gives up.
\<close>

theorem backoff_bounded:
  assumes "sendEmailWithBackoff se address mxid False s = (r, s')"
  shows "(\<exists>ms. st_mails s' = st_mails s @ ms \<and> length ms \<le> 5 \<and> (r = Inr () \<longrightarrow> ms \<noteq> [])) \<and>
    (\<exists>k \<le> 5. st_slept s' = st_slept s @ take k [1, 2, 4, 8, 16] \<and> st_tries s' = st_tries s + min (k + 1) 5 \<and>
       (k = 5 \<longrightarrow> r = Inl CantSendEmailException))"
proof -
  obtain k where k: "k \<le> 5" "st_slept s' = st_slept s @ map (\<lambda>i. 2 ^ i) [0..<k]"
    "st_tries s' = st_tries s + min (k + 1) 5" "k = 5 \<longrightarrow> r = Inl CantSendEmailException"
    using send_loop_sleeps [of se address mxid 5 1 s r s'] assms
    by (auto simp: sendEmailWithBackoff_def MAX_ATTEMPTS_FOR_EMAIL_def)
  have "map (\<lambda>i. 2 ^ i) [0..<k] = take k [1, 2, 4, 8, 16 :: int]"
  proof -
    have "[1, 2, 4, 8, 16 :: int] = map (\<lambda>i. 2 ^ i) [0..<5]" by code_simp
    with k(1) show ?thesis by (simp only: take_map take_upt add_0)
  qed
  moreover have "\<exists>ms. st_mails s' = st_mails s @ ms \<and> length ms \<le> 5 \<and> (r = Inr () \<longrightarrow> ms \<noteq> [])"
    using send_loop_cases [OF assms [unfolded sendEmailWithBackoff_def MAX_ATTEMPTS_FOR_EMAIL_def]] by auto
  ultimately show ?thesis using k by auto
qed

theorem backoff_bounded_witness:
  "fst (sendEmailWithBackoff demo_script_env ''a@x'' (Some ''@a:h'') False demo_script) = Inr () \<and>
   st_slept (snd (sendEmailWithBackoff demo_script_env ''a@x'' (Some ''@a:h'') False demo_script)) = [1] \<and>
   st_mails (snd (sendEmailWithBackoff demo_script_env ''a@x'' (Some ''@a:h'') False demo_script)) \<noteq> []"
proof -
  let ?run = "sendEmailWithBackoff demo_script_env ''a@x'' (Some ''@a:h'') False demo_script"
  have "fst ?run = Inr ()" "st_slept (snd ?run) = [1]" by code_simp+
  with backoff_bounded [OF prod.collapse [symmetric], of demo_script_env "''a@x''" "Some ''@a:h''" demo_script]
  show ?thesis by auto
qed

end
