(* ===== verification/Openmarket_SMS.thy ===== *)
theory Openmarket_SMS
  imports Http_Common Validators
begin

text \<open>
  \<open>sydent/sms/openmarket.py\<close>: sending a text message through the API of OpenMarket. The request is a JSON value and its headers;
  \<open>om_post\<close> is the HTTP client, whose response has its code, its headers (each a list of values) and its decoded body.
\<close>

section \<open>Definitions\<close>

definition API_BASE_URL :: string where
  "API_BASE_URL = ''https://smsc.openmarket.com/sms/v4/mt''"

definition TONS :: "(string, int) dict" where
  "TONS = [(''long'', 1), (''short'', 3), (''alpha'', 5)]"

definition tonFromType :: "string \<Rightarrow> int res" where
  "tonFromType t = (case dict_get TONS t of Some n \<Rightarrow> Inr n | None \<Rightarrow> Inl GenericException)"

record sms_response =
  sr_code :: int
  sr_headers :: "(string, string list) dict"
  sr_body :: "json option"

record openmarket =
  om_username :: string
  om_password :: string
  om_b64encode :: "string \<Rightarrow> string"
  om_post :: "string \<Rightarrow> json \<Rightarrow> (string, string list) dict \<Rightarrow> sms_response res"

definition send_body :: "string \<Rightarrow> string \<Rightarrow> (string \<times> string) option \<Rightarrow> json res" where
  "send_body body dest source =
     (let message = (''message'', JObj [(''content'', JStr body), (''type'', JStr ''text'')]);
          destination = (''destination'', JObj [(''address'', JStr dest)])
      in case source of
           None \<Rightarrow> Inr (JObj [(''mobileTerminate'', JObj [message, destination])])
         | Some (ty, text) \<Rightarrow>
             bindR (tonFromType ty) (\<lambda>ton.
             Inr (JObj [(''mobileTerminate'', JObj [message, destination,
               (''source'', JObj [(''ton'', JInt ton), (''address'', JStr text)])])])))"

definition req_headers :: "openmarket \<Rightarrow> (string, string list) dict" where
  "req_headers om =
     [(''Authorization'', [''Basic '' @ om_b64encode om (om_username om @ '':'' @ om_password om)]),
      (''Content-Type'', [''application/json''])]"

text \<open>The first value of a header, decoded.\<close>

definition header_text :: "(string, string list) dict \<Rightarrow> string \<Rightarrow> string option res" where
  "header_text hs name =
     (case dict_get hs name of
        None \<Rightarrow> Inr None
      | Some [] \<Rightarrow> Inl IndexError
      | Some (v # _) \<Rightarrow> if is_utf8 v then Inr (Some v) else Inl ValueError)"

text \<open>The exception for a code that is no success; the text of the error is part of its message.\<close>

definition api_error :: "json option \<Rightarrow> unit res" where
  "api_error response_body =
     (case response_body of
        None \<Rightarrow> Inl GenericException
      | Some b \<Rightarrow>
          bindR (json_in ''error'' b) (\<lambda>given.
          if \<not> given then Inl GenericException else bindR (json_index b ''error'') (\<lambda>_. Inl GenericException)))"

definition sendTextSMS :: "openmarket \<Rightarrow> string \<Rightarrow> string \<Rightarrow> (string \<times> string) option \<Rightarrow> unit res" where
  "sendTextSMS om body dest source =
     bindR (send_body body dest source) (\<lambda>v.
     bindR (om_post om API_BASE_URL v (req_headers om)) (\<lambda>resp.
     bindR (header_text (sr_headers resp) ''X-Request-Id'') (\<lambda>request_id.
     if sr_code resp < 200 \<or> 300 \<le> sr_code resp then api_error (sr_body resp)
     else bindR (header_text (sr_headers resp) ''Location'') (\<lambda>location. Inr ()))))"

section \<open>Lemmas\<close>

lemma tonFromType_iff: "isr (tonFromType t) \<longleftrightarrow> t \<in> {''long'', ''short'', ''alpha''}"
  by (simp add: tonFromType_def TONS_def)

lemma send_body_dest:
  assumes "send_body body dest source = Inr v"
  shows "\<exists>mt. v = JObj [(''mobileTerminate'', JObj mt)] \<and> dict_get mt ''destination'' = Some (JObj [(''address'', JStr dest)]) \<and>
    dict_get mt ''message'' = Some (JObj [(''content'', JStr body), (''type'', JStr ''text'')])"
  using assms by (auto simp: send_body_def Let_def bindR_eq_Inr split: option.splits)

lemma api_error_fails: "\<not> isr (api_error b)"
proof -
  have "api_error b \<noteq> Inr ()" by (auto simp: api_error_def bindR_eq_Inr split: option.splits if_splits)
  then show ?thesis by (cases "api_error b") auto
qed

section \<open>Properties\<close>

text \<open>sending returns normally only if the API took the message: one request went to its address, with this text
  for this number, and its answer had a code of success. A number that the API refuses is never reported as sent.
\<close>

theorem sendTextSMS_accepted:
  assumes "sendTextSMS om body dest source = Inr ()"
  shows "\<exists>mt resp. om_post om API_BASE_URL (JObj [(''mobileTerminate'', JObj mt)]) (req_headers om) = Inr resp \<and>
    200 \<le> sr_code resp \<and> sr_code resp < 300 \<and>
    dict_get mt ''destination'' = Some (JObj [(''address'', JStr dest)]) \<and>
    dict_get mt ''message'' = Some (JObj [(''content'', JStr body), (''type'', JStr ''text'')])"
proof -
  obtain v resp where v: "send_body body dest source = Inr v" "om_post om API_BASE_URL v (req_headers om) = Inr resp"
    and rest: "(if sr_code resp < 200 \<or> 300 \<le> sr_code resp then api_error (sr_body resp)
      else bindR (header_text (sr_headers resp) ''Location'') (\<lambda>location. Inr ())) = Inr ()"
    using assms unfolding sendTextSMS_def by (auto simp: bindR_eq_Inr)
  have ok: "200 \<le> sr_code resp" "sr_code resp < 300"
    using rest api_error_fails [of "sr_body resp"] by (auto split: if_splits)
  obtain mt where "v = JObj [(''mobileTerminate'', JObj mt)]" "dict_get mt ''destination'' = Some (JObj [(''address'', JStr dest)])"
    "dict_get mt ''message'' = Some (JObj [(''content'', JStr body), (''type'', JStr ''text'')])"
    using send_body_dest [OF v(1)] by blast
  with v(2) ok show ?thesis by (intro exI [of _ mt] exI [of _ resp]) simp
qed

definition demo_openmarket :: openmarket where
  "demo_openmarket = \<lparr>om_username = ''u'', om_password = ''p'', om_b64encode = (\<lambda>s. s),
     om_post = (\<lambda>_ _ _. Inr \<lparr>sr_code = 202, sr_headers = [], sr_body = None\<rparr>)\<rparr>"

theorem sendTextSMS_accepted_witness:
  "\<exists>mt. dict_get mt ''destination'' = Some (JObj [(''address'', JStr ''447700900000'')]) \<and>
     dict_get mt ''message'' = Some (JObj [(''content'', JStr ''1234''), (''type'', JStr ''text'')])"
proof -
  have "sendTextSMS demo_openmarket ''1234'' ''447700900000'' (Some (''alpha'', ''Matrix'')) = Inr ()"
    by (simp add: sendTextSMS_def send_body_def tonFromType_def TONS_def demo_openmarket_def header_text_def bindR_def Let_def)
  from sendTextSMS_accepted [OF this] show ?thesis by blast
qed

end
