(* ===== verification/Config_Parse.thy ===== *)
theory Config_Parse
  imports Ip_Blacklist Openmarket_SMS Http_Server
begin

text \<open>
  \<open>sydent/config/\<close>: the built-in defaults, how they are combined with a configuration file or a dictionary, and the parsing of
  every section. What the sections use of \<open>configparser\<close> comes first: sections over a default section, option names in lower case,
  the expansion of \<open>%\<close>, and the conversions. A missing section or option is a \<open>KeyError\<close>, a \<open>ConfigError\<close> a \<open>GenericException\<close>,
  a value with a wrong use of \<open>%\<close> a \<open>ValueError\<close>.
\<close>

section \<open>Configuration parsers\<close>

record config_parser =
  cp_defaults :: "(string, string) dict"
  cp_sections :: "(string, (string, string) dict) dict"

definition empty_parser :: config_parser where
  "empty_parser = \<lparr>cp_defaults = [], cp_sections = []\<rparr>"

text \<open>The text after \<open>%(\<close>: a name up to the closing bracket and an \<open>s\<close>, and what follows.\<close>

definition key_ref :: "string \<Rightarrow> (string \<times> string) option" where
  "key_ref rest =
     (case split_once CHR '')'' rest of
        (name, Some (c # after)) \<Rightarrow> if name \<noteq> [] \<and> c = CHR ''s'' then Some (name, after) else None
      | _ \<Rightarrow> None)"

lemma split_once_shorter: "split_once c s = (a, Some b) \<Longrightarrow> length b < length s"
  by (induction s arbitrary: a b) (auto split: if_splits prod.splits)

lemma key_ref_shorter: "key_ref rest = Some (name, after) \<Longrightarrow> length after < length rest"
  by (auto simp: key_ref_def split: prod.splits option.splits list.splits if_splits dest: split_once_shorter)

text \<open>The expansion of references to other options, nested at most ten deep.\<close>

function interpolate :: "(string \<Rightarrow> string option) \<Rightarrow> nat \<Rightarrow> string \<Rightarrow> string res" where
  "interpolate look depth s =
     (case s of
        [] \<Rightarrow> Inr []
      | c # rest \<Rightarrow>
          if c \<noteq> CHR ''%'' then bindR (interpolate look depth rest) (\<lambda>t. Inr (c # t))
          else (case rest of
              [] \<Rightarrow> Inl ValueError
            | e # rest' \<Rightarrow>
                if e = CHR ''%'' then bindR (interpolate look depth rest') (\<lambda>t. Inr (CHR ''%'' # t))
                else if e = CHR ''('' then
                  (case key_ref rest' of
                     None \<Rightarrow> Inl ValueError
                   | Some (name, after) \<Rightarrow>
                       (case look (str_lower name) of
                          None \<Rightarrow> Inl KeyError
                        | Some v \<Rightarrow>
                            bindR (if CHR ''%'' \<notin> set v then Inr v
                                   else if depth = 0 then Inl ValueError else interpolate look (depth - 1) v) (\<lambda>x.
                            bindR (interpolate look depth after) (\<lambda>t. Inr (x @ t)))))
                else Inl ValueError))"
  by pat_completeness auto
termination
  by (relation "measures [\<lambda>(look, depth, s). depth, \<lambda>(look, depth, s). length s]") (auto dest: key_ref_shorter)

declare interpolate.simps [simp del]

lemma interpolate_plain: "CHR ''%'' \<notin> set s \<Longrightarrow> interpolate look depth s = Inr s"
  by (induction s) (simp_all add: interpolate.simps [of look depth "_ # _"] interpolate.simps [of look depth "[]"] bindR_def, auto)

text \<open>A value may be stored if, without \<open>%%\<close> and complete references, no \<open>%\<close> is left.\<close>

function storable :: "string \<Rightarrow> bool" where
  "storable s =
     (case s of
        [] \<Rightarrow> True
      | c # rest \<Rightarrow>
          if c \<noteq> CHR ''%'' then storable rest
          else (case rest of
              [] \<Rightarrow> False
            | e # rest' \<Rightarrow>
                if e = CHR ''%'' then storable rest'
                else if e = CHR ''('' then (case key_ref rest' of None \<Rightarrow> False | Some (name, after) \<Rightarrow> storable after)
                else False))"
  by pat_completeness auto
termination
  by (relation "measure length") (auto dest: key_ref_shorter)

declare storable.simps [simp del]

lemma storable_plain: "CHR ''%'' \<notin> set s \<Longrightarrow> storable s"
  by (induction s) (simp_all add: storable.simps [of "_ # _"] storable.simps [of "[]"], auto)

definition add_section :: "string \<Rightarrow> config_parser \<Rightarrow> config_parser res" where
  "add_section sect cfg =
     (if sect = ''DEFAULT'' \<or> dict_has (cp_sections cfg) sect then Inl ValueError
      else Inr (cfg\<lparr>cp_sections := dict_set (cp_sections cfg) sect []\<rparr>))"

definition cfg_set :: "string \<Rightarrow> string \<Rightarrow> string \<Rightarrow> config_parser \<Rightarrow> config_parser res" where
  "cfg_set sect opt v cfg =
     (if \<not> storable v then Inl ValueError
      else if sect = ''DEFAULT'' then Inr (cfg\<lparr>cp_defaults := dict_set (cp_defaults cfg) (str_lower opt) v\<rparr>)
      else case dict_get (cp_sections cfg) sect of
          None \<Rightarrow> Inl KeyError
        | Some d \<Rightarrow> Inr (cfg\<lparr>cp_sections := dict_set (cp_sections cfg) sect (dict_set d (str_lower opt) v)\<rparr>))"

text \<open>What a file contains, merged section by section.\<close>

definition merge_section :: "string \<Rightarrow> (string, string) dict \<Rightarrow> config_parser \<Rightarrow> config_parser" where
  "merge_section sect d cfg =
     (if sect = ''DEFAULT'' then cfg\<lparr>cp_defaults := dict_update (cp_defaults cfg) d\<rparr>
      else cfg\<lparr>cp_sections := dict_set (cp_sections cfg) sect
        (dict_update (case dict_get (cp_sections cfg) sect of None \<Rightarrow> [] | Some old \<Rightarrow> old) d)\<rparr>)"

definition cfg_read :: "(string \<times> (string, string) dict) list \<Rightarrow> config_parser \<Rightarrow> config_parser" where
  "cfg_read file cfg = fold (\<lambda>(sect, d). merge_section sect d) file cfg"

definition raw_option :: "config_parser \<Rightarrow> string \<Rightarrow> string \<Rightarrow> string option" where
  "raw_option cfg sect opt =
     (case dict_get (cp_sections cfg) sect of
        None \<Rightarrow> None
      | Some d \<Rightarrow> (case dict_get d (str_lower opt) of Some v \<Rightarrow> Some v | None \<Rightarrow> dict_get (cp_defaults cfg) (str_lower opt)))"

definition has_option :: "config_parser \<Rightarrow> string \<Rightarrow> string \<Rightarrow> bool" where
  "has_option cfg sect opt = (raw_option cfg sect opt \<noteq> None)"

definition cfg_options :: "config_parser \<Rightarrow> string \<Rightarrow> string list res" where
  "cfg_options cfg sect =
     (case dict_get (cp_sections cfg) sect of
        None \<Rightarrow> Inl KeyError
      | Some d \<Rightarrow> Inr (map fst (dict_update d (cp_defaults cfg))))"

definition cfg_get_raw :: "config_parser \<Rightarrow> string \<Rightarrow> string \<Rightarrow> string res" where
  "cfg_get_raw cfg sect opt = (case raw_option cfg sect opt of None \<Rightarrow> Inl KeyError | Some v \<Rightarrow> Inr v)"

definition cfg_get :: "config_parser \<Rightarrow> string \<Rightarrow> string \<Rightarrow> string res" where
  "cfg_get cfg sect opt = bindR (cfg_get_raw cfg sect opt) (interpolate (raw_option cfg sect) 9)"

text \<open>A conversion with a fallback: the fallback is used if the option is missing, not if its value is bad.\<close>

definition cfg_conv :: "(string \<Rightarrow> 'a res) \<Rightarrow> config_parser \<Rightarrow> string \<Rightarrow> string \<Rightarrow> 'a res" where
  "cfg_conv conv cfg sect opt = bindR (cfg_get cfg sect opt) conv"

definition with_fallback :: "'a \<Rightarrow> ('a res) \<Rightarrow> config_parser \<Rightarrow> string \<Rightarrow> string \<Rightarrow> 'a res" where
  "with_fallback dflt r cfg sect opt = (if has_option cfg sect opt then r else Inr dflt)"

definition conv_int :: "string \<Rightarrow> int res" where
  "conv_int s = (case py_int s of None \<Rightarrow> Inl ValueError | Some i \<Rightarrow> Inr i)"

definition conv_boolean :: "string \<Rightarrow> bool res" where
  "conv_boolean s =
     (if str_lower s \<in> {''1'', ''yes'', ''true'', ''on''} then Inr True
      else if str_lower s \<in> {''0'', ''no'', ''false'', ''off''} then Inr False
      else Inl ValueError)"

section \<open>Surroundings\<close>

text \<open>
  What the sections ask of the machine and of other packages: the name of the host, which directories a path has,
  \<open>float\<close>, the netaddr package, the address parser, and the key operations of signedjson and nacl.
\<close>

record signing_key =
  sk_alg :: string
  sk_version :: string
  sk_seed :: string

record config_env =
  ce_uname :: string
  ce_fqdn :: string
  ce_server_name :: string
  ce_pid_file :: string
  ce_db_path :: string
  ce_directories :: "string \<Rightarrow> string list option"
  ce_float :: "string \<Rightarrow> rat option"
  ce_netaddr :: netaddr
  ce_mail :: mail_env
  ce_generate_signing_key :: "string \<Rightarrow> signing_key"
  ce_key_from_hex :: "string \<Rightarrow> signing_key res"
  ce_decode_key :: "string \<Rightarrow> string \<Rightarrow> string \<Rightarrow> signing_key res"
  ce_encode_key :: "signing_key \<Rightarrow> string"

definition conv_float :: "config_env \<Rightarrow> string \<Rightarrow> rat res" where
  "conv_float ce s = (case ce_float ce s of None \<Rightarrow> Inl ValueError | Some x \<Rightarrow> Inr x)"

section \<open>The general section\<close>

definition list_from_comma_sep_string :: "string \<Rightarrow> string list" where
  "list_from_comma_sep_string rawstr = (if rawstr = [] then [] else map str_strip (split_on CHR '','' rawstr))"

definition parse_cfg_bool :: "string \<Rightarrow> bool" where
  "parse_cfg_bool v = (str_lower v = ''true'')"

record general_conf =
  gn_server_name :: string
  gn_log_level :: string
  gn_log_path :: string
  gn_templates_path :: string
  gn_valid_brands :: "string list"
  gn_default_brand :: string
  gn_pidfile :: string
  gn_terms_path :: string
  gn_address_lookup_limit :: int
  gn_prometheus_port :: "int option"
  gn_prometheus_addr :: "string option"
  gn_prometheus_enabled :: bool
  gn_sentry_dsn :: "string option"
  gn_delete_tokens_on_bind :: bool
  gn_ip_blacklist :: ip_set
  gn_ip_whitelist :: ip_set
  gn_enable_v1_access :: bool
  gn_homeserver_allow_list :: "string list"
  gn_enable_v1_associations :: bool

definition parse_general :: "config_env \<Rightarrow> config_parser \<Rightarrow> general_conf res" where
  "parse_general ce cfg =
     (let get = cfg_get cfg ''general'' in
      bindR (get ''server.name'') (\<lambda>name.
      bindR (get ''log.level'') (\<lambda>log_level.
      bindR (get ''log.path'') (\<lambda>log_path.
      bindR (get ''templates.path'') (\<lambda>templates_path.
      bindR (get ''brand.default'') (\<lambda>default_brand.
      bindR (get ''pidfile.path'') (\<lambda>pidfile.
      bindR (get ''terms.path'') (\<lambda>terms_path.
      bindR (cfg_conv conv_int cfg ''general'' ''address_lookup_limit'') (\<lambda>limit.
      bindR (with_fallback None (bindR (cfg_conv conv_int cfg ''general'' ''prometheus_port'') (\<lambda>p. Inr (Some p)))
               cfg ''general'' ''prometheus_port'') (\<lambda>prometheus_port.
      bindR (with_fallback None (bindR (get ''prometheus_addr'') (\<lambda>a. Inr (Some a))) cfg ''general'' ''prometheus_addr'')
        (\<lambda>prometheus_addr.
      bindR (with_fallback None (bindR (get ''sentry_dsn'') (\<lambda>a. Inr (Some a))) cfg ''general'' ''sentry_dsn'') (\<lambda>sentry_dsn.
      bindR (get ''delete_tokens_on_bind'') (\<lambda>delete_tokens.
      bindR (get ''ip.blacklist'') (\<lambda>blacklist.
      bindR (get ''ip.whitelist'') (\<lambda>whitelist.
      bindR (generate_ip_set (ce_netaddr ce)
        (Some (if list_from_comma_sep_string blacklist = [] then DEFAULT_IP_RANGE_BLACKLIST
               else list_from_comma_sep_string blacklist)) None) (\<lambda>ip_blacklist.
      bindR (generate_ip_set (ce_netaddr ce) (Some (list_from_comma_sep_string whitelist)) None) (\<lambda>ip_whitelist.
      bindR (get ''enable_v1_access'') (\<lambda>v1_access.
      bindR (get ''homeserver_allow_list'') (\<lambda>allow.
      let homeserver_allow_list = list_from_comma_sep_string allow; enable_v1_access = parse_cfg_bool v1_access in
      if homeserver_allow_list \<noteq> [] \<and> enable_v1_access then Inl RuntimeError
      else
        bindR (if \<not> enable_v1_access then Inr False
               else bindR (get ''enable_v1_associations'') (\<lambda>v. Inr (parse_cfg_bool v))) (\<lambda>enable_v1_associations.
        Inr \<lparr>gn_server_name = (if name = [] then ce_uname ce else name), gn_log_level = log_level, gn_log_path = log_path,
          gn_templates_path = templates_path,
          gn_valid_brands = (case ce_directories ce templates_path of None \<Rightarrow> [] | Some ds \<Rightarrow> ds),
          gn_default_brand = default_brand, gn_pidfile = pidfile, gn_terms_path = terms_path,
          gn_address_lookup_limit = limit, gn_prometheus_port = prometheus_port, gn_prometheus_addr = prometheus_addr,
          gn_prometheus_enabled = (prometheus_port \<noteq> None \<and> prometheus_addr \<noteq> None), gn_sentry_dsn = sentry_dsn,
          gn_delete_tokens_on_bind = parse_cfg_bool delete_tokens, gn_ip_blacklist = ip_blacklist,
          gn_ip_whitelist = ip_whitelist, gn_enable_v1_access = enable_v1_access,
          gn_homeserver_allow_list = homeserver_allow_list, gn_enable_v1_associations = enable_v1_associations\<rparr>))))))))))))))))))))"

section \<open>The other sections\<close>

record http_conf =
  hc_verify_response_template :: "string option"
  hc_client_bind_address :: string
  hc_client_port :: int
  hc_internal_bind_address :: string
  hc_internal_port :: "int option"
  hc_cert_file :: string
  hc_ca_cert_file :: string
  hc_replication_bind_address :: string
  hc_replication_port :: int
  hc_obey_x_forwarded_for :: bool
  hc_verify_federation_certs :: bool
  hc_server_http_url_base :: string
  hc_base_replication_urls :: "(string, string) dict"

text \<open>The loop over the sections that name peers.\<close>

fun peer_urls :: "config_parser \<Rightarrow> string list \<Rightarrow> (string, string) dict \<Rightarrow> (string, string) dict res" where
  "peer_urls cfg [] urls = Inr urls"
| "peer_urls cfg (sect # sects) urls =
     (if startswith sect ''peer.'' \<and> has_option cfg sect ''base_replication_url''
      then bindR (cfg_get cfg sect ''base_replication_url'') (\<lambda>base_url.
             peer_urls cfg sects (dict_set urls (drop 5 sect) base_url))
      else peer_urls cfg sects urls)"

definition parse_http :: "config_parser \<Rightarrow> http_conf res" where
  "parse_http cfg =
     (let get = cfg_get cfg ''http'' in
      bindR (with_fallback None (bindR (get ''verify_response_template'') (\<lambda>t. Inr (Some t))) cfg ''http''
        ''verify_response_template'') (\<lambda>verify_response_template.
      bindR (get ''clientapi.http.bind_address'') (\<lambda>client_bind_address.
      bindR (cfg_conv conv_int cfg ''http'' ''clientapi.http.port'') (\<lambda>client_port.
      bindR (get ''internalapi.http.port'') (\<lambda>internal_api_port.
      bindR (with_fallback ''::1'' (get ''internalapi.http.bind_address'') cfg ''http'' ''internalapi.http.bind_address'')
        (\<lambda>internal_bind_address.
      bindR (if internal_api_port = [] then Inr None else bindR (conv_int internal_api_port) (\<lambda>p. Inr (Some p))) (\<lambda>internal_port.
      bindR (get ''replication.https.certfile'') (\<lambda>cert_file.
      bindR (get ''replication.https.cacert'') (\<lambda>ca_cert_file.
      bindR (get ''replication.https.bind_address'') (\<lambda>replication_bind_address.
      bindR (cfg_conv conv_int cfg ''http'' ''replication.https.port'') (\<lambda>replication_port.
      bindR (cfg_conv conv_boolean cfg ''http'' ''obey_x_forwarded_for'') (\<lambda>obey_x_forwarded_for.
      bindR (cfg_conv conv_boolean cfg ''http'' ''federation.verifycerts'') (\<lambda>verify_federation_certs.
      bindR (get ''client_http_base'') (\<lambda>server_http_url_base.
      bindR (peer_urls cfg (map fst (cp_sections cfg)) []) (\<lambda>base_replication_urls.
      Inr \<lparr>hc_verify_response_template = verify_response_template, hc_client_bind_address = client_bind_address,
        hc_client_port = client_port, hc_internal_bind_address = internal_bind_address, hc_internal_port = internal_port,
        hc_cert_file = cert_file, hc_ca_cert_file = ca_cert_file, hc_replication_bind_address = replication_bind_address,
        hc_replication_port = replication_port, hc_obey_x_forwarded_for = obey_x_forwarded_for,
        hc_verify_federation_certs = verify_federation_certs, hc_server_http_url_base = server_http_url_base,
        hc_base_replication_urls = base_replication_urls\<rparr>)))))))))))))))"

definition parse_database :: "config_parser \<Rightarrow> string res" where
  "parse_database cfg = cfg_get cfg ''db'' ''db.file''"

record email_conf =
  ml_template :: "string option"
  ml_invite_template :: "string option"
  ml_validation_subject :: string
  ml_invite_subject :: string
  ml_invite_subject_space :: string
  ml_smtp_server :: string
  ml_smtp_port :: string
  ml_smtp_username :: string
  ml_smtp_password :: string
  ml_tls_mode :: string
  ml_host_name :: string
  ml_sender :: string
  ml_default_web_client_location :: string
  ml_username_obfuscate :: int
  ml_domain_obfuscate :: int
  ml_homeserver_blocklist :: "string list"
  ml_room_blocklist :: "string list"
  ml_keyword_blocklist :: "string list"
  ml_ratelimit_burst :: int
  ml_ratelimit_rate_hz :: rat

definition nonempty_lines :: "string \<Rightarrow> string list" where
  "nonempty_lines s = filter (\<lambda>l. l \<noteq> []) (split_on (CHR 0x0A) s)"

definition optional_text :: "config_parser \<Rightarrow> string \<Rightarrow> string \<Rightarrow> string option res" where
  "optional_text cfg sect opt = with_fallback None (bindR (cfg_get cfg sect opt) (\<lambda>t. Inr (Some t))) cfg sect opt"

definition parse_email :: "config_env \<Rightarrow> config_parser \<Rightarrow> email_conf res" where
  "parse_email ce cfg =
     (let get = cfg_get cfg ''email'' in
      bindR (optional_text cfg ''email'' ''email.template'') (\<lambda>template.
      bindR (optional_text cfg ''email'' ''email.invite_template'') (\<lambda>invite_template.
      bindR (get ''email.subject'') (\<lambda>validation_subject.
      bindR (cfg_get_raw cfg ''email'' ''email.invite.subject'') (\<lambda>invite_subject.
      bindR (cfg_get_raw cfg ''email'' ''email.invite.subject_space'') (\<lambda>invite_subject_space.
      bindR (get ''email.smtphost'') (\<lambda>smtp_server.
      bindR (get ''email.smtpport'') (\<lambda>smtp_port.
      bindR (get ''email.smtpusername'') (\<lambda>smtp_username.
      bindR (get ''email.smtppassword'') (\<lambda>smtp_password.
      bindR (get ''email.tlsmode'') (\<lambda>tls_mode.
      bindR (get ''email.hostname'') (\<lambda>host_name.
      bindR (get ''email.from'') (\<lambda>sender.
      bindR (case check_valid_email_address (ce_mail ce) sender True of
          Inl EmailAddressException \<Rightarrow> Inl GenericException | r \<Rightarrow> r) (\<lambda>_.
      bindR (get ''email.default_web_client_location'') (\<lambda>default_web_client_location.
      bindR (cfg_conv conv_int cfg ''email'' ''email.third_party_invite_username_obfuscate_characters'') (\<lambda>username_obfuscate.
      bindR (cfg_conv conv_int cfg ''email'' ''email.third_party_invite_domain_obfuscate_characters'') (\<lambda>domain_obfuscate.
      bindR (with_fallback [] (get ''email.third_party_invite_homeserver_blocklist'') cfg ''email''
        ''email.third_party_invite_homeserver_blocklist'') (\<lambda>homeserver_blocklist.
      bindR (with_fallback [] (get ''email.third_party_invite_room_blocklist'') cfg ''email''
        ''email.third_party_invite_room_blocklist'') (\<lambda>room_blocklist.
      bindR (with_fallback [] (get ''email.third_party_invite_keyword_blocklist'') cfg ''email''
        ''email.third_party_invite_keyword_blocklist'') (\<lambda>keyword_blocklist.
      bindR (with_fallback 5 (cfg_conv conv_int cfg ''email'' ''email.ratelimit_sender.burst'') cfg ''email''
        ''email.ratelimit_sender.burst'') (\<lambda>burst.
      bindR (with_fallback (1 / 300) (cfg_conv (conv_float ce) cfg ''email'' ''email.ratelimit_sender.rate_hz'') cfg ''email''
        ''email.ratelimit_sender.rate_hz'') (\<lambda>rate_hz.
      Inr \<lparr>ml_template = template, ml_invite_template = invite_template, ml_validation_subject = validation_subject,
        ml_invite_subject = invite_subject, ml_invite_subject_space = invite_subject_space, ml_smtp_server = smtp_server,
        ml_smtp_port = smtp_port, ml_smtp_username = smtp_username, ml_smtp_password = smtp_password, ml_tls_mode = tls_mode,
        ml_host_name = (if host_name = [] then ce_fqdn ce else host_name), ml_sender = sender,
        ml_default_web_client_location = default_web_client_location, ml_username_obfuscate = username_obfuscate,
        ml_domain_obfuscate = domain_obfuscate, ml_homeserver_blocklist = nonempty_lines homeserver_blocklist,
        ml_room_blocklist = nonempty_lines room_blocklist,
        ml_keyword_blocklist = map str_lower (nonempty_lines keyword_blocklist), ml_ratelimit_burst = burst,
        ml_ratelimit_rate_hz = rate_hz\<rparr>))))))))))))))))))))))"

text \<open>The originators of one country: \<open>type:text\<close>, separated by commas.\<close>

fun parse_originators :: "string list \<Rightarrow> (string \<times> string) list res" where
  "parse_originators [] = Inr []"
| "parse_originators (origString # rest) =
     (case split_on CHR '':'' origString of
        [ty, text] \<Rightarrow>
          if ty \<notin> {''long'', ''short'', ''alpha''} then Inl GenericException
          else bindR (parse_originators rest) (\<lambda>os. Inr ((ty, text) # os))
      | _ \<Rightarrow> Inl GenericException)"

text \<open>The loop over the options. The country is the second part of the option's name.\<close>

fun parse_sms_options :: "config_parser \<Rightarrow> string list \<Rightarrow> sms_config \<Rightarrow> sms_config res" where
  "parse_sms_options cfg [] sc = Inr sc"
| "parse_sms_options cfg (opt # opts) sc =
     (let country = split_on CHR ''.'' opt ! 1 in
      if startswith opt ''originators.'' then
        bindR (cfg_get cfg ''sms'' opt) (\<lambda>rawVal.
        bindR (parse_originators (map str_strip (split_on CHR '','' rawVal))) (\<lambda>os.
        parse_sms_options cfg opts (sc\<lparr>sm_originators := dict_set (sm_originators sc) country os\<rparr>)))
      else if startswith opt ''smsrule.'' then
        bindR (cfg_get cfg ''sms'' opt) (\<lambda>action.
        if action \<notin> {''allow'', ''reject''} then Inl GenericException
        else parse_sms_options cfg opts (sc\<lparr>sm_smsRules := dict_set (sm_smsRules sc) country action\<rparr>))
      else parse_sms_options cfg opts sc)"

record sms_conf =
  sx_config :: sms_config
  sx_api_username :: string
  sx_api_password :: string
  sx_msisdn_burst :: int
  sx_msisdn_rate_hz :: rat
  sx_country_burst :: int
  sx_country_rate_hz :: rat

definition parse_sms :: "config_env \<Rightarrow> config_parser \<Rightarrow> sms_conf res" where
  "parse_sms ce cfg =
     bindR (cfg_get cfg ''sms'' ''bodyTemplate'') (\<lambda>body_template.
     bindR (cfg_get cfg ''sms'' ''username'') (\<lambda>api_username.
     bindR (cfg_get cfg ''sms'' ''password'') (\<lambda>api_password.
     bindR (cfg_options cfg ''sms'') (\<lambda>opts.
     bindR (parse_sms_options cfg opts \<lparr>sm_body_template = body_template, sm_originators = [], sm_smsRules = []\<rparr>) (\<lambda>sc.
     bindR (with_fallback 5 (cfg_conv conv_int cfg ''sms'' ''msisdn.ratelimit.burst'') cfg ''sms'' ''msisdn.ratelimit.burst'')
       (\<lambda>msisdn_burst.
     bindR (with_fallback (1 / 3600) (cfg_conv (conv_float ce) cfg ''sms'' ''msisdn.ratelimit.rate_hz'') cfg ''sms''
       ''msisdn.ratelimit.rate_hz'') (\<lambda>msisdn_rate_hz.
     bindR (with_fallback 50 (cfg_conv conv_int cfg ''sms'' ''country.ratelimit.burst'') cfg ''sms'' ''country.ratelimit.burst'')
       (\<lambda>country_burst.
     bindR (with_fallback (1 / 60) (cfg_conv (conv_float ce) cfg ''sms'' ''country.ratelimit.rate_hz'') cfg ''sms''
       ''country.ratelimit.rate_hz'') (\<lambda>country_rate_hz.
     Inr \<lparr>sx_config = sc, sx_api_username = api_username, sx_api_password = api_password, sx_msisdn_burst = msisdn_burst,
       sx_msisdn_rate_hz = msisdn_rate_hz, sx_country_burst = country_burst, sx_country_rate_hz = country_rate_hz\<rparr>)))))))))"

text \<open>The signing key. The parser is changed when the key is new or in the old format, and \<^const>\<open>True\<close> asks to save it.\<close>

definition key_text :: "config_env \<Rightarrow> signing_key \<Rightarrow> string" where
  "key_text ce k = sk_alg k @ '' '' @ sk_version k @ '' '' @ ce_encode_key ce k"

definition parse_crypto :: "config_env \<Rightarrow> config_parser \<Rightarrow> (signing_key \<times> bool \<times> config_parser) res" where
  "parse_crypto ce cfg =
     bindR (cfg_get cfg ''crypto'' ''ed25519.signingkey'') (\<lambda>signing_key_str.
     bindR (if signing_key_str = [] then Inr (ce_generate_signing_key ce ''0'', True)
            else case split_on CHR '' '' signing_key_str of
                [k] \<Rightarrow> bindR (ce_key_from_hex ce k) (\<lambda>key. Inr (key\<lparr>sk_version := ''0'', sk_alg := ''ed25519''\<rparr>, True))
              | [alg, version, key] \<Rightarrow> bindR (ce_decode_key ce alg version key) (\<lambda>key. Inr (key, False))
              | alg # version # key # _ \<Rightarrow> bindR (ce_decode_key ce alg version key) (\<lambda>key. Inr (key, False))
              | _ \<Rightarrow> Inl IndexError) (\<lambda>(signing_key, save_key).
     if save_key
     then bindR (cfg_set ''crypto'' ''ed25519.signingkey'' (key_text ce signing_key) cfg) (\<lambda>cfg'. Inr (signing_key, True, cfg'))
     else Inr (signing_key, False, cfg)))"

section \<open>Defaults, files and dictionaries\<close>

text \<open>Three of the defaults come from the environment.\<close>

definition CONFIG_DEFAULTS :: "config_env \<Rightarrow> (string \<times> (string, string) dict) list" where
  "CONFIG_DEFAULTS ce =
     [(''general'',
        [(''server.name'', ce_server_name ce), (''log.path'', []), (''log.level'', ''INFO''), (''pidfile.path'', ce_pid_file ce),
         (''terms.path'', []), (''address_lookup_limit'', ''10000''), (''templates.path'', ''res''),
         (''brand.default'', ''matrix-org''), (''enable_v1_associations'', ''true''), (''delete_tokens_on_bind'', ''true''),
         (''ip.blacklist'', []), (''ip.whitelist'', []), (''homeserver_allow_list'', []), (''enable_v1_access'', ''true'')]),
      (''db'', [(''db.file'', ce_db_path ce)]),
      (''http'',
        [(''clientapi.http.bind_address'', ''::''), (''clientapi.http.port'', ''8090''), (''internalapi.http.bind_address'', ''::1''),
         (''internalapi.http.port'', []), (''replication.https.certfile'', []), (''replication.https.cacert'', []),
         (''replication.https.bind_address'', ''::''), (''replication.https.port'', ''4434''), (''obey_x_forwarded_for'', ''False''),
         (''federation.verifycerts'', ''True''), (''client_http_base'', [])]),
      (''email'',
        [(''email.from'', ''Sydent Validation <noreply@'' @ ''{hostname}>''), (''email.subject'', ''Your Validation Token''),
         (''email.invite.subject'', ''%(sender_display_name)s has invited you to chat''),
         (''email.invite.subject_space'', ''%(sender_display_name)s has invited you to a space''),
         (''email.smtphost'', ''localhost''), (''email.smtpport'', ''25''), (''email.smtpusername'', []),
         (''email.smtppassword'', []), (''email.hostname'', []), (''email.tlsmode'', ''0''),
         (''email.default_web_client_location'', ''https://app.element.io''),
         (''email.third_party_invite_username_obfuscate_characters'', ''3''),
         (''email.third_party_invite_domain_obfuscate_characters'', ''3'')]),
      (''sms'', [(''bodyTemplate'', ''Your code is {token}''), (''username'', []), (''password'', [])]),
      (''crypto'', [(''ed25519.signingkey'', [])])]"

fun set_options :: "string \<Rightarrow> (string, string) dict \<Rightarrow> config_parser \<Rightarrow> config_parser res" where
  "set_options sect [] cfg = Inr cfg"
| "set_options sect ((k, v) # kvs) cfg = bindR (cfg_set sect k v cfg) (set_options sect kvs)"

text \<open>Every section is added and filled; with \<open>use_defaults\<close> its options go to the default section instead.\<close>

fun build_parser :: "bool \<Rightarrow> (string \<times> (string, string) dict) list \<Rightarrow> config_parser \<Rightarrow> config_parser res" where
  "build_parser use_defaults [] cfg = Inr cfg"
| "build_parser use_defaults ((sect, entries) # rest) cfg =
     bindR (add_section sect cfg) (\<lambda>cfg.
     bindR (set_options (if use_defaults then ''DEFAULT'' else sect) entries cfg) (build_parser use_defaults rest))"

record sydent_conf =
  sc_general_conf :: general_conf
  sc_database_path :: string
  sc_signing_key :: signing_key
  sc_sms_conf :: sms_conf
  sc_email_conf :: email_conf
  sc_http_conf :: http_conf

text \<open>The sections in the order of \<open>config_sections\<close>, and whether the parser has to be saved.\<close>

definition parse_from_config_parser :: "config_env \<Rightarrow> config_parser \<Rightarrow> (sydent_conf \<times> bool \<times> config_parser) res" where
  "parse_from_config_parser ce cfg =
     bindR (parse_general ce cfg) (\<lambda>g.
     bindR (parse_database cfg) (\<lambda>d.
     bindR (parse_crypto ce cfg) (\<lambda>(k, needs_saving, cfg').
     bindR (parse_sms ce cfg') (\<lambda>x.
     bindR (parse_email ce cfg') (\<lambda>m.
     bindR (parse_http cfg') (\<lambda>h.
     Inr (\<lparr>sc_general_conf = g, sc_database_path = d, sc_signing_key = k, sc_sms_conf = x, sc_email_conf = m, sc_http_conf = h\<rparr>,
       needs_saving, cfg')))))))"

text \<open>A file is what \<open>configparser\<close> reads of it, \<^const>\<open>None\<close> if it does not exist. The last part of the result is written back.\<close>

definition file_parser :: "config_env \<Rightarrow> (string \<times> (string, string) dict) list option \<Rightarrow> config_parser res" where
  "file_parser ce file =
     bindR (build_parser (file \<noteq> None) (CONFIG_DEFAULTS ce) empty_parser) (\<lambda>cfg.
     Inr (case file of None \<Rightarrow> cfg | Some f \<Rightarrow> cfg_read f cfg))"

definition parse_config_file ::
    "config_env \<Rightarrow> (string \<times> (string, string) dict) list option \<Rightarrow> (sydent_conf \<times> config_parser option) res" where
  "parse_config_file ce file =
     bindR (file_parser ce file) (\<lambda>cfg.
     bindR (parse_from_config_parser ce cfg) (\<lambda>(conf, needs_saving, cfg').
     Inr (conf, if needs_saving then Some cfg' else None)))"

definition parse_config_dict :: "config_env \<Rightarrow> (string \<times> (string, string) dict) list \<Rightarrow> sydent_conf res" where
  "parse_config_dict ce config_dict =
     (let config = fold (\<lambda>(sect, d) config. dict_set config sect
            (dict_update (case dict_get config sect of None \<Rightarrow> [] | Some old \<Rightarrow> old) d)) config_dict (CONFIG_DEFAULTS ce)
      in bindR (build_parser False config empty_parser) (\<lambda>cfg.
         bindR (parse_from_config_parser ce cfg) (\<lambda>(conf, _). Inr conf)))"

section \<open>Lemmas\<close>

lemma bindR_elim: "bindR r f = Inr y \<Longrightarrow> (\<And>x. f x = Inr y \<Longrightarrow> thesis) \<Longrightarrow> thesis"
  by (auto simp: bindR_eq_Inr)

lemma parse_general_lists:
  assumes "parse_general ce cfg = Inr g"
  shows "(gn_homeserver_allow_list g \<noteq> [] \<longrightarrow> \<not> gn_enable_v1_access g) \<and> (gn_enable_v1_associations g \<longrightarrow> gn_enable_v1_access g)"
  using assms unfolding parse_general_def Let_def
  by (elim bindR_elim) (auto simp: bindR_eq_Inr split: if_splits)

lemma no_v1: "find_resource (client_api False a) (''_matrix'' # ''identity'' # ''api'' # ''v1'' # ps) = None"
  by (simp add: client_api_def dir_def)

lemma no_v1_bind: "find_resource (client_api True False) [''_matrix'', ''identity'', ''api'', ''v1'', ''3pid'', ''bind''] = None"
  by (simp add: client_api_def v1_tree_def dir_def)

lemma parse_originators_ok:
  "parse_originators xs = Inr os \<Longrightarrow> length os = length xs \<and> list_all (\<lambda>x. isr (tonFromType (fst x))) os"
  by (induction xs arbitrary: os) (auto simp: bindR_eq_Inr tonFromType_iff split: list.splits if_splits)

text \<open>What the sending of text messages relies on: no list of originators is empty, and every type is known.\<close>

definition originators_ok :: "sms_config \<Rightarrow> bool" where
  "originators_ok sc = (\<forall>k os. dict_get (sm_originators sc) k = Some os \<longrightarrow>
     os \<noteq> [] \<and> list_all (\<lambda>x. isr (tonFromType (fst x))) os)"

lemma originators_ok_updates:
  "originators_ok sc \<Longrightarrow> originators_ok (sc\<lparr>sm_smsRules := d\<rparr>)"
  "originators_ok sc \<Longrightarrow> parse_originators (map str_strip (split_on CHR '','' v)) = Inr os \<Longrightarrow>
   originators_ok (sc\<lparr>sm_originators := dict_set (sm_originators sc) k os\<rparr>)"
  using parse_originators_ok [of "map str_strip (split_on CHR '','' v)" os] by (auto simp: originators_ok_def)

lemma parse_sms_options_ok:
  "parse_sms_options cfg opts sc = Inr sc' \<Longrightarrow> originators_ok sc \<Longrightarrow> originators_ok sc'"
proof (induction cfg opts sc rule: parse_sms_options.induct)
  case (2 cfg opt opts sc)
  let ?k = "split_on CHR ''.'' opt ! 1"
  consider (orig) v os where "startswith opt ''originators.''" "parse_originators (map str_strip (split_on CHR '','' v)) = Inr os"
      "parse_sms_options cfg opts (sc\<lparr>sm_originators := dict_set (sm_originators sc) ?k os\<rparr>) = Inr sc'"
    | (rule) a where "\<not> startswith opt ''originators.''" "startswith opt ''smsrule.''" "a \<in> {''allow'', ''reject''}"
      "parse_sms_options cfg opts (sc\<lparr>sm_smsRules := dict_set (sm_smsRules sc) ?k a\<rparr>) = Inr sc'"
    | (other) "\<not> startswith opt ''originators.''" "\<not> startswith opt ''smsrule.''" "parse_sms_options cfg opts sc = Inr sc'"
    using "2.prems"(1) by (auto simp: Let_def bindR_eq_Inr split: if_splits)
  then show ?case
  proof cases
    case (orig v os)
    from "2.IH"(1) [OF refl orig(1,3)] originators_ok_updates(2) [OF "2.prems"(2) orig(2)] show ?thesis .
  next
    case (rule a)
    with "2.IH"(2) [OF refl rule(1,2), of a] originators_ok_updates(1) [OF "2.prems"(2)] show ?thesis by auto
  next
    case other
    with "2.IH"(3) [OF refl other] "2.prems"(2) show ?thesis by simp
  qed
qed simp

lemma parse_sms_ok: "parse_sms ce cfg = Inr x \<Longrightarrow> originators_ok (sx_config x)"
proof -
  assume "parse_sms ce cfg = Inr x"
  then obtain opts b where "parse_sms_options cfg opts \<lparr>sm_body_template = b, sm_originators = [], sm_smsRules = []\<rparr> = Inr (sx_config x)"
    unfolding parse_sms_def by (auto simp: bindR_eq_Inr)
  then show ?thesis by (rule parse_sms_options_ok) (simp add: originators_ok_def)
qed

text \<open>What an originator that is selected can be.\<close>

lemma getOriginator_cases:
  assumes "getOriginator sc p = Inr src"
  shows "src = (''alpha'', ''Matrix'') \<or> (\<exists>k os. dict_get (sm_originators sc) k = Some os \<and> src \<in> set os)"
proof -
  let ?k = "show_int (pn_country_code p)"
  obtain origs n where o: "origs \<noteq> []" "src = origs ! (n mod length origs)" and e:
    "origs = (case dict_get (sm_originators sc) ?k of Some l \<Rightarrow> l
       | None \<Rightarrow> (case dict_get (sm_originators sc) ''default'' of Some l \<Rightarrow> l | None \<Rightarrow> [(''alpha'', ''Matrix'')]))"
    using assms unfolding getOriginator_def Let_def bindR_eq_Inr by (metis (no_types, lifting) old.sum.distinct(2) sum.inject(2))
  have "src \<in> set origs" using o by simp
  with e show ?thesis by (auto split: option.splits)
qed

section \<open>Precedence\<close>

lemma set_options_DEFAULT:
  "set_options ''DEFAULT'' kvs cfg = Inr cfg' \<Longrightarrow>
     cfg' = cfg\<lparr>cp_defaults := fold (\<lambda>(k, v) d. dict_set d (str_lower k) v) kvs (cp_defaults cfg)\<rparr>"
proof (induction kvs arbitrary: cfg)
  case (Cons x kvs)
  obtain k v where x: "x = (k, v)" by fastforce
  with Cons.prems have "set_options ''DEFAULT'' kvs (cfg\<lparr>cp_defaults := dict_set (cp_defaults cfg) (str_lower k) v\<rparr>) = Inr cfg'"
    by (auto simp: cfg_set_def bindR_eq_Inr split: if_splits)
  from Cons.IH [OF this] x show ?case by simp
qed simp

lemma build_parser_DEFAULT:
  "build_parser True sects cfg = Inr cfg' \<Longrightarrow>
     cp_defaults cfg' = fold (\<lambda>(k, v) d. dict_set d (str_lower k) v) (concat (map snd sects)) (cp_defaults cfg) \<and>
     cp_sections cfg' = cp_sections cfg @ map (\<lambda>(s, _). (s, [])) sects"
proof (induction sects arbitrary: cfg)
  case (Cons x sects)
  obtain s entries where x: "x = (s, entries)" by fastforce
  from Cons.prems x obtain c1 c2 where c: "add_section s cfg = Inr c1" "set_options ''DEFAULT'' entries c1 = Inr c2"
    "build_parser True sects c2 = Inr cfg'" by (auto simp: bindR_eq_Inr)
  from c(1) have c1: "c1 = cfg\<lparr>cp_sections := cp_sections cfg @ [(s, [])]\<rparr>"
    by (auto simp: add_section_def dict_has_def dict_set_fresh split: if_splits)
  from Cons.IH [OF c(3)] set_options_DEFAULT [OF c(2)] c1 x show ?case by simp
qed simp

lemma map_of_map_const: "map_of (map (\<lambda>(s, _). (s, c)) xs) k = (if k \<in> fst ` set xs then Some c else None)"
  by (induction xs) auto

lemma merge_other: "s \<noteq> t \<Longrightarrow> dict_get (cp_sections (merge_section s d cfg)) t = dict_get (cp_sections cfg) t"
  by (simp add: merge_section_def)

text \<open>The option of a section in the parser after a file was merged, when the file names no section twice.\<close>

definition file_option :: "(string \<times> (string, string) dict) list \<Rightarrow> string \<Rightarrow> string \<Rightarrow> string option" where
  "file_option fl sect opt = (case dict_get fl sect of None \<Rightarrow> None | Some d \<Rightarrow> dict_get d opt)"

lemma cfg_read_sections:
  assumes "dict_wf fl" and "\<forall>d \<in> snd ` set fl. dict_wf d" and "sect \<noteq> ''DEFAULT''"
    and "dict_get (cp_sections cfg) sect = Some old"
  shows "\<exists>new. dict_get (cp_sections (cfg_read fl cfg)) sect = Some new \<and>
    dict_get new opt = (case file_option fl sect opt of Some v \<Rightarrow> Some v | None \<Rightarrow> dict_get old opt)"
  using assms
proof (induction fl arbitrary: cfg old)
  case (Cons x fl)
  obtain s d where x: "x = (s, d)" by fastforce
  show ?case
  proof (cases "s = sect")
    case True
    with Cons.prems x have none: "dict_get fl sect = None" by (auto simp: map_of_eq_None_iff)
    have "dict_get (cp_sections (merge_section s d cfg)) sect = Some (dict_update old d)"
      using True Cons.prems(3,4) by (simp add: merge_section_def)
    from Cons.IH [OF _ _ Cons.prems(3) this] Cons.prems(1,2) x obtain new where
      new: "dict_get (cp_sections (cfg_read fl (merge_section s d cfg))) sect = Some new"
        "dict_get new opt = (case file_option fl sect opt of Some v \<Rightarrow> Some v | None \<Rightarrow> dict_get (dict_update old d) opt)" by auto
    with none True x Cons.prems(2) show ?thesis
      by (auto simp: cfg_read_def file_option_def dict_get_update map_add_def split: option.splits)
  next
    case False
    then have "dict_get (cp_sections (merge_section s d cfg)) sect = Some old" using merge_other Cons.prems(4) by metis
    from Cons.IH [OF _ _ Cons.prems(3) this] Cons.prems(1,2) x False show ?thesis
      by (auto simp: cfg_read_def file_option_def)
  qed
qed (auto simp: cfg_read_def file_option_def)

lemma cfg_read_defaults:
  assumes "dict_wf fl" and "\<forall>d \<in> snd ` set fl. dict_wf d"
  shows "dict_get (cp_defaults (cfg_read fl cfg)) opt =
    (case file_option fl ''DEFAULT'' opt of Some v \<Rightarrow> Some v | None \<Rightarrow> dict_get (cp_defaults cfg) opt)"
  using assms
proof (induction fl arbitrary: cfg)
  case (Cons x fl)
  obtain s d where x: "x = (s, d)" by fastforce
  have IH: "dict_get (cp_defaults (cfg_read fl (merge_section s d cfg))) opt =
    (case file_option fl ''DEFAULT'' opt of Some v \<Rightarrow> Some v | None \<Rightarrow> dict_get (cp_defaults (merge_section s d cfg)) opt)"
    using Cons.prems by (intro Cons.IH) auto
  show ?case
  proof (cases "s = ''DEFAULT''")
    case True
    with Cons.prems x have "dict_get fl ''DEFAULT'' = None" by (auto simp: map_of_eq_None_iff)
    with IH True x Cons.prems(2) show ?thesis
      by (auto simp: cfg_read_def file_option_def merge_section_def dict_get_update map_add_def split: option.splits)
  next
    case False
    then have "cp_defaults (merge_section s d cfg) = cp_defaults cfg" by (simp add: merge_section_def)
    with IH x False show ?thesis by (auto simp: cfg_read_def file_option_def split: option.splits)
  qed
qed (auto simp: cfg_read_def file_option_def)

section \<open>Properties\<close>

text \<open>a list of allowed homeservers closes the old API. If a configuration is accepted in which homeservers are listed, then
  no path below that of the first version leads to a resource, whatever the rest of the configuration says; and without the
  flag for associations nothing can be bound through it.
\<close>

theorem allow_list_closes_v1:
  assumes "parse_general ce cfg = Inr g"
  shows "(gn_homeserver_allow_list g \<noteq> [] \<longrightarrow>
      find_resource (client_api (gn_enable_v1_access g) (gn_enable_v1_associations g))
        (''_matrix'' # ''identity'' # ''api'' # ''v1'' # ps) = None) \<and>
    (\<not> gn_enable_v1_associations g \<longrightarrow>
      find_resource (client_api (gn_enable_v1_access g) False)
        [''_matrix'', ''identity'', ''api'', ''v1'', ''3pid'', ''bind''] = None)"
  using parse_general_lists [OF assms] no_v1 no_v1_bind by (cases "gn_enable_v1_access g") auto

text \<open>C40: the key is made once. When the signing key was generated or brought from the old format, the parser that is written back
  gives the same key when it is read again, and does not ask to be saved again; the server keeps its identity over
  restarts. Of the key's encoding it is used that it can be decoded and has neither blanks nor percent signs.
\<close>

theorem signing_key_persists:
  assumes "parse_crypto ce cfg = Inr (k, True, cfg')"
    and "ce_decode_key ce (sk_alg k) (sk_version k) (ce_encode_key ce k) = Inr k"
    and "\<forall>t \<in> {sk_alg k, sk_version k, ce_encode_key ce k}. CHR '' '' \<notin> set t \<and> CHR ''%'' \<notin> set t"
  shows "parse_crypto ce cfg' = Inr (k, False, cfg')"
proof -
  obtain d where d: "dict_get (cp_sections cfg) ''crypto'' = Some d"
    using assms(1) by (auto simp: parse_crypto_def bindR_eq_Inr cfg_get_def cfg_get_raw_def raw_option_def split: option.splits)
  have "cfg_set ''crypto'' ''ed25519.signingkey'' (key_text ce k) cfg = Inr cfg'"
    using assms(1) by (auto simp: parse_crypto_def bindR_eq_Inr split: if_splits list.splits)
  then have cfg': "cfg' = cfg\<lparr>cp_sections := dict_set (cp_sections cfg) ''crypto''
      (dict_set d (str_lower ''ed25519.signingkey'') (key_text ce k))\<rparr>"
    using d by (auto simp: cfg_set_def split: if_splits)
  have "CHR ''%'' \<notin> set (key_text ce k)" using assms(3) by (simp add: key_text_def)
  then have get: "cfg_get cfg' ''crypto'' ''ed25519.signingkey'' = Inr (key_text ce k)"
    by (simp add: cfg' cfg_get_def cfg_get_raw_def raw_option_def interpolate_plain bindR_def)
  have split: "split_on CHR '' '' (key_text ce k) = [sk_alg k, sk_version k, ce_encode_key ce k]"
    using assms(3) by (simp add: key_text_def split_on_append split_on_no_sep)
  have "key_text ce k \<noteq> []" by (simp add: key_text_def)
  then show ?thesis using get split assms(2) by (simp add: parse_crypto_def bindR_def)
qed

text \<open>sending a text message never fails for its originator. Every originator that the validator can choose under an accepted
  configuration has a type the API knows, so the body of the request can always be made.
\<close>

theorem configured_originators_sendable:
  assumes "parse_sms ce cfg = Inr x" and "getOriginator (sx_config x) p = Inr src"
  shows "\<exists>v. send_body body dest (Some src) = Inr v"
proof -
  have "isr (tonFromType (fst src))"
    using getOriginator_cases [OF assms(2)] parse_sms_ok [OF assms(1)]
    unfolding originators_ok_def list_all_iff tonFromType_iff by (elim disjE exE conjE) simp_all
  then show ?thesis
    by (cases src; cases "tonFromType (fst src)") (auto simp: send_body_def Let_def bindR_def)
qed

text \<open>who decides an option. With a configuration file, the value of an option is the one the file gives in the
  section, else the one it gives in the default section, else the built-in default; settings of the file in either place are
  never overridden by a default. (The file names no section and no option twice, as the parser demands.)
\<close>

theorem file_options_win:
  assumes "file_parser ce (Some fl) = Inr cfg" and "dict_wf fl" and "\<forall>d \<in> snd ` set fl. dict_wf d"
    and "sect \<in> fst ` set (CONFIG_DEFAULTS ce)" and "str_lower opt = opt"
  shows "raw_option cfg sect opt =
    (case file_option fl sect opt of Some v \<Rightarrow> Some v
     | None \<Rightarrow> (case file_option fl ''DEFAULT'' opt of Some v \<Rightarrow> Some v
        | None \<Rightarrow> dict_get (fold (\<lambda>(k, v) d. dict_set d (str_lower k) v) (concat (map snd (CONFIG_DEFAULTS ce))) []) opt))"
proof -
  obtain c where c: "build_parser True (CONFIG_DEFAULTS ce) empty_parser = Inr c" "cfg = cfg_read fl c"
    using assms(1) by (auto simp: file_parser_def bindR_eq_Inr)
  note b = build_parser_DEFAULT [OF c(1)]
  have "sect \<noteq> ''DEFAULT''" using assms(4) by (auto simp: CONFIG_DEFAULTS_def)
  moreover have "dict_get (cp_sections c) sect = Some []"
    using assms(4) b by (auto simp: empty_parser_def map_of_eq_Some_iff map_of_map_const)
  ultimately obtain new where "dict_get (cp_sections cfg) sect = Some new"
    "dict_get new opt = (case file_option fl sect opt of Some v \<Rightarrow> Some v | None \<Rightarrow> dict_get [] opt)"
    using cfg_read_sections [OF assms(2,3), of sect c "[]" opt] c(2) by auto
  then show ?thesis
    using cfg_read_defaults [OF assms(2,3), of c opt] b assms(5) c(2)
    by (simp add: raw_option_def empty_parser_def split: option.splits)
qed

definition demo_config_env :: config_env where
  "demo_config_env = \<lparr>ce_uname = ''host'', ce_fqdn = ''host.example'', ce_server_name = [], ce_pid_file = ''sydent.pid'',
     ce_db_path = ''sydent.db'', ce_directories = (\<lambda>_. Some [''matrix-org'']), ce_float = (\<lambda>_. None),
     ce_netaddr = demo_netaddr\<lparr>na_IPNetwork := \<lambda>_. Some \<lparr>nw_v6 = True, nw_first = 1, nw_prefixlen = 128\<rparr>\<rparr>,
     ce_mail = echo_mail_env, ce_generate_signing_key = (\<lambda>v. \<lparr>sk_alg = ''ed25519'', sk_version = v, sk_seed = ''seed''\<rparr>),
     ce_key_from_hex = (\<lambda>_. Inl ValueError), ce_decode_key = (\<lambda>a v k. Inr \<lparr>sk_alg = a, sk_version = v, sk_seed = k\<rparr>),
     ce_encode_key = sk_seed\<rparr>"

definition demo_file :: "(string \<times> (string, string) dict) list" where
  "demo_file = [(''general'', [(''homeserver_allow_list'', ''a.example, b.example''), (''enable_v1_access'', ''False'')]),
     (''DEFAULT'', [(''clientapi.http.port'', ''80'')]), (''sms'', [(''originators.44'', ''long:12345, alpha:Matrix'')])]"

definition demo_parser :: config_parser where
  "demo_parser = \<lparr>cp_defaults = (''bodytemplate'', ''{token}'') # concat (map snd (CONFIG_DEFAULTS demo_config_env)),
     cp_sections = [(''general'', [(''homeserver_allow_list'', ''a.example, b.example''), (''enable_v1_access'', ''False'')]),
       (''db'', []), (''http'', []), (''email'', []), (''sms'', [(''originators.44'', ''long:12345, alpha:Matrix'')]),
       (''crypto'', [])]\<rparr>"

lemma parsed_ex: "map_sum id f r = Inr y \<Longrightarrow> \<exists>x. r = Inr x \<and> f x = y"
  by (cases r) auto

theorem allow_list_closes_v1_witness:
  "\<exists>g. parse_general demo_config_env demo_parser = Inr g \<and> gn_homeserver_allow_list g = [''a.example'', ''b.example''] \<and>
     find_resource (client_api (gn_enable_v1_access g) (gn_enable_v1_associations g))
       [''_matrix'', ''identity'', ''api'', ''v1'', ''lookup''] = None"
proof -
  have "map_sum id gn_homeserver_allow_list (parse_general demo_config_env demo_parser) = Inr [''a.example'', ''b.example'']"
    by code_simp
  then obtain g where g: "parse_general demo_config_env demo_parser = Inr g"
    "gn_homeserver_allow_list g = [''a.example'', ''b.example'']" by (auto dest: parsed_ex)
  with allow_list_closes_v1 [OF g(1), of "[''lookup'']"] show ?thesis by auto
qed

theorem signing_key_persists_witness:
  "parse_crypto demo_config_env \<lparr>cp_defaults = [], cp_sections = [(''crypto'', [(''ed25519.signingkey'', ''ed25519 0 seed'')])]\<rparr> =
     Inr (\<lparr>sk_alg = ''ed25519'', sk_version = ''0'', sk_seed = ''seed''\<rparr>, False,
       \<lparr>cp_defaults = [], cp_sections = [(''crypto'', [(''ed25519.signingkey'', ''ed25519 0 seed'')])]\<rparr>)"
proof (rule signing_key_persists)
  show "parse_crypto demo_config_env \<lparr>cp_defaults = [], cp_sections = [(''crypto'', [(''ed25519.signingkey'', [])])]\<rparr> =
     Inr (\<lparr>sk_alg = ''ed25519'', sk_version = ''0'', sk_seed = ''seed''\<rparr>, True,
       \<lparr>cp_defaults = [], cp_sections = [(''crypto'', [(''ed25519.signingkey'', ''ed25519 0 seed'')])]\<rparr>)" by code_simp
qed (simp_all add: demo_config_env_def)

theorem configured_originators_sendable_witness:
  "\<exists>x v. parse_sms demo_config_env demo_parser = Inr x \<and>
     getOriginator (sx_config x) \<lparr>pn_country_code = 44, pn_msisdn = ''447700900001''\<rparr> = Inr (''long'', ''12345'') \<and>
     send_body ''1234'' ''447700900001'' (Some (''long'', ''12345'')) = Inr v"
proof -
  have "map_sum id (\<lambda>x. getOriginator (sx_config x) \<lparr>pn_country_code = 44, pn_msisdn = ''447700900001''\<rparr>)
      (parse_sms demo_config_env demo_parser) = Inr (Inr (''long'', ''12345''))" by code_simp
  then obtain x where x: "parse_sms demo_config_env demo_parser = Inr x"
    "getOriginator (sx_config x) \<lparr>pn_country_code = 44, pn_msisdn = ''447700900001''\<rparr> = Inr (''long'', ''12345'')"
    by (auto dest: parsed_ex)
  from configured_originators_sendable [OF x] x show ?thesis by blast
qed

lemma defaults_storable:
  "storable ''%(sender_display_name)s has invited you to chat''" "storable ''%(sender_display_name)s has invited you to a space''"
  by code_simp+

lemma set_options_ok: "\<forall>v \<in> snd ` set kvs. storable v \<Longrightarrow> \<exists>c. set_options ''DEFAULT'' kvs cfg = Inr c"
proof (induction kvs arbitrary: cfg)
  case (Cons x kvs)
  then show ?case by (cases x) (simp add: cfg_set_def bindR_def)
qed simp

lemma build_parser_ok:
  "distinct (map fst sects @ map fst (cp_sections cfg)) \<Longrightarrow> ''DEFAULT'' \<notin> fst ` set sects \<Longrightarrow>
   \<forall>kvs \<in> snd ` set sects. \<forall>v \<in> snd ` set kvs. storable v \<Longrightarrow> \<exists>c. build_parser True sects cfg = Inr c"
proof (induction sects arbitrary: cfg)
  case (Cons x sects)
  obtain s kvs where x: "x = (s, kvs)" by fastforce
  let ?c1 = "cfg\<lparr>cp_sections := cp_sections cfg @ [(s, [])]\<rparr>"
  have "add_section s cfg = Inr ?c1"
    using Cons.prems(1,2) x by (auto simp: add_section_def dict_has_def dict_set_fresh)
  moreover obtain c2 where c2: "set_options ''DEFAULT'' kvs ?c1 = Inr c2"
    using set_options_ok [of kvs ?c1] Cons.prems(3) x by auto
  moreover have "cp_sections c2 = cp_sections ?c1" using set_options_DEFAULT [OF c2] by simp
  with Cons.prems x have "\<exists>c. build_parser True sects c2 = Inr c" by (intro Cons.IH) auto
  ultimately show ?case using x by (simp add: bindR_def)
qed simp

lemma build_defaults: "\<exists>c. build_parser True (CONFIG_DEFAULTS demo_config_env) empty_parser = Inr c"
proof (rule build_parser_ok)
  show "distinct (map fst (CONFIG_DEFAULTS demo_config_env) @ map fst (cp_sections empty_parser))"
    "''DEFAULT'' \<notin> fst ` set (CONFIG_DEFAULTS demo_config_env)" by (simp_all add: CONFIG_DEFAULTS_def empty_parser_def)
  show "\<forall>kvs \<in> snd ` set (CONFIG_DEFAULTS demo_config_env). \<forall>v \<in> snd ` set kvs. storable v"
    by (simp add: CONFIG_DEFAULTS_def demo_config_env_def storable_plain defaults_storable)
qed

theorem file_options_win_witness:
  "\<exists>cfg. file_parser demo_config_env (Some demo_file) = Inr cfg \<and>
     raw_option cfg ''http'' ''clientapi.http.port'' = Some ''80'' \<and>
     raw_option cfg ''general'' ''enable_v1_access'' = Some ''False'' \<and> raw_option cfg ''db'' ''db.file'' = Some ''sydent.db''"
proof -
  obtain cfg where cfg: "file_parser demo_config_env (Some demo_file) = Inr cfg"
    using build_defaults by (auto simp: file_parser_def bindR_def)
  have wf: "dict_wf demo_file" "\<forall>d \<in> snd ` set demo_file. dict_wf d" by (simp_all add: demo_file_def)
  have sects: "{''http'', ''general'', ''db''} \<subseteq> fst ` set (CONFIG_DEFAULTS demo_config_env)" by (simp add: CONFIG_DEFAULTS_def)
  have low: "str_lower ''clientapi.http.port'' = ''clientapi.http.port''" "str_lower ''enable_v1_access'' = ''enable_v1_access''"
    "str_lower ''db.file'' = ''db.file''" by code_simp+
  note r = file_options_win [OF cfg wf]
  have "file_option demo_file ''http'' ''clientapi.http.port'' = None"
    "file_option demo_file ''DEFAULT'' ''clientapi.http.port'' = Some ''80''"
    "file_option demo_file ''general'' ''enable_v1_access'' = Some ''False''"
    "file_option demo_file ''db'' ''db.file'' = None" "file_option demo_file ''DEFAULT'' ''db.file'' = None" by code_simp+
  moreover have "dict_get (fold (\<lambda>(k, v) d. dict_set d (str_lower k) v) (concat (map snd (CONFIG_DEFAULTS demo_config_env))) [])
      ''db.file'' = Some ''sydent.db''" by code_simp
  ultimately show ?thesis
    using cfg r [of "''http''" "''clientapi.http.port''"] r [of "''general''" "''enable_v1_access''"] r [of "''db''" "''db.file''"]
      sects low by auto
qed

end
