(* ===== verification/Sqlite_Schema.thy ===== *)
theory Sqlite_Schema
  imports Prelude
begin

text \<open>
  \<open>sydent/db/sqlitedb.py\<close>: opening the database file, creating the schema from the SQL scripts beside it and
  upgrading it to the current version. The statements are data, with the meaning SQLite gives them on tables,
  indexes and rows; the calls of Python's \<open>sqlite3\<close> run them on a connection, whose changes reach the disk at once
  outside a transaction. Python opens a transaction before a statement that changes rows, and not before one that changes
  the schema.

  Column types and default values are left out: no statement here depends on them.
\<close>

section \<open>Databases\<close>

datatype sql_value = SNull | SInt int | SText string

record sql_row =
  sr_id :: int
  sr_cells :: "(string, sql_value) dict"

text \<open>The kinds of primary keys: \<open>integer primary key\<close>, the same with \<open>autoincrement\<close>, a column, or none.\<close>

datatype primary_key = RowidKey | AutoKey | ColumnKey string | NoKey

text \<open>\<open>tb_cols\<close> pairs the name of each column with whether it is \<open>not null\<close>; \<open>tb_seq\<close> is the entry in \<open>sqlite_sequence\<close>.\<close>

record sql_table =
  tb_key :: primary_key
  tb_cols :: "(string \<times> bool) list"
  tb_seq :: int
  tb_rows :: "sql_row list"

datatype key_part = Col string | Lower string

record sql_index =
  ix_table :: string
  ix_unique :: bool
  ix_parts :: "key_part list"

record sql_db =
  db_tables :: "(string, sql_table) dict"
  db_indexes :: "(string, sql_index) dict"
  db_version :: int

definition empty_file :: sql_db where
  "empty_file = \<lparr>db_tables = [], db_indexes = [], db_version = 0\<rparr>"

definition cell :: "sql_table \<Rightarrow> string \<Rightarrow> sql_row \<Rightarrow> sql_value" where
  "cell t c r =
     (if c = ''id'' \<and> tb_key t \<in> {RowidKey, AutoKey} then SInt (sr_id r)
      else case dict_get (sr_cells r) c of None \<Rightarrow> SNull | Some v \<Rightarrow> v)"

definition has_column :: "sql_table \<Rightarrow> string \<Rightarrow> bool" where
  "has_column t c = (c \<in> fst ` set (tb_cols t))"

fun part_column :: "key_part \<Rightarrow> string" where
  "part_column (Col c) = c"
| "part_column (Lower c) = c"

fun part_value :: "sql_table \<Rightarrow> key_part \<Rightarrow> sql_row \<Rightarrow> sql_value" where
  "part_value t (Col c) r = cell t c r"
| "part_value t (Lower c) r =
     (case cell t c r of SNull \<Rightarrow> SNull | SInt i \<Rightarrow> SText (show_int i) | SText s \<Rightarrow> SText (str_lower s))"

text \<open>Two rows with a null in the key are never taken to be equal.\<close>

definition unique_on :: "sql_table \<Rightarrow> key_part list \<Rightarrow> bool" where
  "unique_on t parts =
     distinct (filter (\<lambda>k. SNull \<notin> set k) (map (\<lambda>r. map (\<lambda>p. part_value t p r) parts) (tb_rows t)))"

section \<open>Statements\<close>

datatype sql_stmt =
    DropIndexIfExists string
  | RenameTable string string
  | CreateTable bool string primary_key "(string \<times> bool) list"
  | CreateIndex bool bool string string "key_part list"
  | DropTable string
  | AddColumn string string
  | InsertSelect string "string list" string

datatype sql_error = OperationalError | IntegrityError

definition next_rowid :: "sql_table \<Rightarrow> int" where
  "next_rowid t =
     (let m = fold max (map sr_id (tb_rows t)) 0 in if tb_key t = AutoKey then max m (tb_seq t) + 1 else m + 1)"

definition insert_row :: "(string, sql_value) dict \<Rightarrow> sql_table \<Rightarrow> sql_table" where
  "insert_row cells t =
     (let i = next_rowid t
      in t\<lparr>tb_rows := tb_rows t @ [\<lparr>sr_id = i, sr_cells = cells\<rparr>],
           tb_seq := (if tb_key t = AutoKey then i else tb_seq t)\<rparr>)"

definition not_null_ok :: "sql_table \<Rightarrow> bool" where
  "not_null_ok t = list_all (\<lambda>(c, nn). nn \<longrightarrow> list_all (\<lambda>r. cell t c r \<noteq> SNull) (tb_rows t)) (tb_cols t)"

definition keys_ok :: "(string, sql_index) dict \<Rightarrow> string \<Rightarrow> sql_table \<Rightarrow> bool" where
  "keys_ok indexes name t =
     (list_all (\<lambda>(_, ix). ix_table ix = name \<and> ix_unique ix \<longrightarrow> unique_on t (ix_parts ix)) indexes \<and>
      (case tb_key t of ColumnKey c \<Rightarrow> unique_on t [Col c] | _ \<Rightarrow> True))"

text \<open>The indexes of a table that is renamed follow it.\<close>

definition retarget :: "string \<Rightarrow> string \<Rightarrow> sql_index \<Rightarrow> sql_index" where
  "retarget a b ix = (if ix_table ix = a then ix\<lparr>ix_table := b\<rparr> else ix)"

fun exec_stmt :: "sql_stmt \<Rightarrow> sql_db \<Rightarrow> sql_error + sql_db" where
  "exec_stmt (DropIndexIfExists n) db = Inr (db\<lparr>db_indexes := dict_del (db_indexes db) n\<rparr>)"
| "exec_stmt (RenameTable a b) db =
     (case dict_get (db_tables db) a of
        None \<Rightarrow> Inl OperationalError
      | Some t \<Rightarrow>
          if dict_has (db_tables db) b \<or> dict_has (db_indexes db) b then Inl OperationalError
          else Inr (db\<lparr>db_tables := dict_set (dict_del (db_tables db) a) b t,
                       db_indexes := map (\<lambda>(n, ix). (n, retarget a b ix)) (db_indexes db)\<rparr>))"
| "exec_stmt (CreateTable if_not_exists n key cols) db =
     (if dict_has (db_tables db) n then (if if_not_exists then Inr db else Inl OperationalError)
      else if dict_has (db_indexes db) n then Inl OperationalError
      else Inr (db\<lparr>db_tables := dict_set (db_tables db) n \<lparr>tb_key = key, tb_cols = cols, tb_seq = 0, tb_rows = []\<rparr>\<rparr>))"
| "exec_stmt (CreateIndex unique if_not_exists n tn parts) db =
     (case dict_get (db_tables db) tn of
        None \<Rightarrow> Inl OperationalError
      | Some t \<Rightarrow>
          if dict_has (db_tables db) n then Inl OperationalError
          else if dict_has (db_indexes db) n then (if if_not_exists then Inr db else Inl OperationalError)
          else if \<not> list_all (\<lambda>p. has_column t (part_column p)) parts then Inl OperationalError
          else if unique \<and> \<not> unique_on t parts then Inl IntegrityError
          else Inr (db\<lparr>db_indexes := dict_set (db_indexes db) n \<lparr>ix_table = tn, ix_unique = unique, ix_parts = parts\<rparr>\<rparr>))"
| "exec_stmt (DropTable n) db =
     (if dict_has (db_tables db) n
      then Inr (db\<lparr>db_tables := dict_del (db_tables db) n,
                   db_indexes := filter (\<lambda>(_, ix). ix_table ix \<noteq> n) (db_indexes db)\<rparr>)
      else Inl OperationalError)"
| "exec_stmt (AddColumn n c) db =
     (case dict_get (db_tables db) n of
        None \<Rightarrow> Inl OperationalError
      | Some t \<Rightarrow> if has_column t c then Inl OperationalError
          else Inr (db\<lparr>db_tables := dict_set (db_tables db) n (t\<lparr>tb_cols := tb_cols t @ [(c, False)]\<rparr>)\<rparr>))"
| "exec_stmt (InsertSelect dst cs src) db =
     (case (dict_get (db_tables db) dst, dict_get (db_tables db) src) of
        (Some d, Some s) \<Rightarrow>
          if \<not> list_all (\<lambda>c. has_column d c \<and> has_column s c) cs then Inl OperationalError
          else let d' = fold (\<lambda>r. insert_row (map (\<lambda>c. (c, cell s c r)) cs)) (tb_rows s) d
               in if not_null_ok d' \<and> keys_ok (db_indexes db) dst d'
                  then Inr (db\<lparr>db_tables := dict_set (db_tables db) dst d'\<rparr>)
                  else Inl IntegrityError
      | _ \<Rightarrow> Inl OperationalError)"

section \<open>The connection\<close>

text \<open>What the connection sees, what is on disk, and whether a transaction is open.\<close>

record sql_conn =
  cn_work :: sql_db
  cn_disk :: sql_db
  cn_txn :: bool

definition sql_connect :: "sql_db \<Rightarrow> sql_conn" where
  "sql_connect file = \<lparr>cn_work = file, cn_disk = file, cn_txn = False\<rparr>"

datatype sql_call = Execute sql_stmt | Commit | SetUserVersion int

fun changes_rows :: "sql_stmt \<Rightarrow> bool" where
  "changes_rows (InsertSelect _ _ _) = True"
| "changes_rows _ = False"

definition see :: "bool \<Rightarrow> sql_db \<Rightarrow> sql_conn \<Rightarrow> sql_conn" where
  "see txn db c = \<lparr>cn_work = db, cn_disk = (if txn then cn_disk c else db), cn_txn = txn\<rparr>"

fun run_call :: "sql_call \<Rightarrow> sql_conn \<Rightarrow> sql_error + sql_conn" where
  "run_call (Execute st) c =
     (case exec_stmt st (cn_work c) of
        Inl e \<Rightarrow> Inl e
      | Inr db \<Rightarrow> Inr (see (cn_txn c \<or> changes_rows st) db c))"
| "run_call Commit c = Inr (see False (cn_work c) c)"
| "run_call (SetUserVersion v) c = Inr (see (cn_txn c) ((cn_work c)\<lparr>db_version := v\<rparr>) c)"

text \<open>A call that raises ends the start of the server; what is on disk then is what earlier calls left there.\<close>

fun run_calls :: "sql_call list \<Rightarrow> sql_conn \<Rightarrow> (sql_error + unit) \<times> sql_conn" where
  "run_calls [] c = (Inr (), c)"
| "run_calls (k # ks) c = (case run_call k c of Inl e \<Rightarrow> (Inl e, c) | Inr c' \<Rightarrow> run_calls ks c')"

section \<open>The SQL scripts\<close>

abbreviation col :: "string \<Rightarrow> string \<times> bool" where
  "col c \<equiv> (c, False)"

abbreviation col_not_null :: "string \<Rightarrow> string \<times> bool" where
  "col_not_null c \<equiv> (c, True)"

definition invite_tokens_sql :: "sql_stmt list" where
  "invite_tokens_sql =
     [CreateTable True ''invite_tokens'' RowidKey
        [col ''id'', col_not_null ''medium'', col_not_null ''address'', col_not_null ''room_id'', col_not_null ''sender'',
         col_not_null ''token'', col ''received_ts'', col ''sent_ts''],
      CreateIndex False True ''invite_token_medium_address'' ''invite_tokens'' [Col ''medium'', Col ''address''],
      CreateIndex False True ''invite_token_token'' ''invite_tokens'' [Col ''token''],
      CreateTable True ''ephemeral_public_keys'' RowidKey
        [col ''id'', col_not_null ''public_key'', col ''verify_count'', col ''persistence_ts''],
      CreateIndex True True ''ephemeral_public_keys_index'' ''ephemeral_public_keys'' [Col ''public_key'']]"

definition peers_sql :: "sql_stmt list" where
  "peers_sql =
     [CreateTable True ''peers'' RowidKey
        [col ''id'', col_not_null ''name'', col ''port'', col ''lastSentVersion'', col ''lastPokeSucceededAt'',
         col_not_null ''active''],
      CreateIndex True True ''name'' ''peers'' [Col ''name''],
      CreateTable True ''peer_pubkeys'' RowidKey
        [col ''id'', col_not_null ''peername'', col_not_null ''alg'', col_not_null ''key''],
      CreateIndex True True ''peername_alg'' ''peer_pubkeys'' [Col ''peername'', Col ''alg'']]"

definition threepid_associations_sql :: "sql_stmt list" where
  "threepid_associations_sql =
     [CreateTable True ''local_threepid_associations'' RowidKey
        [col ''id'', col_not_null ''medium'', col_not_null ''address'', col_not_null ''mxid'', col_not_null ''ts'',
         col_not_null ''notBefore'', col_not_null ''notAfter''],
      CreateTable True ''global_threepid_associations'' RowidKey
        [col ''id'', col_not_null ''medium'', col_not_null ''address'', col_not_null ''mxid'', col_not_null ''ts'',
         col_not_null ''notBefore'', col_not_null ''notAfter'', col_not_null ''originServer'', col_not_null ''originId'',
         col_not_null ''sgAssoc''],
      CreateIndex True True ''originServer_originId'' ''global_threepid_associations'' [Col ''originServer'', Col ''originId'']]"

definition threepid_validation_sql :: "sql_stmt list" where
  "threepid_validation_sql =
     [CreateTable True ''threepid_validation_sessions'' RowidKey
        [col ''id'', col_not_null ''medium'', col_not_null ''address'', col_not_null ''clientSecret'', col ''validated'',
         col_not_null ''mtime''],
      CreateTable True ''threepid_token_auths'' RowidKey
        [col ''id'', col_not_null ''validationSession'', col_not_null ''token'', col_not_null ''sendAttemptNumber'']]"

definition sql_files :: "(string \<times> sql_stmt list) list" where
  "sql_files =
     [(''invite_tokens.sql'', invite_tokens_sql), (''peers.sql'', peers_sql),
      (''threepid_associations.sql'', threepid_associations_sql), (''threepid_validation.sql'', threepid_validation_sql)]"

text \<open>The text of a file; the directory holds no SQL scripts but these four.\<close>

definition script_of :: "string \<Rightarrow> sql_stmt list" where
  "script_of f = (case map_of sql_files f of None \<Rightarrow> [] | Some s \<Rightarrow> s)"

text \<open>\<open>listing\<close> is what \<open>os.listdir\<close> returns for the directory, in any order. \<open>executescript\<close> commits first.\<close>

definition create_calls :: "string list \<Rightarrow> sql_call list" where
  "create_calls listing =
     concat (map (\<lambda>f. if endswith f ''.sql'' then Commit # map Execute (script_of f) else []) listing) @ [Commit]"

section \<open>Upgrades\<close>

abbreviation assoc_cols :: "string list" where
  "assoc_cols \<equiv> [''medium'', ''address'', ''mxid'', ''ts'', ''notBefore'', ''notAfter'']"

abbreviation global_cols :: "string list" where
  "global_cols \<equiv> [''medium'', ''address'', ''mxid'', ''ts'', ''notBefore'', ''notAfter'', ''originServer'', ''originId'', ''sgAssoc'']"

definition local_to_v1 :: "sql_call list" where
  "local_to_v1 =
     [Execute (DropIndexIfExists ''medium_address''),
      Execute (DropIndexIfExists ''local_threepid_medium_address''),
      Execute (RenameTable ''local_threepid_associations'' ''old_local_threepid_associations''),
      Execute (CreateTable False ''local_threepid_associations'' AutoKey
        [col ''id'', col_not_null ''medium'', col_not_null ''address'', col ''mxid'', col ''ts'', col ''notBefore'', col ''notAfter'']),
      Execute (InsertSelect ''local_threepid_associations'' assoc_cols ''old_local_threepid_associations''),
      Execute (CreateIndex True False ''local_threepid_medium_address'' ''local_threepid_associations'' [Col ''medium'', Col ''address'']),
      Execute (DropTable ''old_local_threepid_associations'')]"

definition global_to_v1 :: "sql_call list" where
  "global_to_v1 =
     [Execute (DropIndexIfExists ''global_threepid_medium_address''),
      Execute (DropIndexIfExists ''global_threepid_medium_lower_address''),
      Execute (DropIndexIfExists ''global_threepid_originServer_originId''),
      Execute (DropIndexIfExists ''medium_lower_address''),
      Execute (DropIndexIfExists ''threepid_originServer_originId''),
      Execute (RenameTable ''global_threepid_associations'' ''old_global_threepid_associations''),
      Execute (CreateTable True ''global_threepid_associations'' AutoKey
        [col ''id'', col_not_null ''medium'', col_not_null ''address'', col_not_null ''mxid'', col_not_null ''ts'',
         col_not_null ''notBefore'', col_not_null ''notAfter'', col_not_null ''originServer'', col_not_null ''originId'',
         col_not_null ''sgAssoc'']),
      Execute (InsertSelect ''global_threepid_associations'' global_cols ''old_global_threepid_associations''),
      Execute (CreateIndex False False ''global_threepid_medium_address'' ''global_threepid_associations'' [Col ''medium'', Col ''address'']),
      Execute (CreateIndex False False ''global_threepid_medium_lower_address'' ''global_threepid_associations'' [Col ''medium'', Lower ''address'']),
      Execute (CreateIndex True False ''global_threepid_originServer_originId'' ''global_threepid_associations'' [Col ''originServer'', Col ''originId'']),
      Execute (DropTable ''old_global_threepid_associations'')]"

definition to_v1 :: "sql_call list" where
  "to_v1 = local_to_v1 @ global_to_v1 @ [Commit, SetUserVersion 1]"

definition to_v2 :: "sql_call list" where
  "to_v2 =
     [Execute (CreateIndex False False ''threepid_validation_sessions_mtime'' ''threepid_validation_sessions'' [Col ''mtime'']),
      Commit, SetUserVersion 2]"

definition to_v3 :: "sql_call list" where
  "to_v3 =
     [Execute (AddColumn ''local_threepid_associations'' ''lookup_hash''),
      Execute (AddColumn ''global_threepid_associations'' ''lookup_hash''),
      Execute (CreateIndex False True ''lookup_hash_medium'' ''global_threepid_associations'' [Col ''lookup_hash'', Col ''medium'']),
      Execute (CreateTable True ''hashing_metadata'' RowidKey [col ''id'', col ''lookup_pepper'']),
      Commit, SetUserVersion 3]"

definition to_v4 :: "sql_call list" where
  "to_v4 =
     [Execute (CreateTable False ''accounts'' (ColumnKey ''user_id'')
        [col_not_null ''user_id'', col_not_null ''created_ts'', col ''consent_version'']),
      Execute (CreateTable False ''tokens'' (ColumnKey ''token'') [col_not_null ''token'', col_not_null ''user_id'']),
      Execute (CreateTable False ''accepted_terms_urls'' NoKey [col_not_null ''user_id'', col_not_null ''url'']),
      Execute (CreateIndex True False ''accepted_terms_urls_idx'' ''accepted_terms_urls'' [Col ''user_id'', Col ''url'']),
      Commit, SetUserVersion 4]"

definition to_v5 :: "sql_call list" where
  "to_v5 =
     [Execute (DropIndexIfExists ''lookup_hash_medium''),
      Execute (CreateIndex False False ''global_threepid_lookup_hash'' ''global_threepid_associations'' [Col ''lookup_hash'']),
      Commit, SetUserVersion 5]"

definition upgrade_calls :: "int \<Rightarrow> sql_call list" where
  "upgrade_calls curVer =
     (if curVer < 1 then to_v1 else []) @ (if curVer < 2 then to_v2 else []) @ (if curVer < 3 then to_v3 else []) @
     (if curVer < 4 then to_v4 else []) @ (if curVer < 5 then to_v5 else [])"

definition start_calls :: "string list \<Rightarrow> sql_db \<Rightarrow> sql_call list" where
  "start_calls listing file =
     (if db_version file = 0 then create_calls listing else []) @ upgrade_calls (db_version file)"

definition SqliteDatabase_init :: "string list \<Rightarrow> sql_db \<Rightarrow> (sql_error + unit) \<times> sql_conn" where
  "SqliteDatabase_init listing file = run_calls (start_calls listing file) (sql_connect file)"

section \<open>Running calls\<close>

lemma run_calls_append:
  "run_calls (ks @ ls) c = (case run_calls ks c of (Inl e, c') \<Rightarrow> (Inl e, c') | (Inr _, c') \<Rightarrow> run_calls ls c')"
  by (induction ks c rule: run_calls.induct) (auto split: sum.splits)

text \<open>What holds of the disk after any number of calls, so whenever the process dies.\<close>

definition always :: "(sql_db \<Rightarrow> bool) \<Rightarrow> sql_call list \<Rightarrow> sql_conn \<Rightarrow> bool" where
  "always P ks c = (\<forall>k. P (cn_disk (snd (run_calls (take k ks) c))))"

lemma always_Nil [simp]: "always P [] c = P (cn_disk c)"
  by (simp add: always_def)

lemma always_Cons:
  "always P (k # ks) c = (P (cn_disk c) \<and> (case run_call k c of Inl _ \<Rightarrow> True | Inr c' \<Rightarrow> always P ks c'))"
proof (cases "run_call k c")
  case (Inl e)
  then show ?thesis
    unfolding always_def by (auto simp: take_Cons split: nat.splits)
next
  case (Inr c')
  then have "P (cn_disk (snd (run_calls (take n (k # ks)) c)))
      = (case n of 0 \<Rightarrow> P (cn_disk c) | Suc m \<Rightarrow> P (cn_disk (snd (run_calls (take m ks) c'))))" for n
    by (simp add: take_Cons split: nat.splits)
  then show ?thesis
    unfolding always_def by (simp add: Inr) (metis (no_types, lifting) nat.exhaust nat.simps(4,5))
qed

lemma always_append:
  "always P ks c \<Longrightarrow> (\<And>u c'. run_calls ks c = (Inr u, c') \<Longrightarrow> always P ls c') \<Longrightarrow> always P (ks @ ls) c"
  by (induction ks c rule: run_calls.induct) (auto simp: always_Cons split: sum.splits)

text \<open>Inside a transaction the disk stays as it is.\<close>

fun is_execute :: "sql_call \<Rightarrow> bool" where
  "is_execute (Execute _) = True"
| "is_execute _ = False"

lemma always_in_txn:
  "list_all is_execute ks \<Longrightarrow> cn_txn c \<Longrightarrow> P (cn_disk c) \<Longrightarrow> always P ks c"
proof (induction ks arbitrary: c)
  case (Cons k ks)
  then obtain st where k: "k = Execute st" by (cases k) auto
  have "cn_txn c' \<and> cn_disk c' = cn_disk c" if "run_call k c = Inr c'" for c'
    using that Cons.prems(2) by (auto simp: k see_def split: sum.splits)
  with Cons show ?case by (auto simp: always_Cons split: sum.splits)
qed simp

section \<open>Rows that are copied\<close>

definition values_of :: "sql_table \<Rightarrow> string list \<Rightarrow> sql_value list list" where
  "values_of t cs = map (\<lambda>r. map (\<lambda>c. cell t c r) cs) (tb_rows t)"

definition table_values :: "sql_db \<Rightarrow> string \<Rightarrow> string list \<Rightarrow> sql_value list list" where
  "table_values db n cs = (case dict_get (db_tables db) n of None \<Rightarrow> [] | Some t \<Rightarrow> values_of t cs)"

definition copy_rows :: "string list \<Rightarrow> sql_table \<Rightarrow> sql_table \<Rightarrow> sql_table" where
  "copy_rows cs s d = fold (\<lambda>r. insert_row (map (\<lambda>c. (c, cell s c r)) cs)) (tb_rows s) d"

lemma fold_max_ids: "fold max (map int [1..<Suc n]) (0::int) = int n"
  by (induction n) auto

lemma insert_row_numbered:
  assumes "tb_key t = AutoKey" and "tb_seq t = int k" and "map sr_id (tb_rows t) = map int [1..<Suc k]"
  shows "insert_row cells t = t\<lparr>tb_rows := tb_rows t @ [\<lparr>sr_id = int (Suc k), sr_cells = cells\<rparr>], tb_seq := int (Suc k)\<rparr>"
proof -
  have "next_rowid t = int (Suc k)" unfolding next_rowid_def assms(3) fold_max_ids by (simp add: assms)
  then show ?thesis by (simp add: insert_row_def assms(1) Let_def)
qed

lemma fold_insert_rows:
  assumes "tb_key d = AutoKey" and "tb_rows d = []" and "tb_seq d = 0"
  shows "fold (\<lambda>r. insert_row (f r)) rs d =
    d\<lparr>tb_rows := map2 (\<lambda>i r. \<lparr>sr_id = int i, sr_cells = f r\<rparr>) [1..<Suc (length rs)] rs, tb_seq := int (length rs)\<rparr>"
proof (induction rs rule: rev_induct)
  case Nil
  with assms show ?case by simp
next
  case (snoc r rs)
  let ?mk = "\<lambda>i r. \<lparr>sr_id = int i, sr_cells = f r\<rparr>"
  let ?d = "d\<lparr>tb_rows := map2 ?mk [1..<Suc (length rs)] rs, tb_seq := int (length rs)\<rparr>"
  have "map sr_id (tb_rows ?d) = map int [1..<Suc (length rs)]"
    by (rule nth_equalityI) (auto simp del: upt_Suc)
  then have "insert_row (f r) ?d = ?d\<lparr>tb_rows := tb_rows ?d @ [?mk (Suc (length rs)) r], tb_seq := int (Suc (length rs))\<rparr>"
    using assms(1) by (intro insert_row_numbered) simp_all
  moreover have "[1..<Suc (length (rs @ [r]))] = [1..<Suc (length rs)] @ [Suc (length rs)]" by simp
  ultimately show ?case by (simp add: snoc del: upt_Suc)
qed

lemma map_map2_snd:
  "length is = length xs \<Longrightarrow> (\<And>i x. f (g i x) = h x) \<Longrightarrow> map f (map2 g is xs) = map h xs"
  by (rule nth_equalityI) auto

text \<open>The table the rows are copied to is new, and its key is not copied.\<close>

definition fresh_target :: "sql_table \<Rightarrow> string list \<Rightarrow> bool" where
  "fresh_target d cs = (tb_key d = AutoKey \<and> tb_rows d = [] \<and> tb_seq d = 0 \<and> ''id'' \<notin> set cs)"

lemma copy_rows_eq:
  "fresh_target d cs \<Longrightarrow> copy_rows cs s d = d\<lparr>tb_rows :=
     map2 (\<lambda>i r. \<lparr>sr_id = int i, sr_cells = map (\<lambda>c. (c, cell s c r)) cs\<rparr>) [1..<Suc (length (tb_rows s))] (tb_rows s),
     tb_seq := int (length (tb_rows s))\<rparr>"
  unfolding copy_rows_def by (rule fold_insert_rows) (simp_all add: fresh_target_def)

lemma copy_rows_shape:
  assumes "fresh_target d cs"
  shows "tb_key (copy_rows cs s d) = AutoKey" "tb_cols (copy_rows cs s d) = tb_cols d"
    "tb_seq (copy_rows cs s d) = int (length (tb_rows s))"
    "map sr_id (tb_rows (copy_rows cs s d)) = map int [1..<Suc (length (tb_rows s))]"
  using assms unfolding copy_rows_eq [OF assms] fresh_target_def
  by (auto intro!: nth_equalityI simp del: upt_Suc)

lemma copied_part:
  assumes d: "fresh_target d cs" and p: "part_column p \<in> set cs"
  shows "part_value (copy_rows cs s d) p \<lparr>sr_id = i, sr_cells = map (\<lambda>c. (c, cell s c r)) cs\<rparr> = part_value s p r"
proof -
  have "map_of (map (\<lambda>c. (c, cell s c r)) cs) c = Some (cell s c r)" if "c \<in> set cs" for c
    using that by (simp add: map_of_map_restrict)
  moreover have "part_column p \<noteq> ''id''" using d p by (auto simp: fresh_target_def)
  ultimately show ?thesis using p by (cases p) (auto simp: cell_def)
qed

lemma copied_parts:
  assumes "fresh_target d cs" and "\<forall>p \<in> set ps. part_column p \<in> set cs"
  shows "map (\<lambda>r. map (\<lambda>p. part_value (copy_rows cs s d) p r) ps) (tb_rows (copy_rows cs s d)) =
    map (\<lambda>r. map (\<lambda>p. part_value s p r) ps) (tb_rows s)"
proof -
  let ?rows = "map2 (\<lambda>i r. \<lparr>sr_id = int i, sr_cells = map (\<lambda>c. (c, cell s c r)) cs\<rparr>) [1..<Suc (length (tb_rows s))] (tb_rows s)"
  have "map (\<lambda>r. map (\<lambda>p. part_value (copy_rows cs s d) p r) ps) ?rows = map (\<lambda>r. map (\<lambda>p. part_value s p r) ps) (tb_rows s)"
    using assms by (intro map_map2_snd) (auto simp: copied_part simp del: upt_Suc)
  moreover have "tb_rows (copy_rows cs s d) = ?rows" unfolding copy_rows_eq [OF assms(1)] by simp
  ultimately show ?thesis by metis
qed

lemma copied_unique:
  "fresh_target d cs \<Longrightarrow> \<forall>p \<in> set ps. part_column p \<in> set cs \<Longrightarrow> unique_on (copy_rows cs s d) ps = unique_on s ps"
  unfolding unique_on_def by (simp only: copied_parts)

lemma copied_values:
  assumes "fresh_target d cs" and "set vs \<subseteq> set cs"
  shows "values_of (copy_rows cs s d) vs = values_of s vs"
proof -
  have "\<forall>p \<in> set (map Col vs). part_column p \<in> set cs" using assms(2) by auto
  from copied_parts [OF assms(1) this] show ?thesis by (simp add: values_of_def comp_def)
qed

lemma copied_not_null:
  assumes d: "fresh_target d cs" and nn: "\<forall>(c, nn) \<in> set (tb_cols d). nn \<longrightarrow> c \<in> set cs \<and> (c, True) \<in> set (tb_cols s)"
    and s: "not_null_ok s"
  shows "not_null_ok (copy_rows cs s d)"
proof -
  have "cell (copy_rows cs s d) c r \<noteq> SNull"
    if c: "(c, True) \<in> set (tb_cols d)" and r: "r \<in> set (tb_rows (copy_rows cs s d))" for c r
  proof -
    from c nn have "c \<in> set cs" and sc: "(c, True) \<in> set (tb_cols s)" by auto
    then have "map (\<lambda>r. [cell (copy_rows cs s d) c r]) (tb_rows (copy_rows cs s d)) = map (\<lambda>r. [cell s c r]) (tb_rows s)"
      using copied_parts [OF d, of "[Col c]"] by simp
    moreover have "[cell (copy_rows cs s d) c r] \<in> set (map (\<lambda>r. [cell (copy_rows cs s d) c r]) (tb_rows (copy_rows cs s d)))"
      using r by simp
    ultimately have "[cell (copy_rows cs s d) c r] \<in> set (map (\<lambda>r. [cell s c r]) (tb_rows s))" by metis
    moreover have "\<forall>r \<in> set (tb_rows s). cell s c r \<noteq> SNull"
      using s sc unfolding not_null_ok_def list_all_iff by fastforce
    ultimately show ?thesis by auto
  qed
  then show ?thesis by (auto simp: not_null_ok_def list_all_iff copy_rows_shape [OF d])
qed

section \<open>Databases of the first version\<close>

fun table_made :: "sql_stmt \<Rightarrow> (string \<times> primary_key \<times> (string \<times> bool) list) list" where
  "table_made (CreateTable _ n key cols) = [(n, key, cols)]"
| "table_made _ = []"

fun index_made :: "sql_stmt \<Rightarrow> (string \<times> sql_index) list" where
  "index_made (CreateIndex u _ n tn parts) = [(n, \<lparr>ix_table = tn, ix_unique = u, ix_parts = parts\<rparr>)]"
| "index_made _ = []"

definition v0_tables :: "(string \<times> primary_key \<times> (string \<times> bool) list) list" where
  "v0_tables = concat (map table_made (concat (map snd sql_files)))"

definition v0_indexes :: "(string \<times> sql_index) list" where
  "v0_indexes = concat (map index_made (concat (map snd sql_files)))"

text \<open>Indexes that databases of early releases may still have, and that the first upgrade drops.\<close>

definition superseded :: "string list" where
  "superseded =
     [''medium_address'', ''local_threepid_medium_address'', ''global_threepid_medium_address'',
      ''global_threepid_medium_lower_address'', ''global_threepid_originServer_originId'', ''medium_lower_address'',
      ''threepid_originServer_originId'']"

definition rows_ok :: "sql_db \<Rightarrow> string \<Rightarrow> key_part list \<Rightarrow> bool" where
  "rows_ok db n parts = (case dict_get (db_tables db) n of None \<Rightarrow> False | Some t \<Rightarrow> not_null_ok t \<and> unique_on t parts)"

definition rows_not_null :: "sql_db \<Rightarrow> string \<Rightarrow> bool" where
  "rows_not_null db n = (case dict_get (db_tables db) n of None \<Rightarrow> False | Some t \<Rightarrow> not_null_ok t)"

text \<open>
  A file with the tables and indexes of the first version. Its rows satisfy the constraints that are declared there: the
  columns that may not be null, and the unique index of the global table. (The scripts declare no unique index
  for the local table.)
\<close>

definition v0_schema :: "sql_db \<Rightarrow> bool" where
  "v0_schema db =
     (db_version db = 0 \<and> dict_wf (db_tables db) \<and> dict_wf (db_indexes db) \<and>
      set (map (\<lambda>(n, t). (n, tb_key t, tb_cols t)) (db_tables db)) = set v0_tables \<and>
      set (filter (\<lambda>(n, _). n \<notin> set superseded) (db_indexes db)) = set v0_indexes \<and>
      list_all (\<lambda>(_, ix). dict_has (db_tables db) (ix_table ix)) (db_indexes db) \<and>
      rows_not_null db ''local_threepid_associations'' \<and>
      rows_ok db ''global_threepid_associations'' [Col ''originServer'', Col ''originId''])"

text \<open>No two rows of the local table are for the same address of the same medium: so it was as long as an index of an
  early release, which may still be in the file, made sure of it.\<close>

definition distinct_addresses :: "sql_db \<Rightarrow> bool" where
  "distinct_addresses db =
     (case dict_get (db_tables db) ''local_threepid_associations'' of
        None \<Rightarrow> False | Some t \<Rightarrow> unique_on t [Col ''medium'', Col ''address''])"

definition v0_file :: "sql_db \<Rightarrow> bool" where
  "v0_file db = (v0_schema db \<and> distinct_addresses db)"

lemma v0_file_iff:
  "v0_file db \<longleftrightarrow>
     db_version db = 0 \<and> dict_wf (db_tables db) \<and> dict_wf (db_indexes db) \<and>
      set (map (\<lambda>(n, t). (n, tb_key t, tb_cols t)) (db_tables db)) = set v0_tables \<and>
      set (filter (\<lambda>(n, _). n \<notin> set superseded) (db_indexes db)) = set v0_indexes \<and>
      list_all (\<lambda>(_, ix). dict_has (db_tables db) (ix_table ix)) (db_indexes db) \<and>
      rows_ok db ''local_threepid_associations'' [Col ''medium'', Col ''address''] \<and>
      rows_ok db ''global_threepid_associations'' [Col ''originServer'', Col ''originId'']"
  unfolding v0_file_def v0_schema_def distinct_addresses_def rows_ok_def rows_not_null_def
  by (auto split: option.splits)

lemma v0_file_schema: "v0_file db \<Longrightarrow> v0_schema db"
  by (simp add: v0_file_def)

lemmas script_defs = sql_files_def invite_tokens_sql_def peers_sql_def threepid_associations_sql_def threepid_validation_sql_def

lemma v0_tables_wf: "dict_wf v0_tables" and v0_indexes_wf: "dict_wf v0_indexes"
  by (simp_all add: v0_tables_def v0_indexes_def script_defs)

lemma schema_table:
  assumes "v0_schema db"
  shows "map_option (\<lambda>t. (tb_key t, tb_cols t)) (dict_get (db_tables db) n) = map_of v0_tables n"
proof -
  let ?d = "map (\<lambda>(n, t). (n, tb_key t, tb_cols t)) (db_tables db)"
  have "map_of ?d = map_of v0_tables"
    using assms v0_tables_wf by (intro map_of_inject_set [THEN iffD2]) (auto simp: v0_schema_def comp_def case_prod_beta)
  moreover have "map_of ?d = map_option (\<lambda>t. (tb_key t, tb_cols t)) \<circ> map_of (db_tables db)"
    by (rule map_of_map)
  ultimately show ?thesis by (metis comp_apply)
qed

lemma map_of_filter_key: "map_of (filter (\<lambda>(n, _). P n) d) n = (if P n then map_of d n else None)"
  by (induction d) auto

lemma schema_index:
  assumes "v0_schema db" and "n \<notin> set superseded"
  shows "dict_get (db_indexes db) n = map_of v0_indexes n"
proof -
  let ?d = "filter (\<lambda>(n, _). n \<notin> set superseded) (db_indexes db)"
  have "map_of ?d = map_of v0_indexes"
    using assms(1) v0_indexes_wf by (intro map_of_inject_set [THEN iffD2]) (auto simp: v0_schema_def intro: distinct_map_filter)
  with assms(2) show ?thesis by (metis map_of_filter_key)
qed

lemma schema_index_table:
  assumes "v0_schema db" and "dict_get (db_indexes db) n = Some ix"
  shows "dict_get (db_tables db) (ix_table ix) \<noteq> None"
  using assms map_of_SomeD [OF assms(2)] by (auto simp: v0_schema_def list_all_iff dict_has_iff)

lemmas v0_table = schema_table [OF v0_file_schema]
lemmas v0_index = schema_index [OF v0_file_schema]
lemmas v0_index_table = schema_index_table [OF v0_file_schema]

section \<open>The first upgrade\<close>

lemma dict_get_retarget:
  "dict_get (map (\<lambda>(n, ix). (n, retarget a b ix)) d) n = map_option (retarget a b) (dict_get d n)"
  by (simp add: map_of_map)

lemma dict_get_filter_value:
  "dict_wf d \<Longrightarrow> dict_get (filter (\<lambda>(_, x). P x) d) n = (case dict_get d n of None \<Rightarrow> None | Some x \<Rightarrow> if P x then Some x else None)"
proof (induction d)
  case (Cons p d)
  have "dict_get (filter Q d) (fst p) = None" for Q
    using Cons.prems by (auto simp: map_of_eq_None_iff)
  with Cons show ?case by (cases p) auto
qed simp

lemma keys_ok_renamed:
  assumes "a \<noteq> b" and "tb_key t = AutoKey"
  shows "keys_ok (map (\<lambda>(n, ix). (n, retarget a b ix)) d) a t"
proof -
  have "ix_table (retarget a b ix) \<noteq> a" for ix
    using assms(1) by (simp add: retarget_def)
  then show ?thesis using assms(2) by (auto simp: keys_ok_def list_all_iff)
qed

text \<open>
  Both halves of the upgrade replace a table by a copy with a new kind of key: the table is renamed, the new one
  created, the rows inserted, indexes created and the old table dropped.
\<close>

definition new_table :: "(string \<times> bool) list \<Rightarrow> sql_table" where
  "new_table cols = \<lparr>tb_key = AutoKey, tb_cols = cols, tb_seq = 0, tb_rows = []\<rparr>"

definition renamed :: "string \<Rightarrow> string \<Rightarrow> sql_table \<Rightarrow> sql_db \<Rightarrow> sql_db" where
  "renamed n old s db = db\<lparr>db_tables := dict_set (dict_del (db_tables db) n) old s,
     db_indexes := map (\<lambda>(i, ix). (i, retarget n old ix)) (db_indexes db)\<rparr>"

definition with_table :: "string \<Rightarrow> sql_table \<Rightarrow> sql_db \<Rightarrow> sql_db" where
  "with_table n t db = db\<lparr>db_tables := dict_set (db_tables db) n t\<rparr>"

definition with_index :: "string \<Rightarrow> sql_index \<Rightarrow> sql_db \<Rightarrow> sql_db" where
  "with_index i ix db = db\<lparr>db_indexes := dict_set (db_indexes db) i ix\<rparr>"

definition without_index :: "string \<Rightarrow> sql_db \<Rightarrow> sql_db" where
  "without_index i db = db\<lparr>db_indexes := dict_del (db_indexes db) i\<rparr>"

definition without_table :: "string \<Rightarrow> sql_db \<Rightarrow> sql_db" where
  "without_table n db = db\<lparr>db_tables := dict_del (db_tables db) n,
     db_indexes := filter (\<lambda>(_, ix). ix_table ix \<noteq> n) (db_indexes db)\<rparr>"

definition db_wf :: "sql_db \<Rightarrow> bool" where
  "db_wf db = (dict_wf (db_tables db) \<and> dict_wf (db_indexes db))"

abbreviation tbl :: "sql_db \<Rightarrow> string \<Rightarrow> sql_table option" where
  "tbl db \<equiv> dict_get (db_tables db)"

abbreviation idx :: "sql_db \<Rightarrow> string \<Rightarrow> sql_index option" where
  "idx db \<equiv> dict_get (db_indexes db)"

lemmas edits = renamed_def with_table_def with_index_def without_index_def without_table_def

lemma edit_tables [simp]:
  "tbl (renamed n old s db) = (tbl db)(n := None, old \<mapsto> s)" "tbl (with_table n t db) = (tbl db)(n \<mapsto> t)"
  "tbl (with_index i ix db) = tbl db" "tbl (without_index i db) = tbl db"
  "tbl (without_table n db) = (tbl db)(n := None)"
  by (simp_all add: edits dict_get_del)

lemma edit_indexes [simp]:
  "idx (renamed n old s db) i = map_option (retarget n old) (idx db i)" "idx (with_table n t db) = idx db"
  "idx (with_index j ix db) = (idx db)(j \<mapsto> ix)" "idx (without_index j db) = (idx db)(j := None)"
  "db_wf db \<Longrightarrow> idx (without_table n db) i =
     (case idx db i of None \<Rightarrow> None | Some x \<Rightarrow> if ix_table x = n then None else Some x)"
  by (simp_all add: edits dict_get_del dict_get_retarget db_wf_def dict_get_filter_value split: option.splits)

lemma edit_version [simp]:
  "db_version (renamed n old s db) = db_version db" "db_version (with_table n t db) = db_version db"
  "db_version (with_index i ix db) = db_version db" "db_version (without_index i db) = db_version db"
  "db_version (without_table n db) = db_version db"
  by (simp_all add: edits)

lemma edit_wf [simp]:
  assumes "db_wf db"
  shows "db_wf (renamed n old s db)" "db_wf (with_table n t db)" "db_wf (with_index i ix db)" "db_wf (without_index i db)"
    "db_wf (without_table n db)"
  using assms by (simp_all add: db_wf_def edits dict_wf_del distinct_map_filter) (simp add: comp_def case_prod_beta)

lemma exec_steps:
  "tbl db n = Some s \<Longrightarrow> tbl db old = None \<Longrightarrow> idx db old = None \<Longrightarrow> exec_stmt (RenameTable n old) db = Inr (renamed n old s db)"
  "tbl db n = None \<Longrightarrow> idx db n = None \<Longrightarrow>
     exec_stmt (CreateTable ine n key cols) db = Inr (with_table n \<lparr>tb_key = key, tb_cols = cols, tb_seq = 0, tb_rows = []\<rparr> db)"
  "tbl db tn = Some t \<Longrightarrow> tbl db i = None \<Longrightarrow> idx db i = None \<Longrightarrow> list_all (\<lambda>p. has_column t (part_column p)) ps \<Longrightarrow>
     (u \<longrightarrow> unique_on t ps) \<Longrightarrow>
     exec_stmt (CreateIndex u ine i tn ps) db = Inr (with_index i \<lparr>ix_table = tn, ix_unique = u, ix_parts = ps\<rparr> db)"
  "tbl db n = Some t \<Longrightarrow> exec_stmt (DropTable n) db = Inr (without_table n db)"
  "exec_stmt (DropIndexIfExists i) db = Inr (without_index i db)"
  "tbl db n = Some t \<Longrightarrow> \<not> has_column t c \<Longrightarrow>
     exec_stmt (AddColumn n c) db = Inr (with_table n (t\<lparr>tb_cols := tb_cols t @ [(c, False)]\<rparr>) db)"
  by (auto simp: dict_has_iff edits)

lemma exec_copy:
  assumes "tbl db n = Some d" and "tbl db old = Some s" and "list_all (\<lambda>c. has_column d c \<and> has_column s c) cs"
    and "not_null_ok (copy_rows cs s d)" and "keys_ok (db_indexes db) n (copy_rows cs s d)"
  shows "exec_stmt (InsertSelect n cs old) db = Inr (with_table n (copy_rows cs s d) db)"
  using assms by (simp add: Let_def with_table_def flip: copy_rows_def)

lemma exec_new_table:
  "tbl db n = None \<Longrightarrow> idx db n = None \<Longrightarrow> exec_stmt (CreateTable ine n AutoKey cols) db = Inr (with_table n (new_table cols) db)"
  unfolding new_table_def by (rule exec_steps(2))

abbreviation local_v1_cols :: "(string \<times> bool) list" where
  "local_v1_cols \<equiv> [col ''id'', col_not_null ''medium'', col_not_null ''address'', col ''mxid'', col ''ts'', col ''notBefore'', col ''notAfter'']"

abbreviation global_v1_cols :: "(string \<times> bool) list" where
  "global_v1_cols \<equiv> [col ''id'', col_not_null ''medium'', col_not_null ''address'', col_not_null ''mxid'', col_not_null ''ts'',
     col_not_null ''notBefore'', col_not_null ''notAfter'', col_not_null ''originServer'', col_not_null ''originId'', col_not_null ''sgAssoc'']"

text \<open>The database when the local table has been renamed, when the new one is there, and at the end of the first half.\<close>

definition local_moved :: "sql_table \<Rightarrow> sql_db \<Rightarrow> sql_db" where
  "local_moved s db = renamed ''local_threepid_associations'' ''old_local_threepid_associations'' s
     (without_index ''local_threepid_medium_address'' (without_index ''medium_address'' db))"

definition local_split :: "sql_table \<Rightarrow> sql_db \<Rightarrow> sql_db" where
  "local_split s db = with_table ''local_threepid_associations'' (new_table local_v1_cols) (local_moved s db)"

definition local_done :: "sql_table \<Rightarrow> sql_db \<Rightarrow> sql_db" where
  "local_done s db = without_table ''old_local_threepid_associations''
     (with_index ''local_threepid_medium_address''
        \<lparr>ix_table = ''local_threepid_associations'', ix_unique = True, ix_parts = [Col ''medium'', Col ''address'']\<rparr>
        (with_table ''local_threepid_associations'' (copy_rows assoc_cols s (new_table local_v1_cols)) (local_split s db)))"

definition v0_assoc_table :: "(string \<times> bool) list \<Rightarrow> key_part list \<Rightarrow> sql_table \<Rightarrow> bool" where
  "v0_assoc_table cols ps s = (tb_cols s = cols \<and> not_null_ok s \<and> unique_on s ps)"

abbreviation v0_local_cols :: "(string \<times> bool) list" where
  "v0_local_cols \<equiv> [col ''id'', col_not_null ''medium'', col_not_null ''address'', col_not_null ''mxid'',
     col_not_null ''ts'', col_not_null ''notBefore'', col_not_null ''notAfter'']"

abbreviation v0_local_table :: "sql_table \<Rightarrow> bool" where
  "v0_local_table \<equiv> v0_assoc_table v0_local_cols [Col ''medium'', Col ''address'']"

abbreviation v0_global_table :: "sql_table \<Rightarrow> bool" where
  "v0_global_table \<equiv> v0_assoc_table global_v1_cols [Col ''originServer'', Col ''originId'']"

lemma fresh_new_table [simp]: "''id'' \<notin> set cs \<Longrightarrow> fresh_target (new_table cols) cs"
  by (simp add: fresh_target_def new_table_def)

lemma tb_cols_new_table [simp]: "tb_cols (new_table cols) = cols"
  by (simp add: new_table_def)

lemma local_copy:
  assumes "tb_cols s = v0_local_cols" and "not_null_ok s"
  shows "not_null_ok (copy_rows assoc_cols s (new_table local_v1_cols))"
    "unique_on (copy_rows assoc_cols s (new_table local_v1_cols)) [Col ''medium'', Col ''address''] =
      unique_on s [Col ''medium'', Col ''address'']"
  using assms by (auto intro!: copied_not_null simp: copied_unique)

lemma global_copy:
  assumes "v0_global_table s"
  shows "not_null_ok (copy_rows global_cols s (new_table global_v1_cols))"
    "unique_on (copy_rows global_cols s (new_table global_v1_cols)) [Col ''originServer'', Col ''originId'']"
  using assms by (auto intro!: copied_not_null simp: copied_unique v0_assoc_table_def)

lemma keys_ok_moved:
  "tb_key t = AutoKey \<Longrightarrow> n \<noteq> old \<Longrightarrow> keys_ok (db_indexes (with_table n d (renamed n old s db))) n t"
  by (simp add: edits keys_ok_renamed)

lemma local_copy_steps:
  assumes "tb_cols s = v0_local_cols" and "not_null_ok s" and "tbl db ''local_threepid_associations'' = Some s"
    and "tbl db ''old_local_threepid_associations'' = None"
    and "idx db ''old_local_threepid_associations'' = None" "idx db ''local_threepid_associations'' = None"
  shows "exec_stmt (RenameTable ''local_threepid_associations'' ''old_local_threepid_associations'')
      (without_index ''local_threepid_medium_address'' (without_index ''medium_address'' db)) = Inr (local_moved s db)"
    "exec_stmt (CreateTable False ''local_threepid_associations'' AutoKey local_v1_cols) (local_moved s db) = Inr (local_split s db)"
    "exec_stmt (InsertSelect ''local_threepid_associations'' assoc_cols ''old_local_threepid_associations'') (local_split s db)
      = Inr (with_table ''local_threepid_associations'' (copy_rows assoc_cols s (new_table local_v1_cols)) (local_split s db))"
proof -
  let ?t = "copy_rows assoc_cols s (new_table local_v1_cols)"
  show "exec_stmt (RenameTable ''local_threepid_associations'' ''old_local_threepid_associations'')
      (without_index ''local_threepid_medium_address'' (without_index ''medium_address'' db)) = Inr (local_moved s db)"
    unfolding local_moved_def by (rule exec_steps(1)) (simp_all add: assms)
  show "exec_stmt (CreateTable False ''local_threepid_associations'' AutoKey local_v1_cols) (local_moved s db) = Inr (local_split s db)"
    unfolding local_split_def by (rule exec_new_table) (simp_all add: assms local_moved_def)
  show "exec_stmt (InsertSelect ''local_threepid_associations'' assoc_cols ''old_local_threepid_associations'') (local_split s db)
      = Inr (with_table ''local_threepid_associations'' ?t (local_split s db))"
  proof (rule exec_copy)
    show "list_all (\<lambda>c. has_column (new_table local_v1_cols) c \<and> has_column s c) assoc_cols"
      using assms(1) by (simp add: has_column_def)
    show "keys_ok (db_indexes (local_split s db)) ''local_threepid_associations'' ?t"
      unfolding local_split_def local_moved_def by (rule keys_ok_moved) (simp_all add: copy_rows_shape)
  qed (simp_all add: assms local_split_def local_moved_def local_copy [OF assms(1,2)])
qed

text \<open>With two local rows of the same address the unique index cannot be created.\<close>

lemma run_local_duplicates:
  assumes "tb_cols s = v0_local_cols" and "not_null_ok s" and "\<not> unique_on s [Col ''medium'', Col ''address'']"
    and "tbl db ''local_threepid_associations'' = Some s"
    and "tbl db ''old_local_threepid_associations'' = None" "tbl db ''local_threepid_medium_address'' = None"
    and "idx db ''old_local_threepid_associations'' = None" "idx db ''local_threepid_associations'' = None"
  shows "fst (run_calls local_to_v1 (sql_connect db)) = Inl IntegrityError"
proof -
  let ?t = "copy_rows assoc_cols s (new_table local_v1_cols)"
  note steps = local_copy_steps [OF assms(1,2,4,5,7,8)]
  let ?d = "with_table ''local_threepid_associations'' ?t (local_split s db)"
  have cols: "has_column ?t ''medium''" "has_column ?t ''address''"
    using copy_rows_shape(2) [of "new_table local_v1_cols" assoc_cols s] by (simp_all add: has_column_def)
  have "tbl ?d ''local_threepid_associations'' = Some ?t" "tbl ?d ''local_threepid_medium_address'' = None"
    "idx ?d ''local_threepid_medium_address'' = None"
    using assms(6) by (simp_all add: local_split_def local_moved_def)
  then have "exec_stmt (CreateIndex True False ''local_threepid_medium_address'' ''local_threepid_associations''
      [Col ''medium'', Col ''address'']) ?d = Inl IntegrityError"
    using assms(3) cols local_copy(2) [OF assms(1,2)] by (simp add: dict_has_iff)
  with steps show ?thesis
    by (simp add: local_to_v1_def sql_connect_def see_def exec_steps(5) del: exec_stmt.simps)
qed

lemma run_local_to_v1:
  assumes "v0_local_table s" and "tbl db ''local_threepid_associations'' = Some s"
    and "tbl db ''old_local_threepid_associations'' = None" "tbl db ''local_threepid_medium_address'' = None"
    and "idx db ''old_local_threepid_associations'' = None" "idx db ''local_threepid_associations'' = None"
  shows "run_calls local_to_v1 (sql_connect db) = (Inr (), \<lparr>cn_work = local_done s db, cn_disk = local_split s db, cn_txn = True\<rparr>)"
    and "P db \<Longrightarrow> P (without_index ''medium_address'' db) \<Longrightarrow>
      P (without_index ''local_threepid_medium_address'' (without_index ''medium_address'' db)) \<Longrightarrow>
      P (local_moved s db) \<Longrightarrow> P (local_split s db) \<Longrightarrow> always P local_to_v1 (sql_connect db)"
proof -
  let ?t = "copy_rows assoc_cols s (new_table local_v1_cols)"
  have s: "tb_cols s = v0_local_cols" "not_null_ok s" "unique_on s [Col ''medium'', Col ''address'']"
    using assms(1) by (simp_all add: v0_assoc_table_def)
  note copy = local_copy_steps [OF s(1,2) assms(2,3,5,6)]
  let ?i = "\<lparr>ix_table = ''local_threepid_associations'', ix_unique = True, ix_parts = [Col ''medium'', Col ''address'']\<rparr>"
  have index: "exec_stmt (CreateIndex True False ''local_threepid_medium_address'' ''local_threepid_associations'' [Col ''medium'', Col ''address''])
      (with_table ''local_threepid_associations'' ?t (local_split s db))
      = Inr (with_index ''local_threepid_medium_address'' ?i (with_table ''local_threepid_associations'' ?t (local_split s db)))"
  proof (rule exec_steps(3))
    show "list_all (\<lambda>p. has_column ?t (part_column p)) [Col ''medium'', Col ''address'']"
      using copy_rows_shape(2) [of "new_table local_v1_cols" assoc_cols s] by (simp add: has_column_def)
  qed (simp_all add: assms local_split_def local_moved_def local_copy(2) [OF s(1,2)] s(3))
  have drop: "exec_stmt (DropTable ''old_local_threepid_associations'')
      (with_index ''local_threepid_medium_address'' ?i (with_table ''local_threepid_associations'' ?t (local_split s db)))
      = Inr (local_done s db)"
    unfolding local_done_def by (rule exec_steps(4)) (simp add: local_split_def local_moved_def)
  note steps = copy index drop
  show "run_calls local_to_v1 (sql_connect db) = (Inr (), \<lparr>cn_work = local_done s db, cn_disk = local_split s db, cn_txn = True\<rparr>)"
    by (simp add: local_to_v1_def sql_connect_def see_def exec_steps(5) steps del: exec_stmt.simps)
  show "always P local_to_v1 (sql_connect db)" if "P db" "P (without_index ''medium_address'' db)"
    "P (without_index ''local_threepid_medium_address'' (without_index ''medium_address'' db))"
    "P (local_moved s db)" "P (local_split s db)"
    using that by (simp add: local_to_v1_def sql_connect_def see_def exec_steps(5) steps always_Cons del: exec_stmt.simps)
qed

definition global_moved :: "sql_table \<Rightarrow> sql_db \<Rightarrow> sql_db" where
  "global_moved s db = renamed ''global_threepid_associations'' ''old_global_threepid_associations'' s
     (without_index ''threepid_originServer_originId'' (without_index ''medium_lower_address''
     (without_index ''global_threepid_originServer_originId'' (without_index ''global_threepid_medium_lower_address''
     (without_index ''global_threepid_medium_address'' db)))))"

definition global_copied :: "sql_table \<Rightarrow> sql_db \<Rightarrow> sql_db" where
  "global_copied s db = with_table ''global_threepid_associations'' (copy_rows global_cols s (new_table global_v1_cols))
     (with_table ''global_threepid_associations'' (new_table global_v1_cols) (global_moved s db))"

definition global_index :: "bool \<Rightarrow> key_part list \<Rightarrow> sql_index" where
  "global_index u ps = \<lparr>ix_table = ''global_threepid_associations'', ix_unique = u, ix_parts = ps\<rparr>"

definition global_done :: "sql_table \<Rightarrow> sql_db \<Rightarrow> sql_db" where
  "global_done s db = without_table ''old_global_threepid_associations''
     (with_index ''global_threepid_originServer_originId'' (global_index True [Col ''originServer'', Col ''originId''])
     (with_index ''global_threepid_medium_lower_address'' (global_index False [Col ''medium'', Lower ''address''])
     (with_index ''global_threepid_medium_address'' (global_index False [Col ''medium'', Col ''address''])
        (global_copied s db))))"

lemma run_global_to_v1:
  assumes "v0_global_table s" and "tbl db ''global_threepid_associations'' = Some s"
    and "\<forall>n \<in> {''old_global_threepid_associations'', ''global_threepid_medium_address'', ''global_threepid_medium_lower_address'',
        ''global_threepid_originServer_originId''}. tbl db n = None"
    and "idx db ''old_global_threepid_associations'' = None" "idx db ''global_threepid_associations'' = None"
  shows "run_calls global_to_v1 \<lparr>cn_work = db, cn_disk = d, cn_txn = True\<rparr> =
    (Inr (), \<lparr>cn_work = global_done s db, cn_disk = d, cn_txn = True\<rparr>)"
proof -
  let ?g = "''global_threepid_associations''"
  let ?t = "copy_rows global_cols s (new_table global_v1_cols)"
  have rename: "exec_stmt (RenameTable ?g ''old_global_threepid_associations'')
      (without_index ''threepid_originServer_originId'' (without_index ''medium_lower_address''
      (without_index ''global_threepid_originServer_originId'' (without_index ''global_threepid_medium_lower_address''
      (without_index ''global_threepid_medium_address'' db))))) = Inr (global_moved s db)"
    unfolding global_moved_def by (rule exec_steps(1)) (simp_all add: assms)
  have create: "exec_stmt (CreateTable True ?g AutoKey global_v1_cols) (global_moved s db)
      = Inr (with_table ?g (new_table global_v1_cols) (global_moved s db))"
    by (rule exec_new_table) (simp_all add: assms global_moved_def)
  have copy: "exec_stmt (InsertSelect ?g global_cols ''old_global_threepid_associations'')
      (with_table ?g (new_table global_v1_cols) (global_moved s db)) = Inr (global_copied s db)"
    unfolding global_copied_def
  proof (rule exec_copy)
    show "list_all (\<lambda>c. has_column (new_table global_v1_cols) c \<and> has_column s c) global_cols"
      using assms(1) by (simp add: has_column_def v0_assoc_table_def)
    show "keys_ok (db_indexes (with_table ?g (new_table global_v1_cols) (global_moved s db))) ?g ?t"
      unfolding global_moved_def by (rule keys_ok_moved) (simp_all add: copy_rows_shape)
  qed (simp_all add: assms global_moved_def global_copy)
  have tg: "tbl (global_copied s db) ?g = Some ?t" by (simp add: global_copied_def)
  have col: "has_column ?t c = (c \<in> fst ` set global_v1_cols)" for c
    using copy_rows_shape(2) [of "new_table global_v1_cols" global_cols s] by (simp add: has_column_def)
  have index: "exec_stmt (CreateIndex u False i ?g ps) db' = Inr (with_index i (global_index u ps) db')"
    if "tbl db' ?g = Some ?t" "tbl db' i = None" "idx db' i = None" "list_all (\<lambda>p. has_column ?t (part_column p)) ps"
      "u \<longrightarrow> unique_on ?t ps" for u i ps db'
    unfolding global_index_def using that by (rule exec_steps(3))
  have other: "tbl (global_copied s db) n = None" if "n \<in> {''global_threepid_medium_address'', ''global_threepid_medium_lower_address'',
        ''global_threepid_originServer_originId''}" for n
    using that assms(3) by (auto simp: global_copied_def global_moved_def)
  have noidx: "idx (global_copied s db) n = None" if "n \<in> {''global_threepid_medium_address'', ''global_threepid_medium_lower_address'',
        ''global_threepid_originServer_originId''}" for n
    using that by (auto simp: global_copied_def global_moved_def)
  have drop: "exec_stmt (DropTable ''old_global_threepid_associations'')
      (with_index ''global_threepid_originServer_originId'' (global_index True [Col ''originServer'', Col ''originId''])
      (with_index ''global_threepid_medium_lower_address'' (global_index False [Col ''medium'', Lower ''address''])
      (with_index ''global_threepid_medium_address'' (global_index False [Col ''medium'', Col ''address'']) (global_copied s db))))
      = Inr (global_done s db)"
    unfolding global_done_def by (rule exec_steps(4)) (simp add: global_copied_def global_moved_def)
  show ?thesis
    by (simp add: global_to_v1_def see_def exec_steps(5) rename create copy index tg col other noidx global_copy [OF assms(1)] drop
        del: exec_stmt.simps)
qed

section \<open>The later upgrades\<close>

definition with_version :: "int \<Rightarrow> sql_db \<Rightarrow> sql_db" where
  "with_version v db = db\<lparr>db_version := v\<rparr>"

lemma with_version_simps [simp]:
  "tbl (with_version v db) = tbl db" "idx (with_version v db) = idx db" "db_version (with_version v db) = v"
  "db_wf (with_version v db) = db_wf db"
  by (simp_all add: with_version_def db_wf_def)

definition plain_table :: "primary_key \<Rightarrow> (string \<times> bool) list \<Rightarrow> sql_table" where
  "plain_table key cols = \<lparr>tb_key = key, tb_cols = cols, tb_seq = 0, tb_rows = []\<rparr>"

definition add_lookup_hash :: "sql_table \<Rightarrow> sql_table" where
  "add_lookup_hash t = t\<lparr>tb_cols := tb_cols t @ [col ''lookup_hash'']\<rparr>"

definition v2_of :: "sql_db \<Rightarrow> sql_db" where
  "v2_of db = with_version 2 (with_index ''threepid_validation_sessions_mtime''
     \<lparr>ix_table = ''threepid_validation_sessions'', ix_unique = False, ix_parts = [Col ''mtime'']\<rparr> db)"

definition v3_of :: "sql_table \<Rightarrow> sql_table \<Rightarrow> sql_db \<Rightarrow> sql_db" where
  "v3_of l g db = with_version 3 (with_table ''hashing_metadata'' (plain_table RowidKey [col ''id'', col ''lookup_pepper''])
     (with_index ''lookup_hash_medium'' (global_index False [Col ''lookup_hash'', Col ''medium''])
     (with_table ''global_threepid_associations'' (add_lookup_hash g)
     (with_table ''local_threepid_associations'' (add_lookup_hash l) db))))"

definition v4_of :: "sql_db \<Rightarrow> sql_db" where
  "v4_of db = with_version 4 (with_index ''accepted_terms_urls_idx''
       \<lparr>ix_table = ''accepted_terms_urls'', ix_unique = True, ix_parts = [Col ''user_id'', Col ''url'']\<rparr>
     (with_table ''accepted_terms_urls'' (plain_table NoKey [col_not_null ''user_id'', col_not_null ''url''])
     (with_table ''tokens'' (plain_table (ColumnKey ''token'') [col_not_null ''token'', col_not_null ''user_id''])
     (with_table ''accounts'' (plain_table (ColumnKey ''user_id'')
        [col_not_null ''user_id'', col_not_null ''created_ts'', col ''consent_version'']) db))))"

definition v5_of :: "sql_db \<Rightarrow> sql_db" where
  "v5_of db = with_version 5 (with_index ''global_threepid_lookup_hash'' (global_index False [Col ''lookup_hash''])
     (without_index ''lookup_hash_medium'' db))"

lemma run_call_at_rest:
  "exec_stmt st db = Inr db' \<Longrightarrow> \<not> changes_rows st \<Longrightarrow> run_call (Execute st) (sql_connect db) = Inr (sql_connect db')"
  "run_call Commit (sql_connect db) = Inr (sql_connect db)"
  "run_call (SetUserVersion v) (sql_connect db) = Inr (sql_connect (with_version v db))"
  by (simp_all add: sql_connect_def see_def with_version_def)

lemma run_to_v2:
  assumes "tbl db ''threepid_validation_sessions'' = Some t" and "has_column t ''mtime''"
    and "tbl db ''threepid_validation_sessions_mtime'' = None" and "idx db ''threepid_validation_sessions_mtime'' = None"
  shows "run_calls to_v2 (sql_connect db) = (Inr (), sql_connect (v2_of db))"
proof -
  have "exec_stmt (CreateIndex False False ''threepid_validation_sessions_mtime'' ''threepid_validation_sessions'' [Col ''mtime'']) db
      = Inr (with_index ''threepid_validation_sessions_mtime''
          \<lparr>ix_table = ''threepid_validation_sessions'', ix_unique = False, ix_parts = [Col ''mtime'']\<rparr> db)"
    by (rule exec_steps(3) [OF assms(1,3,4)]) (simp_all add: assms(2))
  then show ?thesis by (simp add: to_v2_def run_call_at_rest v2_of_def del: exec_stmt.simps run_call.simps)
qed

lemma exec_add_lookup_hash:
  "tbl db n = Some t \<Longrightarrow> \<not> has_column t ''lookup_hash'' \<Longrightarrow>
   exec_stmt (AddColumn n ''lookup_hash'') db = Inr (with_table n (add_lookup_hash t) db)"
  unfolding add_lookup_hash_def by (rule exec_steps(6))

lemma exec_plain_table:
  "tbl db n = None \<Longrightarrow> idx db n = None \<Longrightarrow> exec_stmt (CreateTable ine n key cols) db = Inr (with_table n (plain_table key cols) db)"
  unfolding plain_table_def by (rule exec_steps(2))

lemma run_to_v3:
  assumes "tbl db ''local_threepid_associations'' = Some l" and "\<not> has_column l ''lookup_hash''"
    and "tbl db ''global_threepid_associations'' = Some g" and "\<not> has_column g ''lookup_hash''" "has_column g ''medium''"
    and "tbl db ''lookup_hash_medium'' = None" "idx db ''lookup_hash_medium'' = None"
    and "tbl db ''hashing_metadata'' = None" "idx db ''hashing_metadata'' = None"
  shows "run_calls to_v3 (sql_connect db) = (Inr (), sql_connect (v3_of l g db))"
proof -
  let ?db = "with_table ''global_threepid_associations'' (add_lookup_hash g)
     (with_table ''local_threepid_associations'' (add_lookup_hash l) db)"
  have index: "exec_stmt (CreateIndex False True ''lookup_hash_medium'' ''global_threepid_associations'' [Col ''lookup_hash'', Col ''medium'']) ?db
      = Inr (with_index ''lookup_hash_medium'' (global_index False [Col ''lookup_hash'', Col ''medium'']) ?db)"
    unfolding global_index_def
  proof (rule exec_steps(3))
    show "list_all (\<lambda>p. has_column (add_lookup_hash g) (part_column p)) [Col ''lookup_hash'', Col ''medium'']"
      using assms(5) by (simp add: has_column_def add_lookup_hash_def)
  qed (simp_all add: assms)
  show ?thesis
    by (simp add: to_v3_def run_call_at_rest exec_add_lookup_hash exec_plain_table index assms v3_of_def
        del: exec_stmt.simps run_call.simps)
qed

lemma run_to_v4:
  assumes "\<forall>n \<in> {''accounts'', ''tokens'', ''accepted_terms_urls'', ''accepted_terms_urls_idx''}. tbl db n = None \<and> idx db n = None"
  shows "run_calls to_v4 (sql_connect db) = (Inr (), sql_connect (v4_of db))"
proof -
  let ?t = "plain_table NoKey [col_not_null ''user_id'', col_not_null ''url'']"
  have "exec_stmt (CreateIndex True False ''accepted_terms_urls_idx'' ''accepted_terms_urls'' [Col ''user_id'', Col ''url'']) db'
      = Inr (with_index ''accepted_terms_urls_idx''
         \<lparr>ix_table = ''accepted_terms_urls'', ix_unique = True, ix_parts = [Col ''user_id'', Col ''url'']\<rparr> db')"
    if "tbl db' ''accepted_terms_urls'' = Some ?t" "tbl db' ''accepted_terms_urls_idx'' = None" "idx db' ''accepted_terms_urls_idx'' = None" for db'
    by (rule exec_steps(3) [OF that]) (simp_all add: has_column_def unique_on_def plain_table_def)
  with assms show ?thesis
    by (simp add: to_v4_def run_call_at_rest exec_plain_table v4_of_def del: exec_stmt.simps run_call.simps)
qed

lemma run_to_v5:
  assumes "tbl db ''global_threepid_associations'' = Some g" and "has_column g ''lookup_hash''"
    and "tbl db ''global_threepid_lookup_hash'' = None" "idx db ''global_threepid_lookup_hash'' = None"
  shows "run_calls to_v5 (sql_connect db) = (Inr (), sql_connect (v5_of db))"
proof -
  let ?db = "without_index ''lookup_hash_medium'' db"
  have "exec_stmt (CreateIndex False False ''global_threepid_lookup_hash'' ''global_threepid_associations'' [Col ''lookup_hash'']) ?db
      = Inr (with_index ''global_threepid_lookup_hash'' (global_index False [Col ''lookup_hash'']) ?db)"
    unfolding global_index_def by (rule exec_steps(3)) (use assms in simp_all)
  then show ?thesis by (simp add: to_v5_def run_call_at_rest exec_steps(5) v5_of_def del: exec_stmt.simps run_call.simps)
qed

end
