(* ===== verification/Schema_Upgrade.thy ===== *)
theory Schema_Upgrade
  imports Sqlite_Schema
begin

text \<open>
  What the start of the server does to its database file: a new file gets the current schema, a file of the first version
  is upgraded with all its associations, a file of the current version is left alone, and what a start leaves behind that
  is interrupted half way.
\<close>

section \<open>From the first version to the current one\<close>

text \<open>The tables and indexes that the upgrades create; none of the scripts uses their names.\<close>

definition new_names :: "string list" where
  "new_names =
     [''old_local_threepid_associations'', ''old_global_threepid_associations'', ''threepid_validation_sessions_mtime'',
      ''lookup_hash_medium'', ''hashing_metadata'', ''accounts'', ''tokens'', ''accepted_terms_urls'', ''accepted_terms_urls_idx'',
      ''global_threepid_lookup_hash'']"

lemma schema_new_names:
  assumes "v0_schema db" and "n \<in> set new_names"
  shows "tbl db n = None" "idx db n = None"
proof -
  have "list_all (\<lambda>n. map_of v0_tables n = None \<and> map_of v0_indexes n = None \<and> n \<notin> set superseded) new_names"
    by code_simp
  with assms(2) have n: "map_of v0_tables n = None" "map_of v0_indexes n = None" "n \<notin> set superseded"
    by (auto simp: list_all_iff)
  with schema_table [OF assms(1), of n] schema_index [OF assms(1), of n] show "tbl db n = None" "idx db n = None" by simp_all
qed

lemmas v0_new_names = schema_new_names [OF v0_file_schema]

lemma schema_superseded:
  assumes "v0_schema db" and "n \<in> set superseded"
  shows "tbl db n = None"
proof -
  have "list_all (\<lambda>n. map_of v0_tables n = None) superseded" by code_simp
  with assms(2) schema_table [OF assms(1), of n] show ?thesis by (simp add: list_all_iff)
qed

lemmas v0_superseded = schema_superseded [OF v0_file_schema]

lemma schema_table_names_no_index:
  assumes "v0_schema db" and "n \<in> fst ` set v0_tables"
  shows "idx db n = None"
proof -
  have "list_all (\<lambda>(n, _). map_of v0_indexes n = None \<and> n \<notin> set superseded) v0_tables" by code_simp
  with assms(2) schema_index [OF assms(1), of n] show ?thesis by (auto simp: list_all_iff)
qed

lemmas v0_table_names_no_index = schema_table_names_no_index [OF v0_file_schema]

lemma v0_tables_lookup:
  "map_of v0_tables ''local_threepid_associations'' = Some (RowidKey,
     [col ''id'', col_not_null ''medium'', col_not_null ''address'', col_not_null ''mxid'', col_not_null ''ts'',
      col_not_null ''notBefore'', col_not_null ''notAfter''])"
  "map_of v0_tables ''global_threepid_associations'' = Some (RowidKey, global_v1_cols)"
  "map_of v0_tables ''threepid_validation_sessions'' = Some (RowidKey,
     [col ''id'', col_not_null ''medium'', col_not_null ''address'', col_not_null ''clientSecret'', col ''validated'', col_not_null ''mtime''])"
  by code_simp+

lemma v0_fileE:
  assumes "v0_file db"
  obtains l g v where "tbl db ''local_threepid_associations'' = Some l" "v0_local_table l"
    "tbl db ''global_threepid_associations'' = Some g" "v0_global_table g"
    "tbl db ''threepid_validation_sessions'' = Some v" "has_column v ''mtime''"
proof -
  from v0_table [OF assms, of "''local_threepid_associations''"] v0_table [OF assms, of "''global_threepid_associations''"]
    v0_table [OF assms, of "''threepid_validation_sessions''"] assms that
  show ?thesis by (auto simp: v0_tables_lookup v0_file_iff rows_ok_def v0_assoc_table_def has_column_def)
qed

text \<open>The database at the end, in terms of the local and global table it started with.\<close>

definition v1_of :: "sql_table \<Rightarrow> sql_table \<Rightarrow> sql_db \<Rightarrow> sql_db" where
  "v1_of l g db = with_version 1 (global_done g (local_done l db))"

abbreviation local_copied :: "sql_table \<Rightarrow> sql_table" where
  "local_copied l \<equiv> copy_rows assoc_cols l (new_table local_v1_cols)"

abbreviation global_copy_of :: "sql_table \<Rightarrow> sql_table" where
  "global_copy_of g \<equiv> copy_rows global_cols g (new_table global_v1_cols)"

definition upgraded :: "sql_table \<Rightarrow> sql_table \<Rightarrow> sql_db \<Rightarrow> sql_db" where
  "upgraded l g db = v5_of (v4_of (v3_of (local_copied l) (global_copy_of g) (v2_of (v1_of l g db))))"

lemma v1_tables:
  assumes "v0_file db" and "tbl db ''local_threepid_associations'' = Some l" and "tbl db ''global_threepid_associations'' = Some g"
  shows "tbl (v1_of l g db) = (tbl db)(''local_threepid_associations'' \<mapsto> local_copied l, ''global_threepid_associations'' \<mapsto> global_copy_of g)"
  using v0_new_names(1) [OF assms(1), of "''old_local_threepid_associations''"]
    v0_new_names(1) [OF assms(1), of "''old_global_threepid_associations''"]
  by (auto simp: v1_of_def global_done_def global_copied_def global_moved_def local_done_def local_split_def local_moved_def
      new_names_def fun_eq_iff)

lemma run_local_v0:
  assumes "v0_file db" and "tbl db ''local_threepid_associations'' = Some l" "v0_local_table l"
  shows "run_calls local_to_v1 (sql_connect db) = (Inr (), \<lparr>cn_work = local_done l db, cn_disk = local_split l db, cn_txn = True\<rparr>)"
    and "P db \<Longrightarrow> P (without_index ''medium_address'' db) \<Longrightarrow>
      P (without_index ''local_threepid_medium_address'' (without_index ''medium_address'' db)) \<Longrightarrow>
      P (local_moved l db) \<Longrightarrow> P (local_split l db) \<Longrightarrow> always P local_to_v1 (sql_connect db)"
proof -
  have "''local_threepid_associations'' \<in> fst ` set v0_tables" using v0_tables_lookup(1) by (metis map_of_eq_None_iff option.simps(3))
  then have "idx db ''local_threepid_associations'' = None" by (rule v0_table_names_no_index [OF assms(1)])
  moreover have "tbl db ''local_threepid_medium_address'' = None" by (rule v0_superseded [OF assms(1)]) (simp add: superseded_def)
  moreover have "tbl db ''old_local_threepid_associations'' = None" "idx db ''old_local_threepid_associations'' = None"
    by (rule v0_new_names [OF assms(1)]; simp add: new_names_def)+
  ultimately show "run_calls local_to_v1 (sql_connect db) = (Inr (), \<lparr>cn_work = local_done l db, cn_disk = local_split l db, cn_txn = True\<rparr>)"
    and "P db \<Longrightarrow> P (without_index ''medium_address'' db) \<Longrightarrow>
      P (without_index ''local_threepid_medium_address'' (without_index ''medium_address'' db)) \<Longrightarrow>
      P (local_moved l db) \<Longrightarrow> P (local_split l db) \<Longrightarrow> always P local_to_v1 (sql_connect db)"
    using run_local_to_v1(1) [OF assms(3,2)] run_local_to_v1(2) [OF assms(3,2), where P = P] by blast+
qed

lemma run_to_v1:
  assumes "v0_file db" and "tbl db ''local_threepid_associations'' = Some l" "v0_local_table l"
    and "tbl db ''global_threepid_associations'' = Some g" "v0_global_table g"
  shows "run_calls to_v1 (sql_connect db) = (Inr (), sql_connect (v1_of l g db))"
    and "run_calls (local_to_v1 @ global_to_v1) (sql_connect db) =
      (Inr (), \<lparr>cn_work = global_done g (local_done l db), cn_disk = local_split l db, cn_txn = True\<rparr>)"
proof -
  note absent = v0_new_names [OF assms(1)] v0_superseded [OF assms(1)]
  note old = absent(1,2) [of "''old_local_threepid_associations''"] absent(1,2) [of "''old_global_threepid_associations''"]
  note l = run_local_v0(1) [OF assms(1-3)]
  have wf: "db_wf db" using assms(1) by (simp add: v0_file_iff db_wf_def)
  have t: "tbl (local_done l db) = (tbl db)(''local_threepid_associations'' \<mapsto> local_copied l)"
    using old(1) by (auto simp: local_done_def local_split_def local_moved_def new_names_def fun_eq_iff)
  have i: "idx (local_done l db) n = None" if "idx db n = None" "n \<noteq> ''local_threepid_medium_address''" for n
    using that wf by (simp add: local_done_def local_split_def local_moved_def)
  have g: "run_calls global_to_v1 \<lparr>cn_work = local_done l db, cn_disk = d, cn_txn = True\<rparr> =
    (Inr (), \<lparr>cn_work = global_done g (local_done l db), cn_disk = d, cn_txn = True\<rparr>)" for d
  proof (rule run_global_to_v1 [OF assms(5)])
    show "idx (local_done l db) ''global_threepid_associations'' = None"
      using v0_table_names_no_index [OF assms(1), of "''global_threepid_associations''"]
      by (intro i) (simp_all add: v0_tables_def script_defs)
    show "idx (local_done l db) ''old_global_threepid_associations'' = None"
      using old by (intro i) (simp_all add: new_names_def)
  qed (use absent(1) absent(3) assms(4) in \<open>auto simp: t new_names_def superseded_def\<close>)
  show lg: "run_calls (local_to_v1 @ global_to_v1) (sql_connect db) =
      (Inr (), \<lparr>cn_work = global_done g (local_done l db), cn_disk = local_split l db, cn_txn = True\<rparr>)"
    by (simp add: run_calls_append l g)
  show "run_calls to_v1 (sql_connect db) = (Inr (), sql_connect (v1_of l g db))"
    unfolding to_v1_def append_assoc [symmetric] run_calls_append [of "local_to_v1 @ global_to_v1"] lg
    by (simp add: see_def v1_of_def with_version_def sql_connect_def)
qed

lemma copied_column [simp]:
  "has_column (local_copied l) c = (c \<in> fst ` set local_v1_cols)"
  "has_column (global_copy_of g) c = (c \<in> fst ` set global_v1_cols)"
  using copy_rows_shape(2) [of "new_table local_v1_cols" assoc_cols l] copy_rows_shape(2) [of "new_table global_v1_cols" global_cols g]
  by (simp_all add: has_column_def)

lemma v1_no_index:
  assumes "v0_file db" and "n \<in> set new_names"
  shows "idx (v1_of l g db) n = None"
proof -
  have "db_wf db" using assms(1) by (simp add: v0_file_iff db_wf_def)
  moreover have "n \<notin> {''local_threepid_medium_address'', ''global_threepid_medium_address'', ''global_threepid_medium_lower_address'',
      ''global_threepid_originServer_originId''}"
    using assms(2) by (auto simp: new_names_def)
  ultimately show ?thesis using v0_new_names(2) [OF assms]
    by (simp add: v1_of_def global_done_def global_copied_def global_moved_def local_done_def local_split_def local_moved_def)
qed

lemma run_upgrades:
  assumes v0: "v0_file db" and l: "tbl db ''local_threepid_associations'' = Some l" "v0_local_table l"
    and g: "tbl db ''global_threepid_associations'' = Some g" "v0_global_table g"
  shows "run_calls (to_v2 @ to_v3 @ to_v4 @ to_v5) (sql_connect (v1_of l g db)) = (Inr (), sql_connect (upgraded l g db))"
proof -
  note t1 = v1_tables [OF v0 l(1) g(1)] and no_tbl = v0_new_names(1) [OF v0] and no_idx = v1_no_index [OF v0]
  obtain v where v: "tbl db ''threepid_validation_sessions'' = Some v" "has_column v ''mtime''"
    using v0_fileE [OF v0] by metis
  have v2: "run_calls to_v2 (sql_connect (v1_of l g db)) = (Inr (), sql_connect (v2_of (v1_of l g db)))"
    by (rule run_to_v2 [where t = v]) (simp_all add: t1 v no_tbl no_idx new_names_def)
  have v3: "run_calls to_v3 (sql_connect (v2_of (v1_of l g db)))
      = (Inr (), sql_connect (v3_of (local_copied l) (global_copy_of g) (v2_of (v1_of l g db))))"
    by (rule run_to_v3) (simp_all add: v2_of_def t1 no_tbl no_idx new_names_def)
  let ?v3 = "v3_of (local_copied l) (global_copy_of g) (v2_of (v1_of l g db))"
  have v4: "run_calls to_v4 (sql_connect ?v3) = (Inr (), sql_connect (v4_of ?v3))"
    by (rule run_to_v4) (simp add: v3_of_def v2_of_def t1 no_tbl no_idx new_names_def)
  have v5: "run_calls to_v5 (sql_connect (v4_of ?v3)) = (Inr (), sql_connect (upgraded l g db))"
    unfolding upgraded_def
  proof (rule run_to_v5)
    show "tbl (v4_of ?v3) ''global_threepid_associations'' = Some (add_lookup_hash (global_copy_of g))"
      by (simp add: v4_of_def v3_of_def)
    show "has_column (add_lookup_hash (global_copy_of g)) ''lookup_hash''" by (simp add: has_column_def add_lookup_hash_def)
  qed (simp_all add: v4_of_def v3_of_def v2_of_def t1 no_tbl no_idx new_names_def)
  show ?thesis by (simp add: run_calls_append v2 v3 v4 v5)
qed

section \<open>The scripts\<close>

text \<open>On a file of the first version the scripts find everything there already.\<close>

lemma schema_exists:
  assumes "v0_schema db"
  shows "n \<in> fst ` set v0_tables \<Longrightarrow> dict_has (db_tables db) n" "map_of v0_tables n = None \<Longrightarrow> \<not> dict_has (db_tables db) n"
    and "n \<in> fst ` set v0_indexes \<Longrightarrow> dict_has (db_indexes db) n"
proof -
  have "n \<notin> set superseded" if "n \<in> fst ` set v0_indexes"
  proof -
    have "list_all (\<lambda>(n, _). n \<notin> set superseded) v0_indexes" by code_simp
    with that show ?thesis by (auto simp: list_all_iff)
  qed
  then show "n \<in> fst ` set v0_indexes \<Longrightarrow> dict_has (db_indexes db) n"
    using schema_index [OF assms, of n] by (metis dict_has_iff map_of_eq_None_iff)
  show "n \<in> fst ` set v0_tables \<Longrightarrow> dict_has (db_tables db) n"
    using schema_table [OF assms, of n] by (metis dict_has_iff map_of_eq_None_iff option.map_disc_iff)
  show "map_of v0_tables n = None \<Longrightarrow> \<not> dict_has (db_tables db) n"
    using schema_table [OF assms, of n] by (simp add: dict_has_iff)
qed

lemmas v0_exists = schema_exists [OF v0_file_schema]

text \<open>What a script statement asks for, and that a statement whose objects are there changes nothing.\<close>

fun made_by_scripts :: "sql_stmt \<Rightarrow> bool" where
  "made_by_scripts (CreateTable True n _ _) = (map_of v0_tables n \<noteq> None)"
| "made_by_scripts (CreateIndex _ True i n _) = (map_of v0_tables n \<noteq> None \<and> map_of v0_tables i = None \<and> map_of v0_indexes i \<noteq> None)"
| "made_by_scripts _ = False"

lemma scripts_make: "list_all made_by_scripts (script_of f)"
proof -
  have "list_all (list_all made_by_scripts) (map snd sql_files)" by code_simp
  then have "list_all made_by_scripts s" if "map_of sql_files f = Some s" for s
    using map_of_SomeD [OF that] by (auto simp: list_all_iff)
  then show ?thesis by (simp add: script_of_def split: option.split)
qed

lemma exec_made:
  assumes "v0_schema db" and "made_by_scripts st"
  shows "exec_stmt st db = Inr db"
  using assms(2) schema_exists [OF assms(1)] schema_table [OF assms(1)]
  by (cases st rule: made_by_scripts.cases) (auto simp: dict_has_iff map_of_eq_None_iff split: option.splits)

lemma run_made:
  assumes "v0_schema db" and "list_all made_by_scripts sts"
  shows "run_calls (map Execute sts) (sql_connect db) = (Inr (), sql_connect db)"
  using assms(2)
proof (induction sts)
  case (Cons st sts)
  then have "\<not> changes_rows st" by (cases st) auto
  with Cons show ?case by (simp add: run_call_at_rest(1) exec_made [OF assms(1)] del: run_call.simps)
qed simp

lemma run_create_schema:
  assumes "v0_schema db"
  shows "run_calls (create_calls listing) (sql_connect db) = (Inr (), sql_connect db)"
proof -
  have "run_calls (concat (map (\<lambda>f. if endswith f ''.sql'' then Commit # map Execute (script_of f) else []) listing)) (sql_connect db)
      = (Inr (), sql_connect db)"
    by (induction listing) (simp_all add: run_calls_append run_call_at_rest(2) run_made [OF assms scripts_make] del: run_call.simps)
  then show ?thesis by (simp add: create_calls_def run_calls_append run_call_at_rest(2) del: run_call.simps)
qed

lemmas run_create_v0 = run_create_schema [OF v0_file_schema]

lemma init_v0:
  assumes "v0_file db" "tbl db ''local_threepid_associations'' = Some l" "v0_local_table l"
    "tbl db ''global_threepid_associations'' = Some g" "v0_global_table g"
  shows "SqliteDatabase_init listing db = (Inr (), sql_connect (upgraded l g db))"
  using run_create_v0 [OF assms(1), of listing] run_to_v1 [OF assms] run_upgrades [OF assms] assms(1)
  by (simp add: SqliteDatabase_init_def start_calls_def upgrade_calls_def v0_file_iff run_calls_append)

section \<open>The current schema\<close>

definition current_tables :: "(string \<times> primary_key \<times> (string \<times> bool) list) list" where
  "current_tables =
     [(''local_threepid_associations'', AutoKey,
        [col ''id'', col_not_null ''medium'', col_not_null ''address'', col ''mxid'', col ''ts'', col ''notBefore'', col ''notAfter'',
         col ''lookup_hash'']),
      (''global_threepid_associations'', AutoKey,
        [col ''id'', col_not_null ''medium'', col_not_null ''address'', col_not_null ''mxid'', col_not_null ''ts'',
         col_not_null ''notBefore'', col_not_null ''notAfter'', col_not_null ''originServer'', col_not_null ''originId'',
         col_not_null ''sgAssoc'', col ''lookup_hash'']),
      (''hashing_metadata'', RowidKey, [col ''id'', col ''lookup_pepper'']),
      (''accounts'', ColumnKey ''user_id'', [col_not_null ''user_id'', col_not_null ''created_ts'', col ''consent_version'']),
      (''tokens'', ColumnKey ''token'', [col_not_null ''token'', col_not_null ''user_id'']),
      (''accepted_terms_urls'', NoKey, [col_not_null ''user_id'', col_not_null ''url''])]
     @ filter (\<lambda>(n, _). n \<notin> {''local_threepid_associations'', ''global_threepid_associations''}) v0_tables"

definition current_indexes :: "(string \<times> sql_index) list" where
  "current_indexes =
     [(''local_threepid_medium_address'', \<lparr>ix_table = ''local_threepid_associations'', ix_unique = True,
        ix_parts = [Col ''medium'', Col ''address'']\<rparr>),
      (''global_threepid_medium_address'', global_index False [Col ''medium'', Col ''address'']),
      (''global_threepid_medium_lower_address'', global_index False [Col ''medium'', Lower ''address'']),
      (''global_threepid_originServer_originId'', global_index True [Col ''originServer'', Col ''originId'']),
      (''global_threepid_lookup_hash'', global_index False [Col ''lookup_hash'']),
      (''threepid_validation_sessions_mtime'', \<lparr>ix_table = ''threepid_validation_sessions'', ix_unique = False, ix_parts = [Col ''mtime'']\<rparr>),
      (''accepted_terms_urls_idx'', \<lparr>ix_table = ''accepted_terms_urls'', ix_unique = True, ix_parts = [Col ''user_id'', Col ''url'']\<rparr>)]
     @ filter (\<lambda>(n, _). n \<noteq> ''originServer_originId'') v0_indexes"

definition current_schema :: "sql_db \<Rightarrow> bool" where
  "current_schema db =
     (db_version db = 5 \<and> (\<forall>n. map_option (\<lambda>t. (tb_key t, tb_cols t)) (tbl db n) = map_of current_tables n) \<and>
      (\<forall>n. idx db n = map_of current_indexes n))"

lemma upgraded_tables:
  assumes "v0_file db" and "tbl db ''local_threepid_associations'' = Some l" and "tbl db ''global_threepid_associations'' = Some g"
  shows "tbl (upgraded l g db) n =
    (if n = ''local_threepid_associations'' then Some (add_lookup_hash (local_copied l))
     else if n = ''global_threepid_associations'' then Some (add_lookup_hash (global_copy_of g))
     else if n = ''hashing_metadata'' then Some (plain_table RowidKey [col ''id'', col ''lookup_pepper''])
     else if n = ''accounts'' then Some (plain_table (ColumnKey ''user_id'')
        [col_not_null ''user_id'', col_not_null ''created_ts'', col ''consent_version''])
     else if n = ''tokens'' then Some (plain_table (ColumnKey ''token'') [col_not_null ''token'', col_not_null ''user_id''])
     else if n = ''accepted_terms_urls'' then Some (plain_table NoKey [col_not_null ''user_id'', col_not_null ''url''])
     else tbl db n)"
  by (simp add: upgraded_def v5_of_def v4_of_def v3_of_def v2_of_def v1_tables [OF assms])

lemma upgraded_schema:
  assumes "v0_file db" and "tbl db ''local_threepid_associations'' = Some l" and "tbl db ''global_threepid_associations'' = Some g"
  shows "map_option (\<lambda>t. (tb_key t, tb_cols t)) (tbl (upgraded l g db) n) = map_of current_tables n"
proof -
  have "map_of (filter (\<lambda>(n, _). n \<notin> {''local_threepid_associations'', ''global_threepid_associations''}) v0_tables) n =
      (if n \<notin> {''local_threepid_associations'', ''global_threepid_associations''} then map_of v0_tables n else None)"
    by (rule map_of_filter_key)
  with v0_table [OF assms(1), of n] copy_rows_shape(1,2) [of "new_table local_v1_cols" assoc_cols l]
    copy_rows_shape(1,2) [of "new_table global_v1_cols" global_cols g]
  show ?thesis unfolding upgraded_tables [OF assms] current_tables_def
    by (simp add: add_lookup_hash_def plain_table_def)
qed

lemma v0_index_lookup:
  "map_of v0_indexes n =
    (if n = ''invite_token_medium_address'' then Some \<lparr>ix_table = ''invite_tokens'', ix_unique = False, ix_parts = [Col ''medium'', Col ''address'']\<rparr>
     else if n = ''invite_token_token'' then Some \<lparr>ix_table = ''invite_tokens'', ix_unique = False, ix_parts = [Col ''token'']\<rparr>
     else if n = ''ephemeral_public_keys_index'' then Some \<lparr>ix_table = ''ephemeral_public_keys'', ix_unique = True, ix_parts = [Col ''public_key'']\<rparr>
     else if n = ''name'' then Some \<lparr>ix_table = ''peers'', ix_unique = True, ix_parts = [Col ''name'']\<rparr>
     else if n = ''peername_alg'' then Some \<lparr>ix_table = ''peer_pubkeys'', ix_unique = True, ix_parts = [Col ''peername'', Col ''alg'']\<rparr>
     else if n = ''originServer_originId'' then Some (global_index True [Col ''originServer'', Col ''originId''])
     else None)"
  by (simp add: v0_indexes_def script_defs global_index_def)

text \<open>An index survives a half unless it is dropped by name or belongs to the table that is replaced.\<close>

definition surviving :: "string list \<Rightarrow> string list \<Rightarrow> (string \<Rightarrow> sql_index option) \<Rightarrow> string \<Rightarrow> sql_index option" where
  "surviving dropped ts I n =
     (if n \<in> set dropped then None else case I n of None \<Rightarrow> None | Some x \<Rightarrow> if ix_table x \<in> set ts then None else Some x)"

lemma local_done_indexes:
  assumes "db_wf db"
  shows "idx (local_done l db) = (surviving [''medium_address''] [''local_threepid_associations'', ''old_local_threepid_associations''] (idx db))
    (''local_threepid_medium_address'' \<mapsto> \<lparr>ix_table = ''local_threepid_associations'', ix_unique = True, ix_parts = [Col ''medium'', Col ''address'']\<rparr>)"
proof
  fix n
  show "idx (local_done l db) n = ((surviving [''medium_address''] [''local_threepid_associations'', ''old_local_threepid_associations''] (idx db))
    (''local_threepid_medium_address'' \<mapsto> \<lparr>ix_table = ''local_threepid_associations'', ix_unique = True, ix_parts = [Col ''medium'', Col ''address'']\<rparr>)) n"
    using assms by (cases "idx db n") (simp_all add: local_done_def local_split_def local_moved_def surviving_def retarget_def)
qed

lemma local_done_wf: "db_wf db \<Longrightarrow> db_wf (local_done l db)"
  by (simp add: local_done_def local_split_def local_moved_def)

lemma global_done_indexes:
  assumes "db_wf db"
  shows "idx (global_done g db) n =
    (if n = ''global_threepid_medium_address'' then Some (global_index False [Col ''medium'', Col ''address''])
     else if n = ''global_threepid_medium_lower_address'' then Some (global_index False [Col ''medium'', Lower ''address''])
     else if n = ''global_threepid_originServer_originId'' then Some (global_index True [Col ''originServer'', Col ''originId''])
     else surviving [''medium_lower_address'', ''threepid_originServer_originId'']
        [''global_threepid_associations'', ''old_global_threepid_associations''] (idx db) n)"
  using assms
  by (cases "idx db n") (simp_all add: global_done_def global_copied_def global_moved_def surviving_def retarget_def global_index_def)

lemma v0_surviving:
  assumes "v0_file db"
    and "n \<notin> {''local_threepid_medium_address'', ''global_threepid_medium_address'', ''global_threepid_medium_lower_address'',
        ''global_threepid_originServer_originId''}"
  shows "surviving [''medium_lower_address'', ''threepid_originServer_originId'']
      [''global_threepid_associations'', ''old_global_threepid_associations'']
      (surviving [''medium_address''] [''local_threepid_associations'', ''old_local_threepid_associations''] (idx db)) n =
    (if n = ''originServer_originId'' then None else map_of v0_indexes n)"
proof (cases "n \<in> set superseded")
  case True
  have "list_all (\<lambda>n. map_of v0_indexes n = None) superseded" by code_simp
  with True have "map_of v0_indexes n = None" by (simp add: list_all_iff)
  with True assms(2) show ?thesis by (auto simp: superseded_def surviving_def)
next
  case False
  have "list_all (\<lambda>(n, ix). ix_table ix \<notin> {''local_threepid_associations'', ''old_local_threepid_associations'',
      ''old_global_threepid_associations''} \<and> (n \<noteq> ''originServer_originId'' \<longrightarrow> ix_table ix \<noteq> ''global_threepid_associations'')) v0_indexes"
    by code_simp
  moreover have "map_of v0_indexes ''originServer_originId'' = Some (global_index True [Col ''originServer'', Col ''originId''])"
    by code_simp
  ultimately show ?thesis using False v0_index [OF assms(1) False]
    by (auto simp: surviving_def superseded_def list_all_iff global_index_def split: option.splits dest!: map_of_SomeD)
qed

lemma surviving_upd:
  "k \<notin> set D \<Longrightarrow> ix_table x \<notin> set T \<Longrightarrow> surviving D T (I(k \<mapsto> x)) n = (if n = k then Some x else surviving D T I n)"
  by (simp add: surviving_def)

lemma v1_indexes:
  assumes "v0_file db"
  shows "idx (v1_of l g db) n =
    (if n = ''local_threepid_medium_address'' then Some \<lparr>ix_table = ''local_threepid_associations'', ix_unique = True,
        ix_parts = [Col ''medium'', Col ''address'']\<rparr>
     else if n = ''global_threepid_medium_address'' then Some (global_index False [Col ''medium'', Col ''address''])
     else if n = ''global_threepid_medium_lower_address'' then Some (global_index False [Col ''medium'', Lower ''address''])
     else if n = ''global_threepid_originServer_originId'' then Some (global_index True [Col ''originServer'', Col ''originId''])
     else if n = ''originServer_originId'' then None else map_of v0_indexes n)"
proof -
  have wf: "db_wf db" using assms by (simp add: v0_file_iff db_wf_def)
  have "idx (v1_of l g db) n = idx (global_done g (local_done l db)) n" by (simp add: v1_of_def)
  then show ?thesis
    unfolding global_done_indexes [OF local_done_wf [OF wf]] local_done_indexes [OF wf]
    by (simp add: surviving_upd v0_surviving [OF assms])
qed

lemma upgraded_indexes:
  assumes "v0_file db"
  shows "idx (upgraded l g db) n = map_of current_indexes n"
proof -
  have "map_of (filter (\<lambda>(n, _). n \<noteq> ''originServer_originId'') v0_indexes) n =
      (if n \<noteq> ''originServer_originId'' then map_of v0_indexes n else None)"
    by (rule map_of_filter_key)
  moreover have "map_of v0_indexes ''lookup_hash_medium'' = None" by code_simp
  ultimately show ?thesis
    by (simp add: upgraded_def v5_of_def v4_of_def v3_of_def v2_of_def v1_indexes [OF assms] current_indexes_def)
qed

lemma upgraded_current:
  assumes "v0_file db" and "tbl db ''local_threepid_associations'' = Some l" and "tbl db ''global_threepid_associations'' = Some g"
  shows "current_schema (upgraded l g db)"
  by (simp add: current_schema_def upgraded_schema [OF assms] upgraded_indexes [OF assms(1)])
     (simp add: upgraded_def v5_of_def)

lemma values_of_add_lookup_hash [simp]: "values_of (add_lookup_hash t) cs = values_of t cs"
  by (simp add: values_of_def add_lookup_hash_def cell_def)

lemma table_values_tbl: "table_values db n cs = (case tbl db n of None \<Rightarrow> [] | Some t \<Rightarrow> values_of t cs)"
  by (simp add: table_values_def)

section \<open>Starting on an interrupted or a finished upgrade\<close>

definition association_values :: "sql_db \<Rightarrow> sql_value list list \<times> sql_value list list" where
  "association_values db =
     (table_values db ''local_threepid_associations'' assoc_cols, table_values db ''global_threepid_associations'' global_cols)"

definition row_ids :: "sql_db \<Rightarrow> string \<Rightarrow> int list" where
  "row_ids db n = (case dict_get (db_tables db) n of None \<Rightarrow> [] | Some t \<Rightarrow> map sr_id (tb_rows t))"

lemma upgrade_distinct:
  assumes "v0_file db"
  shows "\<exists>d. SqliteDatabase_init listing db = (Inr (), sql_connect d) \<and> current_schema d \<and>
    association_values d = association_values db \<and>
    row_ids d ''local_threepid_associations'' = map int [1..<Suc (length (row_ids db ''local_threepid_associations''))] \<and>
    row_ids d ''global_threepid_associations'' = map int [1..<Suc (length (row_ids db ''global_threepid_associations''))] \<and>
    concat (table_values d ''local_threepid_associations'' [''lookup_hash''] @ table_values d ''global_threepid_associations'' [''lookup_hash''])
      = replicate (length (fst (association_values db)) + length (snd (association_values db))) SNull \<and>
    (\<forall>n t. tbl db n = Some t \<longrightarrow> n \<noteq> ''local_threepid_associations'' \<longrightarrow> n \<noteq> ''global_threepid_associations'' \<longrightarrow> tbl d n = Some t)"
proof -
  obtain l g where l: "tbl db ''local_threepid_associations'' = Some l" "v0_local_table l"
    and g: "tbl db ''global_threepid_associations'' = Some g" "v0_global_table g"
    using v0_fileE [OF assms] by metis
  let ?d = "upgraded l g db"
  note tables = upgraded_tables [OF assms l(1) g(1)]
  have no_hash: "concat (values_of (copy_rows cs s (new_table cols)) [''lookup_hash'']) = replicate (length (values_of s cs)) SNull"
    if "''id'' \<notin> set cs" "''lookup_hash'' \<notin> set cs" for cs s cols
  proof -
    have f: "fresh_target (new_table cols) cs" using that by simp
    have "cell t ''lookup_hash'' r = SNull" if "r \<in> set (tb_rows (copy_rows cs s (new_table cols)))" for r t
    proof -
      from that obtain i r' where "r = \<lparr>sr_id = i, sr_cells = map (\<lambda>c. (c, cell s c r')) cs\<rparr>"
        by (auto simp: copy_rows_eq [OF f])
      with \<open>''lookup_hash'' \<notin> set cs\<close> show ?thesis by (auto simp: cell_def map_of_eq_None_iff split: option.splits dest!: map_of_SomeD)
    qed
    then have "concat (values_of (copy_rows cs s (new_table cols)) [''lookup_hash''])
        = map (\<lambda>_. SNull) (tb_rows (copy_rows cs s (new_table cols)))"
      by (simp add: values_of_def concat_map_singleton)
    also have "\<dots> = replicate (length (tb_rows s)) SNull"
      using arg_cong [OF copy_rows_shape(4) [OF f, of s], of length] by (simp add: map_replicate_const del: upt_Suc)
    finally show ?thesis by (simp add: values_of_def)
  qed
  have "association_values ?d = association_values db"
    by (simp add: association_values_def table_values_tbl tables l g copied_values)
  moreover have "row_ids ?d ''local_threepid_associations'' = map int [1..<Suc (length (row_ids db ''local_threepid_associations''))]"
    using copy_rows_shape(4) [of "new_table local_v1_cols" assoc_cols l] by (simp add: row_ids_def tables l(1) add_lookup_hash_def del: upt_Suc)
  moreover have "row_ids ?d ''global_threepid_associations'' = map int [1..<Suc (length (row_ids db ''global_threepid_associations''))]"
    using copy_rows_shape(4) [of "new_table global_v1_cols" global_cols g] by (simp add: row_ids_def tables g(1) add_lookup_hash_def del: upt_Suc)
  moreover have "concat (table_values ?d ''local_threepid_associations'' [''lookup_hash''] @ table_values ?d ''global_threepid_associations'' [''lookup_hash''])
      = replicate (length (fst (association_values db)) + length (snd (association_values db))) SNull"
    by (simp add: association_values_def table_values_tbl tables l(1) g(1) no_hash replicate_add)
  moreover have "tbl ?d n = Some t" if "tbl db n = Some t" "n \<noteq> ''local_threepid_associations''" "n \<noteq> ''global_threepid_associations''" for n t
  proof -
    from that(1) have "n \<notin> set new_names" using v0_new_names(1) [OF assms, of n] by auto
    then show ?thesis using that by (simp add: tables new_names_def)
  qed
  ultimately show ?thesis using init_v0 [OF assms l g] upgraded_current [OF assms l(1) g(1)] by blast
qed

lemma upgrade_duplicates:
  assumes "v0_schema db" and "\<not> distinct_addresses db"
  shows "fst (SqliteDatabase_init listing db) = Inl IntegrityError"
proof -
  from schema_table [OF assms(1), of "''local_threepid_associations''"] obtain l where
    l: "tbl db ''local_threepid_associations'' = Some l" "tb_cols l = v0_local_cols" by (auto simp: v0_tables_lookup)
  have nn: "not_null_ok l" using assms(1) l(1) by (simp add: v0_schema_def rows_not_null_def)
  have dup: "\<not> unique_on l [Col ''medium'', Col ''address'']" using assms(2) l(1) by (simp add: distinct_addresses_def)
  have "''local_threepid_associations'' \<in> fst ` set v0_tables" using v0_tables_lookup(1) by (metis map_of_eq_None_iff option.simps(3))
  then have "idx db ''local_threepid_associations'' = None" by (rule schema_table_names_no_index [OF assms(1)])
  moreover have "tbl db ''local_threepid_medium_address'' = None" by (rule schema_superseded [OF assms(1)]) (simp add: superseded_def)
  moreover have "tbl db ''old_local_threepid_associations'' = None" "idx db ''old_local_threepid_associations'' = None"
    by (rule schema_new_names [OF assms(1)]; simp add: new_names_def)+
  ultimately have "fst (run_calls local_to_v1 (sql_connect db)) = Inl IntegrityError"
    using run_local_duplicates [OF l(2) nn dup l(1)] by blast
  then obtain c where "run_calls local_to_v1 (sql_connect db) = (Inl IntegrityError, c)" by (metis prod.collapse)
  then show ?thesis
    using run_create_schema [OF assms(1), of listing] assms(1)
    by (simp add: SqliteDatabase_init_def start_calls_def upgrade_calls_def v0_schema_def to_v1_def run_calls_append)
qed

text \<open>C14: a database file of the first version, whose local rows have distinct addresses, is upgraded without an error, whatever the order
  in which the scripts are listed: it then has exactly the tables and indexes of the current version; the local and
  the global associations are the same as before in the same order, with identifiers counted from one in both tables and no lookup
  hash; and every other table is as it was. With two local rows of the same address, which the scripts of the first version do not
  exclude, the start fails when the unique index is created.\<close>

theorem upgrade_keeps_associations:
  assumes "v0_schema db"
  shows "if distinct_addresses db
    then \<exists>d. SqliteDatabase_init listing db = (Inr (), sql_connect d) \<and> current_schema d \<and>
    association_values d = association_values db \<and>
    row_ids d ''local_threepid_associations'' = map int [1..<Suc (length (row_ids db ''local_threepid_associations''))] \<and>
    row_ids d ''global_threepid_associations'' = map int [1..<Suc (length (row_ids db ''global_threepid_associations''))] \<and>
    concat (table_values d ''local_threepid_associations'' [''lookup_hash''] @ table_values d ''global_threepid_associations'' [''lookup_hash''])
      = replicate (length (fst (association_values db)) + length (snd (association_values db))) SNull \<and>
    (\<forall>n t. tbl db n = Some t \<longrightarrow> n \<noteq> ''local_threepid_associations'' \<longrightarrow> n \<noteq> ''global_threepid_associations'' \<longrightarrow> tbl d n = Some t)
    else fst (SqliteDatabase_init listing db) = Inl IntegrityError"
  using upgrade_distinct [of db listing] upgrade_duplicates [OF assms] assms by (simp add: v0_file_def)

text \<open>Statements that leave the rows of every table as they are, as far as they can be read.\<close>

fun gentle :: "sql_stmt \<Rightarrow> bool" where
  "gentle (DropIndexIfExists _) = True"
| "gentle (CreateTable _ _ _ _) = True"
| "gentle (CreateIndex _ _ _ _ _) = True"
| "gentle (AddColumn _ _) = True"
| "gentle _ = False"

fun gentle_call :: "sql_call \<Rightarrow> bool" where
  "gentle_call (Execute st) = gentle st"
| "gentle_call _ = True"

definition same_values :: "sql_db \<Rightarrow> sql_db \<Rightarrow> bool" where
  "same_values d d' = (\<forall>n cs. table_values d' n cs = table_values d n cs)"

lemma gentle_same_values:
  assumes "gentle st" and "exec_stmt st d = Inr d'"
  shows "same_values d d'"
  using assms
  by (cases st) (auto simp: same_values_def table_values_def values_of_def cell_def dict_has_iff split: option.splits if_splits)

lemma same_values_refl: "same_values d d"
  by (simp add: same_values_def)

lemma same_values_trans: "same_values d e \<Longrightarrow> same_values e f \<Longrightarrow> same_values d f"
  by (simp add: same_values_def)

lemma same_values_version [simp]: "same_values d (e\<lparr>db_version := v\<rparr>) = same_values d e"
  by (simp add: same_values_def table_values_def)

lemma always_gentle:
  "list_all gentle_call ks \<Longrightarrow> same_values d (cn_work c) \<Longrightarrow> same_values d (cn_disk c) \<Longrightarrow> always (same_values d) ks c"
proof (induction ks arbitrary: c)
  case (Cons k ks)
  have "same_values d (cn_work c') \<and> same_values d (cn_disk c')" if "run_call k c = Inr c'" for c'
    using that Cons.prems
    by (cases k) (auto simp: see_def split: sum.splits intro: same_values_trans [OF _ gentle_same_values])
  with Cons show ?case by (auto simp: always_Cons split: sum.split)
qed simp

lemma always_mono: "(\<And>d. P d \<Longrightarrow> Q d) \<Longrightarrow> always P ks c \<Longrightarrow> always Q ks c"
  by (simp add: always_def)

definition associations_kept :: "sql_db \<Rightarrow> sql_db \<Rightarrow> bool" where
  "associations_kept db d =
     ((\<exists>n \<in> {''local_threepid_associations'', ''old_local_threepid_associations''}. table_values d n assoc_cols = fst (association_values db)) \<and>
      (\<exists>n \<in> {''global_threepid_associations'', ''old_global_threepid_associations''}. table_values d n global_cols = snd (association_values db)))"

lemma kept_same_values: "associations_kept db d \<Longrightarrow> same_values d e \<Longrightarrow> associations_kept db e"
  by (simp add: associations_kept_def same_values_def)

lemma kept_always_gentle:
  "list_all gentle_call ks \<Longrightarrow> associations_kept db d \<Longrightarrow> always (associations_kept db) ks (sql_connect d)"
  by (rule always_mono [OF kept_same_values [of db d]], assumption, assumption, rule always_gentle)
     (simp_all add: sql_connect_def same_values_refl)

lemma script_gentle: "list_all gentle_call (create_calls listing)"
proof -
  have "list_all gentle (script_of f)" for f
    using scripts_make [of f] by (rule list.pred_mono_strong) (auto elim: made_by_scripts.elims)
  then have "list_all gentle_call (map Execute (script_of f))" for f by (simp add: list.pred_map comp_def)
  then show ?thesis by (auto simp: create_calls_def list_all_iff)
qed

text \<open>C15: however early a start on a file of the first version is cut off, by a failure of the process or of the machine: the
  local associations are then all on disk, in the table of that name or in the one it was renamed to, and so are the
  global ones.\<close>

theorem interrupted_start_keeps_associations:
  assumes "v0_file db"
  shows "associations_kept db (cn_disk (snd (run_calls (take k (start_calls listing db)) (sql_connect db))))"
proof -
  obtain l g where l: "tbl db ''local_threepid_associations'' = Some l" "v0_local_table l"
    and g: "tbl db ''global_threepid_associations'' = Some g" "v0_global_table g"
    using v0_fileE [OF assms] by metis
  let ?K = "associations_kept db"
  have kept: "?K db" "?K (without_index ''medium_address'' db)"
    "?K (without_index ''local_threepid_medium_address'' (without_index ''medium_address'' db))"
    "?K (local_moved l db)" "?K (local_split l db)" "?K (v1_of l g db)"
    by (simp_all add: associations_kept_def association_values_def table_values_tbl l(1) g(1) local_moved_def local_split_def
        v1_tables [OF assms l(1) g(1)] copied_values)
  have "always ?K local_to_v1 (sql_connect db)"
    using kept by (intro run_local_v0(2) [OF assms l])
  moreover have "always ?K global_to_v1 c" if "run_calls local_to_v1 (sql_connect db) = (Inr u, c)" for u c
  proof (rule always_in_txn)
    have "cn_txn c \<and> cn_disk c = local_split l db"
      using that unfolding run_local_v0(1) [OF assms l] by auto
    with kept show "cn_txn c" "?K (cn_disk c)" by simp_all
  qed (simp add: global_to_v1_def)
  ultimately have "always ?K (local_to_v1 @ global_to_v1) (sql_connect db)" by (rule always_append)
  then have "always ?K to_v1 (sql_connect db)"
    unfolding to_v1_def append_assoc [symmetric]
  proof (rule always_append)
    fix u c'
    assume "run_calls (local_to_v1 @ global_to_v1) (sql_connect db) = (Inr u, c')"
    then have "c' = \<lparr>cn_work = global_done g (local_done l db), cn_disk = local_split l db, cn_txn = True\<rparr>"
      by (simp add: run_to_v1(2) [OF assms l g])
    with kept show "always ?K [Commit, SetUserVersion 1] c'"
      by (simp add: always_Cons see_def v1_of_def with_version_def associations_kept_def association_values_def table_values_def)
  qed
  then have "always ?K (to_v1 @ to_v2 @ to_v3 @ to_v4 @ to_v5) (sql_connect db)"
  proof (rule always_append)
    fix u c'
    assume "run_calls to_v1 (sql_connect db) = (Inr u, c')"
    then have "c' = sql_connect (v1_of l g db)" by (simp add: run_to_v1(1) [OF assms l g])
    moreover have "list_all gentle_call (to_v2 @ to_v3 @ to_v4 @ to_v5)"
      by (simp add: to_v2_def to_v3_def to_v4_def to_v5_def)
    ultimately show "always ?K (to_v2 @ to_v3 @ to_v4 @ to_v5) c'" using kept(6) by (simp only: kept_always_gentle)
  qed
  moreover have "start_calls listing db = create_calls listing @ to_v1 @ to_v2 @ to_v3 @ to_v4 @ to_v5"
    using assms by (simp add: start_calls_def upgrade_calls_def v0_file_iff)
  ultimately have "always ?K (start_calls listing db) (sql_connect db)"
    using always_append [OF kept_always_gentle [OF script_gentle kept(1)]] run_create_v0 [OF assms, of listing] by fastforce
  then show ?thesis by (simp add: always_def)
qed

section \<open>A new file\<close>

text \<open>
  A file in which some of the scripts have run: the tables and indexes there are among those of the first version, and no
  table has a row. The order of the scripts does not matter, since each statement fits whatever ran before its script.
\<close>

definition partial_v0 :: "sql_db \<Rightarrow> bool" where
  "partial_v0 db =
     (db_version db = 0 \<and> db_wf db \<and>
      (\<forall>n t. tbl db n = Some t \<longrightarrow> map_of v0_tables n = Some (tb_key t, tb_cols t) \<and> tb_rows t = []) \<and>
      (\<forall>i ix. idx db i = Some ix \<longrightarrow> map_of v0_indexes i = Some ix \<and> tbl db (ix_table ix) \<noteq> None))"

fun fits :: "string list \<Rightarrow> sql_stmt \<Rightarrow> bool" where
  "fits ts (CreateTable True n key cols) = (map_of v0_tables n = Some (key, cols) \<and> map_of v0_indexes n = None)"
| "fits ts (CreateIndex u True i n ps) =
     (map_of v0_indexes i = Some \<lparr>ix_table = n, ix_unique = u, ix_parts = ps\<rparr> \<and> map_of v0_tables i = None \<and> n \<in> set ts \<and>
      (case map_of v0_tables n of None \<Rightarrow> False | Some (_, cols) \<Rightarrow> list_all (\<lambda>p. part_column p \<in> fst ` set cols) ps))"
| "fits ts _ = False"

fun script_fits :: "string list \<Rightarrow> sql_stmt list \<Rightarrow> bool" where
  "script_fits ts [] = True"
| "script_fits ts (st # sts) = (fits ts st \<and> script_fits (map fst (table_made st) @ ts) sts)"

definition extends :: "sql_db \<Rightarrow> sql_stmt list \<Rightarrow> sql_db \<Rightarrow> bool" where
  "extends db sts d =
     (dom (tbl d) = dom (tbl db) \<union> fst ` set (concat (map table_made sts)) \<and>
      dom (idx d) = dom (idx db) \<union> fst ` set (concat (map index_made sts)))"

lemma exec_fits:
  assumes db: "partial_v0 db" and st: "fits ts st" and ts: "set ts \<subseteq> dom (tbl db)"
  obtains d where "exec_stmt st db = Inr d" "partial_v0 d" "extends db [st] d" "\<not> changes_rows st"
proof (cases st)
  case (CreateTable ine n key cols)
  then have n: "ine" "map_of v0_tables n = Some (key, cols)" "map_of v0_indexes n = None" using st by (cases ine; simp)+
  show thesis
  proof (cases "tbl db n")
    case None
    have "idx db n = None" using db n(3) by (cases "idx db n") (auto simp: partial_v0_def)
    with None have "exec_stmt st db = Inr (with_table n (plain_table key cols) db)"
      unfolding CreateTable by (rule exec_plain_table)
    moreover have "partial_v0 (with_table n (plain_table key cols) db)"
      using db n None by (auto simp: partial_v0_def plain_table_def)
    ultimately show thesis using that by (auto simp: extends_def CreateTable)
  next
    case (Some t)
    then show thesis using that [of db] db n(1) by (auto simp: CreateTable extends_def dict_has_iff)
  qed
next
  case (CreateIndex u ine i n ps)
  then have i: "ine" "map_of v0_indexes i = Some \<lparr>ix_table = n, ix_unique = u, ix_parts = ps\<rparr>" "map_of v0_tables i = None" "n \<in> set ts"
    using st by (cases ine; simp)+
  then obtain t where t: "tbl db n = Some t" using ts by auto
  with db have shape: "map_of v0_tables n = Some (tb_key t, tb_cols t)" "tb_rows t = []" by (auto simp: partial_v0_def)
  have no: "tbl db i = None" using db i(3) by (cases "tbl db i") (auto simp: partial_v0_def)
  show thesis
  proof (cases "idx db i")
    case None
    have "exec_stmt st db = Inr (with_index i \<lparr>ix_table = n, ix_unique = u, ix_parts = ps\<rparr> db)"
      unfolding CreateIndex using st i shape by (intro exec_steps(3) [OF t no None]) (auto simp: CreateIndex has_column_def unique_on_def)
    moreover have "partial_v0 (with_index i \<lparr>ix_table = n, ix_unique = u, ix_parts = ps\<rparr> db)"
      using db i t by (auto simp: partial_v0_def)
    ultimately show thesis using that by (auto simp: extends_def CreateIndex)
  next
    case (Some x)
    then show thesis using that [of db] db i(1) t no by (auto simp: CreateIndex extends_def dict_has_iff)
  qed
qed (use st in simp_all)

lemma run_fits:
  assumes "partial_v0 db" and "script_fits ts sts" and "set ts \<subseteq> dom (tbl db)"
  shows "\<exists>d. run_calls (map Execute sts) (sql_connect db) = (Inr (), sql_connect d) \<and> partial_v0 d \<and> extends db sts d"
  using assms
proof (induction sts arbitrary: db ts)
  case Nil
  then show ?case by (auto simp: extends_def)
next
  case (Cons st sts)
  from Cons.prems obtain e where e: "exec_stmt st db = Inr e" "partial_v0 e" "extends db [st] e" "\<not> changes_rows st"
    by (auto elim: exec_fits)
  have "set (map fst (table_made st) @ ts) \<subseteq> dom (tbl e)" using e(3) Cons.prems(3) by (auto simp: extends_def)
  from Cons.IH [OF e(2) _ this] Cons.prems(2) obtain d where
    d: "run_calls (map Execute sts) (sql_connect e) = (Inr (), sql_connect d)" "partial_v0 d" "extends e sts d" by auto
  have "extends db (st # sts) d" using e(3) d(3) by (auto simp: extends_def)
  then show ?case using d(1,2) e(1,4) by (auto simp: run_call_at_rest(1) simp del: run_call.simps exec_stmt.simps)
qed

lemma scripts_fit: "script_fits [] (script_of f)"
proof -
  have "list_all (script_fits []) (map snd sql_files)" by code_simp
  then have "script_fits [] s" if "map_of sql_files f = Some s" for s
    using map_of_SomeD [OF that] by (auto simp: list_all_iff)
  then show ?thesis by (simp add: script_of_def split: option.split)
qed

lemma run_scripts:
  assumes "partial_v0 db"
  shows "\<exists>d. run_calls (concat (map (\<lambda>f. if endswith f ''.sql'' then Commit # map Execute (script_of f) else []) fs)) (sql_connect db)
      = (Inr (), sql_connect d) \<and> partial_v0 d \<and> extends db (concat (map script_of (filter (\<lambda>f. endswith f ''.sql'') fs))) d"
  using assms
proof (induction fs arbitrary: db)
  case Nil
  then show ?case by (auto simp: extends_def)
next
  case (Cons f fs)
  show ?case
  proof (cases "endswith f ''.sql''")
    case True
    from run_fits [OF Cons.prems scripts_fit] obtain e where
      e: "run_calls (map Execute (script_of f)) (sql_connect db) = (Inr (), sql_connect e)" "partial_v0 e" "extends db (script_of f) e"
      by auto
    from Cons.IH [OF e(2)] obtain d where
      d: "run_calls (concat (map (\<lambda>f. if endswith f ''.sql'' then Commit # map Execute (script_of f) else []) fs)) (sql_connect e)
        = (Inr (), sql_connect d)" "partial_v0 d" "extends e (concat (map script_of (filter (\<lambda>f. endswith f ''.sql'') fs))) d"
      by auto
    have "extends db (script_of f @ concat (map script_of (filter (\<lambda>f. endswith f ''.sql'') fs))) d"
      using e(3) d(3) by (simp add: extends_def Un_assoc image_Un)
    moreover have "run_calls (concat (map (\<lambda>f. if endswith f ''.sql'' then Commit # map Execute (script_of f) else []) (f # fs)))
        (sql_connect db) = (Inr (), sql_connect d)"
      using True d(1) by (simp add: run_calls_append run_call_at_rest(2) e(1) del: run_call.simps)
    ultimately show ?thesis using True d(2) by auto
  next
    case False
    with Cons show ?thesis by simp
  qed
qed

lemma partial_v0_empty: "partial_v0 empty_file"
  by (simp add: partial_v0_def empty_file_def db_wf_def)

lemma v0_tables_dom: "fst ` set (concat (map table_made (concat (map script_of fs)))) = dom (map_of v0_tables)"
    and v0_indexes_dom: "fst ` set (concat (map index_made (concat (map script_of fs)))) = dom (map_of v0_indexes)"
  if "set fs = fst ` set sql_files"
proof -
  have "set (concat (map script_of fs)) = set (concat (map snd sql_files))"
  proof -
    have "dict_wf sql_files" by (simp add: sql_files_def)
    then have "script_of (fst p) = snd p" if "p \<in> set sql_files" for p
      using that by (cases p) (simp add: script_of_def)
    then have "(\<lambda>p. script_of (fst p)) ` set sql_files = snd ` set sql_files" by (rule image_cong [OF refl])
    then have "script_of ` set fs = snd ` set sql_files" unfolding that image_image .
    then show ?thesis by (metis (no_types) set_concat set_map)
  qed
  then show "fst ` set (concat (map table_made (concat (map script_of fs)))) = dom (map_of v0_tables)"
    "fst ` set (concat (map index_made (concat (map script_of fs)))) = dom (map_of v0_indexes)"
    unfolding v0_tables_def v0_indexes_def dom_map_of_conv_image_fst set_concat [of "map _ _"] set_map [of _ "concat _"] by simp_all
qed

lemma partial_v0_complete:
  assumes "partial_v0 d" and "dom (tbl d) = dom (map_of v0_tables)" and "dom (idx d) = dom (map_of v0_indexes)"
  shows "v0_file d"
proof -
  let ?shape = "map (\<lambda>(n, t). (n, tb_key t, tb_cols t)) (db_tables d)"
  have wf: "dict_wf (db_tables d)" "dict_wf (db_indexes d)" using assms(1) by (simp_all add: partial_v0_def db_wf_def)
  have shape: "map_of ?shape = map_of v0_tables"
  proof
    fix n
    have "map_of ?shape n = map_option (\<lambda>t. (tb_key t, tb_cols t)) (tbl d n)" by (simp add: map_of_map)
    then show "map_of ?shape n = map_of v0_tables n"
      using assms(1,2) unfolding partial_v0_def by (cases "tbl d n") (simp_all, metis domIff)
  qed
  moreover have "map_of (db_indexes d) = map_of v0_indexes"
  proof
    fix n
    show "map_of (db_indexes d) n = map_of v0_indexes n"
      using assms(1,3) unfolding partial_v0_def by (cases "idx d n") (simp_all, metis domIff)
  qed
  ultimately have sets: "set ?shape = set v0_tables" "set (db_indexes d) = set v0_indexes"
    using wf v0_tables_wf v0_indexes_wf map_of_inject_set [of ?shape v0_tables] map_of_inject_set [of "db_indexes d" v0_indexes]
    by (auto simp: comp_def case_prod_beta)
  have "list_all (\<lambda>(n, _). n \<notin> set superseded) v0_indexes" by code_simp
  with sets(2) have "filter (\<lambda>(n, _). n \<notin> set superseded) (db_indexes d) = db_indexes d"
    by (intro filter_True) (auto simp: list_all_iff)
  moreover have "list_all (\<lambda>(_, ix). dict_has (db_tables d) (ix_table ix)) (db_indexes d)"
    using assms(1) wf(2) by (auto simp: partial_v0_def list_all_iff dict_has_iff)
  moreover have "rows_ok d n ps" if "map_of v0_tables n \<noteq> None" for n ps
  proof -
    from that assms(2) obtain t where "tbl d n = Some t" by blast
    moreover from this assms(1) have "tb_rows t = []" by (simp add: partial_v0_def)
    ultimately show ?thesis by (simp add: rows_ok_def not_null_ok_def unique_on_def list_all_iff case_prod_beta)
  qed
  ultimately show ?thesis using sets wf assms(1) by (simp add: v0_file_iff partial_v0_def v0_tables_lookup)
qed

lemma create_new_file:
  assumes "set (filter (\<lambda>f. endswith f ''.sql'') listing) = fst ` set sql_files"
  shows "\<exists>d. run_calls (create_calls listing) (sql_connect empty_file) = (Inr (), sql_connect d) \<and> v0_file d \<and> partial_v0 d"
proof -
  from run_scripts [OF partial_v0_empty, of listing] obtain d where
    d: "run_calls (concat (map (\<lambda>f. if endswith f ''.sql'' then Commit # map Execute (script_of f) else []) listing)) (sql_connect empty_file)
      = (Inr (), sql_connect d)" "partial_v0 d"
    "extends empty_file (concat (map script_of (filter (\<lambda>f. endswith f ''.sql'') listing))) d" by auto
  have "v0_file d"
  proof (rule partial_v0_complete [OF d(2)])
    show "dom (tbl d) = dom (map_of v0_tables)" "dom (idx d) = dom (map_of v0_indexes)"
      using d(3) by (simp_all only: extends_def v0_tables_dom [OF assms] v0_indexes_dom [OF assms])
        (simp_all add: empty_file_def)
  qed
  with d(1,2) show ?thesis by (auto simp: create_calls_def run_calls_append run_call_at_rest(2) simp del: run_call.simps)
qed

lemma init_current: "current_schema d \<Longrightarrow> SqliteDatabase_init listing d = (Inr (), sql_connect d)"
  by (simp add: SqliteDatabase_init_def start_calls_def upgrade_calls_def current_schema_def)

text \<open>with an empty database file the server starts, in whatever order the scripts are listed and whatever other files lie
  beside them, on the current schema with empty tables; and starting again changes nothing.\<close>

theorem new_file_start:
  assumes "set (filter (\<lambda>f. endswith f ''.sql'') listing) = fst ` set sql_files"
  shows "\<exists>d. SqliteDatabase_init listing empty_file = (Inr (), sql_connect d) \<and> current_schema d \<and>
    (\<forall>n t. tbl d n = Some t \<longrightarrow> tb_rows t = [] \<and> (tb_key t = AutoKey \<longrightarrow> tb_seq t = 0)) \<and>
    (\<forall>listing'. SqliteDatabase_init listing' d = (Inr (), sql_connect d))"
proof -
  from create_new_file [OF assms] obtain e where
    e: "run_calls (create_calls listing) (sql_connect empty_file) = (Inr (), sql_connect e)" "v0_file e" "partial_v0 e" by auto
  obtain l g where l: "tbl e ''local_threepid_associations'' = Some l" "v0_local_table l"
    and g: "tbl e ''global_threepid_associations'' = Some g" "v0_global_table g"
    using v0_fileE [OF e(2)] by metis
  let ?d = "upgraded l g e"
  have init: "SqliteDatabase_init listing empty_file = (Inr (), sql_connect ?d)"
    using e(1) run_to_v1(1) [OF e(2) l g] run_upgrades [OF e(2) l g]
    by (simp add: SqliteDatabase_init_def start_calls_def upgrade_calls_def empty_file_def run_calls_append)
  have rows: "tb_rows l = []" "tb_rows g = []" using e(3) l(1) g(1) by (simp_all add: partial_v0_def)
  have keys: "tb_key t \<noteq> AutoKey" if "map_of v0_tables n = Some (tb_key t, cs)" for n t cs
  proof -
    have "list_all (\<lambda>(_, key, _). key \<noteq> AutoKey) v0_tables" by code_simp
    with map_of_SomeD [OF that] show ?thesis by (auto simp: list_all_iff)
  qed
  have copied: "tb_rows (copy_rows cs s (new_table cols)) = []" "tb_seq (copy_rows cs s (new_table cols)) = 0"
    if "tb_rows s = []" for cs s cols
    using that by (simp_all add: copy_rows_def new_table_def)
  have empty: "tb_rows t = [] \<and> (tb_key t = AutoKey \<longrightarrow> tb_seq t = 0)" if "tbl ?d n = Some t" for n t
  proof (cases "tbl e n = Some t")
    case True
    with e(3) have "map_of v0_tables n = Some (tb_key t, tb_cols t)" "tb_rows t = []" by (simp_all add: partial_v0_def)
    with keys show ?thesis by blast
  next
    case False
    with that rows show ?thesis
      by (auto simp: upgraded_tables [OF e(2) l(1) g(1)] add_lookup_hash_def plain_table_def copied split: if_splits)
  qed
  show ?thesis
    using init upgraded_current [OF e(2) l(1) g(1)] empty init_current by blast
qed

lemma gentle_keeps_tables:
  assumes "gentle st" and "exec_stmt st d = Inr d'" and "tbl d n \<noteq> None"
  shows "tbl d' n \<noteq> None"
  using assms by (cases st) (auto split: option.splits if_splits)

lemma run_gentle_keeps_tables:
  "list_all gentle_call ks \<Longrightarrow> tbl (cn_work c) n \<noteq> None \<Longrightarrow> run_calls ks c = (Inr u, c') \<Longrightarrow> tbl (cn_work c') n \<noteq> None"
proof (induction ks arbitrary: c)
  case (Cons k ks)
  then obtain c1 where c1: "run_call k c = Inr c1" "run_calls ks c1 = (Inr u, c')" by (auto split: sum.splits)
  then have "tbl (cn_work c1) n \<noteq> None"
    using Cons.prems(1,2) gentle_keeps_tables by (cases k) (auto simp: see_def split: sum.splits)
  with Cons c1 show ?case by auto
qed simp

text \<open>A file with the old local table left in it: no start gets past renaming the local table again.\<close>

lemma left_over_blocks_start:
  assumes "db_version d = 0" and "tbl d ''old_local_threepid_associations'' \<noteq> None"
  shows "isl (fst (SqliteDatabase_init listing d))"
proof -
  let ?old = "''old_local_threepid_associations''"
  obtain r c where create: "run_calls (create_calls listing) (sql_connect d) = (r, c)" by fastforce
  have "isl (fst (run_calls (to_v1 @ ks) c))" if "r = Inr ()" for ks
  proof -
    have "tbl (cn_work c) ?old \<noteq> None"
      using run_gentle_keeps_tables [OF script_gentle _ create [unfolded that], of ?old] assms(2) by (simp add: sql_connect_def)
    then obtain t where "tbl (cn_work c) ?old = Some t" by auto
    then show ?thesis by (simp add: to_v1_def local_to_v1_def see_def dict_has_iff split: option.split)
  qed
  then show ?thesis
    using assms(1) create by (simp add: SqliteDatabase_init_def start_calls_def upgrade_calls_def run_calls_append split: sum.split)
qed

text \<open>The upgrade from the first version is not one transaction: there is a moment after which, if the process dies then, no
  later start succeeds, since the table to be renamed has been renamed before.\<close>

theorem interrupted_upgrade_blocks_restart:
  assumes "v0_file db"
  shows "\<exists>k. \<forall>listing'. isl (fst (SqliteDatabase_init listing' (cn_disk (snd (run_calls (take k (start_calls listing db)) (sql_connect db))))))"
proof -
  obtain l g where l: "tbl db ''local_threepid_associations'' = Some l" "v0_local_table l"
    and g: "tbl db ''global_threepid_associations'' = Some g" "v0_global_table g"
    using v0_fileE [OF assms] by metis
  let ?ks = "create_calls listing @ local_to_v1 @ global_to_v1"
  have "start_calls listing db = ?ks @ [Commit, SetUserVersion 1] @ to_v2 @ to_v3 @ to_v4 @ to_v5"
    using assms by (simp add: start_calls_def upgrade_calls_def v0_file_iff to_v1_def)
  then have "take (length ?ks) (start_calls listing db) = ?ks" by simp
  then have "cn_disk (snd (run_calls (take (length ?ks) (start_calls listing db)) (sql_connect db))) = local_split l db"
    using run_create_v0 [OF assms, of listing] run_to_v1(2) [OF assms l g] by (simp add: run_calls_append)
  moreover have "isl (fst (SqliteDatabase_init listing' (local_split l db)))" for listing'
    using assms by (intro left_over_blocks_start) (simp_all add: local_split_def local_moved_def v0_file_iff)
  ultimately show ?thesis by metis
qed

definition v0_of :: "sql_row list \<Rightarrow> sql_row list \<Rightarrow> sql_db" where
  "v0_of ls gs =
     \<lparr>db_tables = map (\<lambda>(n, key, cols). (n, \<lparr>tb_key = key, tb_cols = cols, tb_seq = 0, tb_rows =
        (if n = ''local_threepid_associations'' then ls else if n = ''global_threepid_associations'' then gs else [])\<rparr>)) v0_tables,
      db_indexes = v0_indexes, db_version = 0\<rparr>"

lemma v0_of_tbl:
  "tbl (v0_of ls gs) n = map_option (\<lambda>(key, cols). \<lparr>tb_key = key, tb_cols = cols, tb_seq = 0, tb_rows =
        (if n = ''local_threepid_associations'' then ls else if n = ''global_threepid_associations'' then gs else [])\<rparr>) (map_of v0_tables n)"
proof -
  have "dict_get (map (\<lambda>(n, key, cols). (n, \<lparr>tb_key = key, tb_cols = cols, tb_seq = 0, tb_rows = f n\<rparr>)) d) n
      = map_option (\<lambda>(key, cols). \<lparr>tb_key = key, tb_cols = cols, tb_seq = 0, tb_rows = f n\<rparr>) (map_of d n)" for f and d :: "(string \<times> primary_key \<times> (string \<times> bool) list) list"
    by (induction d) auto
  then show ?thesis by (simp add: v0_of_def)
qed

lemma v0_of_schema:
  assumes "rows_not_null (v0_of ls gs) ''local_threepid_associations''"
    and "rows_ok (v0_of ls gs) ''global_threepid_associations'' [Col ''originServer'', Col ''originId'']"
  shows "v0_schema (v0_of ls gs)"
proof -
  have "map (\<lambda>(n, t). (n, tb_key t, tb_cols t)) (db_tables (v0_of ls gs)) = v0_tables"
    by (simp add: v0_of_def comp_def case_prod_beta)
  moreover from this have "map fst (db_tables (v0_of ls gs)) = map fst v0_tables" by (simp add: v0_of_def comp_def case_prod_beta)
  moreover have "list_all (\<lambda>(n, _). n \<notin> set superseded) v0_indexes" by code_simp
  then have "filter (\<lambda>(n, _). n \<notin> set superseded) v0_indexes = v0_indexes" by (intro filter_True) (auto simp: list_all_iff)
  moreover have "list_all (\<lambda>(_, ix). map_of v0_tables (ix_table ix) \<noteq> None) v0_indexes" by code_simp
  then have "list_all (\<lambda>(_, ix). dict_has (db_tables (v0_of ls gs)) (ix_table ix)) v0_indexes"
    by (auto simp: list_all_iff dict_has_iff v0_of_tbl)
  moreover have "db_indexes (v0_of ls gs) = v0_indexes" "db_version (v0_of ls gs) = 0" by (simp_all add: v0_of_def)
  ultimately show ?thesis
    unfolding v0_schema_def using assms v0_tables_wf v0_indexes_wf by simp
qed

definition demo_local_row :: sql_row where
  "demo_local_row = \<lparr>sr_id = 5, sr_cells = [(''medium'', SText ''email''), (''address'', SText ''a@b.c''), (''mxid'', SText ''@a:b''),
     (''ts'', SInt 1), (''notBefore'', SInt 1), (''notAfter'', SInt 9)]\<rparr>"

definition demo_global_row :: sql_row where
  "demo_global_row = \<lparr>sr_id = 5, sr_cells = [(''medium'', SText ''email''), (''address'', SText ''a@b.c''), (''mxid'', SText ''@a:b''),
     (''ts'', SInt 1), (''notBefore'', SInt 1), (''notAfter'', SInt 9), (''originServer'', SText ''is.example''), (''originId'', SInt 5),
     (''sgAssoc'', SText ''{}'')]\<rparr>"

lemmas demo_v0_rows = rows_ok_def rows_not_null_def distinct_addresses_def v0_of_tbl v0_tables_lookup not_null_ok_def unique_on_def
  cell_def demo_local_row_def demo_global_row_def

lemma demo_v0: "v0_file (v0_of [demo_local_row] [demo_global_row])"
  unfolding v0_file_def by (rule conjI, rule v0_of_schema) (simp_all add: demo_v0_rows)

lemma demo_v0_double: "v0_schema (v0_of [demo_local_row, demo_local_row] [demo_global_row])"
  by (rule v0_of_schema) (simp_all add: demo_v0_rows)

theorem upgrade_keeps_associations_witness:
  "(\<exists>d. SqliteDatabase_init [''peers.sql''] (v0_of [demo_local_row] [demo_global_row]) = (Inr (), sql_connect d) \<and>
    row_ids d ''local_threepid_associations'' = [1] \<and> row_ids d ''global_threepid_associations'' = [1] \<and>
    fst (association_values d) = [[SText ''email'', SText ''a@b.c'', SText ''@a:b'', SInt 1, SInt 1, SInt 9]]) \<and>
   fst (SqliteDatabase_init [] (v0_of [demo_local_row, demo_local_row] [demo_global_row])) = Inl IntegrityError"
proof -
  let ?db = "v0_of [demo_local_row] [demo_global_row]" and ?db2 = "v0_of [demo_local_row, demo_local_row] [demo_global_row]"
  have ids: "row_ids ?db ''local_threepid_associations'' = [5]" "row_ids ?db ''global_threepid_associations'' = [5]"
    by (simp_all add: row_ids_def v0_of_tbl v0_tables_lookup demo_local_row_def demo_global_row_def)
  have vals: "fst (association_values ?db) = [[SText ''email'', SText ''a@b.c'', SText ''@a:b'', SInt 1, SInt 1, SInt 9]]"
    by (simp add: association_values_def table_values_tbl v0_of_tbl v0_tables_lookup values_of_def cell_def demo_local_row_def)
  have d: "v0_schema ?db" "distinct_addresses ?db" "\<not> distinct_addresses ?db2"
    using demo_v0 by (simp_all add: v0_file_def) (simp add: demo_v0_rows)
  show ?thesis
    using upgrade_keeps_associations [OF d(1), of "[''peers.sql'']"] upgrade_keeps_associations [OF demo_v0_double, of "[]"] d(2,3) ids vals
    by auto
qed

theorem interrupted_start_keeps_associations_witness:
  "associations_kept (v0_of [demo_local_row] [demo_global_row])
     (cn_disk (snd (run_calls (take 7 (start_calls [] (v0_of [demo_local_row] [demo_global_row]))) (sql_connect (v0_of [demo_local_row] [demo_global_row])))))"
  by (rule interrupted_start_keeps_associations [OF demo_v0])

theorem interrupted_upgrade_blocks_restart_witness:
  "\<exists>k. \<forall>listing'. isl (fst (SqliteDatabase_init listing' (cn_disk (snd (run_calls (take k (start_calls []
      (v0_of [demo_local_row] [demo_global_row]))) (sql_connect (v0_of [demo_local_row] [demo_global_row])))))))"
  by (rule interrupted_upgrade_blocks_restart [OF demo_v0])

end
