(* ===== verification/Server_Start.thy ===== *)
theory Server_Start
  imports Schema_Upgrade Server_Runs
begin

text \<open>
  The start of the server (\<open>Sydent.__init__\<close> of \<open>sydent/sydent.py\<close>): the database file is opened and brought to the current
  schema, a lookup pepper is generated if there is none, and the rate limiters start empty. The stores of the other theories
  read the tables of the file; how their states come from its rows is said here.
\<close>

section \<open>The stores on the tables\<close>

definition text_cell :: "sql_table \<Rightarrow> string \<Rightarrow> sql_row \<Rightarrow> string option" where
  "text_cell t c r = (case cell t c r of SText s \<Rightarrow> Some s | _ \<Rightarrow> None)"

definition int_cell :: "sql_table \<Rightarrow> string \<Rightarrow> sql_row \<Rightarrow> int option" where
  "int_cell t c r = (case cell t c r of SInt i \<Rightarrow> Some i | _ \<Rightarrow> None)"

definition text_of :: "string option \<Rightarrow> string" where
  "text_of x = (case x of None \<Rightarrow> '''' | Some s \<Rightarrow> s)"

definition int_of :: "int option \<Rightarrow> int" where
  "int_of x = (case x of None \<Rightarrow> 0 | Some i \<Rightarrow> i)"

definition read_rows :: "sql_db \<Rightarrow> string \<Rightarrow> (sql_table \<Rightarrow> sql_row \<Rightarrow> 'a) \<Rightarrow> 'a list" where
  "read_rows db n f = (case dict_get (db_tables db) n of None \<Rightarrow> [] | Some t \<Rightarrow> map (f t) (tb_rows t))"

definition read_seq :: "sql_db \<Rightarrow> string \<Rightarrow> int" where
  "read_seq db n = (case dict_get (db_tables db) n of None \<Rightarrow> 0 | Some t \<Rightarrow> tb_seq t)"

definition load_local :: "sql_db \<Rightarrow> local_table" where
  "load_local db =
     \<lparr>l_rows = read_rows db ''local_threepid_associations'' (\<lambda>t r.
        \<lparr>l_id = sr_id r, l_assoc =
          \<lparr>ta_medium = text_of (text_cell t ''medium'' r), ta_address = text_of (text_cell t ''address'' r),
           ta_lookup_hash = text_cell t ''lookup_hash'' r, ta_mxid = text_cell t ''mxid'' r, ta_ts = int_cell t ''ts'' r,
           ta_not_before = int_cell t ''notBefore'' r, ta_not_after = int_cell t ''notAfter'' r\<rparr>\<rparr>),
      l_seq = read_seq db ''local_threepid_associations''\<rparr>"

text \<open>\<open>loads\<close> is the JSON parser.\<close>

definition load_global :: "(string \<Rightarrow> jdict) \<Rightarrow> sql_db \<Rightarrow> global_table" where
  "load_global loads db =
     \<lparr>g_rows = read_rows db ''global_threepid_associations'' (\<lambda>t r.
        \<lparr>g_id = sr_id r, g_medium = text_of (text_cell t ''medium'' r), g_address = text_of (text_cell t ''address'' r),
         g_lookup_hash = text_cell t ''lookup_hash'' r, g_mxid = text_of (text_cell t ''mxid'' r),
         g_ts = int_of (int_cell t ''ts'' r), g_notBefore = int_of (int_cell t ''notBefore'' r),
         g_notAfter = int_of (int_cell t ''notAfter'' r), g_originServer = text_of (text_cell t ''originServer'' r),
         g_originId = int_of (int_cell t ''originId'' r), g_sgAssoc = loads (text_of (text_cell t ''sgAssoc'' r))\<rparr>),
      g_seq = read_seq db ''global_threepid_associations''\<rparr>"

definition load_hashing :: "sql_db \<Rightarrow> hashing_store" where
  "load_hashing db =
     \<lparr>hs_cached = None, hs_row = (case read_rows db ''hashing_metadata'' (\<lambda>t r. text_cell t ''lookup_pepper'' r) of
        [] \<Rightarrow> None | p # _ \<Rightarrow> p)\<rparr>"

definition load_invites :: "sql_db \<Rightarrow> invite_db" where
  "load_invites db =
     \<lparr>iv_tokens = read_rows db ''invite_tokens'' (\<lambda>t r.
        \<lparr>i_medium = text_of (text_cell t ''medium'' r), i_address = text_of (text_cell t ''address'' r),
         i_room_id = text_of (text_cell t ''room_id'' r), i_sender = text_of (text_cell t ''sender'' r),
         i_token = text_of (text_cell t ''token'' r), i_received_ts = int_of (int_cell t ''received_ts'' r),
         i_sent_ts = int_cell t ''sent_ts'' r\<rparr>),
      iv_keys = read_rows db ''ephemeral_public_keys'' (\<lambda>t r.
        \<lparr>ek_public_key = text_of (text_cell t ''public_key'' r), ek_verify_count = int_of (int_cell t ''verify_count'' r),
         ek_persistence_ts = int_of (int_cell t ''persistence_ts'' r)\<rparr>)\<rparr>"

definition load_sessions :: "sql_db \<Rightarrow> session_db" where
  "load_sessions db =
     \<lparr>sd_sessions = read_rows db ''threepid_validation_sessions'' (\<lambda>t r.
        \<lparr>vs_id = sr_id r, vs_medium = text_of (text_cell t ''medium'' r), vs_address = text_of (text_cell t ''address'' r),
         vs_client_secret = text_of (text_cell t ''clientSecret'' r), vs_validated = (int_of (int_cell t ''validated'' r) \<noteq> 0),
         vs_mtime = int_of (int_cell t ''mtime'' r)\<rparr>),
      sd_tokens = read_rows db ''threepid_token_auths'' (\<lambda>t r.
        \<lparr>t_id = sr_id r, t_validationSession = int_of (int_cell t ''validationSession'' r),
         t_token = text_of (text_cell t ''token'' r), t_sendAttemptNumber = int_of (int_cell t ''sendAttemptNumber'' r)\<rparr>)\<rparr>"

definition load_accounts :: "sql_db \<Rightarrow> account_db" where
  "load_accounts db =
     \<lparr>ad_accounts = read_rows db ''accounts'' (\<lambda>t r.
        \<lparr>ac_userId = text_of (text_cell t ''user_id'' r), ac_creationTs = int_of (int_cell t ''created_ts'' r),
         ac_consentVersion = text_cell t ''consent_version'' r\<rparr>),
      ad_tokens = read_rows db ''tokens'' (\<lambda>t r. (text_of (text_cell t ''token'' r), text_of (text_cell t ''user_id'' r))),
      ad_terms = read_rows db ''accepted_terms_urls'' (\<lambda>t r. (text_of (text_cell t ''user_id'' r), text_of (text_cell t ''url'' r)))\<rparr>"

section \<open>The start\<close>

text \<open>The bursts of the rate limiters come from the configuration, \<open>r\<close> is the source of random numbers.\<close>

record start_params =
  sp_loads :: "string \<Rightarrow> jdict"
  sp_random :: "nat \<Rightarrow> nat"
  sp_email_burst :: int
  sp_msisdn_burst :: int
  sp_country_burst :: int

definition Sydent_init :: "server_conf \<Rightarrow> start_params \<Rightarrow> string list \<Rightarrow> sql_db \<Rightarrow> sql_error + server_state" where
  "Sydent_init cf sp listing file =
     (case SqliteDatabase_init listing file of
        (Inl e, _) \<Rightarrow> Inl e
      | (Inr _, c) \<Rightarrow>
          (case startup_pepper (ev_hash (cf_env cf)) (sp_random sp)
               (load_hashing (cn_work c), load_local (cn_work c), load_global (sp_loads sp) (cn_work c)) of
             (hs, lt, gt) \<Rightarrow>
               Inr \<lparr>sv_identity = \<lparr>is_local = lt, is_global = \<lparr>gc_work = gt, gc_disk = gt\<rparr>, is_invites = load_invites (cn_work c),
                      is_extra = [], is_hashing = hs, is_outbox = [], is_retries = []\<rparr>,
                    sv_sessions = load_sessions (cn_work c), sv_accounts = load_accounts (cn_work c),
                    sv_email_rl = Ratelimiter_init (sp_email_burst sp), sv_msisdn_rl = (\<lambda>_. Ratelimiter_init (sp_msisdn_burst sp)),
                    sv_country_rl = (\<lambda>_. Ratelimiter_init (sp_country_burst sp)), sv_mails = [], sv_smses = []\<rparr>))"

section \<open>A new server\<close>

lemma startup_pepper_ok:
  assumes "startup_pepper hf r (\<lparr>hs_cached = None, hs_row = None\<rparr>, lt, gt) = (hs, lt', gt')"
  shows "\<exists>p. fst (get_lookup_pepper hs) = Some p \<and> p \<noteq> ''''"
proof -
  have "generateAlphanumericTokenOfLength r 5 \<noteq> []" by (simp add: generateAlphanumericTokenOfLength_def)
  with assms show ?thesis by (auto simp: startup_pepper_def get_lookup_pepper_def store_lookup_pepper_def)
qed

definition empty_tables :: "sql_db \<Rightarrow> bool" where
  "empty_tables d = (\<forall>n t. tbl d n = Some t \<longrightarrow> tb_rows t = [] \<and> (tb_key t = AutoKey \<longrightarrow> tb_seq t = 0))"

lemma read_rows_empty: "empty_tables d \<Longrightarrow> read_rows d n f = []"
  by (auto simp: read_rows_def empty_tables_def split: option.split)

lemma load_empty:
  assumes "current_schema d" and "empty_tables d"
  shows "load_local d = empty_local" "load_global loads d = empty_global" "load_hashing d = \<lparr>hs_cached = None, hs_row = None\<rparr>"
    "load_invites d = empty_invites" "load_sessions d = empty_sessions" "load_accounts d = empty_accounts"
proof -
  have seq: "read_seq d n = 0" if "map_of current_tables n = Some (AutoKey, cs)" for n cs
  proof -
    from assms(1) that have "map_option (\<lambda>t. (tb_key t, tb_cols t)) (tbl d n) = Some (AutoKey, cs)" by (simp add: current_schema_def)
    then obtain t where "tbl d n = Some t" "tb_key t = AutoKey" by auto
    with assms(2) show ?thesis by (auto simp: read_seq_def empty_tables_def)
  qed
  have "read_seq d ''local_threepid_associations'' = 0" "read_seq d ''global_threepid_associations'' = 0"
    by (rule seq, simp add: current_tables_def)+
  then show "load_local d = empty_local" "load_global loads d = empty_global" "load_hashing d = \<lparr>hs_cached = None, hs_row = None\<rparr>"
    "load_invites d = empty_invites" "load_sessions d = empty_sessions" "load_accounts d = empty_accounts"
    by (simp_all add: read_rows_empty [OF assms(2)] load_local_def load_global_def load_hashing_def load_invites_def load_sessions_def load_accounts_def
        empty_local_def empty_global_def empty_invites_def empty_sessions_def empty_accounts_def)
qed

lemma start_new_file:
  assumes "set (filter (\<lambda>f. endswith f ''.sql'') listing) = fst ` set sql_files" and "sign_keeps (ev_sign (cf_env cf))"
  shows "\<exists>s. Sydent_init cf sp listing empty_file = Inr s \<and> server_inv cf s \<and> is_local (sv_identity s) = empty_local \<and>
    known (sv_identity s) = empty_global \<and> sv_sessions s = empty_sessions \<and> sv_accounts s = empty_accounts"
proof -
  obtain d where d: "SqliteDatabase_init listing empty_file = (Inr (), sql_connect d)" "current_schema d" "empty_tables d"
    using new_file_start [OF assms(1)] by (auto simp: empty_tables_def)
  obtain hs lt gt where p: "startup_pepper (ev_hash (cf_env cf)) (sp_random sp) (\<lparr>hs_cached = None, hs_row = None\<rparr>, empty_local, empty_global)
      = (hs, lt, gt)" by (metis prod_cases3)
  have tables: "lt = empty_local" "gt = empty_global"
    using p by (auto simp: startup_pepper_def get_lookup_pepper_def store_lookup_pepper_def rehash_threepids_def empty_local_def
        empty_global_def rehash_loop.simps)
  have init: "Sydent_init cf sp listing empty_file =
      Inr \<lparr>sv_identity = \<lparr>is_local = empty_local, is_global = \<lparr>gc_work = empty_global, gc_disk = empty_global\<rparr>, is_invites = empty_invites,
             is_extra = [], is_hashing = hs, is_outbox = [], is_retries = []\<rparr>,
           sv_sessions = empty_sessions, sv_accounts = empty_accounts,
           sv_email_rl = Ratelimiter_init (sp_email_burst sp), sv_msisdn_rl = (\<lambda>_. Ratelimiter_init (sp_msisdn_burst sp)),
           sv_country_rl = (\<lambda>_. Ratelimiter_init (sp_country_burst sp)), sv_mails = [], sv_smses = []\<rparr>" (is "_ = Inr ?s")
    using p d(1) by (simp add: Sydent_init_def sql_connect_def load_empty [OF d(2,3)] tables)
  have "identity_inv (cf_env cf) (sv_identity ?s)"
    by (simp add: identity_inv_def local_inv_empty global_inv_empty)
       (simp add: local_normal_def global_normal_def origin_link_def empty_local_def empty_global_def)
  moreover have "env_ok (cf_env cf) (sv_identity ?s)"
    using startup_pepper_ok [OF p] assms(2) by (simp add: env_ok_def pepper_of_def)
  ultimately have "server_inv cf ?s"
    by (simp add: server_inv_def session_inv_empty account_inv_empty rl_inv_init)
  with init show ?thesis by auto
qed

text \<open>C1: a server started on an empty database file keeps its invariant in every state it can reach: whatever requests come in, in
  whatever order, and however other servers answer, the tables of associations, sessions and accounts keep their keys,
  addresses stay normalised, every session has exactly one token, every access token belongs to an account, no transaction is
  left open, and no rate limiter admits more than its burst.\<close>

theorem started_server_inv:
  assumes "set (filter (\<lambda>f. endswith f ''.sql'') listing) = fst ` set sql_files" and "sign_keeps (ev_sign (cf_env cf))"
    and "foreign_peers cf pdb"
  shows "\<exists>s. Sydent_init cf sp listing empty_file = Inr s \<and> (\<forall>t. reachable cf se pdb s t \<longrightarrow> server_inv cf t)"
  using start_new_file [OF assms(1,2), of sp] reachable_keeps_inv [OF _ assms(3)] by blast

theorem started_server_inv_witness:
  "\<exists>s. Sydent_init demo_conf \<lparr>sp_loads = \<lambda>_. [], sp_random = \<lambda>_. 0, sp_email_burst = 5, sp_msisdn_burst = 5, sp_country_burst = 50\<rparr>
      (map fst sql_files) empty_file = Inr s \<and>
    (\<forall>t. reachable demo_conf trusting_env \<lparr>pd_peers = [], pd_pubkeys = []\<rparr> s t \<longrightarrow> server_inv demo_conf t)"
proof (rule started_server_inv)
  show "set (filter (\<lambda>f. endswith f ''.sql'') (map fst sql_files)) = fst ` set sql_files"
    by (simp add: sql_files_def endswith_iff)
qed (simp_all add: demo_conf_def plain_env_def sign_keeps_def foreign_peers_def)

section \<open>Identifiers after the upgrade\<close>

lemma lastIdFromServer_ge:
  assumes "r \<in> set (g_rows t)" and "g_originServer r = server"
  shows "\<exists>i. lastIdFromServer server t = Some i \<and> g_originId r \<le> i"
proof -
  let ?is = "map g_originId (filter (\<lambda>r. g_originServer r = server) (g_rows t))"
  have m: "g_originId r \<in> set ?is" using assms by auto
  then obtain i js where c: "?is = i # js" by (cases ?is) auto
  have "Max (set ?is) = fold max js i" by (simp add: c fold_max_Max)
  moreover have "g_originId r \<le> Max (set ?is)" using m by (intro Max_ge) simp_all
  ultimately show ?thesis by (simp add: lastIdFromServer_def c)
qed

text \<open>A local push does nothing when the global table has rows of this server with greater identifiers.\<close>

lemma doLocalPush_stale:
  assumes "\<forall>r \<in> set (l_rows (is_local s)). l_id r \<le> LocalPeer_lastId e s"
  shows "doLocalPush e s = (Inr (), s)"
proof -
  have "filter (\<lambda>r. LocalPeer_lastId e s < l_id r) (l_rows (is_local s)) = []"
    using assms by (auto simp: filter_empty_conv)
  then show ?thesis
    by (simp add: doLocalPush_def getSignedAssociationsAfterId_def getAssociationsAfterId_def Let_def)
qed

lemma addBinding_stale:
  assumes "pepper_of s = Some p" and "\<forall>r \<in> set (l_rows (is_local s)). l_id r \<le> l_seq (is_local s)"
    and "l_seq (is_local s) < LocalPeer_lastId e s"
  shows "known (snd (addBinding e m a x now s)) = known s" and "isr (fst (addBinding e m a x now s))"
proof -
  let ?s = "s\<lparr>is_local := addOrUpdateAssociation (new_assoc e m a x p now) (is_local s)\<rparr>"
  have "doLocalPush e ?s = (Inr (), ?s)"
    using assms(2,3) by (intro doLocalPush_stale) (auto simp: LocalPeer_lastId_def addOrUpdateAssociation_def)
  then show "known (snd (addBinding e m a x now s)) = known s" "isr (fst (addBinding e m a x now s))"
    by (simp_all add: addBinding_def assms(1) Let_def)
qed

text \<open>What the upgrade leaves of a global row, and the numbering of the local ones.\<close>

lemma values_of_row:
  assumes "values_of u cs = values_of t cs" and "r \<in> set (tb_rows t)"
  obtains q where "q \<in> set (tb_rows u)" "\<forall>c \<in> set cs. cell u c q = cell t c r"
proof -
  have "map (\<lambda>c. cell t c r) cs \<in> set (values_of t cs)" using assms(2) by (auto simp: values_of_def)
  then have "map (\<lambda>c. cell t c r) cs \<in> set (values_of u cs)" by (simp only: assms(1))
  then obtain q where "q \<in> set (tb_rows u)" "map (\<lambda>c. cell t c r) cs = map (\<lambda>c. cell u c q) cs"
    unfolding values_of_def by auto
  then show thesis using that by simp
qed

lemma upgraded_origins:
  assumes "v0_file db" and "tbl db ''local_threepid_associations'' = Some l" and "tbl db ''global_threepid_associations'' = Some t"
    and "g \<in> set (g_rows (load_global loads db))"
  shows "\<exists>h \<in> set (g_rows (load_global loads (upgraded l t db))). g_originServer h = g_originServer g \<and> g_originId h = g_originId g"
proof -
  obtain r where r: "r \<in> set (tb_rows t)" "g_originServer g = text_of (text_cell t ''originServer'' r)"
      "g_originId g = int_of (int_cell t ''originId'' r)"
    using assms(3,4) by (auto simp: load_global_def read_rows_def)
  let ?u = "add_lookup_hash (global_copy_of t)"
  have "values_of ?u global_cols = values_of t global_cols" by (simp add: copied_values)
  from values_of_row [OF this r(1)] obtain q where q: "q \<in> set (tb_rows ?u)" "\<forall>c \<in> set global_cols. cell ?u c q = cell t c r" .
  have "text_cell ?u ''originServer'' q = text_cell t ''originServer'' r" "int_cell ?u ''originId'' q = int_cell t ''originId'' r"
    using q(2) by (simp_all add: text_cell_def int_cell_def)
  moreover have "tbl (upgraded l t db) ''global_threepid_associations'' = Some ?u" by (simp add: upgraded_tables [OF assms(1-3)])
  ultimately show ?thesis using q(1) r(2,3) by (force simp: load_global_def read_rows_def)
qed

lemma startup_pepper_frame:
  assumes "startup_pepper hf r (\<lparr>hs_cached = None, hs_row = None\<rparr>, lt, gt) = (hs, lt', gt')"
  shows "l_seq lt' = l_seq lt" "map l_id (l_rows lt') = map l_id (l_rows lt)"
    "map (\<lambda>g. (g_originServer g, g_originId g)) (g_rows gt') = map (\<lambda>g. (g_originServer g, g_originId g)) (g_rows gt)"
proof -
  have "l_id (hashed row_3pid set_local_hash hf p x) = l_id x"
    "(g_originServer (hashed g_3pid set_global_hash hf p y), g_originId (hashed g_3pid set_global_hash hf p y)) = (g_originServer y, g_originId y)"
    for p x y
    by (simp_all add: hashed_def set_local_hash_def set_global_hash_def split: prod.split)
  with assms show "l_seq lt' = l_seq lt" "map l_id (l_rows lt') = map l_id (l_rows lt)"
    "map (\<lambda>g. (g_originServer g, g_originId g)) (g_rows gt') = map (\<lambda>g. (g_originServer g, g_originId g)) (g_rows gt)"
    by (auto simp: startup_pepper_def get_lookup_pepper_def store_lookup_pepper_def rehash_threepids_eq [OF hash_field_local]
        rehash_threepids_eq [OF hash_field_global])
qed

text \<open>C16: The upgrade counts the identifiers of the local associations anew, and the copies in the global table keep the old ones. If
  one of these is greater than the number of local associations, then the next binding is answered as
  a success and yet not copied to the global table, where lookups would find it.\<close>

theorem upgrade_hides_new_bindings:
  assumes "v0_file db" and "g \<in> set (g_rows (load_global (sp_loads sp) db))" and "g_originServer g = ev_server_name (cf_env cf)"
    and "int (length (row_ids db ''local_threepid_associations'')) < g_originId g"
  shows "\<exists>s. Sydent_init cf sp listing db = Inr s \<and>
    isr (fst (addBinding (cf_env cf) medium address mxid now (sv_identity s))) \<and>
    known (snd (addBinding (cf_env cf) medium address mxid now (sv_identity s))) = known (sv_identity s)"
proof -
  obtain l t where l: "tbl db ''local_threepid_associations'' = Some l" "v0_local_table l"
    and t: "tbl db ''global_threepid_associations'' = Some t" "v0_global_table t"
    using v0_fileE [OF assms(1)] by metis
  let ?d = "upgraded l t db" and ?n = "int (length (tb_rows l))"
  note tables = upgraded_tables [OF assms(1) l(1) t(1)]
  have hashing: "load_hashing ?d = \<lparr>hs_cached = None, hs_row = None\<rparr>"
    by (simp add: load_hashing_def read_rows_def tables plain_table_def)
  obtain hs lt gt where p: "startup_pepper (ev_hash (cf_env cf)) (sp_random sp)
      (load_hashing ?d, load_local ?d, load_global (sp_loads sp) ?d) = (hs, lt, gt)" by (metis prod_cases3)
  note frame = startup_pepper_frame [OF p [unfolded hashing]]
  define s where "s = \<lparr>is_local = lt, is_global = \<lparr>gc_work = gt, gc_disk = gt\<rparr>, is_invites = load_invites ?d,
    is_extra = [], is_hashing = hs, is_outbox = [], is_retries = []\<rparr>"
  obtain u where u: "Sydent_init cf sp listing db = Inr u" "sv_identity u = s"
    using p init_v0 [OF assms(1) l t, of listing] by (simp add: Sydent_init_def sql_connect_def s_def)
  have seq: "l_seq lt = ?n"
    using copy_rows_shape(3) [of "new_table local_v1_cols" assoc_cols l] frame(1)
    by (simp add: load_local_def read_seq_def tables add_lookup_hash_def)
  have "map l_id (l_rows lt) = map int [1..<Suc (length (tb_rows l))]"
    using copy_rows_shape(4) [of "new_table local_v1_cols" assoc_cols l] frame(2)
    by (simp add: load_local_def read_rows_def tables add_lookup_hash_def comp_def del: upt_Suc)
  then have "l_id ` set (l_rows lt) = set (map int [1..<Suc (length (tb_rows l))])" by (metis list.set_map)
  then have ids: "l_id r \<le> ?n" if "r \<in> set (l_rows lt)" for r
    using imageI [OF that, of l_id] by (auto simp del: upt_Suc)
  obtain h where h: "h \<in> set (g_rows (load_global (sp_loads sp) ?d))" "g_originServer h = ev_server_name (cf_env cf)" "g_originId h = g_originId g"
    using upgraded_origins [OF assms(1) l(1) t(1) assms(2)] assms(3) by auto
  have "(g_originServer h, g_originId h) \<in> set (map (\<lambda>g. (g_originServer g, g_originId g)) (g_rows gt))"
    unfolding frame(3) using h(1) by auto
  then obtain h' where h': "h' \<in> set (g_rows gt)" "g_originServer h' = ev_server_name (cf_env cf)" "g_originId h' = g_originId g"
    using h(2,3) by auto
  have "?n < g_originId g" using assms(4) by (simp add: row_ids_def l(1))
  then have last: "?n < LocalPeer_lastId (cf_env cf) s"
    using lastIdFromServer_ge [OF h'(1,2)] h'(3) by (auto simp: LocalPeer_lastId_def s_def)
  obtain pepper where "pepper_of s = Some pepper" using startup_pepper_ok [OF p [unfolded hashing]] by (auto simp: pepper_of_def s_def)
  from addBinding_stale [OF this, of "cf_env cf" medium address mxid now] ids seq last u show ?thesis
    by (simp add: s_def)
qed

theorem upgrade_hides_new_bindings_witness:
  "\<exists>s. Sydent_init demo_conf \<lparr>sp_loads = \<lambda>_. [], sp_random = \<lambda>_. 0, sp_email_burst = 5, sp_msisdn_burst = 5, sp_country_burst = 50\<rparr>
      [] (v0_of [demo_local_row] [demo_global_row]) = Inr s \<and>
    isr (fst (addBinding (cf_env demo_conf) ''email'' ''x@y.z'' ''@x:y'' 7 (sv_identity s))) \<and>
    known (snd (addBinding (cf_env demo_conf) ''email'' ''x@y.z'' ''@x:y'' 7 (sv_identity s))) = known (sv_identity s)"
proof (rule upgrade_hides_new_bindings [OF demo_v0])
  let ?loads = "sp_loads \<lparr>sp_loads = \<lambda>_. [], sp_random = \<lambda>_. 0, sp_email_burst = 5, sp_msisdn_burst = 5, sp_country_burst = 50\<rparr>"
  let ?g = "hd (g_rows (load_global ?loads (v0_of [demo_local_row] [demo_global_row])))"
  show "?g \<in> set (g_rows (load_global ?loads (v0_of [demo_local_row] [demo_global_row])))"
    by (simp add: load_global_def read_rows_def v0_of_tbl v0_tables_lookup)
  show "g_originServer ?g = ev_server_name (cf_env demo_conf)"
    by (simp add: load_global_def read_rows_def v0_of_tbl v0_tables_lookup text_cell_def text_of_def cell_def demo_global_row_def
        demo_conf_def plain_env_def)
  show "int (length (row_ids (v0_of [demo_local_row] [demo_global_row]) ''local_threepid_associations'')) < g_originId ?g"
    by (simp add: load_global_def read_rows_def v0_of_tbl v0_tables_lookup row_ids_def int_cell_def int_of_def cell_def demo_global_row_def)
qed

end
