(* ===== verification/Address_Journey.thy ===== *)
theory Address_Journey
  imports Server_Runs
begin

text \<open>
  The way of an address through the server, over four requests: a token is asked for, submitted, the address bound to the
  user and then found by its hash. The properties of the validation sessions, the handlers, the binder and the lookups are
  put together here.
\<close>

section \<open>The handlers when they succeed\<close>

lemma decimal_nat_show_nat: "decimal_nat (show_nat n) = Some (int n)"
proof -
  have "CHR ''.'' \<notin> set (show_nat n)" using show_nat_digits [of "CHR ''.''" n] by (auto simp: is_digit_def)
  then have "split_once CHR ''.'' (show_nat n) = (show_nat n, None)" by (simp add: split_once_absent)
  moreover have "list_all is_digit (show_nat n)" using show_nat_digits by (auto simp: list_all_iff)
  ultimately show ?thesis by (simp add: decimal_nat_def digits_val_show_nat)
qed

lemma sql_int_show_int: "sql_int (JStr (show_int i)) = Inr (Some i)"
proof (cases "i < 0")
  case True
  then have "decimal_int (show_int i) = Some i"
    using str_strip_show_int [of i] by (simp add: decimal_int_def show_int_def decimal_nat_show_nat)
  then show ?thesis by (simp add: sql_int_def)
next
  case False
  then obtain c t where ct: "show_nat (nat i) = c # t" "is_digit c"
    using show_nat_last_hd(1) [of "nat i"] by (cases "show_nat (nat i)") (auto simp: show_int_def)
  then have "c \<noteq> CHR ''-''" "c \<noteq> CHR ''+''" by (auto simp: is_digit_def)
  moreover have "decimal_nat (c # t) = Some i" using False decimal_nat_show_nat [of "nat i"] by (simp add: ct(1))
  moreover have "show_int i = c # t" using False ct(1) by (simp add: show_int_def)
  ultimately have "decimal_int (show_int i) = Some i"
    using str_strip_show_int [of i] by (simp add: decimal_int_def)
  then show ?thesis by (simp add: sql_int_def)
qed

lemma request_mail_ok:
  assumes "request_mail cf now rnd r address cs n link ip brand s = (Inr (ok_reply [(''sid'', x)]), s')"
  obtains sid mails where
    "email_requestToken (cf_email cf) address cs n link ip brand now rnd r (sv_sessions s) = (Inr sid, sv_sessions s', mails)"
    "x = JStr (show_int sid)" "s' = s\<lparr>sv_sessions := sv_sessions s', sv_mails := sv_mails s @ mails\<rparr>"
proof -
  obtain res db mails where q:
      "email_requestToken (cf_email cf) address cs n link ip brand now rnd r (sv_sessions s) = (res, db, mails)"
    by (cases "email_requestToken (cf_email cf) address cs n link ip brand now rnd r (sv_sessions s)")
  show thesis
  proof (cases res)
    case (Inl ex)
    then show ?thesis using assms by (cases ex) (simp_all add: request_mail_def q)
  next
    case (Inr sid)
    then show ?thesis using assms that [of sid mails] by (auto simp: request_mail_def q)
  qed
qed

lemma email_request_ok:
  assumes "email_request_render_POST cf b client now rnd r req s = (Inr (ok_reply [(''sid'', x)]), s')"
  obtains args address cs n link ip brand sid mails where
    "get_args req [''email'', ''client_secret'', ''send_attempt''] True = Inr args"
    "json_index args ''email'' = Inr (JStr address)" "json_index args ''client_secret'' = Inr (JStr cs)"
    "is_valid_client_secret cs"
    "email_requestToken (cf_email cf) address cs n link ip brand now rnd r (sv_sessions s) = (Inr sid, sv_sessions s', mails)"
    "x = JStr (show_int sid)" "sv_identity s' = sv_identity s" "sv_accounts s' = sv_accounts s"
proof -
  let ?ip = "ip_from_request (cf_obey_x_forwarded_for cf) client req"
  obtain s0 where s0: "email_request_args cf ?ip now rnd r (after_auth b req) s0 = (Inr (ok_reply [(''sid'', x)]), s')"
    "sv_sessions s0 = sv_sessions s" "sv_identity s0 = sv_identity s" "sv_accounts s0 = sv_accounts s"
    using assms by (auto simp: email_request_render_POST_def Let_def bindM_Inr auth_def limit_sender_eq split: if_splits option.splits)
  obtain args email secret cs n link brand address where raw:
    "Inr args = get_args (after_auth b req) [''email'', ''client_secret'', ''send_attempt''] True" "Inr email = json_index args ''email''"
    "Inr secret = json_index args ''client_secret''" "Inr (Some cs) = client_secret_of secret" "Inr address = text_value email"
    "request_mail cf now rnd r address cs n link ?ip brand s0 = (Inr (ok_reply [(''sid'', x)]), s')"
    using s0(1) unfolding email_request_args_def
    by (auto simp: bindM_Inr bad_attempt_def split: option.splits if_splits)
  note a = get_args_after_auth [OF raw(1) [symmetric]] raw(3) [symmetric]
  have e: "json_index args ''email'' = Inr (JStr address)" using raw(2) text_value_Inr [of email address] raw(5) [symmetric] by simp
  have c: "json_index args ''client_secret'' = Inr (JStr cs)" "is_valid_client_secret cs"
    using a(2) client_secret_of_Some [of secret cs] raw(4) [symmetric] by simp_all
  obtain sid mails where m: "email_requestToken (cf_email cf) address cs n link ?ip brand now rnd r (sv_sessions s0) =
      (Inr sid, sv_sessions s', mails)"
    "x = JStr (show_int sid)" "s' = s0\<lparr>sv_sessions := sv_sessions s', sv_mails := sv_mails s0 @ mails\<rparr>"
    by (rule request_mail_ok [OF raw(6)])
  have "sv_identity s' = sv_identity s0" "sv_accounts s' = sv_accounts s0"
    using arg_cong [OF m(3), of sv_identity] arg_cong [OF m(3), of sv_accounts] by simp_all
  then show thesis using that [OF a(1) e c _ m(2)] m(1) s0(2-4) by simp
qed

lemma email_requestToken_session:
  assumes "session_inv db" and "email_requestToken ec a c n link ip brand now rnd r db = (Inr sid, db2, mails)"
  obtains s where "session_inv db2" "s \<in> set (sd_sessions db2)" "vs_id s = sid" "session_key s = (''email'', a, c)"
    "vs_mtime s = now"
proof -
  obtain s info db1 where g: "getOrCreateTokenSession ''email'' a c now rnd r db = (Inr (s, info), db1)"
    using assms(2) by (auto simp: email_requestToken_def split: prod.splits sum.splits)
  have d: "vs_id s = sid" "db2 = setMtime (vs_id s) now db1 \<or> db2 = setSendAttemptNumber (vs_id s) n (setMtime (vs_id s) now db1)"
    using assms(2) by (auto simp: email_requestToken_def g Let_def split: prod.splits sum.splits if_splits)
  obtain t where "session_inv db2" "s\<lparr>vs_mtime := now\<rparr> \<in> set (sd_sessions db2)" "session_key s = (''email'', a, c)"
    by (rule requested_session [OF assms(1) g d(2)])
  then show thesis using that [of "s\<lparr>vs_mtime := now\<rparr>"] d(1) by simp
qed

section \<open>The requests of the way\<close>

text \<open>A request whose parameters are these three. That a request binds is asked of what is left of it when its access
  token has been read: a request that carries the token in its body has no arguments any more.\<close>

definition submits :: "request \<Rightarrow> json \<Rightarrow> string \<Rightarrow> string \<Rightarrow> bool" where
  "submits req sid secret token =
     (case get_args req [''token'', ''sid'', ''client_secret''] True of
        Inr args \<Rightarrow> json_index args ''sid'' = Inr sid \<and> json_index args ''client_secret'' = Inr (JStr secret) \<and>
          json_index args ''token'' = Inr (JStr token)
      | Inl _ \<Rightarrow> False)"

definition binds_to :: "request \<Rightarrow> json \<Rightarrow> string \<Rightarrow> string \<Rightarrow> bool" where
  "binds_to req sid secret mxid =
     (case get_args (after_token req) [''sid'', ''client_secret'', ''mxid''] True of
        Inr args \<Rightarrow> json_index args ''sid'' = Inr sid \<and> json_index args ''client_secret'' = Inr (JStr secret) \<and>
          json_index args ''mxid'' = Inr (JStr mxid)
      | Inl _ \<Rightarrow> False)"

definition asks_for :: "request \<Rightarrow> string \<Rightarrow> string \<Rightarrow> bool" where
  "asks_for req address secret =
     (case get_args req [''email'', ''client_secret'', ''send_attempt''] True of
        Inr args \<Rightarrow> json_index args ''email'' = Inr (JStr address) \<and> json_index args ''client_secret'' = Inr (JStr secret)
      | Inl _ \<Rightarrow> False)"

text \<open>Submitting the stored token marks the session as validated.\<close>

lemma submit_ok:
  assumes "session_inv (sv_sessions s)" "v \<in> set (sd_sessions (sv_sessions s))" "t \<in> set (sd_tokens (sv_sessions s))"
    "t_validationSession t = vs_id v" "now \<le> vs_mtime v + THREEPID_SESSION_VALIDATION_TIMEOUT_MS"
    and "submits req (JStr (show_int (vs_id v))) (vs_client_secret v) (t_token t)" "is_valid_client_secret (vs_client_secret v)"
  shows "email_validate_render_POST cf False now req s =
    (Inr (ok_reply [(''success'', JBool True)]), s\<lparr>sv_sessions := setValidated (vs_id v) True (sv_sessions s)\<rparr>)"
proof -
  have c: "client_secret_of (JStr (vs_client_secret v)) = Inr (Some (vs_client_secret v))"
    using assms(7) by (simp add: client_secret_of_def)
  show ?thesis
    using assms(6) issued_token_validates [OF assms(1-5)]
    by (auto simp: email_validate_render_POST_def auth_if_def do_validate_request_def submits_def bindM_def liftR_def ret_def
        c sql_int_show_int on_sessions_def validate_json_token_def validate_reply_def split: sum.splits)
qed

text \<open>A session that was validated binds its address to the user who asks for it.\<close>

lemma bind_ok:
  assumes "identity_inv (cf_env cf) (sv_identity s)" "env_ok (cf_env cf) (sv_identity s)"
    and "getValidatedSession i secret now (sv_sessions s) = Inr v" "is_valid_client_secret secret"
    and "authV2 (cf_terms cf) req True (sv_accounts s) = Inr u" "binds_to req (JStr (show_int i)) secret (ac_userId u)"
  obtains sg where "threepidbind_render_POST cf True now req s =
    (Inr (200, sg), s\<lparr>sv_identity := snd (addBinding (cf_env cf) (vs_medium v) (vs_address v) (ac_userId u) now (sv_identity s))\<rparr>)"
proof -
  let ?add = "addBinding (cf_env cf) (vs_medium v) (vs_address v) (ac_userId u) now (sv_identity s)"
  obtain sg d where sg: "?add = (Inr sg, d)"
    using addBinding_inv(3) [OF assms(1,2), of "vs_medium v" "vs_address v" "ac_userId u" now] by (cases ?add, cases "fst ?add") auto
  have c: "client_secret_of (JStr secret) = Inr (Some secret)" using assms(4) by (simp add: client_secret_of_def)
  have v: "validated_session (JStr (show_int i)) secret now s = (Inr v, s)"
    using assms(3) by (simp add: validated_session_Inr sql_int_show_int)
  show thesis
    using that [of "JObj sg"] assms(5,6)
    by (auto simp: sg threepidbind_render_POST_def auth_if_def auth_def binds_to_def bindM_def liftR_def ret_def c v mapE_def
        text_value_def on_identity_def split: sum.splits prod.splits)
qed

section \<open>The whole way\<close>


text \<open>The way of one address: requested at 1000, submitted at 2000, bound at 3000 and looked up at 3001.\<close>

abbreviation way_requested :: "reply res \<times> server_state" where
  "way_requested \<equiv> email_request_render_POST demo_conf True None 1000 5 (\<lambda>_. 0) demo_mail_req demo_running"

abbreviation way_submitted :: "reply res \<times> server_state" where
  "way_submitted \<equiv> email_validate_render_POST demo_conf False 2000 demo_submit (snd way_requested)"

abbreviation way_bind :: request where
  "way_bind \<equiv> demo_post [(''sid'', JStr ''5''), (''client_secret'', JStr ''sec''), (''mxid'', JStr ''@bob:hs'')]"

definition way_bound :: "reply res \<times> server_state" where
  "way_bound = threepidbind_render_POST demo_conf True 3000 way_bind (snd way_submitted)"


end
