(* ===== verification/Server_Setup.thy ===== *)
theory Server_Setup
  imports Config_Parse Federation_Agent Server_Start
begin

text \<open>
  What a configured server sets up around its handlers: the certificates (\<open>SslComponents\<close> of \<open>sydent/http/httpcommon.py\<close>),
  the client that sends replication pushes (\<open>sydent/http/httpsclient.py\<close>, \<open>RemotePeer.pushUpdates\<close>), the TLS options for other
  homeservers (\<open>sydent/http/federation_tls_options.py\<close>), and the listeners and timers that \<open>Sydent.run\<close> starts
  (\<open>sydent/sydent.py\<close>, the \<open>setup\<close> methods of \<open>sydent/http/httpserver.py\<close> and \<open>sydent/replication/pusher.py\<close>).
\<close>

section \<open>Certificates\<close>

text \<open>
  A certificate, with its key or without, is known by the text it was loaded from. \<open>tf_open\<close> is the file system, with
  nothing for a file that cannot be opened; loading a text may raise.
\<close>

type_synonym certificate = string

record tls_files =
  tf_open :: "string \<Rightarrow> string option"
  tf_load_private :: "string \<Rightarrow> certificate res"
  tf_load_authority :: "string \<Rightarrow> certificate res"

datatype trust_root = OpenSSLDefaultPaths | OpenSSLCertificateAuthorities "certificate list" | PlatformTrust

record ssl_components =
  sc_myPrivateCertificate :: "certificate option"
  sc_trustRoot :: trust_root

definition makeMyCertificate :: "tls_files \<Rightarrow> http_conf \<Rightarrow> certificate option res" where
  "makeMyCertificate tf hc =
     (if hc_cert_file hc = '''' then Inr None
      else case tf_open tf (hc_cert_file hc) of
             None \<Rightarrow> Inr None
           | Some authData \<Rightarrow> bindR (tf_load_private tf authData) (\<lambda>c. Inr (Some c)))"

definition makeTrustRoot :: "tls_files \<Rightarrow> http_conf \<Rightarrow> trust_root res" where
  "makeTrustRoot tf hc =
     (if 0 < length (hc_ca_cert_file hc)
      then case tf_open tf (hc_ca_cert_file hc) of
             None \<Rightarrow> Inl GenericException
           | Some t \<Rightarrow> bindR (tf_load_authority tf t) (\<lambda>caCert. Inr (OpenSSLCertificateAuthorities [caCert]))
      else Inr OpenSSLDefaultPaths)"

definition SslComponents_init :: "tls_files \<Rightarrow> http_conf \<Rightarrow> ssl_components res" where
  "SslComponents_init tf hc =
     bindR (makeMyCertificate tf hc) (\<lambda>c.
     bindR (makeTrustRoot tf hc) (\<lambda>r. Inr \<lparr>sc_myPrivateCertificate = c, sc_trustRoot = r\<rparr>))"

section \<open>The client for replication\<close>

record tls_options =
  to_hostname :: string
  to_trustRoot :: trust_root
  to_clientCertificate :: "certificate option"

definition creatorForNetloc :: "ssl_components \<Rightarrow> string \<Rightarrow> int \<Rightarrow> tls_options res" where
  "creatorForNetloc sc hostname port =
     (if \<not> is_ascii hostname then Inl ValueError
      else Inr \<lparr>to_hostname = hostname, to_trustRoot = sc_trustRoot sc, to_clientCertificate = sc_myPrivateCertificate sc\<rparr>)"

text \<open>The agent of the client, if there is one, is the policy it makes connections with.\<close>

type_synonym https_agent = "(string \<Rightarrow> int \<Rightarrow> tls_options res) option"

definition ReplicationHttpsClient_init :: "ssl_components \<Rightarrow> https_agent" where
  "ReplicationHttpsClient_init sc =
     (case sc_myPrivateCertificate sc of None \<Rightarrow> None | Some _ \<Rightarrow> Some (creatorForNetloc sc))"

text \<open>The body of a request is kept as the object that is serialised; in JSON the keys of objects are texts.\<close>

record https_request =
  hr_method :: string
  hr_uri :: string
  hr_headers :: "(string \<times> string list) list"
  hr_body :: json

definition postJson :: "https_agent \<Rightarrow> string \<Rightarrow> json \<Rightarrow> https_request option" where
  "postJson agent uri jsonObject =
     (case agent of
        None \<Rightarrow> None
      | Some _ \<Rightarrow> Some \<lparr>hr_method = ''POST'', hr_uri = uri,
          hr_headers = [(''Content-Type'', [''application/json'']), (''User-Agent'', [''Sydent''])], hr_body = jsonObject\<rparr>)"

definition push_body :: "(int, jdict) dict \<Rightarrow> json" where
  "push_body sgAssocs = JObj [(''sgAssocs'', JObj (map (\<lambda>(i, a). (show_int i, JObj a)) sgAssocs))]"

definition RemotePeer_pushUpdates :: "https_agent \<Rightarrow> remote_peer \<Rightarrow> (int, jdict) dict \<Rightarrow> https_request res" where
  "RemotePeer_pushUpdates agent p sgAssocs =
     (case postJson agent (rp_replication_url p) (push_body sgAssocs) of
        None \<Rightarrow> Inl RuntimeError
      | Some req \<Rightarrow> Inr req)"

text \<open>
  One push to a peer over this client: the requests it sends and the table of peers after it. \<open>answer\<close> is how the
  exchange of a request ends.
\<close>

definition push_over_https ::
    "https_agent \<Rightarrow> env \<Rightarrow> jdict \<Rightarrow> local_table \<Rightarrow> remote_peer \<Rightarrow> (https_request \<Rightarrow> int res) \<Rightarrow> int \<Rightarrow> peer_db \<Rightarrow>
     https_request list \<times> peer_db" where
  "push_over_https agent e extra lt p answer now db =
     (case push_to_peer_start e extra lt p of
        None \<Rightarrow> ([], db)
      | Some (assocs, latest_assoc_id) \<Rightarrow>
          (case RemotePeer_pushUpdates agent p assocs of
             Inl ex \<Rightarrow> ([], push_to_peer_finish p latest_assoc_id (Inl ex) now db)
           | Inr req \<Rightarrow> ([req], push_to_peer_finish p latest_assoc_id (answer req) now db)))"

section \<open>TLS to homeservers\<close>

record client_tls =
  ct_hostnameBytes :: string
  ct_sendSNI :: bool
  ct_trustRoot :: "trust_root option"

text \<open>\<open>ClientTLSOptionsFactory\<close> and \<open>ClientTLSOptions\<close>; \<open>idna\<close> is the encoding of host names for the wire.\<close>

definition ClientTLSOptionsFactory_init :: "bool \<Rightarrow> trust_root option" where
  "ClientTLSOptionsFactory_init verify_requests = (if verify_requests then Some PlatformTrust else None)"

definition ClientTLSOptions_init :: "env \<Rightarrow> (string \<Rightarrow> string res) \<Rightarrow> string \<Rightarrow> trust_root option \<Rightarrow> client_tls res" where
  "ClientTLSOptions_init e idna hostname ctx =
     (if ev_isIPAddress e hostname \<or> ev_isIPv6Address e hostname
      then (if is_ascii hostname then Inr \<lparr>ct_hostnameBytes = hostname, ct_sendSNI = False, ct_trustRoot = ctx\<rparr>
            else Inl ValueError)
      else bindR (idna hostname) (\<lambda>b. Inr \<lparr>ct_hostnameBytes = b, ct_sendSNI = True, ct_trustRoot = ctx\<rparr>))"

definition get_options :: "env \<Rightarrow> (string \<Rightarrow> string res) \<Rightarrow> bool \<Rightarrow> string \<Rightarrow> client_tls res" where
  "get_options e idna verify_requests host =
     ClientTLSOptions_init e idna host (ClientTLSOptionsFactory_init verify_requests)"

text \<open>
  The callback during a handshake: \<open>started\<close> is the bit \<open>SSL_CB_HANDSHAKE_START\<close> of its argument. What it does to the
  connection: name the host, if setting the name succeeds, or drop the connection (\<open>_tolerateErrors\<close>).
\<close>

datatype tls_action = SetHostName string | FailVerification exn

definition identityVerifyingInfoCallback :: "client_tls \<Rightarrow> (string \<Rightarrow> unit res) \<Rightarrow> bool \<Rightarrow> tls_action list" where
  "identityVerifyingInfoCallback ct set_name started =
     (if started \<and> ct_sendSNI ct
      then case set_name (ct_hostnameBytes ct) of
             Inr _ \<Rightarrow> [SetHostName (ct_hostnameBytes ct)]
           | Inl ex \<Rightarrow> [FailVerification ex]
      else [])"

section \<open>Running the server\<close>

datatype site = ClientApi | InternalApi | ReplicationApi

datatype periodic = ScheduledPush | DeleteOldSessions

text \<open>What the server asks of the reactor and of the system, in the order it does.\<close>

datatype start_step =
    ListenTCP int site string
  | ListenSSL int site certificate trust_root string
  | LoopingCall periodic int
  | StartMetrics int string
  | WritePidfile string
  | RunReactor

definition ClientApiHttpServer_setup :: "http_conf \<Rightarrow> start_step list" where
  "ClientApiHttpServer_setup hc = [ListenTCP (hc_client_port hc) ClientApi (hc_client_bind_address hc)]"

definition InternalApiHttpServer_setup :: "string \<Rightarrow> int \<Rightarrow> start_step list" where
  "InternalApiHttpServer_setup interface port = [ListenTCP port InternalApi interface]"

definition ReplicationHttpsServer_setup :: "ssl_components \<Rightarrow> http_conf \<Rightarrow> start_step list" where
  "ReplicationHttpsServer_setup sc hc =
     (case sc_myPrivateCertificate sc of
        None \<Rightarrow> []
      | Some cert \<Rightarrow> [ListenSSL (hc_replication_port hc) ReplicationApi cert (sc_trustRoot sc) (hc_replication_bind_address hc)])"

definition Pusher_setup :: "start_step list" where
  "Pusher_setup = [LoopingCall ScheduledPush 10]"

definition maybe_start_prometheus_server :: "general_conf \<Rightarrow> start_step list res" where
  "maybe_start_prometheus_server gc =
     (if gn_prometheus_enabled gc
      then case (gn_prometheus_addr gc, gn_prometheus_port gc) of
             (Some addr, Some port) \<Rightarrow> Inr [StartMetrics port addr]
           | _ \<Rightarrow> Inl AssertionError
      else Inr [])"

text \<open>Steps one after the other, up to the first that the system refuses with an exception.\<close>

fun perform :: "(start_step \<Rightarrow> unit res) \<Rightarrow> start_step list \<Rightarrow> (start_step list, unit) act" where
  "perform os [] done = (Inr (), done)"
| "perform os (k # ks) done = (case os k of Inl ex \<Rightarrow> (Inl ex, done) | Inr _ \<Rightarrow> perform os ks (done @ [k]))"

definition Sydent_run ::
    "(start_step \<Rightarrow> unit res) \<Rightarrow> general_conf \<Rightarrow> http_conf \<Rightarrow> ssl_components \<Rightarrow> (start_step list, unit) act" where
  "Sydent_run os gc hc sc =
     bindM (perform os (ClientApiHttpServer_setup hc @ ReplicationHttpsServer_setup sc hc @ Pusher_setup)) (\<lambda>_.
     bindM (liftR (maybe_start_prometheus_server gc)) (\<lambda>metrics.
     perform os (metrics @ [LoopingCall DeleteOldSessions (10 * 60)] @
       (case hc_internal_port hc of
          None \<Rightarrow> []
        | Some internalport \<Rightarrow> InternalApiHttpServer_setup (hc_internal_bind_address hc) internalport) @
       (if gn_pidfile gc \<noteq> '''' then [WritePidfile (gn_pidfile gc)] else []) @ [RunReactor])))"

section \<open>Without and with a certificate\<close>

lemma perform_accepted:
  assumes "\<forall>k. os k = Inr ()"
  shows "perform os ks done = (Inr (), done @ ks)"
  using assms by (induction ks arbitrary: "done") simp_all

text \<open>What was done is a first part of what was asked for.\<close>

lemma perform_done: "set (snd (perform os ks done)) \<subseteq> set done \<union> set ks"
proof (induction ks arbitrary: "done")
  case (Cons k ks)
  then show ?case using Cons.IH [of "done @ [k]"] by (auto split: sum.splits)
qed simp

lemma own_certificate:
  assumes "SslComponents_init tf hc = Inr sc"
  shows "sc_myPrivateCertificate sc = None \<longleftrightarrow> hc_cert_file hc = '''' \<or> tf_open tf (hc_cert_file hc) = None"
  using assms by (auto simp: SslComponents_init_def makeMyCertificate_def bindR_eq_Inr split: option.splits if_splits)

definition push_request :: "remote_peer \<Rightarrow> (int, jdict) dict \<Rightarrow> https_request" where
  "push_request p sgAssocs = \<lparr>hr_method = ''POST'', hr_uri = rp_replication_url p,
     hr_headers = [(''Content-Type'', [''application/json'']), (''User-Agent'', [''Sydent''])], hr_body = push_body sgAssocs\<rparr>"

lemma pushUpdates_eq:
  "RemotePeer_pushUpdates (ReplicationHttpsClient_init sc) p sgAssocs =
     (case sc_myPrivateCertificate sc of None \<Rightarrow> Inl RuntimeError | Some _ \<Rightarrow> Inr (push_request p sgAssocs))"
  by (simp add: RemotePeer_pushUpdates_def ReplicationHttpsClient_init_def postJson_def push_request_def split: option.split)

text \<open>A server without a readable certificate file takes no part in replication: it opens no listener for pushes of other
  servers, it sends no push to any peer, and it records none as sent, so that everything is still to be sent when a
  certificate is there.\<close>

theorem without_certificate_no_replication:
  assumes "SslComponents_init tf hc = Inr sc" and "hc_cert_file hc = '''' \<or> tf_open tf (hc_cert_file hc) = None"
  shows "ListenSSL port st cert authority interface \<notin> set (snd (Sydent_run os gc hc sc [])) \<and>
    push_over_https (ReplicationHttpsClient_init sc) e extra lt p answer now db = ([], db)"
proof -
  have no: "sc_myPrivateCertificate sc = None" using own_certificate [OF assms(1)] assms(2) by simp
  let ?ssl = "ListenSSL port st cert authority interface"
  let ?first = "ClientApiHttpServer_setup hc @ ReplicationHttpsServer_setup sc hc @ Pusher_setup"
  have steps: "?ssl \<notin> set ks \<Longrightarrow> ?ssl \<notin> set d \<Longrightarrow> ?ssl \<notin> set (snd (perform os ks d))" for ks d
    using subsetD [OF perform_done, of ?ssl os ks d] by auto
  have "?ssl \<notin> set ?first"
    by (auto simp: ClientApiHttpServer_setup_def ReplicationHttpsServer_setup_def no Pusher_setup_def)
  then have first: "?ssl \<notin> set (snd (perform os ?first []))" by (rule steps) simp
  have "?ssl \<notin> set ms" if "maybe_start_prometheus_server gc = Inr ms" for ms
    using that by (auto simp: maybe_start_prometheus_server_def split: option.splits if_splits)
  then have "?ssl \<notin> set (snd (Sydent_run os gc hc sc []))"
    using first unfolding Sydent_run_def bindM_def liftR_def
    by (auto simp: InternalApiHttpServer_setup_def split: sum.splits prod.splits option.splits if_splits
        dest!: subsetD [OF perform_done])
  then show ?thesis
    by (auto simp: push_over_https_def pushUpdates_eq no push_to_peer_finish_def push_outcome_def split: option.splits prod.splits)
qed

text \<open>With one, a push is one request that carries the batch, and does to the table of peers what \<open>push_to_peer\<close> says.\<close>

lemma push_with_certificate:
  assumes "sc_myPrivateCertificate sc = Some cert" and "push_to_peer_start e extra lt p = Some (assocs, latest)"
  shows "push_over_https (ReplicationHttpsClient_init sc) e extra lt p answer now db =
    ([push_request p assocs], snd (push_to_peer e extra lt p (answer (push_request p assocs)) now db))"
  by (simp add: push_over_https_def push_to_peer_def assms pushUpdates_eq)

text \<open>A configuration that was accepted starts: when the system refuses nothing, the assertions of the start hold, the metrics
  are served exactly if both their address and their port are configured, and the reactor runs last.\<close>

theorem configured_server_runs:
  assumes "parse_general ce cfg = Inr gc" and "\<forall>k. os k = Inr ()"
  shows "\<exists>ks. Sydent_run os gc hc sc [] = (Inr (), ks @ [RunReactor]) \<and>
    ks ! 0 = ListenTCP (hc_client_port hc) ClientApi (hc_client_bind_address hc) \<and>
    LoopingCall ScheduledPush 10 \<in> set ks \<and> LoopingCall DeleteOldSessions 600 \<in> set ks \<and>
    (\<forall>port addr. StartMetrics port addr \<in> set ks \<longleftrightarrow> gn_prometheus_port gc = Some port \<and> gn_prometheus_addr gc = Some addr) \<and>
    (\<forall>port cert authority interface. ListenSSL port ReplicationApi cert authority interface \<in> set ks \<longrightarrow> sc_myPrivateCertificate sc = Some cert)"
proof -
  have enabled: "gn_prometheus_enabled gc \<longleftrightarrow> gn_prometheus_port gc \<noteq> None \<and> gn_prometheus_addr gc \<noteq> None"
    using assms(1) unfolding parse_general_def Let_def
    by (auto elim!: bindR_elim split: if_splits)
  obtain ms where ms: "maybe_start_prometheus_server gc = Inr ms"
    "\<forall>k. k \<in> set ms \<longleftrightarrow> (\<exists>port addr. k = StartMetrics port addr \<and> gn_prometheus_port gc = Some port \<and> gn_prometheus_addr gc = Some addr)"
  proof (cases "gn_prometheus_enabled gc")
    case True
    with enabled that show thesis by (auto simp: maybe_start_prometheus_server_def)
  next
    case False
    with enabled that [of "[]"] show thesis by (auto simp: maybe_start_prometheus_server_def)
  qed
  let ?ks = "ClientApiHttpServer_setup hc @ ReplicationHttpsServer_setup sc hc @ Pusher_setup @ ms @
      [LoopingCall DeleteOldSessions (10 * 60)] @
      (case hc_internal_port hc of None \<Rightarrow> [] | Some i \<Rightarrow> InternalApiHttpServer_setup (hc_internal_bind_address hc) i) @
      (if gn_pidfile gc \<noteq> '''' then [WritePidfile (gn_pidfile gc)] else [])"
  have "Sydent_run os gc hc sc [] = (Inr (), ?ks @ [RunReactor])"
    by (simp add: Sydent_run_def perform_accepted [OF assms(2)] bindM_def liftR_def ms(1))
  then show ?thesis
    using ms(2)
    by (intro exI [of _ ?ks])
       (auto simp: ClientApiHttpServer_setup_def ReplicationHttpsServer_setup_def Pusher_setup_def InternalApiHttpServer_setup_def
        split: option.splits)
qed

end
