(* ===== verification/Replication_Journey.thy ===== *)
theory Replication_Journey
  imports Server_Setup
begin

text \<open>
  Replication between two servers: one takes a batch of its local associations, signs them and sends them over its HTTPS
  client; the other verifies and stores them; the answer decides what the first one records. The properties of the feed, of
  the signed form and of the receiving servlet are put together here.
\<close>

section \<open>The exchange\<close>

text \<open>The request as the other server's listener hands it to its servlet, and what the sender sees of the reply.\<close>

definition received :: "https_request \<Rightarrow> request" where
  "received r = \<lparr>rq_method = hr_method r, rq_path = ''/_matrix/identity/replicate/v1/push'',
     rq_headers = map (\<lambda>(n, vs). (str_lower n, vs)) (hr_headers r), rq_args = [], rq_body = Some (hr_body r)\<rparr>"

definition answered :: "reply res \<Rightarrow> int res" where
  "answered r = (case r of Inr rep \<Rightarrow> Inr (fst rep) | Inl _ \<Rightarrow> Inl ResponseFailed)"

text \<open>The sender has the environment \<open>e\<close>, the table \<open>lt\<close> and the table of peers \<open>db\<close>; the receiver, which knows the
  sender as \<open>cn\<close>, is in state \<open>s\<close>. What both have afterwards.\<close>

definition push_between ::
    "https_agent \<Rightarrow> env \<Rightarrow> jdict \<Rightarrow> local_table \<Rightarrow> remote_peer \<Rightarrow> int \<Rightarrow> peer_db \<Rightarrow>
     env \<Rightarrow> sig_env \<Rightarrow> peer_db \<Rightarrow> string \<Rightarrow> identity_state \<Rightarrow> peer_db \<times> identity_state" where
  "push_between agent e extra lt p now db e' se pdb cn s =
     (let handle = (\<lambda>req. replication_render_POST e' se pdb cn (received req) s) in
      case push_over_https agent e extra lt p (\<lambda>req. answered (fst (handle req))) now db of
        ([], db') \<Rightarrow> (db', s)
      | (req # _, db') \<Rightarrow> (db', snd (handle req)))"

section \<open>What a batch of signed associations does\<close>

definition receive_row ::
    "env \<Rightarrow> string \<Rightarrow> string \<Rightarrow> (threepid_association \<Rightarrow> jdict) \<Rightarrow> local_row \<Rightarrow> global_table \<Rightarrow> global_table" where
  "receive_row e pepper cn sg q t =
     (let a = (l_assoc q)\<lparr>ta_lookup_hash := None\<rparr> in
      if ta_mxid a = None then delete_3pid (ta_medium a) (ta_address a) t
      else insert_or_ignore (hash_assoc e pepper a) (sg (l_assoc q)) cn (l_id q) t)"

definition wire_item :: "(threepid_association \<Rightarrow> jdict) \<Rightarrow> local_row \<Rightarrow> string \<times> int \<times> json" where
  "wire_item sg q = (show_int (l_id q), l_id q, JObj (sg (l_assoc q)))"

text \<open>A signed association that the receiver's check accepts, of an address in normal form.\<close>

definition trusted_row :: "sig_env \<Rightarrow> remote_peer \<Rightarrow> (threepid_association \<Rightarrow> jdict) \<Rightarrow> local_row \<Rightarrow> bool" where
  "trusted_row se pa sg q =
     (verifySignedAssociation se pa (sg (l_assoc q)) = Inr () \<and>
      threePidAssocFromDict (sg (l_assoc q)) = Inr ((l_assoc q)\<lparr>ta_lookup_hash := None\<rparr>) \<and>
      normalise_address (ta_address (l_assoc q)) (ta_medium (l_assoc q)) = ta_address (l_assoc q))"

lemma push_item_trusted:
  assumes "trusted_row se pa sg q"
  shows "\<exists>d. push_item e se (Some pepper) pa (wire_item sg q) ([], c) =
    ([], \<lparr>gc_work = receive_row e pepper (rp_servername pa) sg q (gc_work c), gc_disk = d\<rparr>)"
  using assms
  by (cases c) (auto simp: push_item_def wire_item_def trusted_row_def store_pushed_def receive_row_def addAssociation_def Let_def
      removeAssociation_def db_commit_def split: option.splits)

lemma push_all_trusted:
  assumes "\<forall>q \<in> set qs. trusted_row se pa sg q" and "pepper_of s = Some pepper" and "sorted_wrt (<) (map l_id qs)"
  shows "push_all e se pa (map (wire_item sg) qs) s = (Inr (ok_reply [(''success'', JBool True)]),
    s\<lparr>is_global := (let g = fold (receive_row e pepper (rp_servername pa) sg) qs (known s) in \<lparr>gc_work = g, gc_disk = g\<rparr>)\<rparr>)"
proof -
  have run: "\<exists>d. fold (push_item e se (Some pepper) pa) (map (wire_item sg) qs) ([], c) =
      ([], \<lparr>gc_work = fold (receive_row e pepper (rp_servername pa) sg) qs (gc_work c), gc_disk = d\<rparr>)"
    if "\<forall>q \<in> set qs. trusted_row se pa sg q" for qs c
    using that
  proof (induction qs arbitrary: c)
    case (Cons q qs)
    obtain d where "push_item e se (Some pepper) pa (wire_item sg q) ([], c) =
        ([], \<lparr>gc_work = receive_row e pepper (rp_servername pa) sg q (gc_work c), gc_disk = d\<rparr>)"
      using push_item_trusted [of se pa sg q e pepper c] Cons.prems by auto
    then show ?case using Cons.IH [of "\<lparr>gc_work = receive_row e pepper (rp_servername pa) sg q (gc_work c), gc_disk = d\<rparr>"]
        Cons.prems by simp
  qed (metis (full_types) fold_simps(1) global_conn.surjective list.map(1) old.unit.exhaust)
  have "map (\<lambda>(k, i, v). i) (map (wire_item sg) qs) = map l_id qs" by (simp add: wire_item_def)
  then have "sort_key (\<lambda>(k, i, v). i) (map (wire_item sg) qs) = map (wire_item sg) qs"
    using sort_key_strict_id [of "\<lambda>(k, i, v). i" "map (wire_item sg) qs"] assms(3) by (simp only: )
  then show ?thesis
    using run [OF assms(1), of "is_global s"] by (auto simp: push_all_def assms(2) db_commit_def Let_def)
qed

text \<open>The rows of an address depend on the associations of that address only.\<close>

definition rows_of :: "string \<times> string \<Rightarrow> global_table \<Rightarrow> global_row list" where
  "rows_of k g = filter (\<lambda>r. (g_medium r, g_address r) = k) (g_rows g)"

lemma rows_of_receive:
  "k \<noteq> row_3pid q \<Longrightarrow> rows_of k (receive_row e pepper cn sg q g) = rows_of k g"
  by (auto simp: rows_of_def receive_row_def Let_def delete_3pid_def insert_or_ignore_def hash_assoc_def row_3pid_def
      split: option.splits intro: filter_cong)

lemma rows_of_receive_all:
  "k \<notin> row_3pid ` set qs \<Longrightarrow> rows_of k (fold (receive_row e pepper cn sg) qs g) = rows_of k g"
  by (induction qs arbitrary: g) (auto simp: rows_of_receive)

text \<open>The row that one association leaves.\<close>

definition replica :: "env \<Rightarrow> string \<Rightarrow> string \<Rightarrow> local_row \<Rightarrow> global_row \<Rightarrow> bool" where
  "replica e pepper cn q r =
     ((g_medium r, g_address r) = row_3pid q \<and> Some (g_mxid r) = ta_mxid (l_assoc q) \<and> Some (g_ts r) = ta_ts (l_assoc q) \<and>
      Some (g_notBefore r) = ta_not_before (l_assoc q) \<and> Some (g_notAfter r) = ta_not_after (l_assoc q) \<and>
      g_originServer r = cn \<and> g_originId r = l_id q \<and>
      g_lookup_hash r = Some (ev_hash e (hash_input (g_address r) (g_medium r) pepper)))"

lemma receive_row_own:
  shows "ta_mxid (l_assoc q) = None \<Longrightarrow> rows_of (row_3pid q) (receive_row e pepper cn sg q g) = []"
    and "complete (l_assoc q) \<Longrightarrow> \<forall>r \<in> set (g_rows g). \<not> (g_originServer r = cn \<and> g_originId r = l_id q) \<Longrightarrow>
      \<exists>r \<in> set (rows_of (row_3pid q) (receive_row e pepper cn sg q g)). replica e pepper cn q r"
proof -
  show "rows_of (row_3pid q) (receive_row e pepper cn sg q g) = []" if "ta_mxid (l_assoc q) = None"
    using that by (simp add: rows_of_def receive_row_def delete_3pid_def row_3pid_def filter_empty_conv)
  assume "complete (l_assoc q)"
  then obtain x ts nb na where f: "ta_mxid (l_assoc q) = Some x" "ta_ts (l_assoc q) = Some ts"
    "ta_not_before (l_assoc q) = Some nb" "ta_not_after (l_assoc q) = Some na" by (auto simp: complete_def)
  assume "\<forall>r \<in> set (g_rows g). \<not> (g_originServer r = cn \<and> g_originId r = l_id q)"
  then have "\<not> (\<exists>r \<in> set (g_rows g). g_originServer r = cn \<and> g_originId r = l_id q)" by blast
  then show "\<exists>r \<in> set (rows_of (row_3pid q) (receive_row e pepper cn sg q g)). replica e pepper cn q r"
    by (auto simp: rows_of_def receive_row_def insert_or_ignore_def hash_assoc_def row_3pid_def replica_def f
        conj_disj_distribR ex_disj_distrib)
qed

lemma receive_row_ids:
  "r \<in> set (g_rows (receive_row e pepper cn sg q g)) \<Longrightarrow> r \<in> set (g_rows g) \<or> g_originId r = l_id q"
  by (auto simp: receive_row_def Let_def delete_3pid_def insert_or_ignore_def split: option.splits if_splits)

lemma receive_all:
  assumes "distinct (map row_3pid qs)" and "distinct (map l_id qs)" and "q \<in> set qs"
    and "\<forall>r \<in> set (g_rows g). g_originServer r = cn \<longrightarrow> g_originId r \<notin> l_id ` set qs"
  shows "(ta_mxid (l_assoc q) = None \<longrightarrow> rows_of (row_3pid q) (fold (receive_row e pepper cn sg) qs g) = []) \<and>
    (complete (l_assoc q) \<longrightarrow> (\<exists>r \<in> set (rows_of (row_3pid q) (fold (receive_row e pepper cn sg) qs g)). replica e pepper cn q r))"
  using assms
proof (induction qs arbitrary: g)
  case (Cons q0 qs)
  let ?g = "receive_row e pepper cn sg q0 g"
  show ?case
  proof (cases "q = q0")
    case True
    with Cons.prems(1) have "rows_of (row_3pid q) (fold (receive_row e pepper cn sg) (q0 # qs) g) = rows_of (row_3pid q) ?g"
      by (simp add: rows_of_receive_all)
    moreover have "\<forall>r \<in> set (g_rows g). \<not> (g_originServer r = cn \<and> g_originId r = l_id q)" using Cons.prems(4) True by auto
    ultimately show ?thesis using receive_row_own(1) [of q e pepper cn sg g] receive_row_own(2) [of q g cn e pepper sg] True by (auto simp del: fold.simps)
  next
    case False
    have "\<forall>r \<in> set (g_rows ?g). g_originServer r = cn \<longrightarrow> g_originId r \<notin> l_id ` set qs"
      using receive_row_ids [of _ e pepper cn sg q0 g] Cons.prems(2,4) by fastforce
    then show ?thesis using Cons.IH [of ?g] Cons.prems(1-3) False by simp
  qed
qed simp

section \<open>The request\<close>

lemma read_push_received:
  "read_push (received (push_request p (map (\<lambda>q. (l_id q, sg (l_assoc q))) qs))) = Inr (map (wire_item sg) qs)"
proof -
  have keys: "int_keys (map (\<lambda>q. (show_int (l_id q), JObj (sg (l_assoc q)))) qs) = Inr (map (wire_item sg) qs)"
    by (induction qs) (simp_all add: py_int_show_int wire_item_def)
  have "getRawHeaders (received (push_request p as)) ''Content-Type'' = Some [''application/json'']" for as
    by (simp add: received_def push_request_def getRawHeaders_def str_lower_def ascii_lower_def)
  moreover have "rq_body (received (push_request p as)) = Some (push_body as)" for as
    by (simp add: received_def push_request_def)
  ultimately show ?thesis using keys by (simp add: read_push_def push_body_def comp_def dict_has_def)
qed

section \<open>Properties\<close>

text \<open>C13: replication carries associations over. Between two servers that know each other, with a certificate on the
  sender's side and signatures that verify, one push makes the receiver hold, on disk and in memory, a copy of every
  association of the batch with the receiver's own lookup hash, and no row of an address whose removal is in the batch; and
  the sender records the last identifier of the batch. The receiver is taken to have nothing of the sender with a greater
  identifier than the sender has recorded before.\<close>

theorem push_reaches_peer:
  assumes "local_inv lt" and "local_normal lt" and "sign_keeps (ev_sign e)" and "set core_keys \<inter> fst ` set extra = {}"
    and "sc_myPrivateCertificate sc = Some cert" and "\<not> rp_is_being_pushed_to p"
    and "getPeerByName se cn pdb = Inr (Some pa)" and "pepper_of s = Some pepper"
    and "\<forall>q \<in> set (l_rows lt). verifySignedAssociation se pa (signedThreePidAssociation (ev_sign e) extra (l_assoc q)) = Inr ()"
    and "\<forall>r \<in> set (g_rows (known s)). g_originServer r = cn \<longrightarrow> g_originId r \<le> ver (rp_lastSentVersion p)"
    and "feed (rp_lastSentVersion p) (Some ASSOCIATIONS_PUSH_LIMIT) lt = batch" and "batch \<noteq> []"
  shows "case push_between (ReplicationHttpsClient_init sc) e extra lt p now db e' se pdb cn s of (db', s') \<Rightarrow>
    (\<forall>q \<in> set batch. (ta_mxid (l_assoc q) = None \<longrightarrow> rows_of (row_3pid q) (known s') = []) \<and>
       (complete (l_assoc q) \<longrightarrow> (\<exists>r \<in> set (rows_of (row_3pid q) (known s')). replica e' pepper cn q r))) \<and>
    gc_disk (is_global s') = known s' \<and>
    db' = setLastSentVersionAndPokeSucceeded (rp_servername p) (Some (l_id (last batch))) (Some now) db"
proof -
  define sg where "sg = signedThreePidAssociation (ev_sign e) extra"
  let ?as = "map (\<lambda>q. (l_id q, sg (l_assoc q))) batch"
  let ?req = "push_request p ?as"
  have sub: "set batch \<subseteq> set (l_rows lt)"
    using assms(11) by (auto simp: feed_def after_rows_def dest: in_set_takeD)
  have start: "push_to_peer_start e extra lt p = Some (?as, Some (l_id (last batch)))"
    using assms(6,12) by (simp add: push_to_peer_start_def getSignedAssociationsAfterId_feed [OF assms(1)] assms(11) sg_def)
  have trusted: "\<forall>q \<in> set batch. trusted_row se pa sg q"
    using sub assms(2,9) assoc_roundtrip [OF assms(3,4)] by (auto simp: trusted_row_def sg_def local_normal_def)
  have sorted: "sorted_wrt (<) (map l_id batch)" using feed_sorted [OF assms(1)] assms(11) by metis
  let ?g = "fold (receive_row e' pepper cn sg) batch (known s)"
  let ?s' = "s\<lparr>is_global := \<lparr>gc_work = ?g, gc_disk = ?g\<rparr>\<rparr>"
  have name: "rp_servername pa = cn" by (rule getPeerByName_name [OF assms(7)])
  have handled: "replication_render_POST e' se pdb cn (received ?req) s = (Inr (ok_reply [(''success'', JBool True)]), ?s')"
    using push_all_trusted [OF trusted assms(8) sorted, of e']
    by (simp add: replication_render_POST_def act_simps assms(7) read_push_received name Let_def)
  have pushed: "push_between (ReplicationHttpsClient_init sc) e extra lt p now db e' se pdb cn s =
      (setLastSentVersionAndPokeSucceeded (rp_servername p) (Some (l_id (last batch))) (Some now) db, ?s')"
    using push_with_certificate [OF assms(5) start, of "\<lambda>req. answered (fst (replication_render_POST e' se pdb cn (received req) s))" now db]
    by (simp add: push_between_def handled push_to_peer_def start answered_def push_to_peer_finish_def push_outcome_def)
  have "distinct (map row_3pid batch)"
    using assms(1) by (auto simp: assms(11) [symmetric] feed_def after_rows_def local_inv_def take_map [symmetric] intro: distinct_map_filter distinct_take)
  moreover have "ver (rp_lastSentVersion p) < l_id q" if "q \<in> set batch" for q
    using that by (auto simp: assms(11) [symmetric] feed_def after_rows_def ver_def dest: in_set_takeD)
  then have "\<forall>r \<in> set (g_rows (known s)). g_originServer r = cn \<longrightarrow> g_originId r \<notin> l_id ` set batch"
    using assms(10) by fastforce
  ultimately have "\<forall>q \<in> set batch. (ta_mxid (l_assoc q) = None \<longrightarrow> rows_of (row_3pid q) ?g = []) \<and>
      (complete (l_assoc q) \<longrightarrow> (\<exists>r \<in> set (rows_of (row_3pid q) ?g). replica e' pepper cn q r))"
    using receive_all strict_distinct [OF sorted] by blast
  then show ?thesis by (simp add: pushed)
qed

text \<open>A sender whose signatures are there and nothing more, with one association and one removal to send.\<close>

definition signing_env :: env where
  "signing_env = plain_env\<lparr>ev_sign := (\<lambda>d. dict_set d ''signatures'' (JObj []))\<rparr>"

definition demo_entry :: threepid_association where
  "demo_entry = \<lparr>ta_medium = ''email'', ta_address = ''bob@example.com'', ta_lookup_hash = Some ''h'', ta_mxid = Some ''@bob:hs'',
     ta_ts = Some 5, ta_not_before = Some 5, ta_not_after = Some 100000\<rparr>"

definition demo_feed :: local_table where
  "demo_feed = addOrUpdateAssociation (tombstone ''email'' ''eve@example.com'' 6) (addOrUpdateAssociation demo_entry empty_local)"

definition demo_peer :: remote_peer where
  "demo_peer = \<lparr>rp_servername = ''other'', rp_pubkeys = [], rp_is_being_pushed_to = False, rp_lastSentVersion = None,
     rp_replication_url_origin = [], rp_replication_url = [], rp_verify_key = []\<rparr>"

abbreviation demo_ssl :: ssl_components where
  "demo_ssl \<equiv> \<lparr>sc_myPrivateCertificate = Some ''pem'', sc_trustRoot = OpenSSLDefaultPaths\<rparr>"

theorem push_reaches_peer_witness:
  "case push_between (ReplicationHttpsClient_init demo_ssl) signing_env [] demo_feed demo_peer 9 one_peer
      plain_env trusting_env one_peer ''peer'' fresh_state of (db', s') \<Rightarrow>
     (\<exists>r \<in> set (rows_of (''email'', ''bob@example.com'') (known s')). g_mxid r = ''@bob:hs'') \<and>
     rows_of (''email'', ''eve@example.com'') (known s') = [] \<and>
     db' = setLastSentVersionAndPokeSucceeded ''other'' (Some 2) (Some 9) one_peer"
proof -
  let ?batch = "[\<lparr>l_id = 1, l_assoc = demo_entry\<rparr>, \<lparr>l_id = 2, l_assoc = tombstone ''email'' ''eve@example.com'' 6\<rparr>]"
  have inv: "local_inv demo_feed" unfolding demo_feed_def by (intro local_inv_addOrUpdate local_inv_empty)
  have rows: "l_rows demo_feed = ?batch" by code_simp
  have normal: "local_normal demo_feed"
    by (simp add: local_normal_def rows demo_entry_def tombstone_def) code_simp
  have keeps: "sign_keeps (ev_sign signing_env)" by (simp add: sign_keeps_def signing_env_def)
  have peer: "getPeerByName trusting_env ''peer'' one_peer =
      Inr (Some (the (projr (getPeerByName trusting_env ''peer'' one_peer))))" by code_simp
  have pepper: "pepper_of fresh_state = Some ''pepper''" by code_simp
  have signed: "\<forall>q \<in> set (l_rows demo_feed). verifySignedAssociation trusting_env
      (the (projr (getPeerByName trusting_env ''peer'' one_peer))) (signedThreePidAssociation (ev_sign signing_env) [] (l_assoc q)) = Inr ()"
    unfolding rows by code_simp
  have new: "\<forall>r \<in> set (g_rows (known fresh_state)). g_originServer r = ''peer'' \<longrightarrow> g_originId r \<le> ver (rp_lastSentVersion demo_peer)"
    by (simp add: fresh_state_def empty_global_def)
  have feed: "feed (rp_lastSentVersion demo_peer) (Some ASSOCIATIONS_PUSH_LIMIT) demo_feed = ?batch" by code_simp
  have "\<not> rp_is_being_pushed_to demo_peer" by (simp add: demo_peer_def)
  from push_reaches_peer [OF inv normal keeps _ _ this peer pepper signed new feed, where sc = demo_ssl and cert = "''pem''"
      and now = 9 and db = one_peer and e' = plain_env]
  show ?thesis
    by (auto simp: row_3pid_def complete_def replica_def demo_entry_def tombstone_def demo_peer_def split: prod.splits)
qed

end
