(* ===== verification/Spec2Isabelle.thy ===== *)
theory Spec2Isabelle
  imports Prelude StringUtils Json Assoc_Store Assoc_Queries Rate_Limiter TTL_Cache
    Val_Session_Store Servlet_Base Account_Store Invite_Store Hashing_Store Local_Push Binder
    Bind_Lookup Peers Replication_Servlet Email_Utils Validators Server_State Bind_Servlets
    Lookup_Servlets Verify_Servlets Register_Servlet Invite_Servlet Http_Common Verifier
    Srv_Resolver Federation_Agent Ip_Blacklist Http_Server Server_Runs Http_Access Casefold_Script Openmarket_SMS Config_Parse
    Sqlite_Schema Schema_Upgrade Server_Start Address_Journey
    Server_Setup Replication_Journey
begin

text \<open>
  A verification library of sydent, the Matrix identity server (\<open>src/sydent\<close>) and of its migration script
  (\<open>src/scripts/casefold_db.py\<close>).

  \<^bold>\<open>The program.\<close> A user proves to own an e-mail address or a phone number by a token that is sent there
  (validation sessions), and then binds the address to a Matrix identifier. The binding is written to the local table of
  associations, signed, and copied at once into the global table, where lookups (plain or by a salted hash) find it; other
  identity servers receive it by replication. An address that is not bound can be invited: the invitation waits and is
  handed to the homeserver of the user who binds the address later. The client API has an old version without, and a new
  one with access tokens, which are obtained with an OpenID token of a homeserver. Requests of homeservers carry a signature
  of their own. All state is in one SQLite file.

  \<^bold>\<open>Theories.\<close> A theory belongs to the files it names at its beginning; a definition has the name of the function it
  models, with the class in front of it where two would clash. In the order of their imports:
  \<^item> \<open>Prelude\<close>: exceptions as the type \<open>exn\<close>, fallible values \<open>'a res\<close>, computations \<open>('s, 'a) act\<close> that keep the
    state they reached when they raise, Python's dictionaries and strings. \<open>StringUtils\<close>, \<open>Json\<close>: the checks and token
    generators of \<open>util\<close>, JSON values, and the signed form of an association (\<open>threepid\<close>).
  \<^item> The stores of \<open>db\<close>, each a record of rows with one function per SQL statement: \<open>Assoc_Store\<close> with the lemmas on
    its queries in \<open>Assoc_Queries\<close>, \<open>Val_Session_Store\<close>, \<open>Account_Store\<close> (with \<open>terms\<close> and \<open>users\<close>), \<open>Invite_Store\<close>,
    \<open>Hashing_Store\<close>, \<open>Peers\<close>. A connection with an open transaction has the contents seen and the contents on disk.
    \<open>Sqlite_Schema\<close> and \<open>Schema_Upgrade\<close> (\<open>db/sqlitedb.py\<close> and the SQL scripts): statements as data, run on a database,
    and what the upgrades make of a database of the first version.
  \<^item> \<open>Rate_Limiter\<close>, \<open>TTL_Cache\<close>, \<open>Email_Utils\<close>, \<open>Ip_Blacklist\<close>: the rest of \<open>util\<close>, with the filtering resolver of
    \<open>http/blacklisting_reactor.py\<close>.
  \<^item> \<open>Local_Push\<close>, \<open>Binder\<close>, \<open>Bind_Lookup\<close>: the state \<open>identity_state\<close> that \<open>threepid/bind.py\<close> and
    \<open>replication/pusher.py\<close> work on, binding and unbinding, and what they mean for lookups. \<open>Replication_Servlet\<close>: pushes
    of other servers.
  \<^item> \<open>Validators\<close>, \<open>Openmarket_SMS\<close>: tokens by mail and SMS (\<open>validators\<close>, \<open>sms\<close>).
  \<^item> \<open>Servlet_Base\<close>, \<open>Server_State\<close>: the frame of the servlets, the whole state \<open>server_state\<close> and what they take
    from the configuration (\<open>server_conf\<close>). \<open>Bind_Servlets\<close>, \<open>Lookup_Servlets\<close>, \<open>Verify_Servlets\<close>, \<open>Register_Servlet\<close>,
    \<open>Invite_Servlet\<close>: the handlers of \<open>http/servlets\<close>, a function from a request and the state to a reply and the state;
    a handler that awaits another server is cut there in two, and the answer is an argument of the second part.
  \<^item> \<open>Http_Common\<close>, \<open>Verifier\<close>, \<open>Srv_Resolver\<close>, \<open>Federation_Agent\<close>: bodies with size limits, requests signed by
    homeservers, and the way from the name of a homeserver to an address (\<open>http\<close>, \<open>hs_federation\<close>).
  \<^item> \<open>Http_Server\<close>, \<open>Http_Access\<close>, \<open>Server_Runs\<close>: the trees of resources, what every endpoint requires and answers, and
    the steps of the running server with its reachable states.
  \<^item> \<open>Config_Parse\<close>, \<open>Server_Setup\<close>, \<open>Server_Start\<close>: the configuration, certificates, listeners and timers, and the
    state a server starts with, read from the tables of the upgraded file. \<open>Casefold_Script\<close>: the migration script.
  \<^item> \<open>Address_Journey\<close>, \<open>Replication_Journey\<close>: properties across components, from the request of a token to the lookup of
    the bound address, and from the local table of one server to the global table of another.

  \<^bold>\<open>Interfaces.\<close> Four contracts are locales, each interpreted on the model's own operations: \<open>credential_store\<close> (access
  tokens, on the accounts), \<open>leaky_bucket\<close> (a limiter per key), \<open>timed_store\<close> (a store with expiry times, on the cache and
  its two indexes) and \<open>id_log\<close> (a log read in batches by identifier, on the signed feed of the local table).

  \<^bold>\<open>What is shown.\<close> Invariants of the tables that every operation keeps (\<open>store_inv\<close> collects them), carried through all
  handlers to every state a started server can reach (\<open>started_server_inv\<close>); the results of queries against
  specifications over sets of rows; provenance: a validated session, a binding, a replicated row, an accepted invitation, a
  token issued at registration, a verified homeserver can be traced to the proof that the program asks for; delivery: bindings
  are found by lookups, reach other servers in batches, and survive the upgrade of the file; refinement of the cache to a map
  and of the routing with its caches to the routing without; bounds of the limiters, the bodies and the caching periods;
  round trips of links, headers, keys and associations. Where the code does not do what it means to, the theorem says what
  it does, for example \<open>later_binding_repeats_invites\<close>, \<open>replicated_deletion_resurrected\<close>, \<open>replication_partial_commit\<close>,
  \<open>global_migration_loses_rebound\<close>, \<open>same_attempt_sent_again\<close>, \<open>interrupted_upgrade_blocks_restart\<close>,
  \<open>upgrade_hides_new_bindings\<close>.

  \<^bold>\<open>Bounds.\<close> Every loop is a total function: over lists, or with a measure. Interpolation of configuration values stops at
  the depth at which the parser itself raises; a mail of the migration script is tried as often as the script tries it
  (\<open>MAX_ATTEMPTS_FOR_EMAIL\<close>), each try ending as an argument says; bulk lookups insert in batches of 500 as the code does. Time
  is an argument of every operation that reads the clock, and so is the source of random numbers.

  \<^bold>\<open>Parameters.\<close> Code outside the repository is an argument: signing and verifying, hashing, the phone number library, the
  MIME parser and the SMTP session, DNS and HTTP exchanges, parsing of certificates, of YAML and of IP addresses, the file
  system. Hypotheses about them are named: a signature changes no member but \<open>signatures\<close> (\<open>sign_keeps\<close>).

  \<^bold>\<open>Simplifications.\<close> Strings are ASCII, so that the case folding of Python and of SQLite agree. A JSON value where the
  code needs text and does not check it raises \<open>TypeError\<close>; numerals with an exponent match no integer column. Rows with
  equal sort keys come in the order of the table. Errors of the configuration parser are \<open>KeyError\<close> and \<open>ValueError\<close>. Column
  types and default values of the schema are left out. Sending an SMS and routing one request are atomic.

  \<^bold>\<open>Not modelled.\<close> Logging, metrics, error reporting and the garbage collector; the start of the migration script on its
  command line; the values of the CORS headers; opening sockets and the TLS handshake itself, of which only the options are;
  type declarations and exception classes; \<open>src/matrix_is_test\<close>, which starts a server for an external test suite, and the
  type stubs. They call the operating system or another package and decide nothing.
\<close>

end
